(* ===== verification/Prelude.thy ===== *)
theory Prelude
  imports Main "HOL-Library.Char_ord" "HOL-Library.List_Lexorder" "HOL-Library.Sublist"
begin

text \<open>
  Shared vocabulary of the development: results with an error side, traversals that stop at the
  first error (a JavaScript \<open>throw\<close> leaves the loop), the few string primitives of the language
  the sources use, and the collections of facts the component theories add to.

  A string is a list of characters. The sources' strings are sequences of UTF-16 code units; the
  model covers the code units below 256, on which JavaScript's \<open><\<close> and the lexicographic order of
  \<^theory_text>\<open>List_Lexorder\<close> agree.
\<close>

named_theorems verdict_simps \<open>definitions of the pure verdict functions\<close>
named_theorems store_simps \<open>definitions of the state store's queries and checks\<close>
named_theorems oracle_simps \<open>definitions of the oracle's report and sections\<close>

section \<open>Results\<close>

type_synonym ('e, 'a) result = "'e + 'a"

definition rbind :: "('e, 'a) result \<Rightarrow> ('a \<Rightarrow> ('e, 'b) result) \<Rightarrow> ('e, 'b) result" where
  "rbind m f = (case m of Inl e \<Rightarrow> Inl e | Inr x \<Rightarrow> f x)"

text \<open>Evaluation unfolds the sequencing to a case, so that it does not enter a continuation too early.\<close>

declare rbind_def [code_unfold]

lemma rbind_simps [simp]:
  "rbind (Inl e) f = Inl e"
  "rbind (Inr x) f = f x"
  by (simp_all add: rbind_def)

lemma rbind_Inr_iff: "rbind m f = Inr y \<longleftrightarrow> (\<exists>x. m = Inr x \<and> f x = Inr y)"
  by (cases m) auto

lemma rbind_Inl_iff: "rbind m f = Inl e \<longleftrightarrow> m = Inl e \<or> (\<exists>x. m = Inr x \<and> f x = Inl e)"
  by (cases m) auto

lemma rbind_Inr_E:
  assumes "rbind m f = Inr y"
  obtains x where "m = Inr x" "f x = Inr y"
  using assms by (auto simp: rbind_Inr_iff)

lemma rbind_cong [fundef_cong]:
  "m = m' \<Longrightarrow> (\<And>x. m' = Inr x \<Longrightarrow> f x = f' x) \<Longrightarrow> rbind m f = rbind m' f'"
  by (cases m') auto

definition is_ok :: "('e, 'a) result \<Rightarrow> bool" where
  "is_ok r = (case r of Inl _ \<Rightarrow> False | Inr _ \<Rightarrow> True)"

lemma is_ok_simps [simp]: "is_ok (Inl e) = False" "is_ok (Inr x) = True"
  by (simp_all add: is_ok_def)

lemma is_ok_iff: "is_ok r \<longleftrightarrow> (\<exists>x. r = Inr x)"
  by (cases r) auto

text \<open>A loop whose body may throw: the results in order, or the first error.\<close>

fun traverse :: "('a \<Rightarrow> ('e, 'b) result) \<Rightarrow> 'a list \<Rightarrow> ('e, 'b list) result" where
  "traverse f [] = Inr []"
| "traverse f (x # xs) = rbind (f x) (\<lambda>y. rbind (traverse f xs) (\<lambda>ys. Inr (y # ys)))"

lemma traverse_cong [fundef_cong]:
  "xs = ys \<Longrightarrow> (\<And>x. x \<in> set ys \<Longrightarrow> f x = g x) \<Longrightarrow> traverse f xs = traverse g ys"
  by (induction ys arbitrary: xs) (auto intro: rbind_cong)

lemma traverse_Inr_iff: "traverse f xs = Inr ys \<longleftrightarrow> list_all2 (\<lambda>x y. f x = Inr y) xs ys"
proof (induction xs arbitrary: ys)
  case Nil
  then show ?case by auto
next
  case (Cons x xs)
  then show ?case by (cases ys) (auto simp: rbind_Inr_iff)
qed

lemma traverse_length: "traverse f xs = Inr ys \<Longrightarrow> length ys = length xs"
  by (auto simp: traverse_Inr_iff dest: list_all2_lengthD)

lemma traverse_in_set:
  assumes "traverse f xs = Inr ys" and "y \<in> set ys"
  shows "\<exists>x \<in> set xs. f x = Inr y"
  using assms by (fastforce simp: traverse_Inr_iff list_all2_iff in_set_zip in_set_conv_nth)

lemma traverse_nth:
  assumes "traverse f xs = Inr ys" and "i < length xs"
  shows "f (xs ! i) = Inr (ys ! i)"
  using assms by (auto simp: traverse_Inr_iff dest: list_all2_nthD)

text \<open>The same with a state the body updates, such as the set of names already seen.\<close>

fun traverse_state :: "('s \<Rightarrow> 'a \<Rightarrow> ('e, 's \<times> 'b) result) \<Rightarrow> 's \<Rightarrow> 'a list \<Rightarrow> ('e, 's \<times> 'b list) result" where
  "traverse_state f s [] = Inr (s, [])"
| "traverse_state f s (x # xs) =
     rbind (f s x) (\<lambda>(s', y). rbind (traverse_state f s' xs) (\<lambda>(s'', ys). Inr (s'', y # ys)))"

lemma traverse_state_Cons:
  "traverse_state f s (x # xs) = Inr (t, zs) \<longleftrightarrow>
     (\<exists>s' y ys. f s x = Inr (s', y) \<and> traverse_state f s' xs = Inr (t, ys) \<and> zs = y # ys)"
  by (auto simp: rbind_Inr_iff)

declare traverse_state.simps(2) [simp del]

lemma traverse_state_length: "traverse_state f s xs = Inr (t, ys) \<Longrightarrow> length ys = length xs"
  by (induction xs arbitrary: s ys) (auto simp: traverse_state_Cons)

text \<open>A property every step gives its result, whatever the state it starts in.\<close>

lemma traverse_state_all2:
  assumes "traverse_state f s xs = Inr (t, ys)" and "\<And>s x s' y. f s x = Inr (s', y) \<Longrightarrow> P x y"
  shows "list_all2 P xs ys"
  using assms(1)
proof (induction xs arbitrary: s ys)
  case (Cons x xs)
  then show ?case using assms(2) by (auto simp: traverse_state_Cons)
qed simp

text \<open>When every step adds the name of its result to the names seen and refuses a seen name, the
  names of the results are distinct and new.\<close>

lemma traverse_state_distinct:
  assumes "traverse_state f s xs = Inr (t, ys)"
    and "\<And>s x s' y. f s x = Inr (s', y) \<Longrightarrow> distinct (key y) \<and> set (key y) \<inter> set s = {} \<and> s' = s @ key y"
  shows "distinct (concat (map key ys)) \<and> set (concat (map key ys)) \<inter> set s = {} \<and> t = s @ concat (map key ys)"
  using assms(1)
proof (induction xs arbitrary: s ys)
  case (Cons x xs)
  obtain s' y zs where step: "f s x = Inr (s', y)" "traverse_state f s' xs = Inr (t, zs)" "ys = y # zs"
    using Cons.prems by (auto simp: traverse_state_Cons)
  show ?case using Cons.IH [OF step(2)] assms(2) [OF step(1)] step(3) by auto
qed simp

text \<open>A loop over checks: the first error, or nothing.\<close>

fun check_all :: "('a \<Rightarrow> ('e, unit) result) \<Rightarrow> 'a list \<Rightarrow> ('e, unit) result" where
  "check_all f [] = Inr ()"
| "check_all f (x # xs) = rbind (f x) (\<lambda>_. check_all f xs)"

lemma check_all_ok_iff: "check_all f xs = Inr () \<longleftrightarrow> (\<forall>x \<in> set xs. f x = Inr ())"
  by (induction xs) (auto simp: rbind_Inr_iff)

section \<open>Lists\<close>

definition no_dups :: "'a list \<Rightarrow> bool" where
  "no_dups xs = (length (remdups xs) = length xs)"

lemma no_dups_distinct [simp]: "no_dups xs \<longleftrightarrow> distinct xs"
  by (simp add: no_dups_def length_remdups_card_conv distinct_card)
     (metis card_distinct distinct_card)

text \<open>\<open>Array.prototype.indexOf\<close>: \<open>None\<close> stands for \<open>-1\<close>.\<close>

fun index_of :: "'a list \<Rightarrow> 'a \<Rightarrow> nat option" where
  "index_of [] y = None"
| "index_of (x # xs) y = (if x = y then Some 0 else map_option Suc (index_of xs y))"

lemma index_of_None_iff: "index_of xs y = None \<longleftrightarrow> y \<notin> set xs"
  by (induction xs) auto

lemma index_of_nth: "index_of xs y = Some i \<Longrightarrow> i < length xs \<and> xs ! i = y"
  by (induction xs arbitrary: i) (auto split: if_splits)

lemma find_Some_in: "find P xs = Some x \<Longrightarrow> x \<in> set xs \<and> P x"
  by (auto simp: find_Some_iff)

section \<open>Strings\<close>

definition starts_with :: "string \<Rightarrow> string \<Rightarrow> bool" where
  "starts_with s p = (take (length p) s = p)"

definition ends_with :: "string \<Rightarrow> string \<Rightarrow> bool" where
  "ends_with s p = (length p \<le> length s \<and> drop (length s - length p) s = p)"

lemma starts_with_iff: "starts_with s p \<longleftrightarrow> (\<exists>t. s = p @ t)"
  by (auto simp: starts_with_def) (metis append_take_drop_id)

lemma ends_with_iff: "ends_with s p \<longleftrightarrow> (\<exists>t. s = t @ p)"
  by (auto simp: ends_with_def) (metis append_take_drop_id)

fun contains :: "string \<Rightarrow> string \<Rightarrow> bool" where
  "contains [] p = (p = [])"
| "contains (c # s) p = (starts_with (c # s) p \<or> contains s p)"

fun split_on :: "char \<Rightarrow> string \<Rightarrow> string list" where
  "split_on c [] = [[]]"
| "split_on c (x # xs) =
     (if x = c then [] # split_on c xs
      else (case split_on c xs of [] \<Rightarrow> [[x]] | w # ws \<Rightarrow> (x # w) # ws))"

fun join_with :: "string \<Rightarrow> string list \<Rightarrow> string" where
  "join_with sep [] = []"
| "join_with sep [x] = x"
| "join_with sep (x # y # ys) = x @ sep @ join_with sep (y # ys)"

lemma split_on_not_Nil [simp]: "split_on c s \<noteq> []"
  by (induction s) (auto split: list.splits)

lemma split_on_no_sep: "w \<in> set (split_on c s) \<Longrightarrow> c \<notin> set w"
  by (induction s arbitrary: w) (fastforce split: if_splits list.splits)+

lemma join_split [simp]: "join_with [c] (split_on c s) = s"
proof (induction s)
  case Nil
  then show ?case by simp
next
  case (Cons x xs)
  then show ?case
    by (cases "split_on c xs") (auto split: list.splits simp: neq_Nil_conv,
        metis append_Cons append_Nil join_with.simps(2,3) list.exhaust)
qed

text \<open>\<open>String.prototype.trim\<close> on the modelled code units.\<close>

definition is_space :: "char \<Rightarrow> bool" where
  "is_space c = (of_char c \<in> {9::nat, 10, 11, 12, 13, 32, 160})"

lemma of_char_is: "n < 256 \<Longrightarrow> (of_char c :: nat) = n \<longleftrightarrow> c = char_of n"
  by (metis char_of_char of_char_of mod_less)

lemma is_space_code [code]:
  "is_space c \<longleftrightarrow> c \<in> set [CHR 0x09, CHR 0x0A, CHR 0x0B, CHR 0x0C, CHR 0x0D, CHR 0x20, CHR 0xA0]"
proof -
  have "char_of (9::nat) = CHR 0x09" "char_of (10::nat) = CHR 0x0A" "char_of (11::nat) = CHR 0x0B"
    "char_of (12::nat) = CHR 0x0C" "char_of (13::nat) = CHR 0x0D" "char_of (32::nat) = CHR 0x20"
    "char_of (160::nat) = CHR 0xA0"
    by (simp_all add: char_of_def bit_simps)
  then show ?thesis by (simp add: is_space_def of_char_is)
qed

definition trim :: "string \<Rightarrow> string" where
  "trim s = rev (dropWhile is_space (rev (dropWhile is_space s)))"

text \<open>Decimal rendering of integers, as in template strings and \<open>JSON.stringify\<close>.\<close>

definition digit_char :: "nat \<Rightarrow> char" where
  "digit_char d = char_of (48 + d)"

fun show_nat :: "nat \<Rightarrow> string" where
  "show_nat n = (if n < 10 then [digit_char n] else show_nat (n div 10) @ [digit_char (n mod 10)])"

declare show_nat.simps [simp del]

definition show_int :: "int \<Rightarrow> string" where
  "show_int i = (if i < 0 then CHR ''-'' # show_nat (nat (- i)) else show_nat (nat i))"

end
