(* ===== verification/Js.thy ===== *)
theory Js
  imports Prelude
begin

text \<open>
  The JavaScript values the sources inspect at run time (fields typed \<open>unknown\<close>, parsed JSON,
  rows), the accessors they use on them, and the regular expressions of the contracts as
  executable predicates.

  \<open>JNum\<close> is a number with an integral value, \<open>JReal\<close> any other number by its rendering
  (\<open>0.5\<close>, \<open>NaN\<close>, \<open>Infinity\<close>). An object is the list of its own properties in insertion order;
  \<open>js_wf\<close> says that no key repeats. \<open>JOther\<close> stands for values whose \<open>typeof\<close> is
  \<open>function\<close>, \<open>symbol\<close> or \<open>bigint\<close>.
\<close>

datatype jsval =
    JUndef
  | JNull
  | JBool bool
  | JNum int
  | JReal string
  | JStr string
  | JArr "jsval list"
  | JObj "(string \<times> jsval) list"
  | JOther

fun js_wf :: "jsval \<Rightarrow> bool" where
  "js_wf (JArr vs) = (\<forall>v \<in> set vs. js_wf v)"
| "js_wf (JObj kvs) = (distinct (map fst kvs) \<and> (\<forall>kv \<in> set kvs. js_wf (snd kv)))"
| "js_wf _ = True"

section \<open>Accessors\<close>

text \<open>
  \<open>get_prop v k\<close> is \<open>v.k\<close> for a literal key of a schema: the property's value, \<open>undefined\<close> when
  the object has no such property, and \<open>undefined\<close> on arrays and primitives, none of which has a
  property of such a name. The sources write \<open>?.\<close> where \<open>v\<close> may be null or undefined.
\<close>

definition get_prop :: "jsval \<Rightarrow> string \<Rightarrow> jsval" where
  "get_prop v k =
     (case v of JObj kvs \<Rightarrow> (case map_of kvs k of Some x \<Rightarrow> x | None \<Rightarrow> JUndef) | _ \<Rightarrow> JUndef)"

definition has_prop :: "jsval \<Rightarrow> string \<Rightarrow> bool" where
  "has_prop v k = (case v of JObj kvs \<Rightarrow> map_of kvs k \<noteq> None | _ \<Rightarrow> False)"

lemma get_prop_simps [simp]:
  "get_prop JUndef k = JUndef" "get_prop JNull k = JUndef" "get_prop (JBool b) k = JUndef"
  "get_prop (JNum i) k = JUndef" "get_prop (JStr s) k = JUndef" "get_prop (JArr vs) k = JUndef"
  "get_prop (JObj []) k = JUndef"
  "get_prop (JObj ((k', v) # kvs)) k = (if k = k' then v else get_prop (JObj kvs) k)"
  by (simp_all add: get_prop_def)

text \<open>\<open>typeof v === "object"\<close> for a value that is neither null nor undefined.\<close>

definition is_objectlike :: "jsval \<Rightarrow> bool" where
  "is_objectlike v = (case v of JObj _ \<Rightarrow> True | JArr _ \<Rightarrow> True | _ \<Rightarrow> False)"

definition is_plain_object :: "jsval \<Rightarrow> bool" where
  "is_plain_object v = (case v of JObj _ \<Rightarrow> True | _ \<Rightarrow> False)"

text \<open>\<open>typeof v === "string" ? v : null\<close> and its kin.\<close>

definition as_string :: "jsval \<Rightarrow> string option" where
  "as_string v = (case v of JStr s \<Rightarrow> Some s | _ \<Rightarrow> None)"

definition as_bool :: "jsval \<Rightarrow> bool option" where
  "as_bool v = (case v of JBool b \<Rightarrow> Some b | _ \<Rightarrow> None)"

definition as_array :: "jsval \<Rightarrow> jsval list option" where
  "as_array v = (case v of JArr vs \<Rightarrow> Some vs | _ \<Rightarrow> None)"

lemma as_simps [simp]:
  "as_string (JStr s) = Some s" "as_string JUndef = None" "as_string JNull = None"
  "as_string (JNum i) = None" "as_string (JBool b) = None" "as_string (JArr vs) = None"
  "as_string (JObj kvs) = None"
  "as_bool (JBool b) = Some b" "as_bool JUndef = None" "as_bool JNull = None"
  "as_array (JArr vs) = Some vs" "as_array JUndef = None" "as_array JNull = None"
  "as_array (JObj kvs) = None" "as_array (JStr s) = None"
  by (simp_all add: as_string_def as_bool_def as_array_def)

text \<open>\<open>v === true\<close>.\<close>

definition is_true :: "jsval \<Rightarrow> bool" where
  "is_true v = (v = JBool True)"

text \<open>
  Strict equality of two values read from different places of parsed documents: primitives by
  value, \<open>NaN\<close> equal to nothing, and two objects (or arrays) never identical.
\<close>

definition strict_eq :: "jsval \<Rightarrow> jsval \<Rightarrow> bool" where
  "strict_eq a b =
     (case a of
        JArr _ \<Rightarrow> False
      | JObj _ \<Rightarrow> False
      | JReal r \<Rightarrow> b = JReal r \<and> r \<noteq> ''NaN''
      | JOther \<Rightarrow> False
      | _ \<Rightarrow> a = b)"

lemma strict_eq_JStr [simp]: "strict_eq (JStr s) v \<longleftrightarrow> v = JStr s" "strict_eq v (JStr s) \<longleftrightarrow> v = JStr s"
  by (auto simp: strict_eq_def split: jsval.splits)

lemma strict_eq_imp_eq: "strict_eq a b \<Longrightarrow> a = b"
  by (auto simp: strict_eq_def split: jsval.splits)

section \<open>Safe integers\<close>

definition max_safe :: int where
  "max_safe = 9007199254740991"

definition is_safe_int :: "int \<Rightarrow> bool" where
  "is_safe_int i = (- max_safe \<le> i \<and> i \<le> max_safe)"

text \<open>\<open>Number.isSafeInteger(v) ? v : null\<close>.\<close>

definition as_safe_int :: "jsval \<Rightarrow> int option" where
  "as_safe_int v = (case v of JNum i \<Rightarrow> if is_safe_int i then Some i else None | _ \<Rightarrow> None)"

lemma as_safe_int_simps [simp]:
  "as_safe_int JUndef = None" "as_safe_int JNull = None" "as_safe_int (JStr s) = None"
  "as_safe_int (JNum i) = (if is_safe_int i then Some i else None)"
  by (simp_all add: as_safe_int_def)

lemma as_safe_int_Some: "as_safe_int v = Some i \<Longrightarrow> v = JNum i"
  by (auto simp: as_safe_int_def split: jsval.splits if_splits)

lemma as_string_Some: "as_string v = Some s \<longleftrightarrow> v = JStr s"
  by (auto simp: as_string_def split: jsval.splits)

lemma as_array_Some: "as_array v = Some vs \<longleftrightarrow> v = JArr vs"
  by (auto simp: as_array_def split: jsval.splits)

section \<open>Regular expressions of the contracts\<close>

definition in_range :: "char \<Rightarrow> char \<Rightarrow> char \<Rightarrow> bool" where
  "in_range lo hi c = (lo \<le> c \<and> c \<le> hi)"

definition is_digit :: "char \<Rightarrow> bool" where
  "is_digit = in_range CHR ''0'' CHR ''9''"

definition is_upper :: "char \<Rightarrow> bool" where
  "is_upper = in_range CHR ''A'' CHR ''Z''"

definition is_lower :: "char \<Rightarrow> bool" where
  "is_lower = in_range CHR ''a'' CHR ''z''"

definition is_hex :: "char \<Rightarrow> bool" where
  "is_hex c = (is_digit c \<or> in_range CHR ''a'' CHR ''f'' c)"

text \<open>\<open>/^sha256:[0-9a-f]{64}$/\<close>\<close>

definition is_digest :: "string \<Rightarrow> bool" where
  "is_digest s = (starts_with s ''sha256:'' \<and> length (drop 7 s) = 64 \<and> list_all is_hex (drop 7 s))"

text \<open>\<open>/^(?:[0-9a-f]{40}|[0-9a-f]{64})$/\<close>\<close>

definition is_git_oid :: "string \<Rightarrow> bool" where
  "is_git_oid s = ((length s = 40 \<or> length s = 64) \<and> list_all is_hex s)"

text \<open>\<open>/^(?:100644|100755)$/\<close>\<close>

definition is_regular_mode :: "string \<Rightarrow> bool" where
  "is_regular_mode s = (s = ''100644'' \<or> s = ''100755'')"

text \<open>\<open>PATTERN.test(nullableText(v) ?? "")\<close>: the empty string matches none of the patterns.\<close>

definition test_string :: "(string \<Rightarrow> bool) \<Rightarrow> jsval \<Rightarrow> bool" where
  "test_string p v = (case as_string v of Some s \<Rightarrow> p s | None \<Rightarrow> p '''')"

text \<open>\<open>String.prototype.toLowerCase\<close> on ASCII letters.\<close>

definition to_lower :: "char \<Rightarrow> char" where
  "to_lower c = (if is_upper c then char_of (of_char c + 32 :: nat) else c)"

text \<open>
  Characters compared and classified by their bits, most significant first, which evaluation
  finds easier than code points.
\<close>

fun bits_le :: "bool list \<Rightarrow> bool list \<Rightarrow> bool" where
  "bits_le (x # xs) (y # ys) = (if x = y then bits_le xs ys else y)"
| "bits_le _ _ = True"

fun bits_val :: "bool list \<Rightarrow> nat" where
  "bits_val [] = 0"
| "bits_val (x # xs) = of_bool x * 2 ^ length xs + bits_val xs"

fun char_bits :: "char \<Rightarrow> bool list" where
  "char_bits (Char b0 b1 b2 b3 b4 b5 b6 b7) = [b7, b6, b5, b4, b3, b2, b1, b0]"

lemma bits_val_bound: "bits_val xs < 2 ^ length xs"
  by (induction xs) auto

lemma bits_le_val: "length xs = length ys \<Longrightarrow> bits_le xs ys \<longleftrightarrow> bits_val xs \<le> bits_val ys"
proof (induction xs ys rule: bits_le.induct)
  case (1 x xs y ys)
  then show ?case
    using bits_val_bound [of xs] bits_val_bound [of ys] by (cases x; cases y) auto
qed auto

lemma of_char_bits: "of_char c = bits_val (char_bits c)"
  by (cases c) (simp add: of_char_def)

lemma char_le_bits: "c \<le> d \<longleftrightarrow> bits_le (char_bits c) (char_bits d)"
  by (cases c; cases d) (simp only: less_eq_char_def of_char_bits bits_le_val char_bits.simps length_Cons)

lemma in_range_code [code]:
  "in_range lo hi c = (bits_le (char_bits lo) (char_bits c) \<and> bits_le (char_bits c) (char_bits hi))"
  by (simp add: in_range_def char_le_bits)

fun set_bit5 :: "char \<Rightarrow> char" where
  "set_bit5 (Char b0 b1 b2 b3 b4 b5 b6 b7) = Char b0 b1 b2 b3 b4 True b6 b7"

lemma upper_bit5: "is_upper (Char b0 b1 b2 b3 b4 b5 b6 b7) \<Longrightarrow> \<not> b5"
  by (cases b5; cases b6; cases b7) (simp_all add: is_upper_def in_range_code)

lemma to_lower_code [code]: "to_lower c = (if is_upper c then set_bit5 c else c)"
proof (cases c)
  case (Char b0 b1 b2 b3 b4 b5 b6 b7)
  have "char_of (of_char c + 32 :: nat) = set_bit5 c" if "\<not> b5"
  proof -
    have "of_char c + (32::nat) = of_char (set_bit5 c)" using Char that by (simp add: of_char_def)
    then show ?thesis by simp
  qed
  moreover have "is_upper c \<Longrightarrow> \<not> b5" using upper_bit5 Char by blast
  ultimately show ?thesis unfolding to_lower_def by presburger
qed

text \<open>The hexadecimal digits by their bits, for evaluation.\<close>

fun hex_bits :: "char \<Rightarrow> bool" where
  "hex_bits (Char b0 b1 b2 b3 b4 b5 b6 b7) =
     (\<not> b7 \<and> b5 \<and> (if b6 then \<not> b4 \<and> \<not> b3 \<and> (if b2 then \<not> (b1 \<and> b0) else b1 \<or> b0)
                     else b4 \<and> (b3 \<longrightarrow> \<not> b2 \<and> \<not> b1)))"

lemma is_hex_code [code]: "is_hex c = hex_bits c"
  by (cases c) (auto simp: is_hex_def is_digit_def in_range_code)

end
