(* ===== verification/Canonical_Json.thy ===== *)
theory Canonical_Json
  imports Js
begin

text \<open>
  Rickgent Canonical JSON v1 (\<open>canonicalJson\<close> of \<open>orchestrator/src/contracts/ticket-contract.ts\<close>;
  \<open>state/store.ts\<close> carries a second copy with the same branches). Every digest of the program is
  the hash of such a text, so comparing digests compares values only because the text determines
  the value: the main lemma of the theory is that two values with the same canonical text are the
  same up to the order of their object keys, and that the order of the keys does not matter.

  The error side carries the class of the thrown error and its stable code; the prose after the
  code is not modelled.
\<close>

section \<open>Errors of the contract module\<close>

datatype contract_error =
    Contract_Input string
  | Contract_Infrastructure string

text \<open>\<open>fail(code, message)\<close> and \<open>infrastructure(code, message)\<close>.\<close>

definition fail :: "string \<Rightarrow> (contract_error, 'a) result" where
  "fail code = Inl (Contract_Input code)"

definition infrastructure :: "string \<Rightarrow> (contract_error, 'a) result" where
  "infrastructure code = Inl (Contract_Infrastructure code)"

lemma fail_ne_Inr [simp]: "fail c \<noteq> Inr x" "Inr x \<noteq> fail c"
  by (simp_all add: fail_def)

lemma infrastructure_ne_Inr [simp]: "infrastructure c \<noteq> Inr x" "Inr x \<noteq> infrastructure c"
  by (simp_all add: infrastructure_def)

lemma rbind_fail [simp]: "rbind (fail c) f = fail c"
  by (simp add: fail_def)

section \<open>\<open>JSON.stringify\<close> on strings\<close>

definition hex_char :: "nat \<Rightarrow> char" where
  "hex_char d = (if d < 10 then char_of (48 + d) else char_of (87 + d))"

definition escape_char :: "char \<Rightarrow> string" where
  "escape_char c =
     (let n = (of_char c :: nat) in
      if n = 34 then [CHR 0x5C, CHR 0x22]
      else if n = 92 then [CHR 0x5C, CHR 0x5C]
      else if n = 8 then [CHR 0x5C, CHR ''b'']
      else if n = 9 then [CHR 0x5C, CHR ''t'']
      else if n = 10 then [CHR 0x5C, CHR ''n'']
      else if n = 12 then [CHR 0x5C, CHR ''f'']
      else if n = 13 then [CHR 0x5C, CHR ''r'']
      else if n < 32 then [CHR 0x5C, CHR ''u'', CHR ''0'', CHR ''0'', hex_char (n div 16), hex_char (n mod 16)]
      else [c])"

definition is_control :: "char \<Rightarrow> bool" where
  "is_control c = in_range (CHR 0x00) (CHR 0x1F) c"

lemma escape_char_cases:
  "escape_char c =
     (if c = CHR 0x22 then [CHR 0x5C, CHR 0x22]
      else if c = CHR 0x5C then [CHR 0x5C, CHR 0x5C]
      else if c = CHR 0x08 then [CHR 0x5C, CHR ''b'']
      else if c = CHR 0x09 then [CHR 0x5C, CHR ''t'']
      else if c = CHR 0x0A then [CHR 0x5C, CHR ''n'']
      else if c = CHR 0x0C then [CHR 0x5C, CHR ''f'']
      else if c = CHR 0x0D then [CHR 0x5C, CHR ''r'']
      else if is_control c
      then (let n = (of_char c :: nat) in
            [CHR 0x5C, CHR ''u'', CHR ''0'', CHR ''0'', hex_char (n div 16), hex_char (n mod 16)])
      else [c])"
proof -
  have "char_of (34::nat) = CHR 0x22" "char_of (92::nat) = CHR 0x5C" "char_of (8::nat) = CHR 0x08"
    "char_of (9::nat) = CHR 0x09" "char_of (10::nat) = CHR 0x0A" "char_of (12::nat) = CHR 0x0C"
    "char_of (13::nat) = CHR 0x0D"
    by (simp_all add: char_of_def bit_simps)
  moreover have "is_control c \<longleftrightarrow> (of_char c :: nat) < 32"
  proof -
    have "(of_char (CHR 0x00) :: nat) = 0" "(of_char (CHR 0x1F) :: nat) = 31" by (simp_all add: of_char_def)
    then show ?thesis by (auto simp: is_control_def in_range_def less_eq_char_def)
  qed
  ultimately show ?thesis by (simp add: escape_char_def of_char_is Let_def)
qed

fun plain_bits :: "char \<Rightarrow> bool" where
  "plain_bits (Char b0 b1 b2 b3 b4 b5 b6 b7) =
     (b7 \<or> (if b6 then b5 \<or> b7 \<or> \<not> (b4 \<and> b3 \<and> b2 \<and> \<not> b1 \<and> \<not> b0)
            else b5 \<and> \<not> (\<not> b4 \<and> \<not> b3 \<and> \<not> b2 \<and> b1 \<and> \<not> b0)))"

lemma plain_not_escaped: "plain_bits c \<Longrightarrow> escape_char c = [c]"
  by (cases c) (auto simp: escape_char_cases is_control_def in_range_code split: if_splits)

lemma escape_char_code [code]:
  "escape_char c =
     (if plain_bits c then [c]
      else if c = CHR 0x22 then [CHR 0x5C, CHR 0x22]
      else if c = CHR 0x5C then [CHR 0x5C, CHR 0x5C]
      else if c = CHR 0x08 then [CHR 0x5C, CHR ''b'']
      else if c = CHR 0x09 then [CHR 0x5C, CHR ''t'']
      else if c = CHR 0x0A then [CHR 0x5C, CHR ''n'']
      else if c = CHR 0x0C then [CHR 0x5C, CHR ''f'']
      else if c = CHR 0x0D then [CHR 0x5C, CHR ''r'']
      else
        let n = (of_char c :: nat) in
        [CHR 0x5C, CHR ''u'', CHR ''0'', CHR ''0'', hex_char (n div 16), hex_char (n mod 16)])"
proof (cases "plain_bits c")
  case False
  then have "c = CHR 0x22 \<or> c = CHR 0x5C \<or> is_control c"
    by (cases c) (auto simp: is_control_def in_range_code split: if_splits)
  with False show ?thesis by (auto simp: escape_char_cases)
qed (simp add: plain_not_escaped)

definition json_quote :: "string \<Rightarrow> string" where
  "json_quote s = CHR 0x22 # concat (map escape_char s) @ [CHR 0x22]"

section \<open>The canonical text\<close>

lemma size_pair_in_list [termination_simp]:
  "(k, v) \<in> set kvs \<Longrightarrow> size (v :: jsval) < Suc (size_list (size_prod (\<lambda>_. 0) size) kvs)"
  by (induction kvs) auto

fun canonical_json :: "jsval \<Rightarrow> (contract_error, string) result" where
  "canonical_json JNull = Inr ''null''"
| "canonical_json (JBool b) = Inr (if b then ''true'' else ''false'')"
| "canonical_json (JStr s) = Inr (json_quote s)"
| "canonical_json (JNum i) =
     (if is_safe_int i then Inr (show_int i) else fail ''TICKET_CANONICAL_VALUE_INVALID'')"
| "canonical_json (JReal r) = fail ''TICKET_CANONICAL_VALUE_INVALID''"
| "canonical_json (JArr vs) =
     rbind (traverse canonical_json vs) (\<lambda>ts. Inr (''['' @ join_with '','' ts @ '']''))"
| "canonical_json (JObj kvs) =
     rbind (traverse (\<lambda>kv. rbind (canonical_json (snd kv)) (\<lambda>t. Inr (json_quote (fst kv) @ '':'' @ t)))
              (sort_key fst kvs))
       (\<lambda>ts. Inr (''{'' @ join_with '','' ts @ ''}''))"
| "canonical_json JUndef = fail ''TICKET_CANONICAL_VALUE_INVALID''"
| "canonical_json JOther = fail ''TICKET_CANONICAL_VALUE_INVALID''"

text \<open>\<open>JSON.parse(canonicalJson(v))\<close>: the value with its keys in sorted order at every level.\<close>

fun key_normal :: "jsval \<Rightarrow> jsval" where
  "key_normal (JArr vs) = JArr (map key_normal vs)"
| "key_normal (JObj kvs) = JObj (map (\<lambda>kv. (fst kv, key_normal (snd kv))) (sort_key fst kvs))"
| "key_normal v = v"

section \<open>Reading a string back\<close>

definition hex_value :: "char \<Rightarrow> nat" where
  "hex_value c = (if is_digit c then of_char c - 48 else of_char c - 87)"

fun unescape :: "string \<Rightarrow> (char \<times> string) option" where
  "unescape [] = None"
| "unescape (c # s) =
     (if c = CHR 0x22 then None
      else if c = CHR 0x5C then
        (case s of
           [] \<Rightarrow> None
         | d # s' \<Rightarrow>
             if d = CHR ''b'' then Some (CHR 0x08, s')
             else if d = CHR ''t'' then Some (CHR 0x09, s')
             else if d = CHR ''n'' then Some (CHR 0x0A, s')
             else if d = CHR ''f'' then Some (CHR 0x0C, s')
             else if d = CHR ''r'' then Some (CHR 0x0D, s')
             else if d = CHR ''u'' then Some (char_of (16 * hex_value (s' ! 2) + hex_value (s' ! 3)), drop 4 s')
             else Some (d, s'))
      else Some (c, s))"

lemma hex_value_hex_char: "d < 16 \<Longrightarrow> hex_value (hex_char d) = d"
proof -
  assume "d < 16"
  moreover have "\<forall>d \<in> set [0..<16]. hex_value (hex_char d) = d" by code_simp
  ultimately show ?thesis by simp
qed

lemma char_by_code: "(of_char c :: nat) = n \<Longrightarrow> c = char_of n"
  by auto

lemma escape_char_control:
  assumes "(of_char c :: nat) < 32"
  shows "char_of (16 * hex_value (hex_char (of_char c div 16)) + hex_value (hex_char (of_char c mod 16))) = c"
  using assms by (simp add: hex_value_hex_char)

lemma unescape_escape: "unescape (escape_char c @ x) = Some (c, x)"
proof -
  consider (special) "(of_char c :: nat) \<in> {34, 92, 8, 9, 10, 12, 13}"
    | (control) "(of_char c :: nat) \<notin> {34, 92, 8, 9, 10, 12, 13}" "(of_char c :: nat) < 32"
    | (plain) "(of_char c :: nat) \<notin> {34, 92, 8, 9, 10, 12, 13}" "\<not> (of_char c :: nat) < 32"
    by blast
  then show ?thesis
  proof cases
    case special
    then show ?thesis
      by (elim insertE emptyE) (drule char_by_code, simp add: escape_char_def char_of_def bit_iff_odd)+
  next
    case control
    then show ?thesis
      by (simp add: escape_char_def Let_def escape_char_control)
  next
    case plain
    then have "c \<noteq> CHR 0x22" "c \<noteq> CHR 0x5C" by auto
    with plain show ?thesis by (simp add: escape_char_def)
  qed
qed

lemma escape_char_head: "\<exists>d ds. escape_char c = d # ds \<and> d \<noteq> CHR 0x22"
  using unescape_escape [of c "[]"]
  by (cases "escape_char c") (auto split: if_splits)

lemma escaped_inject:
  "concat (map escape_char a) @ CHR 0x22 # x = concat (map escape_char b) @ CHR 0x22 # y
    \<Longrightarrow> a = b \<and> x = y"
proof (induction a arbitrary: b)
  case Nil
  then show ?case
    using escape_char_head by (cases b) (auto, metis append_Cons list.inject)
next
  case (Cons c a)
  show ?case
  proof (cases b)
    case Nil
    with Cons.prems show ?thesis
      using escape_char_head [of c] by auto
  next
    case (Cons d b')
    let ?ra = "concat (map escape_char a) @ CHR 0x22 # x"
    let ?rb = "concat (map escape_char b') @ CHR 0x22 # y"
    from Cons Cons.prems have "escape_char c @ ?ra = escape_char d @ ?rb" by simp
    then have "Some (c, ?ra) = Some (d, ?rb)"
      using unescape_escape by metis
    with Cons Cons.IH show ?thesis by simp
  qed
qed

lemma json_quote_inject: "json_quote a @ x = json_quote b @ y \<Longrightarrow> a = b \<and> x = y"
  by (rule escaped_inject) (simp add: json_quote_def)

section \<open>Reading a number back\<close>

definition digit_value :: "char \<Rightarrow> nat" where
  "digit_value c = of_char c - 48"

definition read_nat :: "string \<Rightarrow> nat" where
  "read_nat s = foldl (\<lambda>a c. 10 * a + digit_value c) 0 s"

lemma digit_char_facts: "d < 10 \<Longrightarrow> is_digit (digit_char d) \<and> digit_value (digit_char d) = d"
proof -
  assume "d < 10"
  moreover have "\<forall>d \<in> set [0..<10]. is_digit (digit_char d) \<and> digit_value (digit_char d) = d" by code_simp
  ultimately show ?thesis by simp
qed

lemma show_nat_digits: "list_all is_digit (show_nat n)"
proof (induction n rule: show_nat.induct)
  case (1 n)
  then show ?case
    by (subst show_nat.simps) (auto simp: digit_char_facts)
qed

lemma read_show_nat: "read_nat (show_nat n) = n"
proof (induction n rule: show_nat.induct)
  case (1 n)
  then show ?case
    by (subst show_nat.simps) (auto simp: read_nat_def digit_char_facts)
qed

lemma show_nat_not_Nil: "show_nat n \<noteq> []"
  by (subst show_nat.simps) simp

definition delim :: "string \<Rightarrow> bool" where
  "delim x \<longleftrightarrow> x = [] \<or> hd x \<in> {CHR '','', CHR '']'', CHR ''}''}"

lemma delim_Cons [simp]: "delim (c # x) \<longleftrightarrow> c \<in> {CHR '','', CHR '']'', CHR ''}''}"
  by (simp add: delim_def)

lemma delim_not_digit: "delim x \<Longrightarrow> takeWhile is_digit x = []"
  by (cases x) (auto simp: is_digit_def in_range_def)

lemma show_nat_inject: "show_nat m @ x = show_nat n @ y \<Longrightarrow> delim x \<Longrightarrow> delim y \<Longrightarrow> m = n \<and> x = y"
proof -
  assume eq: "show_nat m @ x = show_nat n @ y" and d: "delim x" "delim y"
  have "takeWhile is_digit (show_nat k @ z) = show_nat k" if "delim z" for k z
    using that show_nat_digits [of k]
    by (subst takeWhile_append2) (auto simp: list_all_iff delim_not_digit)
  with eq d have "show_nat m = show_nat n" by metis
  with eq show ?thesis using read_show_nat by (metis same_append_eq)
qed

lemma minus_not_digit: "\<not> is_digit CHR ''-''"
  by code_simp

lemma show_nat_head: "\<exists>c s. show_nat n = c # s \<and> is_digit c"
  using show_nat_digits [of n] show_nat_not_Nil [of n] by (cases "show_nat n") auto

lemma show_int_inject: "show_int i @ x = show_int j @ y \<Longrightarrow> delim x \<Longrightarrow> delim y \<Longrightarrow> i = j \<and> x = y"
  using show_nat_inject [of "nat \<bar>i\<bar>" x "nat \<bar>j\<bar>" y] show_nat_head [of "nat i"] show_nat_head [of "nat j"]
  by (auto simp: show_int_def minus_not_digit split: if_splits)

section \<open>The text determines the value\<close>

text \<open>
  An encoding of list elements that can be read back when what follows starts with a delimiter.
\<close>

definition readable :: "('a \<Rightarrow> ('e, string) result) \<Rightarrow> ('a \<Rightarrow> 'b) \<Rightarrow> 'a \<Rightarrow> bool" where
  "readable enc val v \<longleftrightarrow>
     (\<forall>w s t x y. enc v = Inr s \<longrightarrow> enc w = Inr t \<longrightarrow> s @ x = t @ y \<longrightarrow> delim x \<longrightarrow> delim y
        \<longrightarrow> val v = val w \<and> x = y)"

lemma readableD:
  "readable enc val v \<Longrightarrow> enc v = Inr s \<Longrightarrow> enc w = Inr t \<Longrightarrow> s @ x = t @ y \<Longrightarrow> delim x \<Longrightarrow> delim y
    \<Longrightarrow> val v = val w \<and> x = y"
  unfolding readable_def by blast

lemma join_with_Cons: "join_with sep (s # ss) = s @ (if ss = [] then [] else sep @ join_with sep ss)"
  by (cases ss) auto

lemma join_inject:
  assumes "\<And>v. v \<in> set vs \<Longrightarrow> readable enc val v"
    and "list_all2 (\<lambda>v s. enc v = Inr s) vs ss" and "list_all2 (\<lambda>w t. enc w = Inr t) ws ts"
    and nonempty: "\<And>v s. enc v = Inr s \<Longrightarrow> \<exists>d s'. s = d # s' \<and> d \<noteq> c"
    and close: "c = CHR '']'' \<or> c = CHR ''}''"
    and "join_with '','' ss @ c # x = join_with '','' ts @ c # y"
  shows "map val vs = map val ws \<and> x = y"
  using assms(2,3,1,6)
proof (induction vs ss arbitrary: ws ts rule: list_all2_induct)
  case Nil
  then show ?case
    by (cases ts) (auto simp: join_with_Cons list_all2_Cons2 dest!: nonempty)
next
  case (Cons v vs s ss)
  show ?case
  proof (cases ts)
    case Nil
    with Cons nonempty [of v s] show ?thesis by (auto simp: join_with_Cons)
  next
    case ts: (Cons t ts')
    with Cons.prems obtain w ws' where ws: "ws = w # ws'" and w: "enc w = Inr t"
      and rest: "list_all2 (\<lambda>w t. enc w = Inr t) ws' ts'" by (auto simp: list_all2_Cons2)
    define tail where "tail us z = (if us = [] then c # z else '','' @ join_with '','' us @ c # z)" for us z
    have split: "join_with '','' (u # us) @ c # z = u @ tail us z" for u us z
      by (simp add: join_with_Cons tail_def)
    have d: "delim (tail us z)" for us z
      using close by (auto simp: tail_def)
    from Cons.prems(3) ts have "s @ tail ss x = t @ tail ts' y" by (simp only: split)
    with Cons.hyps(1) w d Cons.prems(2) have "val v = val w \<and> tail ss x = tail ts' y"
      by (intro readableD [of enc val v s w t]) simp_all
    then have v: "val v = val w" and eq: "tail ss x = tail ts' y" by simp_all
    from eq close have e: "ss = [] \<longleftrightarrow> ts' = []" by (auto simp: tail_def split: if_splits)
    from Cons.hyps(2) rest have l: "vs = [] \<longleftrightarrow> ss = []" "ws' = [] \<longleftrightarrow> ts' = []"
      by (auto dest: list_all2_lengthD)
    show ?thesis
    proof (cases "ss = []")
      case True
      with e l v eq ws show ?thesis by (simp add: tail_def)
    next
      case False
      with e eq have "join_with '','' ss @ c # x = join_with '','' ts' @ c # y" by (simp add: tail_def)
      with Cons.IH [OF rest] Cons.prems(2) v ws show ?thesis by simp
    qed
  qed
qed

text \<open>The first character of the text shows which kind of value follows.\<close>

definition leads :: "char \<Rightarrow> nat" where
  "leads c = (if c = CHR ''n'' then 0 else if c = CHR ''t'' then 1 else if c = CHR ''f'' then 2
     else if c = CHR 0x22 then 3 else if c = CHR ''['' then 4 else if c = CHR ''{'' then 5
     else if c = CHR ''-'' \<or> is_digit c then 6 else 7)"

fun shape :: "jsval \<Rightarrow> nat" where
  "shape JNull = 0"
| "shape (JBool b) = (if b then 1 else 2)"
| "shape (JStr s) = 3"
| "shape (JArr vs) = 4"
| "shape (JObj kvs) = 5"
| "shape _ = 6"

lemma digit_leads: "is_digit c \<Longrightarrow> leads c = 6"
  by (auto simp: leads_def is_digit_def in_range_def)

lemma leads_other:
  "leads CHR ''n'' = 0" "leads CHR ''t'' = 1" "leads CHR ''f'' = 2" "leads CHR 0x22 = 3"
  "leads CHR ''['' = 4" "leads CHR ''{'' = 5" "leads CHR ''-'' = 6" "leads CHR '']'' = 7"
  by code_simp+

lemma shape_le: "shape v \<le> 6"
  by (cases v) auto

lemma canonical_json_leads:
  assumes "canonical_json v = Inr s"
  shows "\<exists>c s'. s = c # s' \<and> leads c = shape v"
proof (cases v)
  case (JNum i)
  with assms have s: "s = show_int i" by (simp split: if_splits)
  obtain c s' where "show_nat (nat i) = c # s'" "is_digit c" using show_nat_head by blast
  with s JNum show ?thesis by (cases "i < 0") (simp_all add: show_int_def digit_leads leads_other)
next
  case (JStr t)
  with assms have "s = CHR 0x22 # concat (map escape_char t) @ [CHR 0x22]" by (simp add: json_quote_def)
  with JStr show ?thesis by (simp add: leads_other)
next
  case (JArr vs)
  with assms obtain ts where "s = ''['' @ join_with '','' ts @ '']''" by (auto simp: rbind_Inr_iff)
  with JArr show ?thesis by (simp add: leads_other)
next
  case (JObj kvs)
  with assms obtain ts where "s = ''{'' @ join_with '','' ts @ ''}''" by (auto simp: rbind_Inr_iff)
  with JObj show ?thesis by (simp add: leads_other)
next
  case (JBool b)
  with assms have "s = (if b then ''true'' else ''false'')" by simp
  with JBool show ?thesis by (simp add: leads_other)
next
  case JNull
  with assms have "s = ''null''" by simp
  with JNull show ?thesis by (simp add: leads_other)
qed (use assms in simp_all)

lemma same_shape:
  "canonical_json v = Inr s \<Longrightarrow> canonical_json w = Inr t \<Longrightarrow> s @ x = t @ y \<Longrightarrow> shape v = shape w"
  using canonical_json_leads [of v s] canonical_json_leads [of w t] by auto

definition member_text :: "string \<times> jsval \<Rightarrow> (contract_error, string) result" where
  "member_text kv = rbind (canonical_json (snd kv)) (\<lambda>t. Inr (json_quote (fst kv) @ '':'' @ t))"

definition member_normal :: "string \<times> jsval \<Rightarrow> string \<times> jsval" where
  "member_normal kv = (fst kv, key_normal (snd kv))"

lemma canonical_json_JObj:
  "canonical_json (JObj kvs) =
     rbind (traverse member_text (sort_key fst kvs)) (\<lambda>ts. Inr (''{'' @ join_with '','' ts @ ''}''))"
  by (simp add: member_text_def [abs_def])

lemma key_normal_JObj: "key_normal (JObj kvs) = JObj (map member_normal (sort_key fst kvs))"
  by (simp add: member_normal_def [abs_def])

lemma member_readable:
  assumes "readable canonical_json key_normal (snd kv)"
  shows "readable member_text member_normal kv"
  unfolding readable_def
proof (intro allI impI)
  fix kw s t x y
  assume "member_text kv = Inr s" "member_text kw = Inr t"
  then obtain s' t' where s: "canonical_json (snd kv) = Inr s'" "s = json_quote (fst kv) @ '':'' @ s'"
    and t: "canonical_json (snd kw) = Inr t'" "t = json_quote (fst kw) @ '':'' @ t'"
    by (auto simp: member_text_def rbind_Inr_iff)
  assume "s @ x = t @ y" and d: "delim x" "delim y"
  then have "json_quote (fst kv) @ ('':'' @ s' @ x) = json_quote (fst kw) @ ('':'' @ t' @ y)"
    by (simp add: s t)
  then have "fst kv = fst kw \<and> '':'' @ s' @ x = '':'' @ t' @ y" by (rule json_quote_inject)
  moreover from this have "s' @ x = t' @ y" by simp
  ultimately show "member_normal kv = member_normal kw \<and> x = y"
    using readableD [OF assms s(1) t(1) _ d] by (simp add: member_normal_def)
qed

lemma canonical_json_nonempty:
  "canonical_json v = Inr s \<Longrightarrow> \<exists>d s'. s = d # s' \<and> d \<noteq> CHR '']''"
  using canonical_json_leads [of v s] shape_le [of v] by (auto simp: leads_other)

lemma member_text_nonempty:
  "member_text kv = Inr s \<Longrightarrow> \<exists>d s'. s = d # s' \<and> d \<noteq> CHR ''}''"
  by (auto simp: member_text_def rbind_Inr_iff json_quote_def)

lemma array_readable:
  assumes elements: "\<And>v. v \<in> set vs \<Longrightarrow> readable canonical_json key_normal v"
    and s: "canonical_json (JArr vs) = Inr s" and t: "canonical_json (JArr ws) = Inr t" and eq: "s @ x = t @ y"
  shows "map key_normal vs = map key_normal ws \<and> x = y"
proof -
  from s t obtain ss ts where
    "list_all2 (\<lambda>v s. canonical_json v = Inr s) vs ss" "s = ''['' @ join_with '','' ss @ '']''"
    "list_all2 (\<lambda>v s. canonical_json v = Inr s) ws ts" "t = ''['' @ join_with '','' ts @ '']''"
    by (auto simp: rbind_Inr_iff traverse_Inr_iff)
  with eq show ?thesis
    using join_inject [OF elements, of vs ss ws ts "CHR '']''" x y] canonical_json_nonempty by simp
qed

lemma object_readable:
  assumes elements: "\<And>kv. kv \<in> set (sort_key fst kvs) \<Longrightarrow> readable canonical_json key_normal (snd kv)"
    and s: "canonical_json (JObj kvs) = Inr s" and t: "canonical_json (JObj kws) = Inr t" and eq: "s @ x = t @ y"
  shows "map member_normal (sort_key fst kvs) = map member_normal (sort_key fst kws) \<and> x = y"
proof -
  from s t obtain ss ts where
    "list_all2 (\<lambda>v s. member_text v = Inr s) (sort_key fst kvs) ss" "s = ''{'' @ join_with '','' ss @ ''}''"
    "list_all2 (\<lambda>v s. member_text v = Inr s) (sort_key fst kws) ts" "t = ''{'' @ join_with '','' ts @ ''}''"
    unfolding canonical_json_JObj by (auto simp: rbind_Inr_iff traverse_Inr_iff)
  moreover have "readable member_text member_normal kv" if "kv \<in> set (sort_key fst kvs)" for kv
    using elements [OF that] by (rule member_readable)
  ultimately show ?thesis
    using eq join_inject [of "sort_key fst kvs" member_text member_normal ss "sort_key fst kws" ts "CHR ''}''" x y]
      member_text_nonempty by simp
qed

lemma canonical_json_readable: "readable canonical_json key_normal v"
proof (induction v rule: canonical_json.induct)
  case (6 vs)
  show ?case
    unfolding readable_def
  proof (intro allI impI)
    fix w s t x y
    assume s: "canonical_json (JArr vs) = Inr s" and t: "canonical_json w = Inr t" and eq: "s @ x = t @ y"
    from same_shape [OF s t eq] have "shape w = 4" by simp
    then obtain ws where "w = JArr ws" by (cases w) (auto split: if_splits)
    with s t eq array_readable [OF 6, of vs s ws t x y] show "key_normal (JArr vs) = key_normal w \<and> x = y"
      by simp
  qed
next
  case (7 kvs)
  show ?case
    unfolding readable_def
  proof (intro allI impI)
    fix w s t x y
    assume s: "canonical_json (JObj kvs) = Inr s" and t: "canonical_json w = Inr t" and eq: "s @ x = t @ y"
    from same_shape [OF s t eq] have "shape w = 5" by simp
    then obtain kws where "w = JObj kws" by (cases w) (auto split: if_splits)
    with object_readable [OF 7 s _ eq] t show "key_normal (JObj kvs) = key_normal w \<and> x = y"
      by (simp only: key_normal_JObj jsval.inject)
  qed
next
  case (3 a)
  show ?case
    unfolding readable_def
  proof (intro allI impI)
    fix w s t x y
    assume s: "canonical_json (JStr a) = Inr s" and t: "canonical_json w = Inr t" and eq: "s @ x = t @ y"
    from same_shape [OF s t eq] have "shape w = 3" by simp
    then obtain b where "w = JStr b" by (cases w) (auto split: if_splits)
    with s t eq show "key_normal (JStr a) = key_normal w \<and> x = y" by (auto dest: json_quote_inject)
  qed
next
  case (4 i)
  show ?case
    unfolding readable_def
  proof (intro allI impI)
    fix w s t x y
    assume s: "canonical_json (JNum i) = Inr s" and t: "canonical_json w = Inr t" and eq: "s @ x = t @ y"
      and d: "delim x" "delim y"
    from same_shape [OF s t eq] have "shape w = 6" by simp
    with t obtain j where "w = JNum j" by (cases w) (auto split: if_splits)
    with s t eq d show "key_normal (JNum i) = key_normal w \<and> x = y"
      by (auto split: if_splits dest: show_int_inject)
  qed
next
  case 1
  show ?case
    unfolding readable_def
  proof (intro allI impI)
    fix w s t x y
    assume s: "canonical_json JNull = Inr s" and t: "canonical_json w = Inr t" and eq: "s @ x = t @ y"
    from same_shape [OF s t eq] have "shape w = 0" by simp
    then have "w = JNull" by (cases w) (auto split: if_splits)
    with s t eq show "key_normal JNull = key_normal w \<and> x = y" by simp
  qed
next
  case (2 b)
  show ?case
    unfolding readable_def
  proof (intro allI impI)
    fix w s t x y
    assume s: "canonical_json (JBool b) = Inr s" and t: "canonical_json w = Inr t" and eq: "s @ x = t @ y"
    from same_shape [OF s t eq] have "shape w = shape (JBool b)" by (rule sym)
    then have "w = JBool b" by (cases w) (auto split: if_splits)
    with s t eq show "key_normal (JBool b) = key_normal w \<and> x = y" by simp
  qed
qed (simp_all add: readable_def)

lemma canonical_json_inject:
  "canonical_json v = Inr s \<Longrightarrow> canonical_json w = Inr s \<Longrightarrow> key_normal v = key_normal w"
  using readableD [OF canonical_json_readable, of v s w s "[]" "[]"] by (simp add: delim_def)

lemma sort_key_sorted_id: "sorted (map f xs) \<Longrightarrow> sort_key f xs = xs"
  by (induction xs) (auto simp: insort_is_Cons)

lemma canonical_json_normal: "canonical_json (key_normal v) = canonical_json v"
proof (induction v rule: canonical_json.induct)
  case (6 vs)
  then have "traverse canonical_json (map key_normal vs) = traverse canonical_json vs"
    by (induction vs) auto
  then show ?case by simp
next
  case (7 kvs)
  have "map fst (map member_normal (sort_key fst kvs)) = map fst (sort_key fst kvs)"
    by (simp add: member_normal_def)
  then have sorted: "sort_key fst (map member_normal (sort_key fst kvs)) = map member_normal (sort_key fst kvs)"
    by (intro sort_key_sorted_id) (metis sorted_sort_key)
  have "traverse member_text (map member_normal xs) = traverse member_text xs"
    if "\<And>kv. kv \<in> set xs \<Longrightarrow> canonical_json (key_normal (snd kv)) = canonical_json (snd kv)" for xs
    using that by (induction xs) (auto simp: member_text_def member_normal_def)
  from this [OF 7] show ?case
    by (simp only: key_normal_JObj canonical_json_JObj sorted)
qed simp_all

text \<open>
  C12. Canonical text is a faithful name for a value: whenever a value is admitted, another value has
  the same canonical text exactly when the two differ at most in the order of object keys. So equal
  digests of canonical texts stand for equal contracts, manifests and evidence payloads.
\<close>

theorem canonical_text_faithful:
  assumes "canonical_json v = Inr s"
  shows "canonical_json w = Inr s \<longleftrightarrow> key_normal v = key_normal w"
proof
  assume "canonical_json w = Inr s"
  with assms show "key_normal v = key_normal w" by (rule canonical_json_inject)
next
  assume "key_normal v = key_normal w"
  with assms canonical_json_normal [of v] canonical_json_normal [of w]
  show "canonical_json w = Inr s" by simp
qed

theorem canonical_text_faithful_witness:
  "\<exists>s. canonical_json (JObj [(''b'', JNum 1), (''a'', JArr [JNull])]) = Inr s \<and>
       canonical_json (JObj [(''a'', JArr [JNull]), (''b'', JNum 1)]) = Inr s \<and>
       canonical_json (JObj [(''a'', JArr []), (''b'', JNum 1)]) \<noteq> Inr s"
proof -
  let ?v = "JObj [(''b'', JNum 1), (''a'', JArr [JNull])]"
  let ?s = "''{'' @ json_quote ''a'' @ '':[null],'' @ json_quote ''b'' @ '':1}''"
  have h: "canonical_json ?v = Inr ?s" by code_simp
  have "key_normal ?v = key_normal (JObj [(''a'', JArr [JNull]), (''b'', JNum 1)])"
    and "key_normal ?v \<noteq> key_normal (JObj [(''a'', JArr []), (''b'', JNum 1)])"
    by code_simp+
  with h show ?thesis
    using canonical_text_faithful [OF h] by blast
qed

fun admissible :: "jsval \<Rightarrow> bool" where
  "admissible (JArr vs) = (\<forall>v \<in> set vs. admissible v)"
| "admissible (JObj kvs) = (\<forall>kv \<in> set kvs. admissible (snd kv))"
| "admissible (JNum i) = is_safe_int i"
| "admissible (JReal r) = False"
| "admissible JUndef = False"
| "admissible JOther = False"
| "admissible _ = True"

lemma is_ok_rbind_const: "is_ok (rbind m (\<lambda>t. Inr (f t))) = is_ok m"
  by (cases m) auto

lemma is_ok_traverse: "is_ok (traverse f xs) \<longleftrightarrow> (\<forall>x \<in> set xs. is_ok (f x))"
proof (induction xs)
  case (Cons x xs)
  then show ?case by (cases "f x"; cases "traverse f xs") auto
qed simp

lemma canonical_json_ok_iff: "is_ok (canonical_json v) \<longleftrightarrow> admissible v"
  by (induction v rule: canonical_json.induct)
     (auto simp: is_ok_rbind_const is_ok_traverse fail_def)

text \<open>
  A value is admitted exactly when every number in it is a safe integer and it contains no
  undefined, function or symbol: nothing is coerced or dropped on the way to a digest.
\<close>

theorem canonical_json_admits: "is_ok (canonical_json v) \<longleftrightarrow> admissible v"
  by (rule canonical_json_ok_iff)

end
