(* ===== verification/Schema.thy ===== *)
theory Schema
  imports Prelude
begin

text \<open>
  The frozen state contract of \<open>orchestrator/src/state/schema.ts\<close>: the lifecycle states of
  attempts, tickets and runs, the declared edges with their owning services, and the SQLite
  triggers of \<open>orchestrator/src/state/migrations.ts\<close> that guard the same edges a second time.

  The state names of the three catalogs are the constructors of one type, as the catalogs share
  several of them and a transition request carries its states as plain strings; \<open>OtherState\<close> is
  any string that no catalog lists.
\<close>

datatype lifecycle_state =
    Planned | Implementing | ImplementationCaptured | Reviewing | Remediating | RemediationCaptured
  | VerificationQueued | Verifying | Converging | CleanupPending | OracleEvaluation
  | FailedClean | Quarantined | Verified
  | Active | Failed | ReadyForDelivery
  | DeliveryFailed | Delivered
  | OtherState string

datatype service =
    RunAllocationService | RetryAllocationService | AttemptLifecycleService | ReviewService
  | RemediationService | VerificationService | CleanupService | TicketFinalizationService
  | RunLifecycleService | RunFinalizationService | DeliveryService
  | OtherService string

section \<open>Catalogs\<close>

record declared_edge =
  de_from :: lifecycle_state
  de_to :: lifecycle_state
  de_owner :: service

definition edge :: "lifecycle_state \<Rightarrow> lifecycle_state \<Rightarrow> service \<Rightarrow> declared_edge" where
  "edge f t s = \<lparr>de_from = f, de_to = t, de_owner = s\<rparr>"

definition ATTEMPT_STATES :: "lifecycle_state list" where
  "ATTEMPT_STATES =
    [Planned, Implementing, ImplementationCaptured, Reviewing, Remediating, RemediationCaptured,
     VerificationQueued, Verifying, Converging, CleanupPending, OracleEvaluation,
     FailedClean, Quarantined, Verified]"

definition ATTEMPT_TERMINAL_STATES :: "lifecycle_state list" where
  "ATTEMPT_TERMINAL_STATES = [FailedClean, Quarantined, Verified]"

definition ATTEMPT_TRANSITIONS :: "declared_edge list" where
  "ATTEMPT_TRANSITIONS =
    [edge Planned Implementing AttemptLifecycleService,
     edge Implementing ImplementationCaptured AttemptLifecycleService,
     edge ImplementationCaptured Reviewing ReviewService,
     edge Reviewing VerificationQueued ReviewService,
     edge Reviewing Remediating ReviewService,
     edge Remediating RemediationCaptured RemediationService,
     edge RemediationCaptured Reviewing ReviewService,
     edge VerificationQueued Verifying VerificationService,
     edge Verifying Converging VerificationService,
     edge Converging CleanupPending AttemptLifecycleService,
     edge Planned CleanupPending AttemptLifecycleService,
     edge Implementing CleanupPending AttemptLifecycleService,
     edge ImplementationCaptured CleanupPending AttemptLifecycleService,
     edge Reviewing CleanupPending ReviewService,
     edge Remediating CleanupPending RemediationService,
     edge RemediationCaptured CleanupPending RemediationService,
     edge VerificationQueued CleanupPending VerificationService,
     edge Verifying CleanupPending VerificationService,
     edge CleanupPending OracleEvaluation TicketFinalizationService,
     edge OracleEvaluation Verified TicketFinalizationService,
     edge CleanupPending FailedClean CleanupService,
     edge CleanupPending Quarantined CleanupService]"

definition TICKET_STATES :: "lifecycle_state list" where
  "TICKET_STATES = [Planned, Active, CleanupPending, Failed, Quarantined, ReadyForDelivery]"

definition TICKET_TERMINAL_STATES :: "lifecycle_state list" where
  "TICKET_TERMINAL_STATES = [Failed, Quarantined, ReadyForDelivery]"

definition TICKET_TRANSITIONS :: "declared_edge list" where
  "TICKET_TRANSITIONS =
    [edge Planned Active RunAllocationService,
     edge Active CleanupPending AttemptLifecycleService,
     edge CleanupPending Active RetryAllocationService,
     edge CleanupPending Failed CleanupService,
     edge CleanupPending Quarantined CleanupService,
     edge CleanupPending ReadyForDelivery TicketFinalizationService]"

definition RUN_STATES :: "lifecycle_state list" where
  "RUN_STATES =
    [Planned, Active, CleanupPending, Failed, DeliveryFailed, ReadyForDelivery, Delivered]"

definition RUN_TERMINAL_STATES :: "lifecycle_state list" where
  "RUN_TERMINAL_STATES = [Failed, DeliveryFailed, Delivered]"

definition RUN_TRANSITIONS :: "declared_edge list" where
  "RUN_TRANSITIONS =
    [edge Planned Active RunAllocationService,
     edge Active CleanupPending RunLifecycleService,
     edge Active Failed RunFinalizationService,
     edge Active ReadyForDelivery RunFinalizationService,
     edge CleanupPending Active RunLifecycleService,
     edge CleanupPending Failed RunFinalizationService,
     edge ReadyForDelivery Delivered DeliveryService,
     edge ReadyForDelivery DeliveryFailed DeliveryService]"

definition find_edge :: "declared_edge list \<Rightarrow> lifecycle_state \<Rightarrow> lifecycle_state \<Rightarrow> declared_edge option" where
  "find_edge catalog f t = find (\<lambda>e. de_from e = f \<and> de_to e = t) catalog"

section \<open>Leases, resources and promotions\<close>

datatype lease_state = LReserved | LLive | LCleanupPending | LReleased | LQuarantined

definition LEASE_TRANSITIONS :: "(lease_state \<times> lease_state) list" where
  "LEASE_TRANSITIONS =
    [(LReserved, LLive), (LLive, LCleanupPending), (LCleanupPending, LReleased),
     (LCleanupPending, LQuarantined)]"

datatype resource_state =
  RReserved | RAllocated | RActive | RCleanupPending | RReleased | RQuarantined

definition RESOURCE_TRANSITIONS :: "(resource_state \<times> resource_state) list" where
  "RESOURCE_TRANSITIONS =
    [(RReserved, RAllocated), (RAllocated, RActive), (RAllocated, RCleanupPending),
     (RActive, RCleanupPending), (RCleanupPending, RReleased), (RCleanupPending, RQuarantined)]"

datatype promotion_state =
  IntentRecorded | RefObservedOld | RefObservedCandidate | Conflicted | Finalized

definition PROMOTION_TERMINAL_STATES :: "promotion_state list" where
  "PROMOTION_TERMINAL_STATES = [Conflicted, Finalized]"

definition PROMOTION_TRANSITIONS :: "(promotion_state \<times> promotion_state) list" where
  "PROMOTION_TRANSITIONS =
    [(IntentRecorded, RefObservedOld), (IntentRecorded, RefObservedCandidate),
     (IntentRecorded, Conflicted), (RefObservedOld, RefObservedCandidate),
     (RefObservedOld, Conflicted), (RefObservedCandidate, Finalized),
     (RefObservedCandidate, Conflicted)]"

datatype resource_kind =
    DeliveryRef | AttemptRef | Worktree | IsolatedIndex | PolicyContext | PolicyBundle
  | ProcessGroup | StdoutFile | StderrFile | VerificationOutput | SalvageArchive

definition RESOURCE_KINDS :: "resource_kind list" where
  "RESOURCE_KINDS =
    [DeliveryRef, AttemptRef, Worktree, IsolatedIndex, PolicyContext, PolicyBundle, ProcessGroup,
     StdoutFile, StderrFile, VerificationOutput, SalvageArchive]"

datatype gate_status =
    Passed | GFailed | Missing | NullStatus | Skipped | Unavailable | InfrastructureError | Stale
  | Conflicting

fun gate_status_text :: "gate_status \<Rightarrow> string" where
  "gate_status_text Passed = ''passed''"
| "gate_status_text GFailed = ''failed''"
| "gate_status_text Missing = ''missing''"
| "gate_status_text NullStatus = ''null''"
| "gate_status_text Skipped = ''skipped''"
| "gate_status_text Unavailable = ''unavailable''"
| "gate_status_text InfrastructureError = ''infrastructure_error''"
| "gate_status_text Stale = ''stale''"
| "gate_status_text Conflicting = ''conflicting''"

definition GATE_STATUSES :: "string list" where
  "GATE_STATUSES = map gate_status_text
    [Passed, GFailed, Missing, NullStatus, Skipped, Unavailable, InfrastructureError, Stale, Conflicting]"

definition ORACLE_REFERENCE_KINDS :: "string list" where
  "ORACLE_REFERENCE_KINDS =
    [''run_manifest'', ''ticket_contract'', ''execution_context'', ''evidence'', ''gate_result'',
     ''review_record'', ''commit_attribution'', ''cleanup_record'', ''dependency_edge'',
     ''attempt_resource_snapshot'', ''lease_snapshot'', ''process_receipt'']"

section \<open>The persisted edge triggers\<close>

text \<open>
  \<open>BEFORE UPDATE OF state\<close> triggers: the update of the state column goes through exactly when the
  condition below holds. The attempt trigger is the one migration 006 recreates.
\<close>

definition runs_legal_edge :: "lifecycle_state \<Rightarrow> lifecycle_state \<Rightarrow> bool" where
  "runs_legal_edge old new =
    (old = Planned \<and> new = Active \<or>
     old = Active \<and> new \<in> set [CleanupPending, Failed, ReadyForDelivery] \<or>
     old = CleanupPending \<and> new \<in> set [Active, Failed] \<or>
     old = ReadyForDelivery \<and> new \<in> set [Delivered, DeliveryFailed])"

definition run_tickets_legal_edge :: "lifecycle_state \<Rightarrow> lifecycle_state \<Rightarrow> bool" where
  "run_tickets_legal_edge old new =
    (old = Planned \<and> new = Active \<or>
     old = Active \<and> new = CleanupPending \<or>
     old = CleanupPending \<and> new \<in> set [Active, Failed, Quarantined, ReadyForDelivery])"

definition attempts_legal_edge :: "lifecycle_state \<Rightarrow> lifecycle_state \<Rightarrow> bool" where
  "attempts_legal_edge old new =
    (old = Planned \<and> new \<in> set [Implementing, CleanupPending] \<or>
     old = Implementing \<and> new \<in> set [ImplementationCaptured, CleanupPending] \<or>
     old = ImplementationCaptured \<and> new \<in> set [Reviewing, CleanupPending] \<or>
     old = Reviewing \<and> new \<in> set [VerificationQueued, Remediating, CleanupPending] \<or>
     old = Remediating \<and> new \<in> set [RemediationCaptured, CleanupPending] \<or>
     old = RemediationCaptured \<and> new \<in> set [Reviewing, CleanupPending] \<or>
     old = VerificationQueued \<and> new \<in> set [Verifying, CleanupPending] \<or>
     old = Verifying \<and> new \<in> set [Converging, CleanupPending] \<or>
     old = Converging \<and> new = CleanupPending \<or>
     old = CleanupPending \<and> new \<in> set [OracleEvaluation, FailedClean, Quarantined] \<or>
     old = OracleEvaluation \<and> new = Verified)"

definition promotion_intents_legal_edge :: "promotion_state \<Rightarrow> promotion_state \<Rightarrow> bool" where
  "promotion_intents_legal_edge old new =
    (old = IntentRecorded \<and> new \<in> set [RefObservedOld, RefObservedCandidate, Conflicted] \<or>
     old = RefObservedOld \<and> new \<in> set [RefObservedCandidate, Conflicted] \<or>
     old = RefObservedCandidate \<and> new \<in> set [Finalized, Conflicted])"

definition leases_legal_edge :: "lease_state \<Rightarrow> lease_state \<Rightarrow> bool" where
  "leases_legal_edge old new =
    (old = LReserved \<and> new = LLive \<or>
     old = LLive \<and> new = LCleanupPending \<or>
     old = LCleanupPending \<and> new \<in> set [LReleased, LQuarantined])"

definition attempt_resources_legal_edge :: "resource_state \<Rightarrow> resource_state \<Rightarrow> bool" where
  "attempt_resources_legal_edge old new =
    (old = RReserved \<and> new = RAllocated \<or>
     old = RAllocated \<and> new \<in> set [RActive, RCleanupPending] \<or>
     old = RActive \<and> new = RCleanupPending \<or>
     old = RCleanupPending \<and> new \<in> set [RReleased, RQuarantined])"

section \<open>The catalogs and the triggers agree\<close>

lemma find_edge_Some: "find_edge catalog f t = Some e \<Longrightarrow> e \<in> set catalog \<and> de_from e = f \<and> de_to e = t"
  by (auto simp: find_edge_def dest: find_Some_in)

lemma find_edge_Nil: "find_edge [] f t = None"
  by (simp add: find_edge_def)

lemma find_edge_Cons:
  "find_edge (edge a b s # es) f t = (if a = f \<and> b = t then Some (edge a b s) else find_edge es f t)"
  by (simp add: find_edge_def edge_def)

lemmas find_edge_simps = find_edge_Nil find_edge_Cons

lemma attempt_catalog_trigger:
  "find_edge ATTEMPT_TRANSITIONS f t \<noteq> None \<longleftrightarrow> attempts_legal_edge f t"
  unfolding ATTEMPT_TRANSITIONS_def find_edge_simps attempts_legal_edge_def
  by (cases f; simp; cases t; simp)

lemma ticket_catalog_trigger:
  "find_edge TICKET_TRANSITIONS f t \<noteq> None \<longleftrightarrow> run_tickets_legal_edge f t"
  unfolding TICKET_TRANSITIONS_def find_edge_simps run_tickets_legal_edge_def
  by (cases f; simp; cases t; simp)

lemma run_catalog_trigger:
  "find_edge RUN_TRANSITIONS f t \<noteq> None \<longleftrightarrow> runs_legal_edge f t"
  unfolding RUN_TRANSITIONS_def find_edge_simps runs_legal_edge_def
  by (cases f; simp; cases t; simp)

lemma lease_catalog_trigger: "(f, t) \<in> set LEASE_TRANSITIONS \<longleftrightarrow> leases_legal_edge f t"
  unfolding LEASE_TRANSITIONS_def leases_legal_edge_def by (cases f; simp; cases t; simp)

lemma resource_catalog_trigger:
  "(f, t) \<in> set RESOURCE_TRANSITIONS \<longleftrightarrow> attempt_resources_legal_edge f t"
  unfolding RESOURCE_TRANSITIONS_def attempt_resources_legal_edge_def by (cases f; simp; cases t; simp)

lemma promotion_catalog_trigger:
  "(f, t) \<in> set PROMOTION_TRANSITIONS \<longleftrightarrow> promotion_intents_legal_edge f t"
  unfolding PROMOTION_TRANSITIONS_def promotion_intents_legal_edge_def by (cases f; simp; cases t; simp)

lemma terminal_states_are_sinks:
  "set TICKET_STATES - de_from ` set TICKET_TRANSITIONS = set TICKET_TERMINAL_STATES"
  "set RUN_STATES - de_from ` set RUN_TRANSITIONS = set RUN_TERMINAL_STATES"
  "set ATTEMPT_STATES - de_from ` set ATTEMPT_TRANSITIONS = set ATTEMPT_TERMINAL_STATES"
  by (auto simp: TICKET_STATES_def TICKET_TRANSITIONS_def TICKET_TERMINAL_STATES_def edge_def
      RUN_STATES_def RUN_TRANSITIONS_def RUN_TERMINAL_STATES_def
      ATTEMPT_STATES_def ATTEMPT_TRANSITIONS_def ATTEMPT_TERMINAL_STATES_def)

text \<open>
  C13. The two guards of the persisted lifecycle agree. For tickets, runs, leases, attempt resources
  and promotion intents the declared catalog contains a state change exactly when the SQLite
  trigger lets it through, and the states of a ticket or run that have no outgoing edge are exactly
  its terminal states.
\<close>

theorem edge_catalogs_agree:
  "(find_edge TICKET_TRANSITIONS f t \<noteq> None \<longleftrightarrow> run_tickets_legal_edge f t)
   \<and> (find_edge RUN_TRANSITIONS f t \<noteq> None \<longleftrightarrow> runs_legal_edge f t)
   \<and> ((lf, lt) \<in> set LEASE_TRANSITIONS \<longleftrightarrow> leases_legal_edge lf lt)
   \<and> ((rf, rt) \<in> set RESOURCE_TRANSITIONS \<longleftrightarrow> attempt_resources_legal_edge rf rt)
   \<and> ((pf, pt) \<in> set PROMOTION_TRANSITIONS \<longleftrightarrow> promotion_intents_legal_edge pf pt)
   \<and> set TICKET_STATES - de_from ` set TICKET_TRANSITIONS = set TICKET_TERMINAL_STATES
   \<and> set RUN_STATES - de_from ` set RUN_TRANSITIONS = set RUN_TERMINAL_STATES"
  by (simp only: ticket_catalog_trigger run_catalog_trigger lease_catalog_trigger
      resource_catalog_trigger promotion_catalog_trigger terminal_states_are_sinks simp_thms)

end
