(* ===== verification/Phase.thy ===== *)
theory Phase
  imports Schema
begin

text \<open>
  The normative phase and remediation transition table of
  \<open>orchestrator/src/lifecycle/phase.ts\<close> with its lookups. The table carries, for each legal attempt
  edge, the guard kind, the producing service, the driving role, whether the edge consumes the
  remediation budget and the terminal state a failure edge leads to. The lemmas relate it to the
  frozen catalog, bound every run of an attempt and show that terminal states are final.
\<close>

datatype phase_guard =
    GLiveLease | GProcessReceipt | GExecutionContext | GReviewAccepted | GReviewRejected
  | GRemediationRecord | GGateResults | GCleanupPending | GCleanupFailed | GCleanupQuarantined
  | GOraclePromotion | GVerifiedPromotion | GBudgetExhausted

datatype phase_role = Worker | Reviewer | Remediator | Verifier | Cleanup | Finalizer

record phase_edge =
  pe_from :: lifecycle_state
  pe_to :: lifecycle_state
  pe_guard :: phase_guard
  pe_producer :: service
  pe_role :: phase_role
  pe_budget_consumed :: bool
  pe_failure_target :: "lifecycle_state option"

definition forward_edge ::
  "lifecycle_state \<Rightarrow> lifecycle_state \<Rightarrow> phase_guard \<Rightarrow> service \<Rightarrow> phase_role \<Rightarrow> phase_edge" where
  "forward_edge f t g s r =
     \<lparr>pe_from = f, pe_to = t, pe_guard = g, pe_producer = s, pe_role = r,
      pe_budget_consumed = False, pe_failure_target = None\<rparr>"

definition failure_edge :: "lifecycle_state \<Rightarrow> phase_guard \<Rightarrow> service \<Rightarrow> phase_edge" where
  "failure_edge f g s =
     (forward_edge f CleanupPending g s Cleanup)\<lparr>pe_failure_target := Some FailedClean\<rparr>"

definition PHASE_STATES :: "lifecycle_state list" where
  "PHASE_STATES =
    [Planned, Implementing, ImplementationCaptured, Reviewing, Remediating, RemediationCaptured,
     VerificationQueued, Verifying, Converging, CleanupPending, OracleEvaluation, Verified,
     FailedClean, Quarantined]"

definition PHASE_TERMINAL_STATES :: "lifecycle_state list" where
  "PHASE_TERMINAL_STATES = [Verified, FailedClean, Quarantined]"

definition PHASE_TRANSITION_TABLE :: "phase_edge list" where
  "PHASE_TRANSITION_TABLE =
    [forward_edge Planned Implementing GLiveLease AttemptLifecycleService Worker,
     forward_edge Implementing ImplementationCaptured GProcessReceipt AttemptLifecycleService Worker,
     forward_edge ImplementationCaptured Reviewing GExecutionContext ReviewService Reviewer,
     forward_edge Reviewing VerificationQueued GReviewAccepted ReviewService Reviewer,
     (forward_edge Reviewing Remediating GReviewRejected ReviewService Remediator)
        \<lparr>pe_budget_consumed := True\<rparr>,
     forward_edge Remediating RemediationCaptured GRemediationRecord RemediationService Remediator,
     forward_edge RemediationCaptured Reviewing GExecutionContext ReviewService Reviewer,
     forward_edge VerificationQueued Verifying GExecutionContext VerificationService Verifier,
     forward_edge Verifying Converging GGateResults VerificationService Verifier,
     forward_edge Converging CleanupPending GCleanupPending AttemptLifecycleService Cleanup,
     forward_edge CleanupPending OracleEvaluation GOraclePromotion TicketFinalizationService Finalizer,
     forward_edge OracleEvaluation Verified GVerifiedPromotion TicketFinalizationService Finalizer,
     failure_edge Planned GCleanupPending AttemptLifecycleService,
     failure_edge Implementing GCleanupPending AttemptLifecycleService,
     failure_edge ImplementationCaptured GCleanupPending AttemptLifecycleService,
     failure_edge Reviewing GBudgetExhausted ReviewService,
     failure_edge Remediating GCleanupPending RemediationService,
     failure_edge RemediationCaptured GCleanupPending RemediationService,
     failure_edge VerificationQueued GCleanupPending VerificationService,
     failure_edge Verifying GGateResults VerificationService,
     forward_edge CleanupPending FailedClean GCleanupFailed CleanupService Cleanup,
     forward_edge CleanupPending Quarantined GCleanupQuarantined CleanupService Cleanup]"

definition legalPhaseEdge :: "lifecycle_state \<Rightarrow> lifecycle_state \<Rightarrow> phase_edge option" where
  "legalPhaseEdge f t = find (\<lambda>e. pe_from e = f \<and> pe_to e = t) PHASE_TRANSITION_TABLE"

definition isLegalPhaseEdge :: "lifecycle_state \<Rightarrow> lifecycle_state \<Rightarrow> bool" where
  "isLegalPhaseEdge f t = (legalPhaseEdge f t \<noteq> None)"

definition isTerminalPhase :: "lifecycle_state \<Rightarrow> bool" where
  "isTerminalPhase s = (s \<in> set PHASE_TERMINAL_STATES)"

definition phaseEdgesFrom :: "lifecycle_state \<Rightarrow> phase_edge list" where
  "phaseEdgesFrom s = filter (\<lambda>e. pe_from e = s) PHASE_TRANSITION_TABLE"

definition FORWARD_PHASE_ORDER :: "lifecycle_state list" where
  "FORWARD_PHASE_ORDER =
    [Planned, Implementing, ImplementationCaptured, Reviewing, Remediating, RemediationCaptured,
     VerificationQueued, Verifying, Converging]"

definition phaseStateIsAtOrPast :: "lifecycle_state \<Rightarrow> lifecycle_state \<Rightarrow> bool" where
  "phaseStateIsAtOrPast current target =
     (case (index_of FORWARD_PHASE_ORDER current, index_of FORWARD_PHASE_ORDER target) of
        (Some i, Some j) \<Rightarrow> i > j
      | _ \<Rightarrow> False)"

definition isForwardPhaseEdge :: "lifecycle_state \<Rightarrow> lifecycle_state \<Rightarrow> bool" where
  "isForwardPhaseEdge f t =
     (case (index_of FORWARD_PHASE_ORDER f, index_of FORWARD_PHASE_ORDER t) of
        (Some i, Some j) \<Rightarrow> i < j
      | _ \<Rightarrow> False)"

section \<open>Lookups\<close>

lemma edge_fields [simp]:
  "pe_from (forward_edge f t g s r) = f" "pe_to (forward_edge f t g s r) = t"
  "pe_guard (forward_edge f t g s r) = g" "pe_producer (forward_edge f t g s r) = s"
  "pe_role (forward_edge f t g s r) = r" "pe_budget_consumed (forward_edge f t g s r) = False"
  "pe_failure_target (forward_edge f t g s r) = None"
  "pe_from (failure_edge f g s) = f" "pe_to (failure_edge f g s) = CleanupPending"
  "pe_guard (failure_edge f g s) = g" "pe_producer (failure_edge f g s) = s"
  "pe_role (failure_edge f g s) = Cleanup" "pe_budget_consumed (failure_edge f g s) = False"
  "pe_failure_target (failure_edge f g s) = Some FailedClean"
  by (simp_all add: forward_edge_def failure_edge_def)

lemma legalPhaseEdge_in_table:
  "legalPhaseEdge f t = Some e \<Longrightarrow> e \<in> set PHASE_TRANSITION_TABLE \<and> pe_from e = f \<and> pe_to e = t"
  by (auto simp: legalPhaseEdge_def dest: find_Some_in)

lemma legal_edge_iff: "isLegalPhaseEdge f t \<longleftrightarrow> attempts_legal_edge f t"
  unfolding isLegalPhaseEdge_def legalPhaseEdge_def PHASE_TRANSITION_TABLE_def attempts_legal_edge_def
  by (cases f; simp; cases t; simp)

lemma edge_owner:
  "map_option pe_producer (legalPhaseEdge f t) = map_option de_owner (find_edge ATTEMPT_TRANSITIONS f t)"
  unfolding legalPhaseEdge_def PHASE_TRANSITION_TABLE_def ATTEMPT_TRANSITIONS_def find_edge_simps
  by (cases f; simp; cases t; simp add: edge_def)

text \<open>
  C14. The three declarations of the attempt lifecycle agree: the normative phase table declares an
  edge exactly when the frozen catalog declares it, with the same owning service, and exactly when
  the persisted SQLite trigger lets the state column change that way. No edge is legal in one layer
  and rejected in another.
\<close>

theorem attempt_edge_layers_agree:
  "map_option pe_producer (legalPhaseEdge f t) = map_option de_owner (find_edge ATTEMPT_TRANSITIONS f t)
   \<and> (isLegalPhaseEdge f t \<longleftrightarrow> attempts_legal_edge f t)"
  using edge_owner legal_edge_iff by blast

section \<open>Walks through the table\<close>

text \<open>
  A walk is the list of states an attempt enters one after the other. An edge costs the remediation
  budget when the table says so.
\<close>

fun phase_walk :: "lifecycle_state \<Rightarrow> lifecycle_state list \<Rightarrow> bool" where
  "phase_walk s [] = True"
| "phase_walk s (t # ts) = (isLegalPhaseEdge s t \<and> phase_walk t ts)"

definition consumes_budget :: "lifecycle_state \<Rightarrow> lifecycle_state \<Rightarrow> bool" where
  "consumes_budget f t = (case legalPhaseEdge f t of Some e \<Rightarrow> pe_budget_consumed e | None \<Rightarrow> False)"

fun budget_spent :: "lifecycle_state \<Rightarrow> lifecycle_state list \<Rightarrow> nat" where
  "budget_spent s [] = 0"
| "budget_spent s (t # ts) = (if consumes_budget s t then 1 else 0) + budget_spent t ts"

text \<open>The longest walk to a terminal state that spends no budget.\<close>

fun phase_rank :: "lifecycle_state \<Rightarrow> nat" where
  "phase_rank Planned = 9"
| "phase_rank Implementing = 8"
| "phase_rank Remediating = 8"
| "phase_rank ImplementationCaptured = 7"
| "phase_rank RemediationCaptured = 7"
| "phase_rank Reviewing = 6"
| "phase_rank VerificationQueued = 5"
| "phase_rank Verifying = 4"
| "phase_rank Converging = 3"
| "phase_rank CleanupPending = 2"
| "phase_rank OracleEvaluation = 1"
| "phase_rank _ = 0"

lemma consumes_budget_iff: "consumes_budget f t \<longleftrightarrow> f = Reviewing \<and> t = Remediating"
  unfolding consumes_budget_def legalPhaseEdge_def PHASE_TRANSITION_TABLE_def
  by (cases f; simp; cases t; simp)

lemma phase_rank_step:
  "isLegalPhaseEdge f t \<Longrightarrow> Suc (phase_rank t) \<le> phase_rank f + (if consumes_budget f t then 3 else 0)"
  unfolding legal_edge_iff consumes_budget_iff attempts_legal_edge_def by auto

lemma phase_walk_rank: "phase_walk s ts \<Longrightarrow> length ts \<le> phase_rank s + 3 * budget_spent s ts"
proof (induction ts arbitrary: s)
  case (Cons t ts)
  then have "length ts \<le> phase_rank t + 3 * budget_spent t ts" and "isLegalPhaseEdge s t" by auto
  with phase_rank_step [of s t] show ?case by (auto split: if_splits)
qed simp

text \<open>
  C15. The lifecycle terminates under a remediation budget: a walk from the planned state that
  enters remediation at most \<open>b\<close> times has at most \<open>9 + 3 * b\<close> edges. The review and remediation
  cycle is the only cycle of the table and every turn of it spends budget.
\<close>

theorem phase_walk_bounded:
  assumes "phase_walk Planned ts" and "budget_spent Planned ts \<le> b"
  shows "length ts \<le> 9 + 3 * b"
  using phase_walk_rank [OF assms(1)] assms(2) by simp

theorem phase_walk_bounded_witness:
  "phase_walk Planned
     [Implementing, ImplementationCaptured, Reviewing, Remediating, RemediationCaptured, Reviewing,
      VerificationQueued, Verifying, Converging, CleanupPending, OracleEvaluation, Verified]
   \<and> length
     [Implementing, ImplementationCaptured, Reviewing, Remediating, RemediationCaptured, Reviewing,
      VerificationQueued, Verifying, Converging, CleanupPending, OracleEvaluation, Verified] \<le> 9 + 3 * 1"
proof -
  let ?ts = "[Implementing, ImplementationCaptured, Reviewing, Remediating, RemediationCaptured, Reviewing,
      VerificationQueued, Verifying, Converging, CleanupPending, OracleEvaluation, Verified]"
  have w: "phase_walk Planned ?ts" by code_simp
  have b: "budget_spent Planned ?ts \<le> 1" by code_simp
  from w phase_walk_bounded [OF w b] show ?thesis by blast
qed

text \<open>
  A terminal attempt state has no outgoing edge and every other attempt state can enter cleanup
  or has already done so: \<open>phaseEdgesFrom\<close> is empty exactly at the terminal states, and from every
  state before cleanup the edge to \<open>cleanup_pending\<close> is declared.
\<close>

theorem terminal_or_cleanup:
  "s \<in> set PHASE_STATES \<Longrightarrow>
     (isTerminalPhase s \<longleftrightarrow> phaseEdgesFrom s = [])
     \<and> (\<not> isTerminalPhase s \<longrightarrow> s = CleanupPending \<or> s = OracleEvaluation \<or> isLegalPhaseEdge s CleanupPending)"
  unfolding PHASE_STATES_def isTerminalPhase_def PHASE_TERMINAL_STATES_def phaseEdgesFrom_def
    legal_edge_iff PHASE_TRANSITION_TABLE_def attempts_legal_edge_def
  by (cases s) simp_all

theorem terminal_or_cleanup_witness:
  "phaseEdgesFrom Verified = [] \<and> phaseEdgesFrom Reviewing \<noteq> [] \<and> isLegalPhaseEdge Reviewing CleanupPending"
proof -
  have v: "Verified \<in> set PHASE_STATES" and r: "Reviewing \<in> set PHASE_STATES" by code_simp+
  have t: "isTerminalPhase Verified" and n: "\<not> isTerminalPhase Reviewing" by code_simp+
  from terminal_or_cleanup [OF v] terminal_or_cleanup [OF r] t n show ?thesis by simp
qed

end
