(* ===== verification/Breaker.thy ===== *)
theory Breaker
  imports Js
begin

text \<open>
  The circuit breaker of \<open>orchestrator/src/core/breaker.ts\<close>: the normalisation of an error to a
  signature, the counters and the transition each iteration result causes. The abstract account is
  the history of results since the last progress; the counters are shown to be exactly the counts
  of that history.

  \<open>errorCounts\<close> is a map from signatures to counts. In the code it is a plain object, which reads an
  inherited member for a signature that is a name of \<open>Object.prototype\<close> (\<open>constructor\<close>,
  \<open>toString\<close>, ...) and then never reaches the threshold; such signatures are outside the model. A mutated state is returned next to the transition.
\<close>

section \<open>Global regular-expression replacement\<close>

text \<open>
  A matcher looks at the character before the position (for \<open>\b\<close>) and at the rest of the text and
  gives the length of its match there. \<open>replace_all\<close> is \<open>String.prototype.replace\<close> with the \<open>g\<close>
  flag: leftmost matches, continuing after each of them.
\<close>

type_synonym matcher = "char option \<Rightarrow> string \<Rightarrow> nat option"

function replace_all :: "matcher \<Rightarrow> string \<Rightarrow> char option \<Rightarrow> string \<Rightarrow> string" where
  "replace_all m r prev [] = []"
| "replace_all m r prev (c # cs) =
     (case m prev (c # cs) of
        Some (Suc n) \<Rightarrow> r @ replace_all m r (Some (last (take (Suc n) (c # cs)))) (drop n cs)
      | _ \<Rightarrow> c # replace_all m r (Some c) cs)"
  by pat_completeness auto
termination
  by (relation "measure (\<lambda>(m, r, prev, s). length s)") (auto simp: less_Suc_eq_le)

definition is_word :: "char \<Rightarrow> bool" where
  "is_word c = (is_digit c \<or> is_upper c \<or> is_lower c \<or> c = CHR ''_'')"

definition word_start :: "char option \<Rightarrow> bool" where
  "word_start prev = (case prev of None \<Rightarrow> True | Some c \<Rightarrow> \<not> is_word c)"

definition digits_at :: "string \<Rightarrow> nat" where
  "digits_at s = length (takeWhile is_digit s)"

text \<open>\<open>/:\d+/\<close>\<close>

definition m_colon :: matcher where
  "m_colon prev s =
     (if starts_with s '':'' \<and> digits_at (drop 1 s) > 0 then Some (1 + digits_at (drop 1 s)) else None)"

text \<open>\<open>/\bline \d+/i\<close> and \<open>/\bat \d+/\<close>\<close>

definition m_line :: matcher where
  "m_line prev s =
     (if word_start prev \<and> map to_lower (take 5 s) = ''line '' \<and> digits_at (drop 5 s) > 0
      then Some (5 + digits_at (drop 5 s)) else None)"

definition m_at :: matcher where
  "m_at prev s =
     (if word_start prev \<and> starts_with s ''at '' \<and> digits_at (drop 3 s) > 0
      then Some (3 + digits_at (drop 3 s)) else None)"

text \<open>\<open>/\d{4}-\d{2}-\d{2}T[\d:.-]+/\<close>\<close>

definition is_time_char :: "char \<Rightarrow> bool" where
  "is_time_char c = (is_digit c \<or> c \<in> set '':.-'')"

definition m_timestamp :: matcher where
  "m_timestamp prev s =
     (let n = length (takeWhile is_time_char (drop 11 s)) in
      if length s \<ge> 11 \<and> list_all is_digit (take 4 s) \<and> s ! 4 = CHR ''-''
         \<and> list_all is_digit (take 2 (drop 5 s)) \<and> s ! 7 = CHR ''-''
         \<and> list_all is_digit (take 2 (drop 8 s)) \<and> s ! 10 = CHR ''T'' \<and> n > 0
      then Some (11 + n) else None)"

text \<open>\<open>/0x[0-9a-f]+/i\<close>\<close>

definition m_address :: matcher where
  "m_address prev s =
     (let n = length (takeWhile (\<lambda>c. is_hex (to_lower c)) (drop 2 s)) in
      if map to_lower (take 2 s) = ''0x'' \<and> n > 0 then Some (2 + n) else None)"

definition extractErrorSignature :: "string \<Rightarrow> string" where
  "extractErrorSignature error =
     trim (replace_all m_address ''0xADDR'' None
       (replace_all m_timestamp ''TIMESTAMP'' None
         (replace_all m_at ''at N'' None
           (replace_all m_line ''line N'' None
             (replace_all m_colon '':N'' None error)))))"

section \<open>State and transitions\<close>

record CircuitBreakerState =
  errorCounts :: "string \<rightharpoonup> nat"
  threshold :: int
  is_open :: bool
  iterationCount :: nat
  stallCount :: nat

record IterationResult =
  error :: "string option"
  gitTreeChanged :: bool
  workerClaimedFilesChanged :: "int option"

datatype CircuitTransition =
    Closed
  | Opened string
  | Half_Open
  | Reset string

fun transition_canExecute :: "CircuitTransition \<Rightarrow> bool" where
  "transition_canExecute (Opened r) = False"
| "transition_canExecute _ = True"

definition createBreakerState :: "int \<Rightarrow> CircuitBreakerState" where
  "createBreakerState n =
     \<lparr>errorCounts = Map.empty, threshold = n, is_open = False, iterationCount = 0, stallCount = 0\<rparr>"

definition canExecute :: "CircuitBreakerState \<Rightarrow> bool" where
  "canExecute s = (\<not> is_open s)"

text \<open>\<open>if (result.error)\<close>: neither null nor the empty string.\<close>

definition truthy :: "string option \<Rightarrow> bool" where
  "truthy e = (case e of None \<Rightarrow> False | Some s \<Rightarrow> s \<noteq> [])"

definition count_of :: "(string \<rightharpoonup> nat) \<Rightarrow> string \<Rightarrow> nat" where
  "count_of m k = (case m k of Some n \<Rightarrow> n | None \<Rightarrow> 0)"

definition reset_counters :: "CircuitBreakerState \<Rightarrow> CircuitBreakerState" where
  "reset_counters s = s\<lparr>errorCounts := Map.empty, is_open := False, stallCount := 0\<rparr>"

definition recordIterationResult ::
  "CircuitBreakerState \<Rightarrow> IterationResult \<Rightarrow> CircuitBreakerState \<times> CircuitTransition" where
  "recordIterationResult state0 result =
     (let state = state0\<lparr>iterationCount := iterationCount state0 + 1\<rparr> in
      if truthy (error result) then
        let sig = extractErrorSignature (the (error result));
            counted = state\<lparr>errorCounts := (errorCounts state)(sig \<mapsto> count_of (errorCounts state) sig + 1)\<rparr>
        in if gitTreeChanged result then
             (reset_counters counted, Reset ''git tree changed, progress detected'')
           else if int (count_of (errorCounts counted) sig) \<ge> threshold counted then
             (counted\<lparr>is_open := True\<rparr>, Opened (''threshold reached for '' @ sig))
           else if is_open counted then (counted, Opened ''breaker is open'')
           else (counted, Closed)
      else if gitTreeChanged result then
        (reset_counters state, Reset ''successful iteration with tree change'')
      else
        let stalled = state\<lparr>stallCount := stallCount state + 1\<rparr>
        in if is_open stalled then (stalled, Opened ''breaker is open'') else (stalled, Closed))"

fun run_breaker :: "CircuitBreakerState \<Rightarrow> IterationResult list \<Rightarrow> CircuitBreakerState" where
  "run_breaker s [] = s"
| "run_breaker s (r # rs) = run_breaker (fst (recordIterationResult s r)) rs"

section \<open>The history since the last progress\<close>

definition since_progress :: "IterationResult list \<Rightarrow> IterationResult list" where
  "since_progress rs = rev (takeWhile (\<lambda>r. \<not> gitTreeChanged r) (rev rs))"

definition signatures :: "IterationResult list \<Rightarrow> string list" where
  "signatures rs = map (\<lambda>r. extractErrorSignature (the (error r))) (filter (\<lambda>r. truthy (error r)) rs)"

definition stalls :: "IterationResult list \<Rightarrow> nat" where
  "stalls rs = length (filter (\<lambda>r. \<not> truthy (error r)) rs)"

lemma since_progress_simps [simp]:
  "since_progress [] = []"
  "since_progress (rs @ [r]) = (if gitTreeChanged r then [] else since_progress rs @ [r])"
  by (simp_all add: since_progress_def)

lemma since_progress_all: "\<forall>r \<in> set rs. \<not> gitTreeChanged r \<Longrightarrow> since_progress rs = rs"
  by (induction rs rule: rev_induct) auto

lemma signatures_simps [simp]:
  "signatures [] = []"
  "signatures (rs @ ss) = signatures rs @ signatures ss"
  "signatures [r] = (if truthy (error r) then [extractErrorSignature (the (error r))] else [])"
  by (simp_all add: signatures_def)

lemma stalls_simps [simp]:
  "stalls [] = 0"
  "stalls (rs @ ss) = stalls rs + stalls ss"
  "stalls [r] = (if truthy (error r) then 0 else 1)"
  by (simp_all add: stalls_def)

lemma run_breaker_snoc [simp]:
  "run_breaker s (rs @ [r]) = fst (recordIterationResult (run_breaker s rs) r)"
  by (induction rs arbitrary: s) auto

lemma count_of_upd [simp]: "count_of (m(k \<mapsto> v)) k' = (if k = k' then v else count_of m k')"
  "count_of Map.empty k = 0"
  by (simp_all add: count_of_def)

lemma ex_count_snoc:
  "(\<exists>x. n \<le> int (count_list (xs @ [y]) x)) \<longleftrightarrow>
   (\<exists>x. n \<le> int (count_list xs x)) \<or> n \<le> int (Suc (count_list xs y))"
  (is "?l \<longleftrightarrow> ?r")
proof
  assume ?l
  then obtain x where "n \<le> int (count_list (xs @ [y]) x)" by blast
  then show ?r by (cases "x = y") auto
next
  assume ?r
  then show ?l
  proof
    assume "\<exists>x. n \<le> int (count_list xs x)"
    then obtain x where "n \<le> int (count_list xs x)" by blast
    then have "n \<le> int (count_list (xs @ [y]) x)" by simp
    then show ?l by blast
  next
    assume "n \<le> int (Suc (count_list xs y))"
    then have "n \<le> int (count_list (xs @ [y]) y)" by simp
    then show ?l by blast
  qed
qed

definition tracks :: "int \<Rightarrow> CircuitBreakerState \<Rightarrow> IterationResult list \<Rightarrow> bool" where
  "tracks n s rs =
     (let h = since_progress rs in
      threshold s = n \<and> iterationCount s = length rs \<and> stallCount s = stalls h
      \<and> (\<forall>sig. count_of (errorCounts s) sig = count_list (signatures h) sig)
      \<and> (is_open s \<longleftrightarrow> (\<exists>sig. int (count_list (signatures h) sig) \<ge> n)))"

lemma count_list_snoc [simp]:
  "count_list (xs @ [y]) x = count_list xs x + (if x = y then 1 else 0)"
  by simp

lemma record_tracks:
  assumes "n \<ge> 1" and "tracks n s rs"
  shows "tracks n (fst (recordIterationResult s r)) (rs @ [r])"
proof -
  have open_iff: "is_open s \<longleftrightarrow> (\<exists>sig. int (count_list (signatures (since_progress rs)) sig) \<ge> n)"
    and cnt: "\<And>sig. count_of (errorCounts s) sig = count_list (signatures (since_progress rs)) sig"
    and rest: "threshold s = n" "iterationCount s = length rs" "stallCount s = stalls (since_progress rs)"
    using assms(2) by (auto simp: tracks_def Let_def)
  let ?h = "since_progress rs"
  show ?thesis
  proof (cases "gitTreeChanged r")
    case True
    then show ?thesis
      using rest \<open>n \<ge> 1\<close> by (auto simp: tracks_def recordIterationResult_def reset_counters_def Let_def)
  next
    case False
    show ?thesis
    proof (cases "truthy (error r)")
      case True
      let ?sig = "extractErrorSignature (the (error r))"
      have grow: "(\<exists>sig. int (count_list (signatures ?h @ [?sig]) sig) \<ge> n) \<longleftrightarrow>
          is_open s \<or> int (Suc (count_list (signatures ?h) ?sig)) \<ge> n"
        unfolding open_iff using ex_count_snoc [of n "signatures ?h" ?sig] by simp
      show ?thesis
        using True False rest cnt grow
        by (auto simp: tracks_def recordIterationResult_def Let_def)
    next
      case no_err: False
      then show ?thesis
        using False rest cnt open_iff
        by (auto simp: tracks_def recordIterationResult_def Let_def)
    qed
  qed
qed

lemma run_breaker_tracks: "n \<ge> 1 \<Longrightarrow> tracks n (run_breaker (createBreakerState n) rs) rs"
proof (induction rs rule: rev_induct)
  case Nil
  then show ?case by (simp add: tracks_def createBreakerState_def)
next
  case (snoc r rs)
  then show ?case by (simp add: record_tracks)
qed

lemma count_list_total: "set xs \<subseteq> S \<Longrightarrow> finite S \<Longrightarrow> (\<Sum>x\<in>S. count_list xs x) = length xs"
  using sum_count_set by metis


lemma pigeonhole_count:
  assumes "set xs \<subseteq> S" and "finite S" and "length xs > card S * (k - 1)" and "k \<ge> 1"
  shows "\<exists>x. k \<le> count_list xs x"
proof (rule ccontr)
  assume "\<not> ?thesis"
  then have "\<And>x. count_list xs x \<le> k - 1" using \<open>k \<ge> 1\<close> by (metis not_less_eq_eq Suc_diff_1 less_le_trans zero_less_one)
  then have "(\<Sum>x\<in>S. count_list xs x) \<le> card S * (k - 1)"
    using sum_bounded_above [of S "count_list xs" "k - 1"] by simp
  then show False using assms count_list_total [of xs S] by simp
qed

text \<open>
  C16. The breaker's counters are an exact account of the history since the last change of the git
  tree: whatever results were recorded, the count of a signature is the number of errors with that
  signature since then, \<open>stallCount\<close> is the number of results without an error since then, and the
  breaker refuses to execute exactly when some signature has occurred at least \<open>threshold\<close> times
  since then. An earlier refusal is not forgotten unless the git tree changed. Signatures are those the
  model covers: none is a name of \<open>Object.prototype\<close>.
\<close>

theorem breaker_accounts:
  fixes n :: int and rs :: "IterationResult list"
  defines "s \<equiv> run_breaker (createBreakerState n) rs"
  assumes "n \<ge> 1"
  shows "(\<forall>sig. count_of (errorCounts s) sig = count_list (signatures (since_progress rs)) sig)
         \<and> stallCount s = stalls (since_progress rs) \<and> iterationCount s = length rs
         \<and> (canExecute s \<longleftrightarrow> (\<forall>sig. int (count_list (signatures (since_progress rs)) sig) < n))"
  using run_breaker_tracks [OF assms(2), of rs]
  unfolding s_def tracks_def Let_def canExecute_def by (auto simp: not_le)

definition failing :: "string \<Rightarrow> IterationResult" where
  "failing e = \<lparr>error = Some e, gitTreeChanged = False, workerClaimedFilesChanged = None\<rparr>"

definition progressing :: IterationResult where
  "progressing = \<lparr>error = None, gitTreeChanged = True, workerClaimedFilesChanged = None\<rparr>"

lemma breaker_accounts_witness:
  "\<not> canExecute (run_breaker (createBreakerState 2)
      [failing ''E'', progressing, failing ''boom at 3'', failing ''boom at 44''])"
proof -
  let ?rs = "[failing ''E'', progressing, failing ''boom at 3'', failing ''boom at 44'']"
  have "signatures (since_progress ?rs) = [''boom at N'', ''boom at N'']" by code_simp
  then have "\<not> (\<forall>sig. int (count_list (signatures (since_progress ?rs)) sig) < 2)"
    by (intro notI, drule_tac x = "''boom at N''" in spec) simp
  then show ?thesis using breaker_accounts [of 2 ?rs] by simp
qed

text \<open>
  C17. The breaker stops a run of failures: when the results of a stretch without a git change carry
  at most \<open>k\<close> different signatures, more than \<open>k * (threshold - 1)\<close> errors open it, however the
  errors are interleaved with results that merely stall. So a worker that repeats its errors makes
  only a bounded number of failing iterations. As before no signature is a name of \<open>Object.prototype\<close>.
\<close>

theorem breaker_opens_in_bounded_failures:
  assumes "n \<ge> 1" and "\<forall>r \<in> set rs. \<not> gitTreeChanged r"
    and "card (set (signatures rs)) \<le> k" and "length (signatures rs) > k * (nat n - 1)"
  shows "\<not> canExecute (run_breaker (createBreakerState n) rs)"
proof -
  have "card (set (signatures rs)) * (nat n - 1) < length (signatures rs)"
    using assms(3,4) by (meson mult_le_mono1 le_less_trans)
  moreover have "1 \<le> nat n" using assms(1) by linarith
  ultimately obtain x where "nat n \<le> count_list (signatures rs) x"
    using pigeonhole_count [of "signatures rs" "set (signatures rs)" "nat n"] by auto
  then have "\<not> (int (count_list (signatures rs) x) < n)" by linarith
  moreover have "since_progress rs = rs" by (rule since_progress_all [OF assms(2)])
  ultimately show ?thesis
    using run_breaker_tracks [OF assms(1), of rs]
    unfolding tracks_def Let_def canExecute_def by (metis not_less)
qed

lemma breaker_opens_in_bounded_failures_witness:
  "\<not> canExecute (run_breaker (createBreakerState 2) [failing ''a:1'', failing ''b'', failing ''a:7''])"
proof -
  let ?rs = "[failing ''a:1'', failing ''b'', failing ''a:7'']"
  have sg: "signatures ?rs = [''a:N'', ''b'', ''a:N'']" by code_simp
  show ?thesis
    by (rule breaker_opens_in_bounded_failures [where k = 2]) (simp_all only: sg, simp_all add: failing_def card_insert_if)
qed

text \<open>
  The normalisation does not remove what varies in an ISO timestamp: the rule for \<open>:42\<close> runs
  first and rewrites the minutes, so the rule for timestamps stops before the milliseconds. The
  same failure logged at two times has two signatures, and a breaker with threshold 2 that sees
  it twice stays closed.
\<close>

theorem timestamps_split_signatures:
  "extractErrorSignature ''2024-01-02T10:20:30.123Z lock busy'' = ''TIMESTAMPN:N.123Z lock busy''
   \<and> extractErrorSignature ''2024-01-02T10:20:30.456Z lock busy'' = ''TIMESTAMPN:N.456Z lock busy''
   \<and> canExecute (run_breaker (createBreakerState 2)
        [failing ''2024-01-02T10:20:30.123Z lock busy'', failing ''2024-01-02T10:20:30.456Z lock busy''])"
  by (intro conjI) code_simp+

end
