(* ===== verification/Completion.thy ===== *)
theory Completion
  imports Js
begin

text \<open>
  The two diagnostic decision functions: the completion predicate of
  \<open>orchestrator/src/core/completion.ts\<close> and the salvage decision of
  \<open>orchestrator/src/core/salvage.ts\<close>. Their inputs are model output, so they are JavaScript values
  of any shape; both functions coerce every field and fail closed. Each decision is shown
  equivalent to a specification that says when it is taken.
\<close>

section \<open>Completion\<close>

datatype CompletionVerdict =
    COMMITTED string
  | UNVERIFIED string
  | BASELINE_SHA string
  | NO_TREE_CHANGE string

definition ALLOWED_COMPLETION_CALLERS :: "string list" where
  "ALLOWED_COMPLETION_CALLERS = [''cli.verdict'']"

definition evaluateCompletion :: "jsval \<Rightarrow> string \<Rightarrow> (string, CompletionVerdict) result" where
  "evaluateCompletion input caller =
     (if caller \<notin> set ALLOWED_COMPLETION_CALLERS
      then Inl (''evaluateCompletion called by unauthorized caller: '' @ caller)
      else Inr (
        if \<not> is_objectlike input then UNVERIFIED ''invalid input''
        else
          let claimedSha = (case as_string (get_prop input ''claimedSha'') of Some s \<Rightarrow> s | None \<Rightarrow> '''');
              baselineSha = (case as_string (get_prop input ''baselineSha'') of Some s \<Rightarrow> s | None \<Rightarrow> '''');
              shaExists = is_true (get_prop input ''shaExists'');
              treeChanged = is_true (get_prop input ''treeChanged'');
              gateGreen = get_prop input ''gateGreen''
          in if claimedSha = '''' \<or> \<not> shaExists then UNVERIFIED ''no reachable commit''
             else if claimedSha = baselineSha then BASELINE_SHA ''claimed SHA equals baseline SHA''
             else if \<not> treeChanged then NO_TREE_CHANGE ''tree at claimed SHA matches baseline tree''
             else if gateGreen = JBool False then UNVERIFIED ''gate verdict was not green''
             else COMMITTED claimedSha))"

section \<open>Salvage\<close>

datatype SalvageDisposition = Ff_Reattached | Committed_Done | Archived_Todo | No_Op | Salvage_Error

record SalvageDecision =
  disposition :: SalvageDisposition
  reason :: string
  stagedPaths :: "string list option"

text \<open>\<open>ownedPaths.filter((p): p is string => typeof p === "string")\<close>\<close>

definition owned_paths :: "jsval \<Rightarrow> string list" where
  "owned_paths v =
     (case as_array v of None \<Rightarrow> [] | Some vs \<Rightarrow> map the (filter (\<lambda>s. s \<noteq> None) (map as_string vs)))"

definition decideSalvage :: "jsval \<Rightarrow> SalvageDecision" where
  "decideSalvage input =
     (if \<not> is_objectlike input
      then \<lparr>disposition = Salvage_Error, reason = ''invalid input'', stagedPaths = None\<rparr>
      else
        let gatePassed = is_true (get_prop input ''gatePassed'');
            treeChanged = is_true (get_prop input ''treeChanged'');
            orphanReset = is_true (get_prop input ''orphanReset'');
            ffReattachPossible = is_true (get_prop input ''ffReattachPossible'');
            ownedPaths = owned_paths (get_prop input ''ownedPaths'')
        in if orphanReset \<and> ffReattachPossible
           then \<lparr>disposition = Ff_Reattached,
                 reason = ''orphan-reset detected, fast-forward reattach possible'', stagedPaths = None\<rparr>
           else if gatePassed \<and> treeChanged
           then \<lparr>disposition = Committed_Done,
                 reason = ''gate passing and tree changed'', stagedPaths = Some ownedPaths\<rparr>
           else if \<not> gatePassed \<and> treeChanged
           then \<lparr>disposition = Archived_Todo,
                 reason = ''gate failing but tree changed; capture for authorized recovery'',
                 stagedPaths = Some ownedPaths\<rparr>
           else if gatePassed \<and> \<not> treeChanged
           then \<lparr>disposition = No_Op, reason = ''no tree changes to salvage'', stagedPaths = None\<rparr>
           else \<lparr>disposition = Salvage_Error,
                 reason = ''salvage could not determine a disposition'', stagedPaths = None\<rparr>)"

section \<open>Properties\<close>

lemma get_prop_nonobject: "\<not> is_objectlike v \<Longrightarrow> get_prop v k = JUndef"
  by (cases v) (simp_all add: is_objectlike_def get_prop_def)

text \<open>
  The completion predicate answers \<open>COMMITTED\<close> for exactly the inputs that carry every piece of
  evidence, whatever JavaScript value it is given: a non-empty claimed commit different from the
  baseline, \<open>shaExists\<close> and \<open>treeChanged\<close> literally \<open>true\<close>, and a gate verdict that is not
  \<open>false\<close>; the commit it reports is the claimed one, and no caller outside the allowlist gets an
  answer.
\<close>

theorem completion_committed_iff:
  "evaluateCompletion input caller = Inr (COMMITTED c) \<longleftrightarrow>
     caller = ''cli.verdict'' \<and> get_prop input ''claimedSha'' = JStr c \<and> c \<noteq> ''''
     \<and> get_prop input ''baselineSha'' \<noteq> JStr c
     \<and> get_prop input ''shaExists'' = JBool True \<and> get_prop input ''treeChanged'' = JBool True
     \<and> get_prop input ''gateGreen'' \<noteq> JBool False"
proof (cases "is_objectlike input")
  case True
  then show ?thesis
    by (auto simp: evaluateCompletion_def ALLOWED_COMPLETION_CALLERS_def Let_def is_true_def
        as_string_Some [symmetric] split: option.splits)
next
  case False
  then show ?thesis
    by (auto simp: evaluateCompletion_def ALLOWED_COMPLETION_CALLERS_def get_prop_nonobject)
qed

lemma owned_paths_strings: "p \<in> set (owned_paths v) \<longleftrightarrow> (\<exists>vs. v = JArr vs \<and> JStr p \<in> set vs)"
proof (cases v)
  case (JArr vs)
  have "as_string x = Some p \<longleftrightarrow> x = JStr p" for x by (rule as_string_Some)
  then have "p \<in> set (owned_paths v) \<longleftrightarrow> (\<exists>x \<in> set vs. x = JStr p)"
    unfolding JArr owned_paths_def by (force simp: image_iff)
  then show ?thesis by (simp add: JArr)
qed (simp_all add: owned_paths_def as_array_def)

text \<open>
  C18. The salvage decision is total and fails closed: a path is handed to staging only when the
  tree changed, only when no fast-forward reattachment applies, and only when it is a string of
  the declared \<open>ownedPaths\<close>; work is presented as done only when the gate literally passed; and the
  error disposition is the answer exactly when there is nothing to reattach, no passing gate and no
  change.
\<close>

theorem salvage_fails_closed:
  "(\<forall>ps. stagedPaths (decideSalvage input) = Some ps \<longrightarrow>
      get_prop input ''treeChanged'' = JBool True
      \<and> \<not> (get_prop input ''orphanReset'' = JBool True \<and> get_prop input ''ffReattachPossible'' = JBool True)
      \<and> (\<forall>p \<in> set ps. \<exists>vs. get_prop input ''ownedPaths'' = JArr vs \<and> JStr p \<in> set vs))
   \<and> (disposition (decideSalvage input) = Committed_Done \<longrightarrow>
        get_prop input ''gatePassed'' = JBool True \<and> get_prop input ''treeChanged'' = JBool True)
   \<and> (disposition (decideSalvage input) = Salvage_Error \<longleftrightarrow>
        get_prop input ''gatePassed'' \<noteq> JBool True \<and> get_prop input ''treeChanged'' \<noteq> JBool True
        \<and> \<not> (get_prop input ''orphanReset'' = JBool True \<and> get_prop input ''ffReattachPossible'' = JBool True))"
proof (cases "is_objectlike input")
  case True
  then show ?thesis
    by (auto simp: decideSalvage_def Let_def is_true_def owned_paths_strings split: if_splits)
next
  case False
  then show ?thesis by (auto simp: decideSalvage_def get_prop_nonobject)
qed

definition sample_salvage :: jsval where
  "sample_salvage = JObj [(''gatePassed'', JBool True), (''treeChanged'', JBool True),
                          (''ownedPaths'', JArr [JStr ''src/a.ts'', JNum 3])]"

lemma salvage_fails_closed_witness:
  "stagedPaths (decideSalvage sample_salvage) = Some [''src/a.ts'']
   \<and> get_prop sample_salvage ''treeChanged'' = JBool True"
proof
  show "stagedPaths (decideSalvage sample_salvage) = Some [''src/a.ts'']" by code_simp
  then show "get_prop sample_salvage ''treeChanged'' = JBool True"
    using salvage_fails_closed [of sample_salvage] by blast
qed

end
