(* ===== verification/Run_Outcome.thy ===== *)
theory Run_Outcome
  imports Prelude
begin

text \<open>
  The outcome of a run, \<open>orchestrator/src/lifecycle/run-outcome.ts\<close>, and the sequential queue of
  \<open>orchestrator/src/dispatch/queue.ts\<close> that produces its observations.

  The precedence of the outcome classes is a linear order on their type, so the primary class of a
  failed run is the greatest class among its issues. A thrown error is \<open>Inl\<close>; a promise the queue
  awaits is the value it settles with.
\<close>

section \<open>Outcome classes\<close>

datatype RunOutcomeClass =
    Success | Input_Contract | Capability_Unavailable | Infrastructure | Execution | Verification | Cleanup

definition RUN_OUTCOME_CLASSES :: "RunOutcomeClass list" where
  "RUN_OUTCOME_CLASSES =
     [Success, Input_Contract, Capability_Unavailable, Infrastructure, Execution, Verification, Cleanup]"

datatype RunIssueReason =
    Zero_Ticket | Zero_Completion | Partial_Failure | Ticket_Failed | Required_Gate_Failed
  | Evidence_Unverifiable | Cleanup_Failed | Infrastructure_Error | Capability_Unavailable_Reason
  | Input_Contract_Error

fun RUN_STABLE_CODES :: "RunOutcomeClass \<Rightarrow> string" where
  "RUN_STABLE_CODES Success = ''RICKGENT_OK''"
| "RUN_STABLE_CODES Input_Contract = ''RICKGENT_INPUT_CONTRACT_ERROR''"
| "RUN_STABLE_CODES Capability_Unavailable = ''RICKGENT_CAPABILITY_UNAVAILABLE''"
| "RUN_STABLE_CODES Infrastructure = ''RICKGENT_INFRASTRUCTURE_ERROR''"
| "RUN_STABLE_CODES Execution = ''RICKGENT_EXECUTION_FAILED''"
| "RUN_STABLE_CODES Verification = ''RICKGENT_VERIFICATION_FAILED''"
| "RUN_STABLE_CODES Cleanup = ''RICKGENT_CLEANUP_FAILED''"

record RunIssue =
  issue_reason :: RunIssueReason
  issue_class :: RunOutcomeClass
  issue_stableCode :: string
  issue_detail :: string
  issue_ticketId :: "string option"
  issue_gate :: "string option"
  issue_capabilityCode :: "string option"

datatype RunOutcome =
    Succeeded string
  | Failed RunOutcomeClass string "RunIssue list"

definition PRIMARY_PRECEDENCE :: "RunOutcomeClass list" where
  "PRIMARY_PRECEDENCE =
     [Cleanup, Infrastructure, Verification, Execution, Capability_Unavailable, Input_Contract]"

text \<open>The issue without its stable code is the record with \<open>issue_stableCode\<close> ignored.\<close>

definition runIssue :: "RunIssue \<Rightarrow> string option \<Rightarrow> RunIssue" where
  "runIssue issue stableCode =
     issue\<lparr>issue_stableCode := (case stableCode of Some c \<Rightarrow> c | None \<Rightarrow> RUN_STABLE_CODES (issue_class issue))\<rparr>"

definition aggregateRunOutcome :: "RunIssue list \<Rightarrow> (string, RunOutcome) result" where
  "aggregateRunOutcome issues =
     (if issues = [] then Inr (Succeeded ''RICKGENT_OK'')
      else case find (\<lambda>candidate. list_ex (\<lambda>i. issue_class i = candidate) issues) PRIMARY_PRECEDENCE of
             None \<Rightarrow> Inl ''failed run outcome has no recognized primary class''
           | Some primary \<Rightarrow> Inr (Failed primary (RUN_STABLE_CODES primary) issues))"

section \<open>The precedence as a linear order\<close>

fun severity :: "RunOutcomeClass \<Rightarrow> nat" where
  "severity Success = 0"
| "severity Input_Contract = 1"
| "severity Capability_Unavailable = 2"
| "severity Execution = 3"
| "severity Verification = 4"
| "severity Infrastructure = 5"
| "severity Cleanup = 6"

lemma severity_inject [simp]: "severity c = severity d \<longleftrightarrow> c = d"
  by (cases c; cases d) simp_all

instantiation RunOutcomeClass :: linorder
begin

definition less_eq_RunOutcomeClass :: "RunOutcomeClass \<Rightarrow> RunOutcomeClass \<Rightarrow> bool" where
  "less_eq_RunOutcomeClass c d = (severity c \<le> severity d)"

definition less_RunOutcomeClass :: "RunOutcomeClass \<Rightarrow> RunOutcomeClass \<Rightarrow> bool" where
  "less_RunOutcomeClass c d = (severity c < severity d)"

instance
  by standard (auto simp: less_eq_RunOutcomeClass_def less_RunOutcomeClass_def)

end

lemma precedence_descending: "sorted_wrt (\<lambda>a b. b < a) PRIMARY_PRECEDENCE"
  by (simp add: PRIMARY_PRECEDENCE_def less_RunOutcomeClass_def)

lemma precedence_complete: "set PRIMARY_PRECEDENCE = UNIV - {Success}"
proof -
  have "c \<in> set PRIMARY_PRECEDENCE \<longleftrightarrow> c \<noteq> Success" for c
    by (cases c) (simp_all add: PRIMARY_PRECEDENCE_def)
  then show ?thesis by auto
qed

lemma find_sorted_Max:
  assumes "find P xs = Some x" and "sorted_wrt (\<lambda>a b. b < a) (xs :: 'a :: linorder list)"
  shows "\<forall>y \<in> set xs. P y \<longrightarrow> y \<le> x"
  using assms by (induction xs) (auto split: if_splits)

text \<open>
  C22. The aggregate of a run is decided by its issues alone: no issue means success; otherwise the
  primary class is the greatest class of the precedence order among the issues (cleanup above
  infrastructure above verification above execution above the preflight classes), the stable code is
  that class's, and every issue is kept. The error branch is unreachable for issues of the
  declared classes.
\<close>

theorem aggregate_outcome_is_greatest_class:
  assumes "\<forall>i \<in> set issues. issue_class i \<noteq> Success"
  shows "aggregateRunOutcome issues =
     (if issues = [] then Inr (Succeeded (RUN_STABLE_CODES Success))
      else let p = Max (set (map issue_class issues)) in Inr (Failed p (RUN_STABLE_CODES p) issues))"
proof (cases "issues = []")
  case True
  then show ?thesis by (simp add: aggregateRunOutcome_def)
next
  case False
  let ?P = "\<lambda>c. list_ex (\<lambda>i. issue_class i = c) issues"
  let ?C = "set (map issue_class issues)"
  have P: "?P c \<longleftrightarrow> c \<in> ?C" for c by (auto simp: list_ex_iff)
  obtain i where "i \<in> set issues" using False by (cases issues) auto
  then have "issue_class i \<in> set PRIMARY_PRECEDENCE \<and> ?P (issue_class i)"
    using assms by (auto simp: precedence_complete list_ex_iff)
  then obtain p where p: "find ?P PRIMARY_PRECEDENCE = Some p"
    by (metis find_None_iff option.exhaust)
  have "Max ?C = p"
  proof (rule Max_eqI)
    show "finite ?C" by simp
    show "p \<in> ?C" using find_Some_in [OF p] P by blast
    show "y \<le> p" if "y \<in> ?C" for y
      using find_sorted_Max [OF p precedence_descending] that assms P precedence_complete by auto
  qed
  then show ?thesis using False p by (simp add: aggregateRunOutcome_def Let_def)
qed

definition sample_issue :: "RunOutcomeClass \<Rightarrow> RunIssue" where
  "sample_issue c = runIssue \<lparr>issue_reason = Ticket_Failed, issue_class = c, issue_stableCode = '''',
     issue_detail = ''d'', issue_ticketId = None, issue_gate = None, issue_capabilityCode = None\<rparr> None"

lemma aggregate_outcome_is_greatest_class_witness:
  "\<exists>is. aggregateRunOutcome [sample_issue Execution, sample_issue Cleanup, sample_issue Verification]
     = Inr (Failed Cleanup ''RICKGENT_CLEANUP_FAILED'' is)"
proof -
  let ?is = "[sample_issue Execution, sample_issue Cleanup, sample_issue Verification]"
  have "Max {Execution, Cleanup, Verification} = Cleanup"
    by (rule Max_eqI) (auto simp: less_eq_RunOutcomeClass_def)
  then show ?thesis
    using aggregate_outcome_is_greatest_class [of ?is]
    by (simp add: sample_issue_def runIssue_def Let_def)
qed

end
