(* ===== verification/Dispatch.thy ===== *)
theory Dispatch
  imports Canonical_Json
begin

text \<open>
  Dispatch identities (\<open>canonicalDispatchId\<close> of \<open>context/execution-context.ts\<close>), the append-only
  dispatch ledger of \<open>dispatch/dispatch.ts\<close> and the sequential queue of \<open>dispatch/queue.ts\<close>.

  The worker is the argument \<open>dispatchFn\<close> of \<open>drain\<close>: a function of a world of any type, settling
  with an entry or throwing a message. The clock is a function of the world. The ledger is the list
  of the entries appended to it; its file holds one JSON text per entry and is not modelled.
\<close>

section \<open>Identities\<close>

record DispatchId =
  runId :: string
  ticketId :: string
  dispatch_phase :: string
  attempt :: jsval
  dispatch_role :: string

text \<open>\<open>/^[A-Za-z0-9][A-Za-z0-9._:-]*$/\<close>\<close>

definition alnum :: "char \<Rightarrow> bool" where
  "alnum c = (is_upper c \<or> is_lower c \<or> is_digit c)"

definition is_id_component :: "string \<Rightarrow> bool" where
  "is_id_component s =
     (case s of [] \<Rightarrow> False | c # cs \<Rightarrow> alnum c \<and> list_all (\<lambda>d. alnum d \<or> d \<in> set ''._:-'') cs)"

definition requireComponent :: "string \<Rightarrow> string \<Rightarrow> (string, string) result" where
  "requireComponent value label =
     (if is_id_component value then Inr value
      else Inl (label @ '' must be a non-empty canonical identity token''))"

definition canonicalDispatchId :: "DispatchId \<Rightarrow> (string, string) result" where
  "canonicalDispatchId did =
     rbind (requireComponent (runId did) ''dispatch.runId'') (\<lambda>run.
     rbind (requireComponent (ticketId did) ''dispatch.ticketId'') (\<lambda>ticket.
     rbind (requireComponent (dispatch_phase did) ''dispatch.phase'') (\<lambda>phase.
     rbind (requireComponent (dispatch_role did) ''dispatch.role'') (\<lambda>role.
       case as_safe_int (attempt did) of
         None \<Rightarrow> Inl ''dispatch.attempt must be a positive safe integer''
       | Some n \<Rightarrow>
           if n < 1 then Inl ''dispatch.attempt must be a positive safe integer''
           else Inr (run @ ''/'' @ ticket @ ''/'' @ phase @ ''/'' @ show_int n @ ''/'' @ role)))))"

section \<open>Ledger entries\<close>

datatype DispatchState =
    Planned | Spawned | Db_Session_Observed | Implementation_Captured | Completed
  | Timed_Out | Killed | Salvage_Started | Salvaged
  | Dispatch_Failed | Retried | Ignored_Late | Dispatch_Cleanup_Pending

datatype DispatchTerminalReason =
    Worker_Failed | Evidence_Unverifiable_Reason | Infrastructure_Error_Reason | Routing_Denied
  | Breaker_Deferred | Ownership_Unproven

text \<open>The fields the queue and the ledger read or write; the evidence fields are one value.\<close>

record DispatchEntry =
  dispatchId :: string
  state :: DispatchState
  pid :: "int option"
  startedAt :: "string option"
  completedAt :: "string option"
  exitCode :: "int option"
  stdout :: "string option"
  stderr :: "string option"
  ownershipReleased :: "bool option"
  terminalReason :: "DispatchTerminalReason option"
  evidence_fields :: jsval

definition TERMINAL_STATES :: "DispatchState list" where
  "TERMINAL_STATES = [Completed, Timed_Out, Killed, Salvaged, Dispatch_Failed, Retried, Ignored_Late]"

text \<open>\<open>DispatchLedger.find\<close>: the most recent entry of the identity.\<close>

definition ledger_find :: "DispatchEntry list \<Rightarrow> string \<Rightarrow> DispatchEntry option" where
  "ledger_find entries ident = find (\<lambda>e. dispatchId e = ident) (rev entries)"

definition isTerminal :: "DispatchEntry list \<Rightarrow> string \<Rightarrow> bool" where
  "isTerminal entries ident =
     (case ledger_find entries ident of None \<Rightarrow> False | Some e \<Rightarrow> state e \<in> set TERMINAL_STATES)"

definition ledger_append :: "DispatchEntry list \<Rightarrow> DispatchEntry \<Rightarrow> DispatchEntry list" where
  "ledger_append entries e = entries @ [e]"

section \<open>The queue\<close>

definition plannedEntry :: "string \<Rightarrow> DispatchEntry" where
  "plannedEntry ident =
     \<lparr>dispatchId = ident, state = Planned, pid = None, startedAt = None, completedAt = None,
      exitCode = None, stdout = None, stderr = None, ownershipReleased = None, terminalReason = None,
      evidence_fields = JUndef\<rparr>"

definition failClosedEntry :: "string \<Rightarrow> string \<Rightarrow> string \<Rightarrow> DispatchEntry" where
  "failClosedEntry ident why now =
     \<lparr>dispatchId = ident, state = Dispatch_Failed, pid = None, startedAt = None, completedAt = Some now,
      exitCode = None, stdout = None, stderr = Some why, ownershipReleased = None,
      terminalReason = Some Infrastructure_Error_Reason, evidence_fields = JUndef\<rparr>"

record DispatchQueue =
  queued :: "DispatchId list"
  ledger :: "DispatchEntry list"

definition new_queue :: "DispatchEntry list \<Rightarrow> int \<Rightarrow> (string, DispatchQueue) result" where
  "new_queue entries maxConcurrent =
     (if maxConcurrent \<noteq> 1
      then Inl ''maxConcurrent must be exactly 1 for the sequential fixture profile''
      else Inr \<lparr>queued = [], ledger = entries\<rparr>)"

text \<open>The id is pushed before its identity is checked, so the queue a throw leaves holds it.\<close>

definition enqueue :: "DispatchQueue \<Rightarrow> DispatchId \<Rightarrow> DispatchQueue \<times> (string, unit) result" where
  "enqueue q did =
     (let pushed = q\<lparr>queued := queued q @ [did]\<rparr> in
      case canonicalDispatchId did of
        Inl e \<Rightarrow> (pushed, Inl e)
      | Inr s \<Rightarrow> (pushed\<lparr>ledger := ledger_append (ledger pushed) (plannedEntry s)\<rparr>, Inr ()))"

datatype hook_call = OnSpawn string nat | OnSettle string DispatchEntry nat

record DrainResult =
  results :: "string \<rightharpoonup> DispatchEntry"
  spawnOrder :: "string list"
  maxActiveObserved :: nat

type_synonym 'w dispatch_fn = "'w \<Rightarrow> DispatchId \<Rightarrow> 'w \<times> (string, DispatchEntry) result"

text \<open>One iteration of the loop: the settled entry, a throw captured as a failed one.\<close>

definition settle :: "'w dispatch_fn \<Rightarrow> ('w \<Rightarrow> string) \<Rightarrow> 'w \<Rightarrow> DispatchId \<Rightarrow> string \<Rightarrow> 'w \<times> DispatchEntry" where
  "settle dispatchFn now w did idStr =
     (let (w', r) = dispatchFn w did in
      (w', case r of
             Inr entry \<Rightarrow> entry
           | Inl message \<Rightarrow>
               failClosedEntry idStr (''dispatch threw (fail-closed): '' @ message) (now w')))"

fun drain_loop ::
  "'w dispatch_fn \<Rightarrow> ('w \<Rightarrow> string) \<Rightarrow> DispatchId list \<Rightarrow> 'w \<Rightarrow> hook_call list
   \<Rightarrow> (string \<rightharpoonup> DispatchEntry) \<Rightarrow> string list
   \<Rightarrow> 'w \<times> hook_call list \<times> (string, (string \<rightharpoonup> DispatchEntry) \<times> string list) result" where
  "drain_loop dispatchFn now [] w hooks res order = (w, hooks, Inr (res, order))"
| "drain_loop dispatchFn now (did # rest) w hooks res order =
     (case canonicalDispatchId did of
        Inl e \<Rightarrow> (w, hooks, Inl e)
      | Inr idStr \<Rightarrow>
          let (w', entry) = settle dispatchFn now w did idStr;
              hooks' = hooks @ [OnSpawn idStr 1, OnSettle idStr entry 0]
          in if ownershipReleased entry = Some False
             then (w', hooks', Inr (res(idStr \<mapsto> entry), order @ [idStr]))
             else drain_loop dispatchFn now rest w' hooks' (res(idStr \<mapsto> entry)) (order @ [idStr]))"

definition drain ::
  "'w dispatch_fn \<Rightarrow> ('w \<Rightarrow> string) \<Rightarrow> DispatchQueue \<Rightarrow> 'w
   \<Rightarrow> 'w \<times> hook_call list \<times> (string, DrainResult) result" where
  "drain dispatchFn now q w =
     (let (w', hooks, r) = drain_loop dispatchFn now (queued q) w [] Map.empty [] in
      (w', hooks, rbind r (\<lambda>(res, order).
        Inr \<lparr>results = res, spawnOrder = order,
             maxActiveObserved = (if queued q = [] then 0 else 1)\<rparr>)))"

section \<open>Properties of identities\<close>

lemma component_no_slash:
  assumes "is_id_component s"
  shows "CHR ''/'' \<notin> set s"
proof -
  have "\<not> alnum CHR ''/'' \<and> CHR ''/'' \<notin> set ''._:-''" by code_simp
  then show ?thesis using assms by (auto simp: is_id_component_def list_all_iff split: list.splits)
qed

lemma show_pos_no_slash: "n \<ge> 1 \<Longrightarrow> CHR ''/'' \<notin> set (show_int n)"
proof
  assume "n \<ge> 1" and mem: "CHR ''/'' \<in> set (show_int n)"
  then have "CHR ''/'' \<in> set (show_nat (nat n))" by (simp add: show_int_def)
  then have "is_digit CHR ''/''" using show_nat_digits [of "nat n"] by (auto simp: list_all_iff)
  moreover have "\<not> is_digit CHR ''/''" by code_simp
  ultimately show False by simp
qed

lemma slash_split:
  "\<lbrakk>CHR ''/'' \<notin> set a; CHR ''/'' \<notin> set b; a @ ''/'' @ x = b @ ''/'' @ y\<rbrakk> \<Longrightarrow> a = b \<and> x = y"
proof (induction a arbitrary: b)
  case Nil
  then show ?case by (cases b) auto
next
  case (Cons c a)
  then show ?case by (cases b) auto
qed

lemma canonicalDispatchId_Inr:
  "canonicalDispatchId did = Inr s \<longleftrightarrow>
     is_id_component (runId did) \<and> is_id_component (ticketId did) \<and> is_id_component (dispatch_phase did)
     \<and> is_id_component (dispatch_role did)
     \<and> (\<exists>n. as_safe_int (attempt did) = Some n \<and> n \<ge> 1
          \<and> s = runId did @ ''/'' @ ticketId did @ ''/'' @ dispatch_phase did @ ''/'' @ show_int n @ ''/'' @ dispatch_role did)"
  by (auto simp: canonicalDispatchId_def requireComponent_def split: if_splits option.splits)

lemma show_int_inject_plain: "show_int i = show_int j \<Longrightarrow> i = j"
  using show_int_inject [of i "'',''" j "'',''"] by simp

text \<open>
  C19. The canonical dispatch identity is a faithful name: two dispatches that are given the same
  identity string agree in run, ticket, phase, attempt and role, so ledger lookups and results keyed
  by the string never confuse two dispatches.
\<close>

theorem dispatch_identity_injective:
  assumes "canonicalDispatchId a = Inr s" and "canonicalDispatchId b = Inr s"
  shows "runId a = runId b \<and> ticketId a = ticketId b \<and> dispatch_phase a = dispatch_phase b
         \<and> attempt a = attempt b \<and> dispatch_role a = dispatch_role b"
proof -
  obtain m n where ab: "as_safe_int (attempt a) = Some m" "as_safe_int (attempt b) = Some n"
    and pos: "m \<ge> 1" "n \<ge> 1"
    and eq: "runId a @ ''/'' @ ticketId a @ ''/'' @ dispatch_phase a @ ''/'' @ show_int m @ ''/'' @ dispatch_role a
           = runId b @ ''/'' @ ticketId b @ ''/'' @ dispatch_phase b @ ''/'' @ show_int n @ ''/'' @ dispatch_role b"
    and comps: "is_id_component (runId a)" "is_id_component (runId b)" "is_id_component (ticketId a)"
      "is_id_component (ticketId b)" "is_id_component (dispatch_phase a)" "is_id_component (dispatch_phase b)"
    using assms by (auto simp: canonicalDispatchId_Inr)
  have run: "runId a = runId b" and e1: "ticketId a @ ''/'' @ dispatch_phase a @ ''/'' @ show_int m @ ''/'' @ dispatch_role a
           = ticketId b @ ''/'' @ dispatch_phase b @ ''/'' @ show_int n @ ''/'' @ dispatch_role b"
    using slash_split [OF component_no_slash component_no_slash eq] comps by auto
  have ticket: "ticketId a = ticketId b" and e2: "dispatch_phase a @ ''/'' @ show_int m @ ''/'' @ dispatch_role a
           = dispatch_phase b @ ''/'' @ show_int n @ ''/'' @ dispatch_role b"
    using slash_split [OF component_no_slash component_no_slash e1] comps by auto
  have phase: "dispatch_phase a = dispatch_phase b" and e3: "show_int m @ ''/'' @ dispatch_role a
           = show_int n @ ''/'' @ dispatch_role b"
    using slash_split [OF component_no_slash component_no_slash e2] comps by auto
  have "show_int m = show_int n \<and> dispatch_role a = dispatch_role b"
    using slash_split [OF show_pos_no_slash show_pos_no_slash e3] pos by auto
  then show ?thesis using run ticket phase ab show_int_inject_plain as_safe_int_Some by metis
qed

definition sample_id :: "int \<Rightarrow> DispatchId" where
  "sample_id n = \<lparr>runId = ''r1'', ticketId = ''t-7'', dispatch_phase = ''implement'',
                  attempt = JNum n, dispatch_role = ''worker''\<rparr>"

lemma dispatch_identity_injective_witness:
  "canonicalDispatchId (sample_id 2) = Inr ''r1/t-7/implement/2/worker''
   \<and> runId (sample_id 2) = runId (sample_id 2)"
proof -
  have c: "canonicalDispatchId (sample_id 2) = Inr ''r1/t-7/implement/2/worker''" by code_simp
  show ?thesis using c dispatch_identity_injective [OF c c] by blast
qed

section \<open>Properties of the queue\<close>

text \<open>
  The reference: every queued dispatch settled in order, each in the world the one before it left;
  a drain performs the shortest prefix of it that ends with an unreleased ownership, or all of it.
\<close>

fun settlements :: "'w dispatch_fn \<Rightarrow> ('w \<Rightarrow> string) \<Rightarrow> 'w \<Rightarrow> DispatchId list \<Rightarrow> (string \<times> DispatchEntry \<times> 'w) list" where
  "settlements f now w [] = []"
| "settlements f now w (did # dids) =
     (let s = (case canonicalDispatchId did of Inr s \<Rightarrow> s | Inl _ \<Rightarrow> ''''); (w', e) = settle f now w did s
      in (s, e, w') # settlements f now w' dids)"

fun until_first :: "('a \<Rightarrow> bool) \<Rightarrow> 'a list \<Rightarrow> 'a list" where
  "until_first P [] = []"
| "until_first P (x # xs) = (if P x then [x] else x # until_first P xs)"

lemma until_first_stops:
  "P x \<Longrightarrow> until_first P (xs @ x # ys) = until_first P (xs @ [x])"
  by (induction xs) auto

definition unreleased :: "string \<times> DispatchEntry \<times> 'w \<Rightarrow> bool" where
  "unreleased x = (ownershipReleased (fst (snd x)) = Some False)"

lemma drain_loop_spec:
  fixes f :: "'w dispatch_fn" and now :: "'w \<Rightarrow> string"
  assumes "\<forall>did \<in> set dids. is_ok (canonicalDispatchId did)"
  defines "run \<equiv> \<lambda>w dids. until_first unreleased (settlements f now w dids)"
  shows "drain_loop f now dids w hooks res order =
    (if run w dids = [] then w else snd (snd (last (run w dids))),
     hooks @ concat (map (\<lambda>(s, e, _). [OnSpawn s 1, OnSettle s e 0]) (run w dids)),
     Inr (res ++ map_of (rev (map (\<lambda>(s, e, _). (s, e)) (run w dids))), order @ map fst (run w dids)))"
  using assms(1)
proof (induction dids arbitrary: w hooks res order)
  case Nil
  then show ?case by (simp add: run_def)
next
  case (Cons did dids)
  obtain s where s: "canonicalDispatchId did = Inr s" using Cons.prems by (auto simp: is_ok_iff)
  obtain w' e where st: "settle f now w did s = (w', e)" by force
  have ih: "drain_loop f now dids w' hooks' res' order' =
    (if run w' dids = [] then w' else snd (snd (last (run w' dids))),
     hooks' @ concat (map (\<lambda>(s, e, _). [OnSpawn s 1, OnSettle s e 0]) (run w' dids)),
     Inr (res' ++ map_of (rev (map (\<lambda>(s, e, _). (s, e)) (run w' dids))), order' @ map fst (run w' dids)))"
    for hooks' res' order' using Cons.IH Cons.prems by simp
  have single: "res ++ (\<lambda>a. if a = s then Some e else None) = res(s \<mapsto> e)"
    by (rule ext) (simp add: map_add_def)
  have add: "res ++ ([s \<mapsto> e] ++ m) = res(s \<mapsto> e) ++ m" for m by (simp add: map_add_assoc [symmetric])
  show ?case
  proof (cases "ownershipReleased e = Some False")
    case True
    then show ?thesis by (simp add: run_def s st unreleased_def single fun_eq_iff)
  next
    case False
    then have "run w (did # dids) = (s, e, w') # run w' dids" by (simp add: run_def s st unreleased_def)
    then show ?thesis using False by (simp add: s st ih map_of_append add del: One_nat_def)
  qed
qed

text \<open>
  C20. The drain is the sequential prefix of the queue that ticket isolation allows: dispatches are
  spawned in queue order, each one only after the previous has settled, a throwing dispatch counts as
  a failed entry and does not stop the rest, and no dispatch is spawned after one whose entry says its
  ownership was not released. The result of an identity is its last entry, the hooks see exactly
  these spawns and settlements, and the final world is the one the last dispatch left.
\<close>

theorem drain_is_sequential_prefix:
  assumes "\<forall>did \<in> set (queued q). is_ok (canonicalDispatchId did)"
  shows "drain f now q w =
    (let run = until_first unreleased (settlements f now w (queued q)) in
     (if run = [] then w else snd (snd (last run)),
      concat (map (\<lambda>(s, e, _). [OnSpawn s 1, OnSettle s e 0]) run),
      Inr \<lparr>results = map_of (rev (map (\<lambda>(s, e, _). (s, e)) run)), spawnOrder = map fst run,
           maxActiveObserved = (if queued q = [] then 0 else 1)\<rparr>))"
  using drain_loop_spec [OF assms, of f now w "[]" Map.empty "[]"]
  by (simp add: drain_def Let_def)

text \<open>A worker that throws on attempt 1, keeps its ownership on attempt 2 and counts its runs.\<close>

definition sample_worker :: "nat dispatch_fn" where
  "sample_worker w did =
     (Suc w,
      if attempt did = JNum 1 then Inl ''boom''
      else Inr ((plannedEntry ''x'')\<lparr>ownershipReleased := Some (attempt did \<noteq> JNum 2)\<rparr>))"

definition sample_queue :: DispatchQueue where
  "sample_queue = \<lparr>queued = [sample_id 1, sample_id 2, sample_id 3], ledger = []\<rparr>"

lemma sample_ids_ok: "\<forall>did \<in> set (queued sample_queue). is_ok (canonicalDispatchId did)"
  by code_simp

lemma drain_is_sequential_prefix_witness:
  "fst (drain sample_worker (\<lambda>w. ''now'') sample_queue 0) = 2"
proof -
  have "map (\<lambda>(s, e, w). w) (until_first unreleased (settlements sample_worker (\<lambda>w. ''now'') 0 (queued sample_queue)))
        = [1, 2]"
    by code_simp
  then obtain a b a' b' where
    "until_first unreleased (settlements sample_worker (\<lambda>w. ''now'') 0 (queued sample_queue)) = [(a, b, 1), (a', b', 2)]"
    by auto
  then show ?thesis
    using drain_is_sequential_prefix [OF sample_ids_ok, of sample_worker "\<lambda>w. ''now''" 0] by (simp add: Let_def)
qed

text \<open>
  C21. An identity that \<open>enqueue\<close> refuses is nevertheless queued: the call throws, the ledger has no
  entry of it, and a later drain whose earlier dispatches all release their ownership throws when it
  reaches it, so it yields no result even for the dispatches that were performed before it.
\<close>

theorem refused_enqueue_poisons_drain:
  assumes "canonicalDispatchId did = Inl e"
    and "\<forall>d \<in> set (queued q). is_ok (canonicalDispatchId d)"
    and "\<forall>x \<in> set (settlements f now w (queued q)). \<not> unreleased x"
  shows "snd (enqueue q did) = Inl e \<and> ledger (fst (enqueue q did)) = ledger q
         \<and> snd (snd (drain f now (fst (enqueue q did)) w)) = Inl e"
proof -
  have loop: "snd (snd (drain_loop f now (dids @ [did]) w hooks res order)) = Inl e"
    if "\<forall>d \<in> set dids. is_ok (canonicalDispatchId d)"
      and "\<forall>x \<in> set (settlements f now w dids). \<not> unreleased x" for dids w hooks res order
    using that
  proof (induction dids arbitrary: w hooks res order)
    case Nil
    then show ?case by (simp add: assms(1))
  next
    case (Cons d dids)
    obtain s where s: "canonicalDispatchId d = Inr s" using Cons.prems by (auto simp: is_ok_iff)
    obtain w' en where st: "settle f now w d s = (w', en)" by force
    show ?case using Cons by (simp add: s st unreleased_def)
  qed
  show ?thesis
    using loop [OF assms(2,3), of "[]" Map.empty "[]"]
    by (auto simp: enqueue_def assms(1) Let_def drain_def split: prod.splits)
qed

lemma refused_enqueue_poisons_drain_witness:
  "snd (snd (drain (\<lambda>w d. (Suc w, Inr (plannedEntry ''x''))) (\<lambda>w. ''now'')
      (fst (enqueue \<lparr>queued = [sample_id 1], ledger = []\<rparr> ((sample_id 1)\<lparr>ticketId := ''a b''\<rparr>))) (0::nat)))
   = Inl ''dispatch.ticketId must be a non-empty canonical identity token''"
proof -
  let ?q = "\<lparr>queued = [sample_id 1], ledger = []\<rparr>" and ?d = "(sample_id 1)\<lparr>ticketId := ''a b''\<rparr>"
  have "canonicalDispatchId ?d = Inl ''dispatch.ticketId must be a non-empty canonical identity token''"
    by code_simp
  moreover have "\<forall>d \<in> set (queued ?q). is_ok (canonicalDispatchId d)" by code_simp
  ultimately show ?thesis
    using refused_enqueue_poisons_drain [of ?d _ ?q "\<lambda>w d. (Suc w, Inr (plannedEntry ''x''))" "\<lambda>w. ''now''" 0]
    by (simp add: settle_def plannedEntry_def unreleased_def)
qed

end
