(* ===== verification/Paths.thy ===== *)
theory Paths
  imports Prelude
begin

text \<open>
  The POSIX path functions of Node the sources use (\<open>isAbsolute\<close>, \<open>normalize\<close>, \<open>join\<close>, \<open>resolve\<close>,
  \<open>relative\<close>) on strings, the containment test of \<open>orchestrator/src/core/scope.ts\<close> built from them,
  and the contract of a containment relation: a tree order, as a locale whose clients reason about
  overlapping roots. An absolute canonical path is the rendering of its segments, and containment
  of such paths is the prefix order on segments.
\<close>

section \<open>Path functions\<close>

definition isAbsolute :: "string \<Rightarrow> bool" where
  "isAbsolute p = starts_with p ''/''"

fun normalize_segs :: "bool \<Rightarrow> string list \<Rightarrow> string list \<Rightarrow> string list" where
  "normalize_segs ab acc [] = rev acc"
| "normalize_segs ab acc (s # ss) =
     (if s = '''' \<or> s = ''.'' then normalize_segs ab acc ss
      else if s = ''..'' then
        (case acc of
           [] \<Rightarrow> normalize_segs ab (if ab then [] else [''..'']) ss
         | a # as \<Rightarrow> normalize_segs ab (if a = ''..'' then ''..'' # acc else as) ss)
      else normalize_segs ab (s # acc) ss)"

definition render :: "string list \<Rightarrow> string" where
  "render segs = ''/'' @ join_with ''/'' segs"

definition abs_segs :: "string \<Rightarrow> string list" where
  "abs_segs p = normalize_segs True [] (split_on CHR ''/'' p)"

definition normalize :: "string \<Rightarrow> string" where
  "normalize p =
     (if p = '''' then ''.''
      else
        let ab = isAbsolute p;
            segs = normalize_segs ab [] (split_on CHR ''/'' p);
            slash = (if ends_with p ''/'' \<and> segs \<noteq> [] then ''/'' else '''')
        in if ab then render segs @ slash
           else if segs = [] then (if ends_with p ''/'' then ''./'' else ''.'')
           else join_with ''/'' segs @ slash)"

definition path_join :: "string list \<Rightarrow> string" where
  "path_join ps =
     (let used = filter (\<lambda>p. p \<noteq> '''') ps in
      if used = [] then ''.'' else normalize (join_with ''/'' used))"

text \<open>\<open>resolve\<close> reads its arguments from the right up to the first absolute one, then the working
  directory.\<close>

fun up_to_absolute :: "string list \<Rightarrow> string list" where
  "up_to_absolute [] = []"
| "up_to_absolute (p # ps) = (if isAbsolute p then [p] else p # up_to_absolute ps)"

definition resolve :: "string \<Rightarrow> string list \<Rightarrow> string" where
  "resolve cwd ps =
     render (normalize_segs True []
       (concat (map (split_on CHR ''/'') (rev (up_to_absolute (rev (cwd # ps)))))))"

fun common_prefix :: "'a list \<Rightarrow> 'a list \<Rightarrow> nat" where
  "common_prefix (x # xs) (y # ys) = (if x = y then Suc (common_prefix xs ys) else 0)"
| "common_prefix _ _ = 0"

definition relative :: "string \<Rightarrow> string \<Rightarrow> string \<Rightarrow> string" where
  "relative cwd from to =
     (let f = abs_segs (resolve cwd [from]); t = abs_segs (resolve cwd [to]); k = common_prefix f t in
      if f = t then '''' else join_with ''/'' (replicate (length f - k) ''..'' @ drop k t))"

text \<open>\<open>pathInside\<close> of \<open>scope.ts\<close>.\<close>

definition pathInside :: "string \<Rightarrow> string \<Rightarrow> string \<Rightarrow> bool" where
  "pathInside cwd root candidate =
     (let rel = relative cwd root candidate in
      rel = '''' \<or> (rel \<noteq> ''..'' \<and> \<not> starts_with rel ''../'' \<and> \<not> isAbsolute rel))"

section \<open>Canonical paths\<close>

definition plain_seg :: "string \<Rightarrow> bool" where
  "plain_seg s = (s \<noteq> '''' \<and> s \<noteq> ''.'' \<and> s \<noteq> ''..'' \<and> CHR ''/'' \<notin> set s)"

definition canonical_path :: "string \<Rightarrow> bool" where
  "canonical_path p = (isAbsolute p \<and> render (abs_segs p) = p)"

lemma normalize_segs_plain:
  assumes "list_all plain_seg segs"
  shows "normalize_segs ab acc segs = rev acc @ segs"
  using assms by (induction segs arbitrary: acc) (auto simp: plain_seg_def)

lemma normalize_segs_is_plain:
  assumes "list_all plain_seg acc" and "\<forall>s \<in> set segs. CHR ''/'' \<notin> set s"
  shows "list_all plain_seg (normalize_segs True acc segs)"
  using assms
proof (induction segs arbitrary: acc)
  case Nil
  then show ?case by (simp add: list_all_iff)
next
  case (Cons s segs)
  then show ?case by (auto simp: plain_seg_def split: list.splits)
qed

lemma abs_segs_plain: "list_all plain_seg (abs_segs p)"
  unfolding abs_segs_def by (rule normalize_segs_is_plain) (auto dest: split_on_no_sep)

lemma split_on_append_sep: "split_on c (a @ c # b) = split_on c a @ split_on c b"
proof (induction a)
  case Nil
  then show ?case by simp
next
  case (Cons x a)
  then show ?case by (cases "split_on c a") auto
qed

lemma split_on_single: "c \<notin> set s \<Longrightarrow> split_on c s = [s]"
  by (induction s) auto

lemma split_join:
  assumes "segs \<noteq> []" and "\<forall>s \<in> set segs. c \<notin> set s"
  shows "split_on c (join_with [c] segs) = segs"
  using assms
proof (induction segs rule: induct_list012)
  case (3 x y zs)
  then show ?case using split_on_append_sep [of c x "join_with [c] (y # zs)"] by (simp add: split_on_single)
qed (auto simp: split_on_single)

lemma abs_segs_render [simp]:
  assumes "list_all plain_seg segs"
  shows "abs_segs (render segs) = segs"
proof (cases "segs = []")
  case True
  then show ?thesis by (simp add: abs_segs_def render_def)
next
  case False
  have "split_on CHR ''/'' (render segs) = [] # segs"
    using split_join [OF False, of "CHR ''/''"] assms
    by (simp add: render_def list_all_iff plain_seg_def)
  then show ?thesis by (simp add: abs_segs_def normalize_segs_plain [OF assms])
qed

lemma isAbsolute_render [simp]: "isAbsolute (render segs)"
  by (simp add: isAbsolute_def render_def starts_with_def)

lemma canonical_render [simp]: "list_all plain_seg segs \<Longrightarrow> canonical_path (render segs)"
  by (simp add: canonical_path_def)

lemma canonical_pathE:
  assumes "canonical_path p"
  obtains segs where "p = render segs" "list_all plain_seg segs" "abs_segs p = segs"
  using assms abs_segs_plain by (metis canonical_path_def)

lemma canonical_segs_inject: "canonical_path p \<Longrightarrow> canonical_path q \<Longrightarrow> abs_segs p = abs_segs q \<Longrightarrow> p = q"
  by (metis canonical_path_def)

lemma resolve_absolute: "isAbsolute p \<Longrightarrow> resolve cwd [p] = render (abs_segs p)"
  by (simp add: resolve_def abs_segs_def)

lemma resolve_canonical [simp]: "canonical_path p \<Longrightarrow> resolve cwd [p] = p"
  by (simp add: resolve_absolute canonical_path_def)

lemma resolve_is_canonical: "canonical_path (resolve cwd ps)"
  unfolding resolve_def
  by (intro canonical_render normalize_segs_is_plain) (auto dest: split_on_no_sep)

lemma up_to_absolute_rev:
  assumes "isAbsolute p" and "\<forall>q \<in> set ps. \<not> isAbsolute q"
  shows "up_to_absolute (rev (cwd # p # ps)) = rev (p # ps)"
proof -
  have "up_to_absolute (xs @ p # ys) = xs @ [p]" if "\<forall>q \<in> set xs. \<not> isAbsolute q" for xs ys
    using that assms(1) by (induction xs) auto
  from this [of "rev ps" "[cwd]"] show ?thesis using assms(2) by simp
qed

lemma split_on_plain: "plain_seg s \<Longrightarrow> split_on CHR ''/'' s = [s]"
  by (simp add: plain_seg_def split_on_single)

lemma normalize_segs_append:
  "list_all plain_seg tail \<Longrightarrow> normalize_segs ab acc (segs @ tail) = normalize_segs ab acc segs @ tail"
proof (induction segs arbitrary: acc)
  case Nil
  then show ?case by (simp add: normalize_segs_plain)
next
  case (Cons s segs)
  then show ?case by (auto split: list.splits)
qed

lemma resolve_tail:
  assumes "isAbsolute p" and "list_all plain_seg tail"
  shows "resolve cwd (p # tail) = render (abs_segs p @ tail)"
proof -
  have rel: "\<not> isAbsolute q" if "plain_seg q" for q
    using that by (cases q) (simp_all add: plain_seg_def isAbsolute_def starts_with_def eq_commute [of "CHR ''/''"])
  have "\<forall>q \<in> set tail. \<not> isAbsolute q"
    using assms(2) rel by (simp add: list_all_iff)
  then have "rev (up_to_absolute (rev (cwd # p # tail))) = p # tail"
    using up_to_absolute_rev [OF assms(1), of tail cwd] by simp
  moreover have "concat (map (split_on CHR ''/'') tail) = tail"
    using assms(2) by (induction tail) (auto simp: split_on_plain)
  ultimately show ?thesis
    using normalize_segs_append [OF assms(2)] by (simp add: resolve_def abs_segs_def)
qed

section \<open>Containment\<close>

lemma shortest_lists:
  obtains "xs = []" | a where "xs = [a]" | a b where "xs = [a, b]" | a b c cs where "xs = a # b # c # cs"
  by (metis list.exhaust)

lemma common_prefix_full: "common_prefix f t = length f \<longleftrightarrow> prefix f t"
  by (induction f t rule: common_prefix.induct) auto

lemma common_prefix_append [simp]: "common_prefix f (f @ t) = length f"
  by (simp add: common_prefix_full)

lemma common_prefix_le: "common_prefix f t \<le> length f"
  by (induction f t rule: common_prefix.induct) auto

lemma starts_with_join:
  assumes "plain_seg x"
  shows "\<not> starts_with (join_with ''/'' (x # xs)) ''../'' \<and> join_with ''/'' (x # xs) \<noteq> ''..''
         \<and> \<not> isAbsolute (join_with ''/'' (x # xs))"
proof -
  obtain rest where j: "join_with ''/'' (x # xs) = x @ rest" and rest: "rest = [] \<or> (\<exists>r. rest = CHR ''/'' # r)"
    by (cases xs) auto
  consider a where "x = [a]" | a b where "x = [a, b]" | a b c cs where "x = a # b # c # cs"
    using assms by (cases x rule: shortest_lists) (auto simp: plain_seg_def)
  then show ?thesis
    unfolding j
    by cases (insert rest assms, auto simp: starts_with_def isAbsolute_def plain_seg_def)
qed

lemma drop_join_plain:
  assumes "list_all plain_seg (x # xs)"
  shows "join_with ''/'' (x # xs) \<noteq> ''''"
  using assms by (cases xs) (auto simp: plain_seg_def)

lemma starts_with_dotdot: "starts_with (join_with ''/'' (''..'' # xs)) ''../'' \<or> join_with ''/'' (''..'' # xs) = ''..''"
  by (cases xs) (auto simp: starts_with_def)

lemma pathInside_prefix:
  assumes "canonical_path root" and "canonical_path cand"
  shows "pathInside cwd root cand \<longleftrightarrow> prefix (abs_segs root) (abs_segs cand)"
proof -
  let ?f = "abs_segs root" and ?t = "abs_segs cand" and ?k = "common_prefix (abs_segs root) (abs_segs cand)"
  have rel: "relative cwd root cand =
      (if ?f = ?t then '''' else join_with ''/'' (replicate (length ?f - ?k) ''..'' @ drop ?k ?t))"
    using assms by (simp add: relative_def Let_def)
  show ?thesis
  proof (cases "?f = ?t")
    case True
    then show ?thesis by (simp add: pathInside_def rel)
  next
    case False
    show ?thesis
    proof (cases "prefix ?f ?t")
      case True
      then obtain x xs where t: "?t = ?f @ x # xs" using False by (metis append_Nil2 neq_Nil_conv prefixE)
      have "plain_seg x" using abs_segs_plain [of cand] t by (simp add: list_all_iff)
      then show ?thesis
        using starts_with_join [of x xs] by (simp add: pathInside_def rel t)
    next
      case no: False
      then have "?k < length ?f" using common_prefix_full common_prefix_le le_neq_implies_less by metis
      then obtain n where n: "length ?f - ?k = Suc n" by (metis Suc_diff_Suc)
      have "join_with ''/'' (''..'' # ys) \<noteq> ''''" for ys by (cases ys) auto
      then show ?thesis
        using starts_with_dotdot no False by (auto simp: pathInside_def rel n Let_def)
    qed
  qed
qed

section \<open>Containment of relative paths\<close>

text \<open>Joined non-empty segments without slashes: a textual prefix ending in a slash is a segment prefix.\<close>

definition part_ok :: "string \<Rightarrow> bool" where
  "part_ok s = (CHR ''/'' \<notin> set s \<and> s \<noteq> [])"

lemma join_not_ends_slash:
  assumes "\<forall>s \<in> set xs. part_ok s"
  shows "\<not> ends_with (join_with ''/'' xs) ''/''"
proof -
  have "join_with ''/'' xs = [] \<or> (\<exists>a b. join_with ''/'' xs = a @ [b] \<and> b \<noteq> CHR ''/'')"
    using assms
  proof (induction xs rule: induct_list012)
    case (2 x)
    then show ?case by (cases x rule: rev_cases) (auto simp: part_ok_def)
  next
    case (3 x y zs)
    then have "join_with ''/'' (y # zs) \<noteq> []" by (cases zs) (auto simp: part_ok_def)
    then show ?case using 3 by fastforce
  qed simp
  then show ?thesis by (auto simp: ends_with_iff)
qed

lemma starts_with_join_iff:
  assumes "xs \<noteq> []" and "\<forall>s \<in> set xs \<union> set ys. part_ok s"
  shows "join_with ''/'' ys = join_with ''/'' xs \<or> starts_with (join_with ''/'' ys) (join_with ''/'' xs @ ''/'')
         \<longleftrightarrow> prefix xs ys"
proof
  assume "prefix xs ys"
  then obtain zs where ys: "ys = xs @ zs" by (auto simp: prefix_def)
  show "join_with ''/'' ys = join_with ''/'' xs \<or> starts_with (join_with ''/'' ys) (join_with ''/'' xs @ ''/'')"
  proof (cases zs)
    case Nil
    then show ?thesis by (simp add: ys)
  next
    case (Cons z zs')
    have "join_with ''/'' (xs @ z # zs') = join_with ''/'' xs @ ''/'' @ join_with ''/'' (z # zs')"
      using assms(1) by (induction xs rule: induct_list012) auto
    then show ?thesis by (simp add: ys Cons starts_with_def)
  qed
next
  have sp: "split_on CHR ''/'' (join_with ''/'' us) = us" if "us \<noteq> []" "\<forall>s \<in> set us. CHR ''/'' \<notin> set s" for us
    using split_join [OF that] .
  have okx: "\<forall>s \<in> set xs. CHR ''/'' \<notin> set s" and oky: "\<forall>s \<in> set ys. CHR ''/'' \<notin> set s"
    using assms(2) by (auto simp: part_ok_def)
  assume "join_with ''/'' ys = join_with ''/'' xs \<or> starts_with (join_with ''/'' ys) (join_with ''/'' xs @ ''/'')"
  then consider "join_with ''/'' ys = join_with ''/'' xs"
    | t where "join_with ''/'' ys = join_with ''/'' xs @ CHR ''/'' # t"
    by (auto simp: starts_with_iff)
  then show "prefix xs ys"
  proof cases
    case 1
    have "join_with ''/'' xs \<noteq> []" using assms by (cases xs; cases "tl xs") (auto simp: part_ok_def)
    then have "ys \<noteq> []" using 1 by auto
    then have "ys = xs" using sp [OF _ oky] sp [OF assms(1) okx] 1 by metis
    then show ?thesis by simp
  next
    case (2 t)
    then have "ys \<noteq> []" by auto
    then have "ys = xs @ split_on CHR ''/'' t"
      using sp [OF _ oky] sp [OF assms(1) okx] 2 split_on_append_sep [of "CHR ''/''" "join_with ''/'' xs" t] by simp
    then show ?thesis by simp
  qed
qed

section \<open>The contract of a containment relation\<close>

text \<open>
  What the clients of a containment test rely on: among valid names it is a preorder, and two
  roots that contain the same name contain one another. Scope fences and ownership checks compare
  roots pairwise; the lemmas say that a pairwise comparison decides disjointness of whole subtrees.
\<close>

locale tree_containment =
  fixes valid :: "'p \<Rightarrow> bool" and inside :: "'p \<Rightarrow> 'p \<Rightarrow> bool"
  assumes inside_refl: "valid a \<Longrightarrow> inside a a"
    and inside_trans: "\<lbrakk>valid a; valid b; valid c; inside a b; inside b c\<rbrakk> \<Longrightarrow> inside a c"
    and inside_chain: "\<lbrakk>valid a; valid b; valid c; inside a c; inside b c\<rbrakk> \<Longrightarrow> inside a b \<or> inside b a"
begin

lemma disjoint_roots:
  assumes "valid a" "valid b" "valid x" "\<not> inside a b" "\<not> inside b a" "inside a x"
  shows "\<not> inside b x"
  using assms inside_chain by blast

lemma overlap_iff_common:
  assumes "valid a" "valid b"
  shows "inside a b \<or> inside b a \<longleftrightarrow> (\<exists>x. valid x \<and> inside a x \<and> inside b x)"
  using assms inside_chain inside_refl by blast

lemma outside_stays_outside:
  assumes "valid a" "valid b" "valid x" "\<not> inside a x" "\<not> inside x a" "inside x b"
  shows "\<not> inside a b"
  using assms inside_chain by blast

end

text \<open>Where names are compared exactly, two roots inside one another are one root.\<close>

locale exact_containment = tree_containment +
  assumes inside_antisym: "\<lbrakk>valid a; valid b; inside a b; inside b a\<rbrakk> \<Longrightarrow> a = b"
begin

lemma overlap_cases:
  assumes "valid a" "valid b" "inside a b \<or> inside b a"
  shows "a = b \<or> (inside a b \<and> \<not> inside b a) \<or> (inside b a \<and> \<not> inside a b)"
  using assms inside_antisym by blast

end

interpretation posix: exact_containment canonical_path "pathInside cwd" for cwd
proof
  show "canonical_path a \<Longrightarrow> pathInside cwd a a" for a
    by (simp add: pathInside_prefix)
  show "\<lbrakk>canonical_path a; canonical_path b; canonical_path c; pathInside cwd a b; pathInside cwd b c\<rbrakk>
        \<Longrightarrow> pathInside cwd a c" for a b c
    by (auto simp: pathInside_prefix dest: prefix_order.trans)
  show "\<lbrakk>canonical_path a; canonical_path b; pathInside cwd a b; pathInside cwd b a\<rbrakk> \<Longrightarrow> a = b" for a b
    by (simp add: pathInside_prefix) (blast intro: canonical_segs_inject prefix_order.antisym)
  show "\<lbrakk>canonical_path a; canonical_path b; canonical_path c; pathInside cwd a c; pathInside cwd b c\<rbrakk>
        \<Longrightarrow> pathInside cwd a b \<or> pathInside cwd b a" for a b c
    by (auto simp: pathInside_prefix dest: prefix_same_cases)
qed

text \<open>
  The containment test of the scope fence, a calculation on the string \<open>path.relative\<close> returns,
  is the prefix order on path segments: for canonical absolute paths it holds exactly when the
  candidate lies at or below the root, so \<open>/w/src-old\<close> is not inside \<open>/w/src\<close> and no spelling of a
  canonical path escapes.
\<close>

theorem path_inside_is_prefix:
  assumes "canonical_path root" and "canonical_path cand"
  shows "pathInside cwd root cand \<longleftrightarrow> (\<exists>below. abs_segs cand = abs_segs root @ below)"
  using pathInside_prefix [OF assms] by (auto simp: prefix_def)

lemma path_inside_is_prefix_witness:
  "pathInside ''/'' ''/w/src'' ''/w/src/a.ts'' \<and> \<not> pathInside ''/'' ''/w/src'' ''/w/src-old''"
proof -
  have c: "canonical_path ''/w/src''" "canonical_path ''/w/src/a.ts''" "canonical_path ''/w/src-old''"
    by code_simp+
  have s: "abs_segs ''/w/src'' = [''w'', ''src'']" "abs_segs ''/w/src/a.ts'' = [''w'', ''src'', ''a.ts'']"
    "abs_segs ''/w/src-old'' = [''w'', ''src-old'']"
    by code_simp+
  show ?thesis using path_inside_is_prefix [OF c(1,2)] path_inside_is_prefix [OF c(1,3)] s by simp
qed

end
