(* ===== verification/Scope.thy ===== *)
theory Scope
  imports Paths Js
begin

text \<open>
  The scope fence, \<open>orchestrator/src/core/scope.ts\<close>: the lexical check kept for pre-canonicalised
  callers and the structured, filesystem-aware engine. Requests are JavaScript values, validated the
  way the code validates them.

  The file system is the argument \<open>fs\<close>: the working directory and the answers of \<open>realpathSync\<close>,
  \<open>statSync(_).isDirectory()\<close> and \<open>lstatSync\<close>. A thrown \<open>ScopeResolutionError\<close> and an early
  \<open>return deny(...)\<close> are both \<open>Inl reason\<close>: the request is denied for that reason. Where the code
  concatenates the declared paths into a reason, values other than JSON's are not rendered.
\<close>

section \<open>The lexical check\<close>

datatype ScopeVerdict = ALLOW | DENY string

fun pop :: "string list \<Rightarrow> string list" where
  "pop [] = []"
| "pop (x # xs) = xs"

text \<open>\<open>resolved\<close> is kept reversed: its last element is the head.\<close>

fun canonicalize_parts :: "string list \<Rightarrow> string list \<Rightarrow> string list" where
  "canonicalize_parts resolved [] = rev resolved"
| "canonicalize_parts resolved (part # parts) =
     (if part = ''.'' \<or> part = '''' then canonicalize_parts resolved parts
      else if part = ''..'' then canonicalize_parts (pop resolved) parts
      else canonicalize_parts (part # resolved) parts)"

definition canonicalizePath :: "string \<Rightarrow> string" where
  "canonicalizePath path = join_with ''/'' (canonicalize_parts [] (split_on CHR ''/'' path))"

definition isPathInScope :: "string \<Rightarrow> string \<Rightarrow> bool" where
  "isPathInScope target scope =
     (target = scope \<or>
      (if ends_with scope ''/'' then starts_with target scope else starts_with target (scope @ ''/'')))"

text \<open>\<open>String(v)\<close> as \<open>Array.prototype.join\<close> applies it to JSON values.\<close>

fun js_joined :: "jsval \<Rightarrow> string" where
  "js_joined (JStr s) = s"
| "js_joined (JNum i) = show_int i"
| "js_joined (JReal r) = r"
| "js_joined (JBool b) = (if b then ''true'' else ''false'')"
| "js_joined (JArr vs) = join_with '','' (map js_joined vs)"
| "js_joined (JObj _) = ''[object Object]''"
| "js_joined _ = ''''"

definition checkScope :: "jsval \<Rightarrow> ScopeVerdict" where
  "checkScope input =
     (if \<not> is_objectlike input then DENY ''invalid input''
      else
        let isWrite = get_prop input ''isWrite'' = JBool True;
            isRead = get_prop input ''isWrite'' = JBool False;
            targetPath = (case as_string (get_prop input ''targetPath'') of Some s \<Rightarrow> s | None \<Rightarrow> '''');
            declaredPaths = (case as_array (get_prop input ''declaredPaths'') of Some vs \<Rightarrow> vs | None \<Rightarrow> [])
        in if \<not> isWrite \<and> \<not> isRead then DENY ''invalid isWrite field''
           else if \<not> isWrite then ALLOW
           else if targetPath = '''' then DENY ''unresolvable write target''
           else
             let canonicalTarget = canonicalizePath targetPath in
             if list_ex (\<lambda>d. case as_string d of
                   Some declared \<Rightarrow> isPathInScope canonicalTarget (canonicalizePath declared)
                 | None \<Rightarrow> False) declaredPaths
             then ALLOW
             else DENY (canonicalTarget @ '' not in declared paths ['' @
                        join_with '', '' (map js_joined declaredPaths) @ '']''))"

section \<open>Requests, verdicts and the file system\<close>

datatype ScopeChangeKind = Create | Modify | Delete | Rename

datatype StructuredScopeVerdict =
    Allow "ScopeChangeKind option"
  | Abstain
  | Deny "ScopeChangeKind option" string

datatype io_error = ENOENT | Other_IO

record Fs =
  cwd :: string
  realpathSync :: "string \<Rightarrow> (io_error, string) result"
  statIsDirectory :: "string \<Rightarrow> (io_error, bool) result"
  lstatSync :: "string \<Rightarrow> (io_error, unit) result"

datatype op_kind = Op_Read | Op_Change ScopeChangeKind | Op_Link

definition parse_change_kind :: "jsval \<Rightarrow> ScopeChangeKind option" where
  "parse_change_kind v =
     (if v = JStr ''create'' then Some Create
      else if v = JStr ''modify'' then Some Modify
      else if v = JStr ''delete'' then Some Delete
      else if v = JStr ''rename'' then Some Rename
      else None)"

definition parse_op_kind :: "jsval \<Rightarrow> op_kind option" where
  "parse_op_kind v =
     (if v = JStr ''read'' then Some Op_Read
      else if v = JStr ''link'' then Some Op_Link
      else map_option Op_Change (parse_change_kind v))"

fun kind_name :: "ScopeChangeKind \<Rightarrow> string" where
  "kind_name Create = ''create''"
| "kind_name Modify = ''modify''"
| "kind_name Delete = ''delete''"
| "kind_name Rename = ''rename''"

record ProvenDeclaration =
  changeKind :: ScopeChangeKind
  is_directory :: bool
  path :: string
  fromPath :: "string option"

section \<open>Proving roots, declarations and endpoints\<close>

definition canonicalExistingDirectory :: "Fs \<Rightarrow> jsval \<Rightarrow> string \<Rightarrow> (string, string) result" where
  "canonicalExistingDirectory fs v label =
     (case as_string v of
        None \<Rightarrow> Inl (label @ '' is not a canonical absolute path'')
      | Some p \<Rightarrow>
          if p = '''' \<or> \<not> isAbsolute p \<or> resolve (cwd fs) [p] \<noteq> p
          then Inl (label @ '' is not a canonical absolute path'')
          else case realpathSync fs p of
                 Inl _ \<Rightarrow> Inl (label @ '' is unavailable'')
               | Inr canonical \<Rightarrow>
                   (case statIsDirectory fs canonical of
                      Inl _ \<Rightarrow> Inl (label @ '' is unavailable'')
                    | Inr d \<Rightarrow>
                        if \<not> d then Inl (label @ '' is not a directory'')
                        else if canonical \<noteq> p then Inl (label @ '' is not canonical'')
                        else Inr canonical))"

text \<open>\<open>/^[A-Za-z]:[\\/]/\<close>\<close>

definition drive_prefix :: "string \<Rightarrow> bool" where
  "drive_prefix p =
     (case p of a # b # c # _ \<Rightarrow> (is_upper a \<or> is_lower a) \<and> b = CHR '':'' \<and> (c = CHR 0x5C \<or> c = CHR ''/'')
      | _ \<Rightarrow> False)"

definition validateRelativePath :: "jsval \<Rightarrow> string \<Rightarrow> (string, string) result" where
  "validateRelativePath v label =
     (case as_string v of
        None \<Rightarrow> Inl (label @ '' is empty or malformed'')
      | Some p \<Rightarrow>
          if p = '''' \<or> CHR 0x00 \<in> set p then Inl (label @ '' is empty or malformed'')
          else if isAbsolute p \<or> drive_prefix p \<or> CHR 0x5C \<in> set p
          then Inl (label @ '' must be a portable root-relative path'')
          else if list_ex (\<lambda>part. part = '''' \<or> part = ''.'' \<or> part = ''..'') (split_on CHR ''/'' p)
          then Inl (label @ '' is not a canonical relative path'')
          else Inr p)"

text \<open>
  \<open>realpathNearestExisting\<close>: \<open>current\<close> is a resolved absolute path, here its segments in reverse, so
  \<open>dirname\<close> drops the head and the root is the empty list; \<open>tail\<close> are the segments taken off.
\<close>

fun nearest_loop :: "Fs \<Rightarrow> string list \<Rightarrow> string list \<Rightarrow> (string, string) result" where
  "nearest_loop fs rsegs tail =
     (case realpathSync fs (render (rev rsegs)) of
        Inr canonical \<Rightarrow> Inr (if tail = [] then canonical else resolve (cwd fs) (canonical # tail))
      | Inl Other_IO \<Rightarrow> Inl ''path cannot be resolved safely''
      | Inl ENOENT \<Rightarrow>
          (case lstatSync fs (render (rev rsegs)) of
             Inr _ \<Rightarrow> Inl ''path contains an unresolved symbolic link''
           | Inl Other_IO \<Rightarrow> Inl ''path identity cannot be proven''
           | Inl ENOENT \<Rightarrow>
               (case rsegs of
                  [] \<Rightarrow> Inl ''path has no resolvable parent''
                | seg # parent \<Rightarrow> nearest_loop fs parent (seg # tail))))"

declare nearest_loop.simps [simp del]

definition realpathNearestExisting :: "Fs \<Rightarrow> string \<Rightarrow> (string, string) result" where
  "realpathNearestExisting fs p = nearest_loop fs (rev (abs_segs (resolve (cwd fs) [p]))) []"

definition lexicalGitPath :: "string \<Rightarrow> bool" where
  "lexicalGitPath p = (hd (split_on CHR ''/'' p) = ''.git'')"

definition overlapsReserved :: "Fs \<Rightarrow> string \<Rightarrow> bool \<Rightarrow> string list \<Rightarrow> bool" where
  "overlapsReserved fs p directory reservedRoots =
     list_ex (\<lambda>reserved. pathInside (cwd fs) reserved p \<or> (directory \<and> pathInside (cwd fs) p reserved))
       reservedRoots"

definition endpointExists :: "Fs \<Rightarrow> string \<Rightarrow> (string, bool) result" where
  "endpointExists fs p =
     (case lstatSync fs p of
        Inr _ \<Rightarrow> Inr True
      | Inl ENOENT \<Rightarrow> Inr False
      | Inl Other_IO \<Rightarrow> Inl ''endpoint identity cannot be inspected'')"

definition declarationContains :: "Fs \<Rightarrow> ProvenDeclaration \<Rightarrow> string \<Rightarrow> bool \<Rightarrow> bool" where
  "declarationContains fs d endpoint source =
     (case (if source then fromPath d else Some (path d)) of
        None \<Rightarrow> False
      | Some declared \<Rightarrow>
          if is_directory d then pathInside (cwd fs) declared endpoint else declared = endpoint)"

definition validateDeclaration :: "jsval \<Rightarrow> (string, ScopeChangeKind \<times> bool) result" where
  "validateDeclaration v =
     (if \<not> is_objectlike v then Inl ''scope declaration is malformed''
      else case (parse_change_kind (get_prop v ''changeKind''), as_bool (get_prop v ''directory'')) of
        (Some k, Some d) \<Rightarrow>
          rbind (validateRelativePath (get_prop v ''path'') ''declared path'') (\<lambda>_.
          if k = Rename
          then rbind (validateRelativePath (get_prop v ''fromPath'') ''declared rename source'') (\<lambda>_. Inr (k, d))
          else if get_prop v ''fromPath'' \<noteq> JUndef then Inl ''non-rename declaration contains fromPath''
          else Inr (k, d))
      | _ \<Rightarrow> Inl ''scope declaration kind or directory flag is malformed'')"

record Roots =
  worktreeRoot :: string
  authorizedRoot :: string
  reservedRoots :: "string list"

definition proveEndpoint :: "Fs \<Rightarrow> jsval \<Rightarrow> string \<Rightarrow> Roots \<Rightarrow> bool \<Rightarrow> (string, string) result" where
  "proveEndpoint fs rawPath label roots directory =
     rbind (validateRelativePath rawPath label) (\<lambda>relativePath.
     if lexicalGitPath relativePath then Inl (label @ '' enters .git'')
     else
       rbind (realpathNearestExisting fs (path_join [authorizedRoot roots, relativePath])) (\<lambda>canonical.
       if \<not> pathInside (cwd fs) (worktreeRoot roots) canonical
          \<or> \<not> pathInside (cwd fs) (authorizedRoot roots) canonical
       then Inl (label @ '' resolves outside authorized scope'')
       else if overlapsReserved fs canonical directory (reservedRoots roots)
       then Inl (label @ '' overlaps a reserved root'')
       else Inr canonical))"

definition proveDeclaration :: "Fs \<Rightarrow> Roots \<Rightarrow> jsval \<Rightarrow> (string, ProvenDeclaration) result" where
  "proveDeclaration fs roots v =
     rbind (validateDeclaration v) (\<lambda>(k, d).
     rbind (proveEndpoint fs (get_prop v ''path'') ''declared path'' roots d) (\<lambda>p.
     if k \<noteq> Rename then Inr \<lparr>changeKind = k, is_directory = d, path = p, fromPath = None\<rparr>
     else
       rbind (proveEndpoint fs (get_prop v ''fromPath'') ''declared rename source'' roots d) (\<lambda>from.
       Inr \<lparr>changeKind = k, is_directory = d, path = p, fromPath = Some from\<rparr>)))"

definition proveRoots :: "Fs \<Rightarrow> jsval \<Rightarrow> (string, Roots \<times> jsval list) result" where
  "proveRoots fs input =
     (if \<not> is_objectlike input then Inl ''scope request is malformed''
      else
        rbind (canonicalExistingDirectory fs (get_prop input ''worktreeRoot'') ''worktree root'') (\<lambda>wt.
        rbind (canonicalExistingDirectory fs (get_prop input ''authorizedRoot'') ''authorized root'') (\<lambda>ar.
        if \<not> pathInside (cwd fs) wt ar then Inl ''authorized root is outside the canonical worktree''
        else case (as_array (get_prop input ''reservedRoots''), as_array (get_prop input ''declaredScope'')) of
          (Some rs, Some ds) \<Rightarrow>
            rbind (traverse (\<lambda>(i, r). canonicalExistingDirectory fs r (''reserved root '' @ show_nat i))
                     (zip [0..<length rs] rs)) (\<lambda>reserved.
            case realpathSync fs (path_join [wt, ''.git'']) of
              Inr git \<Rightarrow> Inr (\<lparr>worktreeRoot = wt, authorizedRoot = ar, reservedRoots = reserved @ [git]\<rparr>, ds)
            | Inl ENOENT \<Rightarrow> Inr (\<lparr>worktreeRoot = wt, authorizedRoot = ar, reservedRoots = reserved\<rparr>, ds)
            | Inl Other_IO \<Rightarrow> Inl ''.git identity cannot be proven'')
        | _ \<Rightarrow> Inl ''reserved roots or declarations are malformed'')))"

definition proveScope :: "Fs \<Rightarrow> jsval \<Rightarrow> (string, Roots \<times> ProvenDeclaration list) result" where
  "proveScope fs input =
     rbind (proveRoots fs input) (\<lambda>(roots, ds).
     rbind (traverse (proveDeclaration fs roots) ds) (\<lambda>declarations. Inr (roots, declarations)))"

section \<open>Deciding an operation\<close>

definition operationChangeKind :: "op_kind \<Rightarrow> ScopeChangeKind option" where
  "operationChangeKind k = (case k of Op_Read \<Rightarrow> None | Op_Link \<Rightarrow> Some Create | Op_Change c \<Rightarrow> Some c)"

fun op_name :: "op_kind \<Rightarrow> string" where
  "op_name Op_Read = ''read''"
| "op_name Op_Link = ''link''"
| "op_name (Op_Change c) = kind_name c"

definition unproven :: "(io_error, 'a) result \<Rightarrow> (string, 'a) result" where
  "unproven r = (case r of Inl _ \<Rightarrow> Inl ''scope identity could not be proven'' | Inr x \<Rightarrow> Inr x)"

definition decideSingle ::
  "Fs \<Rightarrow> Roots \<Rightarrow> ProvenDeclaration list \<Rightarrow> jsval \<Rightarrow> bool \<Rightarrow> op_kind \<Rightarrow> (string, StructuredScopeVerdict) result" where
  "decideSingle fs roots declarations operation directory kind =
     (if has_prop operation ''sourcePath'' \<or> has_prop operation ''destinationPath''
      then Inl ''single-endpoint operation contains extra endpoints''
      else
        rbind (proveEndpoint fs (get_prop operation ''path'') ''operation endpoint'' roots directory) (\<lambda>endpoint.
        rbind (validateRelativePath (get_prop operation ''path'') ''operation endpoint'') (\<lambda>relativePath.
        rbind (endpointExists fs (path_join [authorizedRoot roots, relativePath])) (\<lambda>exists.
        if kind = Op_Change Create \<and> exists then Inl ''create endpoint already exists''
        else if kind \<noteq> Op_Change Create \<and> \<not> exists then Inl (op_name kind @ '' endpoint does not exist'')
        else
          rbind (if exists then unproven (statIsDirectory fs endpoint) else Inr directory) (\<lambda>observed.
          if observed \<noteq> directory then Inl ''operation endpoint type does not match its directory flag''
          else
            let owners = filter (\<lambda>d. declarationContains fs d endpoint False) declarations in
            case kind of
              Op_Read \<Rightarrow> Inr (if owners \<noteq> [] then Allow None else Abstain)
            | _ \<Rightarrow>
                if \<not> list_ex (\<lambda>owner. Op_Change (changeKind owner) = kind) owners
                then Inl ''operation path or change kind is outside declared scope''
                else Inr (Allow (operationChangeKind kind)))))))"

definition decideDouble ::
  "Fs \<Rightarrow> Roots \<Rightarrow> ProvenDeclaration list \<Rightarrow> jsval \<Rightarrow> bool \<Rightarrow> op_kind \<Rightarrow> (string, StructuredScopeVerdict) result" where
  "decideDouble fs roots declarations operation directory kind =
     (if has_prop operation ''path'' then Inl ''two-endpoint operation contains path''
      else
        rbind (proveEndpoint fs (get_prop operation ''sourcePath'') ''operation source'' roots directory) (\<lambda>source.
        rbind (proveEndpoint fs (get_prop operation ''destinationPath'') ''operation destination'' roots directory) (\<lambda>destination.
        rbind (validateRelativePath (get_prop operation ''sourcePath'') ''operation source'') (\<lambda>src.
        rbind (validateRelativePath (get_prop operation ''destinationPath'') ''operation destination'') (\<lambda>dst.
        rbind (endpointExists fs (path_join [authorizedRoot roots, src])) (\<lambda>srcExists.
        if \<not> srcExists then Inl (op_name kind @ '' source does not exist'')
        else
          rbind (endpointExists fs (path_join [authorizedRoot roots, dst])) (\<lambda>dstExists.
          if dstExists then Inl (op_name kind @ '' destination already exists'')
          else
            rbind (unproven (statIsDirectory fs source)) (\<lambda>observed.
            if observed \<noteq> directory then Inl ''operation source type does not match its directory flag''
            else if kind = Op_Change Rename then
              (if list_ex (\<lambda>d. changeKind d = Rename \<and> declarationContains fs d source True
                            \<and> declarationContains fs d destination False) declarations
               then Inr (Allow (Some Rename))
               else Inl ''rename endpoints do not match one declared rename'')
            else
              (if list_ex (\<lambda>d. changeKind d = Create \<and> declarationContains fs d destination False) declarations
               then Inr (Allow (Some Create))
               else Inl ''link destination is outside declared create scope'')))))))))"

definition decideOperation ::
  "Fs \<Rightarrow> Roots \<Rightarrow> ProvenDeclaration list \<Rightarrow> jsval \<Rightarrow> bool \<Rightarrow> op_kind \<Rightarrow> (string, StructuredScopeVerdict) result" where
  "decideOperation fs roots declarations operation directory kind =
     (if kind = Op_Change Rename \<or> kind = Op_Link
      then decideDouble fs roots declarations operation directory kind
      else decideSingle fs roots declarations operation directory kind)"

definition checkStructuredScope :: "Fs \<Rightarrow> jsval \<Rightarrow> StructuredScopeVerdict" where
  "checkStructuredScope fs input =
     (case proveScope fs input of
        Inl reason \<Rightarrow> Deny None reason
      | Inr (roots, declarations) \<Rightarrow>
          let operation = get_prop input ''operation'' in
          case as_bool (get_prop operation ''directory'') of
            None \<Rightarrow> Deny None ''scope operation is malformed''
          | Some directory \<Rightarrow>
              (case parse_op_kind (get_prop operation ''kind'') of
                 None \<Rightarrow> Deny None ''scope operation kind is unsupported''
               | Some kind \<Rightarrow>
                   (case decideOperation fs roots declarations operation directory kind of
                      Inl reason \<Rightarrow> Deny (operationChangeKind kind) reason
                    | Inr verdict \<Rightarrow> verdict)))"

section \<open>The compatibility entry point\<close>

definition strip_trailing_slashes :: "string \<Rightarrow> string" where
  "strip_trailing_slashes p = rev (dropWhile (\<lambda>c. c = CHR ''/'') (rev p))"

definition legacy_path :: "jsval \<Rightarrow> jsval" where
  "legacy_path v = (case as_string v of Some s \<Rightarrow> JStr (strip_trailing_slashes s) | None \<Rightarrow> v)"

definition legacy_exists :: "Fs \<Rightarrow> jsval \<Rightarrow> jsval \<Rightarrow> bool" where
  "legacy_exists fs root target =
     (case as_string root of
        None \<Rightarrow> False
      | Some r \<Rightarrow>
          (case rbind (validateRelativePath target ''operation endpoint'')
                  (\<lambda>p. endpointExists fs (path_join [r, p])) of
             Inr b \<Rightarrow> b
           | Inl _ \<Rightarrow> False))"

definition legacy_request :: "jsval \<Rightarrow> jsval list \<Rightarrow> jsval \<Rightarrow> jsval" where
  "legacy_request root declarations operation =
     JObj [(''worktreeRoot'', root), (''authorizedRoot'', root), (''reservedRoots'', JArr []),
           (''declaredScope'', JArr declarations), (''operation'', operation)]"

definition checkScopeResolved :: "Fs \<Rightarrow> jsval \<Rightarrow> ScopeVerdict" where
  "checkScopeResolved fs input =
     (if \<not> is_objectlike input then DENY ''invalid input''
      else if get_prop input ''isWrite'' = JBool False then ALLOW
      else if get_prop input ''isWrite'' \<noteq> JBool True then DENY ''invalid isWrite field''
      else case (as_array (get_prop input ''declaredPaths''), as_string (get_prop input ''targetPath'')) of
        (Some declared, Some target) \<Rightarrow>
          if target = '''' then DENY ''unresolvable write target''
          else
            let root = get_prop input ''root'';
                paths = map legacy_path declared;
                dest = get_prop input ''destinationPath'';
                two = (case as_string dest of Some d \<Rightarrow> d \<noteq> '''' | None \<Rightarrow> False);
                kind = (if legacy_exists fs root (JStr target) then ''modify'' else ''create'');
                operation =
                  (if two then JObj [(''kind'', JStr ''rename''), (''sourcePath'', JStr target),
                                     (''destinationPath'', dest), (''directory'', JBool False)]
                   else JObj [(''kind'', JStr kind), (''path'', JStr target), (''directory'', JBool False)]);
                declarations =
                  map (\<lambda>p. if two then JObj [(''path'', p), (''fromPath'', p), (''changeKind'', JStr ''rename''),
                                             (''directory'', JBool True)]
                            else JObj [(''path'', p), (''changeKind'', JStr kind), (''directory'', JBool True)]) paths
            in case checkStructuredScope fs (legacy_request root declarations operation) of
                 Deny _ reason \<Rightarrow> DENY reason
               | _ \<Rightarrow> ALLOW
      | _ \<Rightarrow> DENY ''unresolvable write target'')"

section \<open>What a proof of a root, a declaration or an endpoint establishes\<close>

text \<open>The documented behaviour of \<open>realpath\<close>: its result is a canonical absolute path.\<close>

definition realpath_canonical :: "Fs \<Rightarrow> bool" where
  "realpath_canonical fs = (\<forall>p c. realpathSync fs p = Inr c \<longrightarrow> canonical_path c)"

definition below :: "string \<Rightarrow> string \<Rightarrow> bool" where
  "below root p = prefix (abs_segs root) (abs_segs p)"

text \<open>
  An endpoint is confined when its path, resolved through symbolic links from the authorized root, is
  below the worktree and the authorized root and in no reserved root, nor, for a directory, above one.
\<close>

definition confined :: "Fs \<Rightarrow> Roots \<Rightarrow> jsval \<Rightarrow> bool \<Rightarrow> string \<Rightarrow> bool" where
  "confined fs roots raw directory e =
     ((\<exists>rel. raw = JStr rel \<and> realpathNearestExisting fs (path_join [authorizedRoot roots, rel]) = Inr e)
      \<and> canonical_path e \<and> below (worktreeRoot roots) e \<and> below (authorizedRoot roots) e
      \<and> (\<forall>r \<in> set (reservedRoots roots). \<not> below r e \<and> (directory \<longrightarrow> \<not> below e r)))"

definition covers :: "Fs \<Rightarrow> Roots \<Rightarrow> jsval \<Rightarrow> string \<Rightarrow> string \<Rightarrow> bool" where
  "covers fs roots decl field e =
     (\<exists>dir p. get_prop decl ''directory'' = JBool dir \<and> confined fs roots (get_prop decl field) dir p
              \<and> (if dir then below p e else p = e))"

definition declared_as :: "jsval \<Rightarrow> ScopeChangeKind \<Rightarrow> bool" where
  "declared_as decl k = (get_prop decl ''changeKind'' = JStr (kind_name k))"

definition roots_of :: "Fs \<Rightarrow> jsval \<Rightarrow> Roots \<Rightarrow> bool" where
  "roots_of fs input roots =
     (get_prop input ''worktreeRoot'' = JStr (worktreeRoot roots)
      \<and> get_prop input ''authorizedRoot'' = JStr (authorizedRoot roots)
      \<and> canonical_path (worktreeRoot roots) \<and> canonical_path (authorizedRoot roots)
      \<and> below (worktreeRoot roots) (authorizedRoot roots)
      \<and> (\<forall>r \<in> set (reservedRoots roots). canonical_path r)
      \<and> (\<forall>git. realpathSync fs (path_join [worktreeRoot roots, ''.git'']) = Inr git
               \<longrightarrow> git \<in> set (reservedRoots roots))
      \<and> (\<exists>rs. get_prop input ''reservedRoots'' = JArr rs
               \<and> (\<forall>r \<in> set rs. \<exists>p \<in> set (reservedRoots roots). r = JStr p)))"

lemma parse_change_kind_iff: "parse_change_kind v = Some k \<longleftrightarrow> v = JStr (kind_name k)"
  by (cases k) (auto simp: parse_change_kind_def)

lemma parse_op_kind_change: "parse_op_kind v = Some (Op_Change k) \<longleftrightarrow> v = JStr (kind_name k)"
  by (cases k) (auto simp: parse_op_kind_def parse_change_kind_def)

lemma nearest_canonical:
  assumes "realpath_canonical fs" and "list_all plain_seg rsegs" and "list_all plain_seg tail"
    and "nearest_loop fs rsegs tail = Inr c"
  shows "canonical_path c"
  using assms(2-4)
proof (induction rsegs arbitrary: tail)
  case Nil
  then show ?case
    using assms(1) resolve_is_canonical
    by (auto simp: realpath_canonical_def nearest_loop.simps [of fs "[]"]
        split: sum.splits io_error.splits if_splits)
next
  case (Cons seg rsegs)
  then show ?case
    using assms(1) resolve_is_canonical Cons.IH [of "seg # tail"]
    by (auto simp: realpath_canonical_def nearest_loop.simps [of fs "seg # rsegs"]
        split: sum.splits io_error.splits if_splits)
qed

lemma nearest_existing_canonical:
  assumes "realpath_canonical fs" and "realpathNearestExisting fs p = Inr c"
  shows "canonical_path c"
  using nearest_canonical [OF assms(1) _ _ assms(2) [unfolded realpathNearestExisting_def]] abs_segs_plain
  by (simp add: list_all_iff)

lemma existing_directory_sound:
  assumes "canonicalExistingDirectory fs v label = Inr p"
  shows "v = JStr p \<and> canonical_path p \<and> realpathSync fs p = Inr p \<and> statIsDirectory fs p = Inr True"
proof -
  have "v = JStr p \<and> isAbsolute p \<and> resolve (cwd fs) [p] = p \<and> realpathSync fs p = Inr p \<and> statIsDirectory fs p = Inr True"
    using assms
    by (auto simp: canonicalExistingDirectory_def as_string_Some split: option.splits if_splits sum.splits)
  then show ?thesis by (metis resolve_is_canonical)
qed

lemma roots_sound:
  assumes "realpath_canonical fs" and "proveRoots fs input = Inr (roots, ds)"
  shows "roots_of fs input roots \<and> get_prop input ''declaredScope'' = JArr ds"
proof -
  obtain wt ar rs reserved where
    wt: "canonicalExistingDirectory fs (get_prop input ''worktreeRoot'') ''worktree root'' = Inr wt" and
    ar: "canonicalExistingDirectory fs (get_prop input ''authorizedRoot'') ''authorized root'' = Inr ar" and
    inside: "pathInside (cwd fs) wt ar" and
    arrays: "get_prop input ''reservedRoots'' = JArr rs" "get_prop input ''declaredScope'' = JArr ds" and
    res: "traverse (\<lambda>(i, r). canonicalExistingDirectory fs r (''reserved root '' @ show_nat i))
            (zip [0..<length rs] rs) = Inr reserved" and
    git: "(case realpathSync fs (path_join [wt, ''.git'']) of
              Inr git \<Rightarrow> Inr (\<lparr>worktreeRoot = wt, authorizedRoot = ar, reservedRoots = reserved @ [git]\<rparr>, ds)
            | Inl ENOENT \<Rightarrow> Inr (\<lparr>worktreeRoot = wt, authorizedRoot = ar, reservedRoots = reserved\<rparr>, ds)
            | Inl Other_IO \<Rightarrow> Inl ''.git identity cannot be proven'') = Inr (roots, ds)"
    using assms(2)
    by (auto simp: proveRoots_def rbind_Inr_iff as_array_Some split: if_splits option.splits,
        auto split: sum.splits io_error.splits)
  have roots: "worktreeRoot roots = wt" "authorizedRoot roots = ar"
      "set reserved \<subseteq> set (reservedRoots roots)"
      "\<forall>git. realpathSync fs (path_join [wt, ''.git'']) = Inr git \<longrightarrow> git \<in> set (reservedRoots roots)"
      "\<forall>r \<in> set (reservedRoots roots). r \<in> set reserved \<or> (\<exists>q. realpathSync fs q = Inr r)"
    using git by (auto split: sum.splits io_error.splits)
  have each: "\<exists>p \<in> set reserved. r = JStr p" if "r \<in> set rs" for r
  proof -
    obtain i where i: "i < length rs" "rs ! i = r" using \<open>r \<in> set rs\<close> by (auto simp: in_set_conv_nth)
    then have "canonicalExistingDirectory fs r (''reserved root '' @ show_nat i) = Inr (reserved ! i)"
      using traverse_nth [OF res, of i] by simp
    moreover have "i < length reserved" using traverse_length [OF res] i by simp
    ultimately show ?thesis using existing_directory_sound nth_mem by blast
  qed
  have "canonical_path r" if "r \<in> set reserved" for r
    using traverse_in_set [OF res that] existing_directory_sound by fastforce
  then have "\<forall>r \<in> set (reservedRoots roots). canonical_path r"
    using roots(5) assms(1) by (auto simp: realpath_canonical_def)
  then show ?thesis
    using existing_directory_sound [OF wt] existing_directory_sound [OF ar] inside arrays roots each
    unfolding roots_of_def below_def by (auto simp: pathInside_prefix) blast
qed

lemma endpoint_sound:
  assumes "realpath_canonical fs" and "roots_of fs input roots"
    and "proveEndpoint fs raw label roots directory = Inr e"
  shows "confined fs roots raw directory e \<and> (\<exists>rel. raw = JStr rel \<and> \<not> lexicalGitPath rel)"
proof -
  obtain rel where v: "validateRelativePath raw label = Inr rel" and git: "\<not> lexicalGitPath rel"
    and near: "realpathNearestExisting fs (path_join [authorizedRoot roots, rel]) = Inr e"
    and inside: "pathInside (cwd fs) (worktreeRoot roots) e" "pathInside (cwd fs) (authorizedRoot roots) e"
    and res: "\<not> overlapsReserved fs e directory (reservedRoots roots)"
    using assms(3) by (auto simp: proveEndpoint_def rbind_Inr_iff split: if_splits)
  have "raw = JStr rel"
    using v by (auto simp: validateRelativePath_def as_string_Some split: option.splits if_splits)
  moreover have "canonical_path e" using nearest_existing_canonical [OF assms(1) near] .
  ultimately show ?thesis
    using git near inside res assms(2)
    by (auto simp: confined_def roots_of_def overlapsReserved_def below_def pathInside_prefix list_ex_iff)
qed

lemma declaration_sound:
  assumes "realpath_canonical fs" and "roots_of fs input roots"
    and "proveDeclaration fs roots v = Inr d"
  shows "declared_as v (changeKind d) \<and> get_prop v ''directory'' = JBool (is_directory d)
         \<and> confined fs roots (get_prop v ''path'') (is_directory d) (path d)
         \<and> (\<forall>from. fromPath d = Some from \<longrightarrow> confined fs roots (get_prop v ''fromPath'') (is_directory d) from)"
proof -
  obtain k dir where val: "validateDeclaration v = Inr (k, dir)"
    and d: "changeKind d = k" "is_directory d = dir"
    and p: "proveEndpoint fs (get_prop v ''path'') ''declared path'' roots dir = Inr (path d)"
    and src: "\<forall>from. fromPath d = Some from \<longrightarrow>
       proveEndpoint fs (get_prop v ''fromPath'') ''declared rename source'' roots dir = Inr from"
    using assms(3) by (auto simp: proveDeclaration_def rbind_Inr_iff split: if_splits)
  have "parse_change_kind (get_prop v ''changeKind'') = Some k \<and> as_bool (get_prop v ''directory'') = Some dir"
    using val by (auto simp: validateDeclaration_def rbind_Inr_iff split: if_splits option.splits)
  then show ?thesis
    using d p src endpoint_sound [OF assms(1,2)]
    by (auto simp: declared_as_def parse_change_kind_iff as_bool_def split: jsval.splits)
qed

lemma contains_covers:
  assumes "realpath_canonical fs" and "roots_of fs input roots"
    and "proveDeclaration fs roots v = Inr d" and "canonical_path e"
    and "declarationContains fs d e source"
  shows "covers fs roots v (if source then ''fromPath'' else ''path'') e"
proof -
  have s: "get_prop v ''directory'' = JBool (is_directory d)"
    "confined fs roots (get_prop v ''path'') (is_directory d) (path d)"
    "\<forall>from. fromPath d = Some from \<longrightarrow> confined fs roots (get_prop v ''fromPath'') (is_directory d) from"
    using declaration_sound [OF assms(1-3)] by auto
  obtain declared where dd: "(if source then fromPath d else Some (path d)) = Some declared"
    and c: "if is_directory d then pathInside (cwd fs) declared e else declared = e"
    using assms(5) by (auto simp: declarationContains_def split: option.splits)
  have conf: "confined fs roots (get_prop v (if source then ''fromPath'' else ''path'')) (is_directory d) declared"
    using dd s by (auto split: if_splits)
  then have "canonical_path declared" by (simp add: confined_def)
  then have "if is_directory d then below declared e else declared = e"
    using c assms(4) by (auto simp: below_def pathInside_prefix split: if_splits)
  then show ?thesis using s(1) conf unfolding covers_def by blast
qed


section \<open>Soundness of the structured engine\<close>

lemma allow_decided:
  assumes "checkStructuredScope fs input = Allow k"
  obtains roots ds declarations directory kind where
    "proveRoots fs input = Inr (roots, ds)"
    "traverse (proveDeclaration fs roots) ds = Inr declarations"
    "get_prop (get_prop input ''operation'') ''directory'' = JBool directory"
    "parse_op_kind (get_prop (get_prop input ''operation'') ''kind'') = Some kind"
    "decideOperation fs roots declarations (get_prop input ''operation'') directory kind = Inr (Allow k)"
  using assms
  by (auto simp: checkStructuredScope_def proveScope_def rbind_Inr_iff Let_def as_bool_def
      split: sum.splits option.splits jsval.splits)

lemma owner_covers:
  assumes "realpath_canonical fs" and "roots_of fs input roots"
    and "traverse (proveDeclaration fs roots) ds = Inr declarations" and "d \<in> set declarations"
  shows "\<exists>v \<in> set ds. declared_as v (changeKind d)
           \<and> (\<forall>e source. canonical_path e \<and> declarationContains fs d e source
                \<longrightarrow> covers fs roots v (if source then ''fromPath'' else ''path'') e)"
proof -
  obtain v where "v \<in> set ds" "proveDeclaration fs roots v = Inr d"
    using traverse_in_set [OF assms(3,4)] by blast
  then show ?thesis
    using declaration_sound [OF assms(1,2)] contains_covers [OF assms(1,2)] by blast
qed

lemma single_sound:
  assumes "realpath_canonical fs" and "roots_of fs input roots"
    and "traverse (proveDeclaration fs roots) ds = Inr declarations"
    and "decideSingle fs roots declarations op directory (Op_Change c) = Inr (Allow k)"
  shows "k = Some c \<and> (\<exists>rel e. get_prop op ''path'' = JStr rel \<and> \<not> lexicalGitPath rel
           \<and> confined fs roots (JStr rel) directory e
           \<and> (\<exists>v \<in> set ds. declared_as v c \<and> covers fs roots v ''path'' e)
           \<and> (if c = Create then lstatSync fs (path_join [authorizedRoot roots, rel]) = Inl ENOENT
              else lstatSync fs (path_join [authorizedRoot roots, rel]) = Inr ()
                   \<and> statIsDirectory fs e = Inr directory))"
proof -
  obtain e rel exists d where
    e: "proveEndpoint fs (get_prop op ''path'') ''operation endpoint'' roots directory = Inr e" and
    rel: "validateRelativePath (get_prop op ''path'') ''operation endpoint'' = Inr rel" and
    ex: "endpointExists fs (path_join [authorizedRoot roots, rel]) = Inr exists" and
    cr: "exists = (c \<noteq> Create)" and
    ty: "exists \<longrightarrow> statIsDirectory fs e = Inr directory" and
    d: "d \<in> set declarations" "declarationContains fs d e False" "changeKind d = c" and
    k: "k = Some c"
    using assms(4)
    by (auto simp: decideSingle_def rbind_Inr_iff Let_def list_ex_iff operationChangeKind_def unproven_def
        split: if_splits sum.splits)
  obtain r where r: "get_prop op ''path'' = JStr r" "\<not> lexicalGitPath r"
    and conf: "confined fs roots (get_prop op ''path'') directory e"
    using endpoint_sound [OF assms(1,2) e] by blast
  have "rel = r" using rel r by (auto simp: validateRelativePath_def split: if_splits)
  have "canonical_path e" using conf by (simp add: confined_def)
  moreover obtain v where v: "v \<in> set ds" "declared_as v (changeKind d)"
    and cov: "\<And>e source. canonical_path e \<Longrightarrow> declarationContains fs d e source
                \<Longrightarrow> covers fs roots v (if source then ''fromPath'' else ''path'') e"
    using owner_covers [OF assms(1-3) d(1)] by blast
  ultimately have own: "\<exists>v \<in> set ds. declared_as v c \<and> covers fs roots v ''path'' e"
    using cov [of e False] d(2,3) by auto
  have "if c = Create then lstatSync fs (path_join [authorizedRoot roots, rel]) = Inl ENOENT
        else lstatSync fs (path_join [authorizedRoot roots, rel]) = Inr () \<and> statIsDirectory fs e = Inr directory"
    using ex cr ty by (auto simp: endpointExists_def split: sum.splits io_error.splits)
  then show ?thesis using k r conf own \<open>rel = r\<close> by auto
qed

text \<open>
  C23. Soundness of the scope fence for a write to one endpoint. If the structured engine allows a
  create, modify or delete, then the roots of the request are canonical existing directories with the
  authorized root below the worktree; the endpoint, resolved through every symbolic link, is below both
  and in no reserved root (\<open>.git\<close> included), and a directory contains none; some declaration of the
  ticket has exactly this change kind and covers the resolved endpoint; and the endpoint exists, with
  the stated type, exactly when the operation is not a create.
\<close>

theorem write_allowed_only_in_declared_scope:
  assumes "realpath_canonical fs"
    and "checkStructuredScope fs input = Allow (Some c)"
    and "get_prop (get_prop input ''operation'') ''kind'' = JStr (kind_name c)" and "c \<noteq> Rename"
  shows "\<exists>roots ds directory rel e.
     roots_of fs input roots \<and> get_prop input ''declaredScope'' = JArr ds
     \<and> get_prop (get_prop input ''operation'') ''directory'' = JBool directory
     \<and> get_prop (get_prop input ''operation'') ''path'' = JStr rel \<and> \<not> lexicalGitPath rel
     \<and> confined fs roots (JStr rel) directory e
     \<and> (\<exists>v \<in> set ds. declared_as v c \<and> covers fs roots v ''path'' e)
     \<and> (if c = Create then lstatSync fs (path_join [authorizedRoot roots, rel]) = Inl ENOENT
        else lstatSync fs (path_join [authorizedRoot roots, rel]) = Inr ()
             \<and> statIsDirectory fs e = Inr directory)"
proof -
  let ?op = "get_prop input ''operation''"
  obtain roots ds declarations directory kind where
    r: "proveRoots fs input = Inr (roots, ds)" and
    ds: "traverse (proveDeclaration fs roots) ds = Inr declarations" and
    dir: "get_prop ?op ''directory'' = JBool directory" and
    kind: "parse_op_kind (get_prop ?op ''kind'') = Some kind" and
    dec: "decideOperation fs roots declarations ?op directory kind = Inr (Allow (Some c))"
    using allow_decided [OF assms(2)] by metis
  have kc: "kind = Op_Change c" using kind assms(3) parse_op_kind_change [of "JStr (kind_name c)" c] by simp
  have "decideSingle fs roots declarations ?op directory (Op_Change c) = Inr (Allow (Some c))"
    using dec assms(4) by (simp add: decideOperation_def kc)
  then show ?thesis
    using single_sound [OF assms(1) _ ds] roots_sound [OF assms(1) r] dir by blast
qed

lemma double_sound:
  assumes "realpath_canonical fs" and "roots_of fs input roots"
    and "traverse (proveDeclaration fs roots) ds = Inr declarations"
    and "decideDouble fs roots declarations op directory kind = Inr (Allow k)"
  shows "\<exists>src dst source dest. get_prop op ''sourcePath'' = JStr src \<and> get_prop op ''destinationPath'' = JStr dst
           \<and> \<not> lexicalGitPath src \<and> \<not> lexicalGitPath dst
           \<and> confined fs roots (JStr src) directory source \<and> confined fs roots (JStr dst) directory dest
           \<and> lstatSync fs (path_join [authorizedRoot roots, src]) = Inr ()
           \<and> lstatSync fs (path_join [authorizedRoot roots, dst]) = Inl ENOENT
           \<and> (if kind = Op_Change Rename
              then \<exists>v \<in> set ds. declared_as v Rename \<and> covers fs roots v ''fromPath'' source
                               \<and> covers fs roots v ''path'' dest
              else \<exists>v \<in> set ds. declared_as v Create \<and> covers fs roots v ''path'' dest)"
proof -
  obtain source dest src dst d where
    s: "proveEndpoint fs (get_prop op ''sourcePath'') ''operation source'' roots directory = Inr source" and
    t: "proveEndpoint fs (get_prop op ''destinationPath'') ''operation destination'' roots directory = Inr dest" and
    src: "validateRelativePath (get_prop op ''sourcePath'') ''operation source'' = Inr src" and
    dst: "validateRelativePath (get_prop op ''destinationPath'') ''operation destination'' = Inr dst" and
    ex: "endpointExists fs (path_join [authorizedRoot roots, src]) = Inr True"
        "endpointExists fs (path_join [authorizedRoot roots, dst]) = Inr False" and
    d: "d \<in> set declarations" "declarationContains fs d dest False"
       "if kind = Op_Change Rename then changeKind d = Rename \<and> declarationContains fs d source True
        else changeKind d = Create"
    using assms(4)
    by (auto simp: decideDouble_def rbind_Inr_iff list_ex_iff split: if_splits)
  have raw: "get_prop op ''sourcePath'' = JStr src" "get_prop op ''destinationPath'' = JStr dst"
    using src dst by (auto simp: validateRelativePath_def as_string_Some split: option.splits if_splits)
  have es: "confined fs roots (JStr src) directory source" "\<not> lexicalGitPath src"
    using endpoint_sound [OF assms(1,2) s] raw by auto
  have et: "confined fs roots (JStr dst) directory dest" "\<not> lexicalGitPath dst"
    using endpoint_sound [OF assms(1,2) t] raw by auto
  have can: "canonical_path source" "canonical_path dest" using es et by (auto simp: confined_def)
  obtain v where v: "v \<in> set ds" "declared_as v (changeKind d)"
    and cov: "\<And>e source. canonical_path e \<Longrightarrow> declarationContains fs d e source
                \<Longrightarrow> covers fs roots v (if source then ''fromPath'' else ''path'') e"
    using owner_covers [OF assms(1-3) d(1)] by blast
  have own: "if kind = Op_Change Rename
              then \<exists>v \<in> set ds. declared_as v Rename \<and> covers fs roots v ''fromPath'' source
                               \<and> covers fs roots v ''path'' dest
              else \<exists>v \<in> set ds. declared_as v Create \<and> covers fs roots v ''path'' dest"
    using v cov [OF can(2) d(2)] cov [OF can(1), of True] d(3) by (auto split: if_splits)
  have "lstatSync fs (path_join [authorizedRoot roots, src]) = Inr ()
        \<and> lstatSync fs (path_join [authorizedRoot roots, dst]) = Inl ENOENT"
    using ex by (auto simp: endpointExists_def split: sum.splits io_error.splits)
  then show ?thesis using raw es et own by blast
qed

text \<open>
  C24. Soundness of the scope fence for the operations with two endpoints. If a rename is allowed, one
  and the same declared rename covers the resolved source and the resolved destination; if a link is
  allowed, a declared create covers the destination. In both cases both endpoints are confined to the
  authorized root outside the reserved roots, the source exists and the destination does not.
\<close>

theorem rename_and_link_allowed_only_in_declared_scope:
  assumes "realpath_canonical fs"
    and "checkStructuredScope fs input = Allow k"
    and "get_prop (get_prop input ''operation'') ''kind'' = JStr name" and "name = ''rename'' \<or> name = ''link''"
  shows "\<exists>roots ds directory src dst source dest.
     roots_of fs input roots \<and> get_prop input ''declaredScope'' = JArr ds
     \<and> get_prop (get_prop input ''operation'') ''sourcePath'' = JStr src
     \<and> get_prop (get_prop input ''operation'') ''destinationPath'' = JStr dst
     \<and> \<not> lexicalGitPath src \<and> \<not> lexicalGitPath dst
     \<and> confined fs roots (JStr src) directory source \<and> confined fs roots (JStr dst) directory dest
     \<and> lstatSync fs (path_join [authorizedRoot roots, src]) = Inr ()
     \<and> lstatSync fs (path_join [authorizedRoot roots, dst]) = Inl ENOENT
     \<and> (if name = ''rename''
        then \<exists>v \<in> set ds. declared_as v Rename \<and> covers fs roots v ''fromPath'' source
                         \<and> covers fs roots v ''path'' dest
        else \<exists>v \<in> set ds. declared_as v Create \<and> covers fs roots v ''path'' dest)"
proof -
  let ?op = "get_prop input ''operation''"
  obtain roots ds declarations directory kind where
    r: "proveRoots fs input = Inr (roots, ds)" and
    ds: "traverse (proveDeclaration fs roots) ds = Inr declarations" and
    kind: "parse_op_kind (get_prop ?op ''kind'') = Some kind" and
    dec: "decideOperation fs roots declarations ?op directory kind = Inr (Allow k)"
    using allow_decided [OF assms(2)] by metis
  have kc: "kind = (if name = ''rename'' then Op_Change Rename else Op_Link)"
    using kind assms(3,4) by (auto simp: parse_op_kind_def parse_change_kind_def)
  have dec': "decideDouble fs roots declarations ?op directory kind = Inr (Allow k)"
    using dec by (simp add: decideOperation_def kc split: if_splits)
  have k: "kind = Op_Change Rename \<longleftrightarrow> name = ''rename''" by (simp add: kc)
  have dir: "get_prop input ''declaredScope'' = JArr ds" "roots_of fs input roots"
    using roots_sound [OF assms(1) r] by auto
  show ?thesis
    using double_sound [OF assms(1) dir(2) ds dec', unfolded k] dir by blast
qed

section \<open>A concrete worktree\<close>

text \<open>
  \<open>/w\<close> with \<open>src/a.ts\<close>, \<open>lib.ts\<close>, an empty \<open>new\<close>, a \<open>.git\<close> and the symbolic link \<open>out/link\<close> to
  \<open>src/a.ts\<close>.
\<close>

definition sample_dirs :: "string list" where
  "sample_dirs = [''/'', ''/w'', ''/w/src'', ''/w/out'', ''/w/new'', ''/w/.git'']"

definition sample_files :: "string list" where
  "sample_files = [''/w/src/a.ts'', ''/w/lib.ts'']"

definition sample_fs :: Fs where
  "sample_fs =
     \<lparr>cwd = ''/'',
      realpathSync = (\<lambda>p. if p = ''/w/out/link'' then Inr ''/w/src/a.ts''
                          else if p \<in> set (sample_dirs @ sample_files) then Inr p else Inl ENOENT),
      statIsDirectory = (\<lambda>p. Inr (p \<in> set sample_dirs)),
      lstatSync = (\<lambda>p. if p = ''/w/out/link'' \<or> p \<in> set (sample_dirs @ sample_files)
                       then Inr () else Inl ENOENT)\<rparr>"

lemma sample_fs_canonical: "realpath_canonical sample_fs"
  unfolding realpath_canonical_def
proof (intro allI impI)
  fix p c
  assume "realpathSync sample_fs p = Inr c"
  moreover define ps where "ps = sample_dirs @ sample_files"
  ultimately have "c = ''/w/src/a.ts'' \<or> c \<in> set ps"
    by (simp add: sample_fs_def split: if_splits)
  moreover have "canonical_path ''/w/src/a.ts''" by code_simp
  moreover have "list_all canonical_path ps" unfolding ps_def by code_simp
  ultimately show "canonical_path c" by (auto simp: list_all_iff)
qed

definition sample_decl :: "string \<Rightarrow> string \<Rightarrow> bool \<Rightarrow> jsval" where
  "sample_decl kind p dir =
     JObj ([(''path'', JStr p), (''changeKind'', JStr kind), (''directory'', JBool dir)]
           @ (if kind = ''rename'' then [(''fromPath'', JStr ''src'')] else []))"

definition scope_request :: "jsval list \<Rightarrow> jsval \<Rightarrow> jsval" where
  "scope_request = legacy_request (JStr ''/w'')"

definition single_op :: "string \<Rightarrow> string \<Rightarrow> jsval" where
  "single_op kind p = JObj [(''kind'', JStr kind), (''path'', JStr p), (''directory'', JBool False)]"

definition double_op :: "string \<Rightarrow> string \<Rightarrow> string \<Rightarrow> jsval" where
  "double_op kind p q =
     JObj [(''kind'', JStr kind), (''sourcePath'', JStr p), (''destinationPath'', JStr q), (''directory'', JBool False)]"

lemma write_allowed_only_in_declared_scope_witness:
  "\<exists>e. canonical_path e \<and> below ''/w'' e"
proof -
  let ?in = "scope_request [sample_decl ''modify'' ''src'' True] (single_op ''modify'' ''src/a.ts'')"
  have ok: "checkStructuredScope sample_fs ?in = Allow (Some Modify)" by code_simp
  have kind: "get_prop (get_prop ?in ''operation'') ''kind'' = JStr (kind_name Modify)" by code_simp
  have root: "get_prop ?in ''worktreeRoot'' = JStr ''/w''" by code_simp
  from write_allowed_only_in_declared_scope [OF sample_fs_canonical ok kind] show ?thesis
    unfolding roots_of_def confined_def root by auto
qed

lemma rename_and_link_allowed_only_in_declared_scope_witness:
  "\<exists>e. canonical_path e \<and> below ''/w'' e"
proof -
  let ?in = "scope_request [sample_decl ''rename'' ''new'' True] (double_op ''rename'' ''src/a.ts'' ''new/b.ts'')"
  have ok: "checkStructuredScope sample_fs ?in = Allow (Some Rename)" by code_simp
  have kind: "get_prop (get_prop ?in ''operation'') ''kind'' = JStr ''rename''" by code_simp
  have root: "get_prop ?in ''worktreeRoot'' = JStr ''/w''" by code_simp
  from rename_and_link_allowed_only_in_declared_scope [OF sample_fs_canonical ok kind] show ?thesis
    unfolding roots_of_def confined_def root by auto
qed

text \<open>
  Where the fence is weaker than the names of the operations suggest. It judges the file a path
  resolves to, while deleting or renaming acts on the link itself: deleting \<open>out/link\<close> is allowed by a
  declaration that covers only \<open>src/a.ts\<close>, the link's target. And the source of a link needs no
  declaration: linking the undeclared \<open>lib.ts\<close> into a declared directory is allowed, after which a
  declared modification there reaches the undeclared file's content.
\<close>

theorem scope_fence_link_gaps:
  "checkStructuredScope sample_fs
     (scope_request [sample_decl ''delete'' ''src/a.ts'' False] (single_op ''delete'' ''out/link'')) = Allow (Some Delete)
   \<and> checkStructuredScope sample_fs
     (scope_request [sample_decl ''create'' ''new'' True, sample_decl ''modify'' ''new'' True]
        (double_op ''link'' ''lib.ts'' ''new/alias.ts'')) = Allow (Some Create)"
  by (intro conjI) code_simp+

section \<open>The lexical check\<close>

lemma set_pop: "set (pop xs) \<subseteq> set xs"
  by (cases xs) auto

lemma canonicalize_parts_no_slash:
  assumes "\<forall>p \<in> set acc. part_ok p" and "\<forall>p \<in> set parts. CHR ''/'' \<notin> set p"
  shows "\<forall>p \<in> set (canonicalize_parts acc parts). part_ok p"
  using assms
proof (induction parts arbitrary: acc)
  case (Cons part parts)
  have "\<forall>p \<in> set (pop acc). part_ok p" using Cons.prems(1) set_pop by blast
  moreover have "\<forall>p \<in> set parts. CHR ''/'' \<notin> set p" "CHR ''/'' \<notin> set part" using Cons.prems(2) by simp_all
  moreover have "\<forall>p \<in> set (part # acc). part_ok p" if "part \<noteq> ''''"
    using Cons.prems(1) \<open>CHR ''/'' \<notin> set part\<close> that by (simp add: part_ok_def)
  ultimately have "\<forall>p \<in> set (canonicalize_parts acc parts). part_ok p"
    "\<forall>p \<in> set (canonicalize_parts (pop acc) parts). part_ok p"
    "part \<noteq> '''' \<Longrightarrow> \<forall>p \<in> set (canonicalize_parts (part # acc) parts). part_ok p"
    using Cons.IH Cons.prems(1) by blast+
  then show ?case by (simp only: canonicalize_parts.simps split: if_split) blast
qed simp

definition path_parts :: "string \<Rightarrow> string list" where
  "path_parts p = canonicalize_parts [] (split_on CHR ''/'' p)"

lemma path_parts_no_slash: "\<forall>s \<in> set (path_parts p). part_ok s"
  unfolding path_parts_def by (rule canonicalize_parts_no_slash) (auto dest: split_on_no_sep)

lemma isPathInScope_canonical:
  "isPathInScope (canonicalizePath t) (canonicalizePath d) \<longleftrightarrow>
     prefix (path_parts d) (path_parts t) \<and> (path_parts d = [] \<longrightarrow> path_parts t = [])"
proof (cases "path_parts d = []")
  case True
  have "\<not> starts_with (canonicalizePath t) ''/''"
  proof (cases "path_parts t")
    case Nil
    then show ?thesis by (simp add: canonicalizePath_def path_parts_def starts_with_def)
  next
    case (Cons x xs)
    then have "CHR ''/'' \<notin> set x" "x \<noteq> ''''" using path_parts_no_slash [of t] by (auto simp: part_ok_def)
    then show ?thesis using Cons
      by (cases x; cases xs) (auto simp: canonicalizePath_def path_parts_def starts_with_def)
  qed
  moreover have "canonicalizePath t = '''' \<longleftrightarrow> path_parts t = []"
  proof (cases "path_parts t")
    case (Cons x xs)
    then have "x \<noteq> ''''" using path_parts_no_slash [of t] by (auto simp: part_ok_def)
    then show ?thesis using Cons by (cases xs) (auto simp: canonicalizePath_def path_parts_def)
  qed (simp add: canonicalizePath_def path_parts_def)
  ultimately show ?thesis
    using True by (auto simp: isPathInScope_def canonicalizePath_def path_parts_def ends_with_def)
next
  case False
  have "\<forall>s \<in> set (path_parts d) \<union> set (path_parts t). part_ok s"
    using path_parts_no_slash by blast
  then show ?thesis
    using starts_with_join_iff [OF False] join_not_ends_slash [of "path_parts d"] False
    by (simp add: isPathInScope_def canonicalizePath_def path_parts_def)
qed

text \<open>
  C25. The lexical check decides containment by path segments: a write to a non-empty target is allowed
  exactly when the segments of some declared string, after collapsing dots, are a prefix of the
  target's, so a sibling such as \<open>src-old\<close> is never inside \<open>src\<close>; and a declaration that collapses to
  nothing, such as the root, grants nothing but itself.
\<close>

theorem lexical_scope_is_segment_prefix:
  assumes "get_prop input ''isWrite'' = JBool True" and "get_prop input ''targetPath'' = JStr t" and "t \<noteq> ''''"
  shows "checkScope input = ALLOW \<longleftrightarrow>
     (\<exists>ds d. get_prop input ''declaredPaths'' = JArr ds \<and> JStr d \<in> set ds
         \<and> prefix (path_parts d) (path_parts t) \<and> (path_parts d = [] \<longrightarrow> path_parts t = []))"
proof -
  have obj: "is_objectlike input"
    using assms(1) by (cases input) (simp_all add: is_objectlike_def get_prop_def)
  show ?thesis
  proof (cases "as_array (get_prop input ''declaredPaths'')")
    case None
    then show ?thesis using obj assms
      by (auto simp: checkScope_def as_array_def Let_def split: jsval.splits)
  next
    case (Some ds)
    then have ds: "get_prop input ''declaredPaths'' = JArr ds" by (simp add: as_array_Some)
    have "list_ex (\<lambda>d. case as_string d of
             Some declared \<Rightarrow> isPathInScope (canonicalizePath t) (canonicalizePath declared)
           | None \<Rightarrow> False) ds \<longleftrightarrow>
        (\<exists>d. JStr d \<in> set ds \<and> isPathInScope (canonicalizePath t) (canonicalizePath d))"
      by (auto simp: list_ex_iff as_string_Some split: option.splits intro: bexI [rotated])
    then show ?thesis using obj assms ds
      by (simp add: checkScope_def Let_def isPathInScope_canonical)
  qed
qed

definition lexical_request :: "string \<Rightarrow> string \<Rightarrow> jsval" where
  "lexical_request t d =
     JObj [(''declaredPaths'', JArr [JStr d]), (''targetPath'', JStr t), (''isWrite'', JBool True)]"

lemma lexical_scope_is_segment_prefix_witness:
  "checkScope (lexical_request ''src//x/../a.ts'' ''./src/'') = ALLOW"
proof -
  have "path_parts ''src//x/../a.ts'' = [''src'', ''a.ts'']" "path_parts ''./src/'' = [''src'']" by code_simp+
  then show ?thesis
    using lexical_scope_is_segment_prefix [of "lexical_request ''src//x/../a.ts'' ''./src/''" "''src//x/../a.ts''"]
    by (simp add: lexical_request_def)
qed

text \<open>A leading \<open>..\<close> has nothing to pop and is dropped: a path outside the root passes for one inside.\<close>

lemma leading_dotdot_is_dropped: "checkScope (lexical_request ''../src/a.ts'' ''src'') = ALLOW"
  by code_simp

end
