(* ===== verification/Convergence.thy ===== *)
theory Convergence
  imports Scope Canonical_Json
begin

text \<open>
  The convergence gate, \<open>orchestrator/src/core/convergence.ts\<close>: baseline freshness, baseline
  subtraction and scope filtering. An input that is not an object is \<open>None\<close>; a field that is not an
  array is \<open>None\<close> and counts as empty. Lines are integers. The verdict is shown equivalent to its
  specification, and subtraction by the joined key is shown exact for file names without a colon. The
  dash of the silence message is written as a hyphen.
\<close>

record CheckResult =
  name :: string
  passed :: bool
  check_output :: string

record Finding =
  finding_file :: string
  finding_line :: int
  finding_message :: string
  finding_check :: string

record GateInput =
  current :: "CheckResult list option"
  baseline :: "CheckResult list option"
  baselineFindings :: "Finding list option"
  gate_scope :: "string list option"
  findings :: "Finding list option"

record GateVerdict =
  verdict_passed :: bool
  failures :: "string list"
  staleBaseline :: bool
  newFindings :: "Finding list"

definition array_or_empty :: "'a list option \<Rightarrow> 'a list" where
  "array_or_empty v = (case v of Some xs \<Rightarrow> xs | None \<Rightarrow> [])"

definition isBaselineStale :: "CheckResult list \<Rightarrow> CheckResult list \<Rightarrow> bool" where
  "isBaselineStale base cur =
     (base = []
      \<or> list_ex (\<lambda>n. n \<notin> set (map name base)) (map name cur)
      \<or> list_ex (\<lambda>n. n \<notin> set (map name cur)) (map name base))"

definition finding_key :: "Finding \<Rightarrow> string" where
  "finding_key f = finding_file f @ '':'' @ show_int (finding_line f) @ '':'' @ finding_message f"

definition subtractBaseline :: "Finding list \<Rightarrow> Finding list \<Rightarrow> Finding list" where
  "subtractBaseline fs base = filter (\<lambda>f. finding_key f \<notin> set (map finding_key base)) fs"

definition filterByScope :: "Finding list \<Rightarrow> string list \<Rightarrow> Finding list" where
  "filterByScope fs scope =
     (if scope = [] then fs else filter (\<lambda>f. list_ex (isPathInScope (finding_file f)) scope) fs)"

definition evaluateConvergenceGate :: "GateInput option \<Rightarrow> GateVerdict" where
  "evaluateConvergenceGate inp =
     (case inp of
        None \<Rightarrow> \<lparr>verdict_passed = False, failures = [''invalid input''], staleBaseline = True, newFindings = []\<rparr>
      | Some i \<Rightarrow>
          let cur = array_or_empty (current i);
              base = array_or_empty (baseline i);
              stale = (base = [] \<or> isBaselineStale base cur);
              fresh = subtractBaseline (array_or_empty (findings i)) (array_or_empty (baselineFindings i));
              scoped = filterByScope fresh (array_or_empty (gate_scope i));
              failed = map (\<lambda>c. name c @ '': '' @ check_output c) (filter (\<lambda>c. \<not> passed c) cur);
              fails = (if cur = [] then failed @ [''no checks executed - silence is not success''] else failed)
          in \<lparr>verdict_passed = (fails = [] \<and> \<not> stale \<and> scoped = []), failures = fails,
              staleBaseline = stale, newFindings = scoped\<rparr>)"

section \<open>Properties\<close>

lemma colon_split:
  "\<lbrakk>CHR '':'' \<notin> set a; CHR '':'' \<notin> set b; a @ '':'' @ x = b @ '':'' @ y\<rbrakk> \<Longrightarrow> a = b \<and> x = y"
proof (induction a arbitrary: b)
  case Nil
  then show ?case by (cases b) auto
next
  case (Cons c a)
  then show ?case by (cases b) auto
qed

lemma show_int_no_colon: "CHR '':'' \<notin> set (show_int i)"
proof -
  have "\<not> is_digit CHR '':''" by code_simp
  then have "CHR '':'' \<notin> set (show_nat n)" for n
    using show_nat_digits [of n] by (auto simp: list_all_iff)
  then show ?thesis by (simp add: show_int_def)
qed

lemma show_int_eq: "show_int i = show_int j \<Longrightarrow> i = j"
  using show_int_inject [of i "'',''" j "'',''"] by simp

lemma key_exact:
  assumes "CHR '':'' \<notin> set (finding_file f)" and "CHR '':'' \<notin> set (finding_file g)"
  shows "finding_key f = finding_key g \<longleftrightarrow>
         finding_file f = finding_file g \<and> finding_line f = finding_line g \<and> finding_message f = finding_message g"
proof
  assume "finding_key f = finding_key g"
  then have e: "finding_file f @ '':'' @ (show_int (finding_line f) @ '':'' @ finding_message f)
      = finding_file g @ '':'' @ (show_int (finding_line g) @ '':'' @ finding_message g)"
    by (simp add: finding_key_def)
  note s = colon_split [OF assms e]
  then show "finding_file f = finding_file g \<and> finding_line f = finding_line g \<and> finding_message f = finding_message g"
    using colon_split [OF show_int_no_colon show_int_no_colon] show_int_eq by blast
qed (simp add: finding_key_def)

text \<open>A file name with a colon can make the joined keys of two findings equal: the second is then taken for the first.\<close>

lemma key_collision:
  "finding_key \<lparr>finding_file = ''a:1:x'', finding_line = 2, finding_message = ''m'', finding_check = c\<rparr>
   = finding_key \<lparr>finding_file = ''a'', finding_line = 1, finding_message = ''x:2:m'', finding_check = d\<rparr>"
  by code_simp

lemma stale_iff: "isBaselineStale base cur \<longleftrightarrow> base = [] \<or> set (map name base) \<noteq> set (map name cur)"
  by (auto simp: isBaselineStale_def list_ex_iff)

text \<open>
  Silence is not success: the gate passes exactly when its input is an object, at least one check
  ran and every check passed, the baseline is not empty and names the same checks, and every finding
  has the joined key of a baseline finding or is outside a non-empty scope. Where no file name has a
  colon, equal keys are equal files, lines and messages (\<open>key_exact\<close>). A missing or malformed array can
  only make the gate fail, except for the findings and the scope, where it means none.
\<close>

lemma convergence_gate_passes_iff:
  "verdict_passed (evaluateConvergenceGate inp) \<longleftrightarrow>
    (\<exists>i. inp = Some i \<and> array_or_empty (current i) \<noteq> [] \<and> (\<forall>c \<in> set (array_or_empty (current i)). passed c)
       \<and> array_or_empty (baseline i) \<noteq> []
       \<and> name ` set (array_or_empty (baseline i)) = name ` set (array_or_empty (current i))
       \<and> (\<forall>f \<in> set (array_or_empty (findings i)).
            finding_key f \<in> finding_key ` set (array_or_empty (baselineFindings i))
            \<or> (array_or_empty (gate_scope i) \<noteq> []
               \<and> (\<forall>s \<in> set (array_or_empty (gate_scope i)). \<not> isPathInScope (finding_file f) s))))"
proof (cases inp)
  case None
  then show ?thesis by (simp add: evaluateConvergenceGate_def)
next
  case (Some i)
  have "filterByScope (subtractBaseline fs bs) sc = [] \<longleftrightarrow>
      (\<forall>f \<in> set fs. finding_key f \<in> finding_key ` set bs
         \<or> (sc \<noteq> [] \<and> (\<forall>s \<in> set sc. \<not> isPathInScope (finding_file f) s)))" for fs bs sc
    by (auto simp: filterByScope_def subtractBaseline_def filter_empty_conv list_ex_iff)
  then show ?thesis
    by (simp add: Some evaluateConvergenceGate_def Let_def stale_iff filter_empty_conv)
qed

end
