(* ===== verification/Filesystem_Identity.thy ===== *)
theory Filesystem_Identity
  imports Scope
begin

text \<open>
  The identity a path has on disk, \<open>orchestrator/src/contracts/filesystem-identity.ts\<close>: the endpoint
  a write would reach after following symbolic links, whether it exists, and how its directory
  compares names; and the containment of two identities.

  The file system is an argument: what \<open>lstat\<close>, \<open>readlink\<close>, \<open>readdir\<close> and \<open>realpath\<close> answer. The
  recursion through symbolic links is bounded by the code itself (\<open>MAX_SYMLINK_DEPTH\<close>), which is the
  fuel of \<open>resolveIdentity\<close>. The cache of case probes is left out: for an unchanging file system it
  returns what the probe returns. Error messages end where the code appends the system's message.
\<close>

datatype FilesystemCaseMode = Sensitive | Insensitive | Unknown_Case

record FilesystemPathIdentity =
  resolved :: string
  identity_exists :: bool
  caseMode :: FilesystemCaseMode

datatype node_kind = File_Node | Directory_Node | Link_Node

record IdentityFs = Fs +
  lstatKind :: "string \<Rightarrow> (io_error, node_kind) result"
  readlinkSync :: "string \<Rightarrow> (io_error, string) result"
  readdirSync :: "string \<Rightarrow> (io_error, string list) result"

definition MAX_SYMLINK_DEPTH :: nat where
  "MAX_SYMLINK_DEPTH = 40"

section \<open>The case probe\<close>

definition to_upper :: "char \<Rightarrow> char" where
  "to_upper c = (if is_lower c then char_of (of_char c - 32 :: nat) else c)"

fun alternateAsciiCase :: "string \<Rightarrow> string option" where
  "alternateAsciiCase [] = None"
| "alternateAsciiCase (c # cs) =
     (if is_lower c then Some (to_upper c # cs)
      else if is_upper c then Some (to_lower c # cs)
      else map_option ((#) c) (alternateAsciiCase cs))"

fun probe_entries :: "'a IdentityFs_scheme \<Rightarrow> string \<Rightarrow> string list \<Rightarrow> FilesystemCaseMode" where
  "probe_entries fs directory [] = Unknown_Case"
| "probe_entries fs directory (entry # entries) =
     (case alternateAsciiCase entry of
        None \<Rightarrow> probe_entries fs directory entries
      | Some alternate \<Rightarrow>
          if alternate = entry then probe_entries fs directory entries
          else case lstatKind fs (resolve (cwd fs) [directory, alternate]) of
            Inl ENOENT \<Rightarrow> Sensitive
          | Inl Other_IO \<Rightarrow> probe_entries fs directory entries
          | Inr _ \<Rightarrow>
              (case (realpathSync fs (resolve (cwd fs) [directory, entry]),
                     realpathSync fs (resolve (cwd fs) [directory, alternate])) of
                 (Inr a, Inr b) \<Rightarrow> if a = b then Insensitive else probe_entries fs directory entries
               | _ \<Rightarrow> probe_entries fs directory entries))"

definition filesystemCaseMode :: "'a IdentityFs_scheme \<Rightarrow> string \<Rightarrow> FilesystemCaseMode" where
  "filesystemCaseMode fs directory =
     (case readdirSync fs directory of
        Inr entries \<Rightarrow> probe_entries fs directory entries
      | Inl _ \<Rightarrow> Unknown_Case)"

section \<open>Resolving an identity\<close>

definition pathSegments :: "'a IdentityFs_scheme \<Rightarrow> string \<Rightarrow> string list" where
  "pathSegments fs p = abs_segs (resolve (cwd fs) [p])"

text \<open>\<open>dirname\<close> of an absolute path without a trailing slash.\<close>

definition dirname :: "string \<Rightarrow> string" where
  "dirname p = render (butlast (abs_segs p))"

definition symlink_state :: "string \<Rightarrow> string list \<Rightarrow> string" where
  "symlink_state candidate remaining = candidate @ [CHR 0x00] @ join_with [CHR 0x00] remaining"

text \<open>One pass over the segments; \<open>again\<close> is the recursive call taken at a symbolic link.\<close>

fun walk_segments ::
  "'a IdentityFs_scheme \<Rightarrow> (string set \<Rightarrow> string \<Rightarrow> (string, FilesystemPathIdentity) result)
   \<Rightarrow> string set \<Rightarrow> string \<Rightarrow> string list \<Rightarrow> (string, FilesystemPathIdentity) result" where
  "walk_segments fs again visited current [] =
     Inr \<lparr>resolved = current, identity_exists = True, caseMode = Sensitive\<rparr>"
| "walk_segments fs again visited current (seg # rest) =
     (let candidate = resolve (cwd fs) [current, seg] in
      case lstatKind fs candidate of
        Inl ENOENT \<Rightarrow>
          Inr \<lparr>resolved = resolve (cwd fs) (current # seg # rest), identity_exists = False,
               caseMode = filesystemCaseMode fs current\<rparr>
      | Inl Other_IO \<Rightarrow> Inl (''cannot observe '' @ candidate)
      | Inr Link_Node \<Rightarrow>
          if symlink_state candidate rest \<in> visited then Inl ''symbolic-link cycle''
          else (case readlinkSync fs candidate of
                  Inl _ \<Rightarrow> Inl (''cannot read symbolic link '' @ candidate)
                | Inr link \<Rightarrow>
                    let target = (if isAbsolute link then link else resolve (cwd fs) [dirname candidate, link])
                    in again (insert (symlink_state candidate rest) visited) (resolve (cwd fs) (target # rest)))
      | Inr kind \<Rightarrow>
          if rest \<noteq> [] \<and> kind \<noteq> Directory_Node then Inl (candidate @ '' is not a directory'')
          else (case realpathSync fs candidate of
                  Inl _ \<Rightarrow> Inl (''cannot resolve '' @ candidate)
                | Inr c \<Rightarrow> walk_segments fs again visited c rest))"

text \<open>The first argument counts the calls left: \<open>depth\<close> is \<open>MAX_SYMLINK_DEPTH + 1\<close> minus it.\<close>

fun resolveIdentity ::
  "nat \<Rightarrow> 'a IdentityFs_scheme \<Rightarrow> string set \<Rightarrow> string \<Rightarrow> (string, FilesystemPathIdentity) result" where
  "resolveIdentity 0 fs visited p = Inl ''too many symbolic links''"
| "resolveIdentity (Suc n) fs visited p =
     (case realpathSync fs ''/'' of
        Inl _ \<Rightarrow> Inl ''cannot resolve filesystem root''
      | Inr root \<Rightarrow> walk_segments fs (resolveIdentity n fs) visited root (pathSegments fs p))"

definition resolveFilesystemIdentity :: "'a IdentityFs_scheme \<Rightarrow> string \<Rightarrow> (string, FilesystemPathIdentity) result" where
  "resolveFilesystemIdentity fs p =
     resolveIdentity (Suc MAX_SYMLINK_DEPTH) fs {} (resolve (cwd fs) [p])"

section \<open>Containment of identities\<close>

definition pathIsEqualOrBelow :: "string \<Rightarrow> string \<Rightarrow> string \<Rightarrow> bool" where
  "pathIsEqualOrBelow wd parent candidate =
     (let rel = relative wd parent candidate in
      rel = '''' \<or> (\<not> starts_with rel ''../'' \<and> rel \<noteq> ''..'' \<and> \<not> isAbsolute rel))"

text \<open>
  \<open>normalize("NFC").toLowerCase()\<close>: on code units below 256 the normal form is the string itself, and
  the upper-case letters are those of ASCII and U+00C0 to U+00DE without the multiplication sign.
\<close>

definition fold_char :: "char \<Rightarrow> char" where
  "fold_char c =
     (let n = (of_char c :: nat) in
      if (65 \<le> n \<and> n \<le> 90) \<or> (192 \<le> n \<and> n \<le> 222 \<and> n \<noteq> 215) then char_of (n + 32) else c)"

definition foldedPath :: "string \<Rightarrow> string" where
  "foldedPath p = map fold_char p"

definition filesystemIdentityIsEqualOrBelow ::
  "string \<Rightarrow> FilesystemPathIdentity \<Rightarrow> FilesystemPathIdentity \<Rightarrow> bool" where
  "filesystemIdentityIsEqualOrBelow wd parent candidate =
     (if caseMode parent = Sensitive \<and> caseMode candidate = Sensitive
      then pathIsEqualOrBelow wd (resolved parent) (resolved candidate)
      else pathIsEqualOrBelow wd (foldedPath (resolved parent)) (foldedPath (resolved candidate)))"

definition filesystemIdentitiesOverlap :: "string \<Rightarrow> FilesystemPathIdentity \<Rightarrow> FilesystemPathIdentity \<Rightarrow> bool" where
  "filesystemIdentitiesOverlap wd left right =
     (filesystemIdentityIsEqualOrBelow wd left right \<or> filesystemIdentityIsEqualOrBelow wd right left)"

section \<open>Properties\<close>

lemma pathIsEqualOrBelow_pathInside: "pathIsEqualOrBelow wd p c = pathInside wd p c"
  by (auto simp: pathIsEqualOrBelow_def pathInside_def Let_def)

text \<open>Identities of a case-sensitive file system are contained in one another as paths are.\<close>

definition sensitive_identity :: "FilesystemPathIdentity \<Rightarrow> bool" where
  "sensitive_identity i = (caseMode i = Sensitive \<and> canonical_path (resolved i))"

interpretation sensitive: tree_containment sensitive_identity "filesystemIdentityIsEqualOrBelow wd" for wd
  by unfold_locales
    (auto simp: sensitive_identity_def filesystemIdentityIsEqualOrBelow_def pathIsEqualOrBelow_pathInside
      intro: posix.inside_refl posix.inside_trans dest: posix.inside_chain)

text \<open>
  Identities whose directories do not distinguish case, or may not, are compared folded. Folding keeps
  a path canonical: it changes letters only.
\<close>

definition folded_identity :: "FilesystemPathIdentity \<Rightarrow> bool" where
  "folded_identity i = (caseMode i \<noteq> Sensitive \<and> canonical_path (foldedPath (resolved i)))"

interpretation folded: tree_containment folded_identity "filesystemIdentityIsEqualOrBelow wd" for wd
  by unfold_locales
    (auto simp: folded_identity_def filesystemIdentityIsEqualOrBelow_def pathIsEqualOrBelow_pathInside
      intro: posix.inside_refl posix.inside_trans dest: posix.inside_chain)

definition fs_realpath_canonical :: "'a IdentityFs_scheme \<Rightarrow> bool" where
  "fs_realpath_canonical fs = (\<forall>p c. realpathSync fs p = Inr c \<longrightarrow> canonical_path c)"

definition well_resolved :: "FilesystemPathIdentity \<Rightarrow> bool" where
  "well_resolved i = (canonical_path (resolved i) \<and> (identity_exists i \<longrightarrow> caseMode i = Sensitive))"

lemma walk_segments_resolved:
  assumes "fs_realpath_canonical fs"
    and again: "\<And>v p i. again v p = Inr i \<Longrightarrow> well_resolved i"
    and "canonical_path current" and "walk_segments fs again visited current segs = Inr i"
  shows "well_resolved i"
  using assms(3,4)
proof (induction segs arbitrary: current)
  case Nil
  then show ?case by (auto simp: well_resolved_def)
next
  case (Cons seg rest)
  have real: "canonical_path c" if "realpathSync fs q = Inr c" for q c
    using assms(1) that by (auto simp: fs_realpath_canonical_def)
  have found: "well_resolved \<lparr>resolved = c, identity_exists = True, caseMode = Sensitive\<rparr>"
    if "realpathSync fs q = Inr c" for q c
    using real [OF that] by (simp add: well_resolved_def)
  have missing: "well_resolved \<lparr>resolved = resolve (cwd fs) ps, identity_exists = False, caseMode = m\<rparr>" for ps m
    by (simp add: well_resolved_def resolve_is_canonical)
  show ?case
    using Cons.prems
    by (auto simp: Let_def missing split: sum.splits io_error.splits node_kind.splits if_splits
        intro: again Cons.IH real found)
qed

lemma resolveIdentity_resolved:
  assumes "fs_realpath_canonical fs" and "resolveIdentity n fs visited p = Inr i"
  shows "well_resolved i"
  using assms(2)
proof (induction n arbitrary: visited p i)
  case (Suc n)
  obtain root where "realpathSync fs ''/'' = Inr root"
    "walk_segments fs (resolveIdentity n fs) visited root (pathSegments fs p) = Inr i"
    using Suc.prems by (auto split: sum.splits)
  then show ?case
    using walk_segments_resolved [where again = "resolveIdentity n fs", OF assms(1)] Suc.IH assms(1)
    by (simp add: fs_realpath_canonical_def) blast
qed simp

lemma identity_is_canonical:
  "fs_realpath_canonical fs \<Longrightarrow> resolveFilesystemIdentity fs p = Inr i \<Longrightarrow> well_resolved i"
  using resolveIdentity_resolved by (simp only: resolveFilesystemIdentity_def)

text \<open>Folding changes letters only, so it keeps a path canonical.\<close>

lemma fold_char_code:
  "(of_char (fold_char c) :: nat)
   = (let n = of_char c in if (65 \<le> n \<and> n \<le> 90) \<or> (192 \<le> n \<and> n \<le> 222 \<and> n \<noteq> 215) then n + 32 else n)"
  by (auto simp: fold_char_def Let_def)

lemma fold_char_mark: "d \<in> {CHR ''/'', CHR ''.''} \<Longrightarrow> fold_char c = d \<longleftrightarrow> c = d"
proof -
  assume "d \<in> {CHR ''/'', CHR ''.''}"
  then have d: "(of_char d :: nat) < 65" by auto
  have "(of_char (fold_char c) :: nat) = of_char d \<longleftrightarrow> (of_char c :: nat) = of_char d"
    using d by (auto simp: fold_char_code Let_def)
  then show "fold_char c = d \<longleftrightarrow> c = d" by simp
qed

lemma folded_render: "foldedPath (render segs) = render (map foldedPath segs)"
proof -
  have slash: "fold_char CHR ''/'' = CHR ''/''" using fold_char_mark by blast
  have "map fold_char (join_with ''/'' segs) = join_with ''/'' (map foldedPath segs)"
  proof (induction segs)
    case (Cons seg segs)
    then show ?case by (cases segs) (simp_all add: foldedPath_def slash)
  qed simp
  then show ?thesis by (simp add: foldedPath_def render_def slash)
qed

lemma folded_plain: "plain_seg s \<Longrightarrow> plain_seg (foldedPath s)"
proof -
  have slash: "CHR ''/'' = fold_char c \<longleftrightarrow> c = CHR ''/''" for c
    using fold_char_mark [of "CHR ''/''" c] by (simp add: eq_commute)
  have dot: "fold_char c = CHR ''.'' \<longleftrightarrow> c = CHR ''.''" for c by (rule fold_char_mark) simp
  have "CHR ''/'' \<in> set (foldedPath s) \<longleftrightarrow> CHR ''/'' \<in> set s" by (simp add: foldedPath_def image_iff slash)
  moreover have "foldedPath s = ''.'' \<longleftrightarrow> s = ''.''" "foldedPath s = ''..'' \<longleftrightarrow> s = ''..''" "foldedPath s = [] \<longleftrightarrow> s = []"
    by (auto simp: foldedPath_def map_eq_Cons_conv dot)
  ultimately show "plain_seg s \<Longrightarrow> plain_seg (foldedPath s)" by (simp add: plain_seg_def)
qed

lemma folded_canonical: "canonical_path p \<Longrightarrow> canonical_path (foldedPath p)"
proof (erule canonical_pathE)
  fix segs assume "p = render segs" "list_all plain_seg segs"
  then show "canonical_path (foldedPath p)"
    using folded_plain by (simp add: folded_render list_all_iff)
qed

text \<open>
  Two roots that do not overlap own disjoint trees of paths: \<open>filesystemIdentitiesOverlap\<close> holds exactly
  when some path lies below both, compared exactly where both roots are compared case-sensitively and
  folded otherwise, so the pairwise test of admission is enough. Nothing is said of identities below
  the roots that are compared differently from the roots.
\<close>

lemma identities_overlap_iff_share:
  assumes "canonical_path (resolved a)" "canonical_path (resolved b)"
  shows "filesystemIdentitiesOverlap wd a b \<longleftrightarrow>
    (\<exists>p. canonical_path p
       \<and> (if caseMode a = Sensitive \<and> caseMode b = Sensitive
          then pathInside wd (resolved a) p \<and> pathInside wd (resolved b) p
          else pathInside wd (foldedPath (resolved a)) p \<and> pathInside wd (foldedPath (resolved b)) p))"
  using posix.overlap_iff_common [OF assms, of wd]
    posix.overlap_iff_common [OF folded_canonical [OF assms(1)] folded_canonical [OF assms(2)], of wd]
  by (auto simp: filesystemIdentitiesOverlap_def filesystemIdentityIsEqualOrBelow_def pathIsEqualOrBelow_pathInside)

end
