(* ===== verification/Ticket_Contract.thy ===== *)
theory Ticket_Contract
  imports Filesystem_Identity Canonical_Json
begin

text \<open>
  Ticket contracts, \<open>orchestrator/src/contracts/ticket-contract.ts\<close>: the typed contract, the strict
  parser of one candidate and the digest that seals it. A candidate is any JavaScript value; every
  \<open>fail\<close> and \<open>infrastructure\<close> of the source is an error with that code.

  \<open>sha256\<close> is an argument, from the text hashed to its hexadecimal digest. The repository is an
  argument too: the file system of \<^theory_text>\<open>Filesystem_Identity\<close> with the outputs of the two Git
  commands the admission runs (\<open>None\<close> where the command fails). Labels exist only in messages, except
  the label of an owned endpoint, which the overlap check compares.
\<close>

section \<open>The contract\<close>

datatype TicketInterfaceDirection = Provides | Consumes
datatype VerificationCwdClass = Repository_Root | Orchestrator_Package | Attempt_Output

record TicketScopeEntry =
  entry_path :: string
  change_kind :: ScopeChangeKind
  entry_directory :: bool
  from_path :: "string option"

record TicketInterface =
  interface_id :: string
  direction :: TicketInterfaceDirection
  interface_path :: string
  interface_owner :: string
  interface_description :: string

record TicketAcceptanceCriterion =
  criterion_id :: string
  criterion_description :: string
  interface_ids :: "string list"
  verification_ids :: "string list"

record TicketVerification =
  verification_id :: string
  executable :: string
  args :: "string list"
  cwd_class :: VerificationCwdClass
  env_allowlist :: "string list"
  timeout_ms :: int
  writable_outputs :: "string list"
  expected_exit_codes :: "int list"

record TicketBudgets =
  max_attempts :: int
  max_review_cycles :: int
  wall_clock_ms :: int
  remediation_limit :: int

record TicketContract =
  contract_id :: string
  title :: string
  description :: string
  depends_on :: "string list"
  contract_scope :: "TicketScopeEntry list"
  interfaces :: "TicketInterface list"
  acceptance_criteria :: "TicketAcceptanceCriterion list"
  verifications :: "TicketVerification list"
  budgets :: TicketBudgets
  contract_digest :: string

definition TICKET_CONTRACT_SCHEMA_VERSION :: string where
  "TICKET_CONTRACT_SCHEMA_VERSION = ''1.0.0''"

definition DRAFT_KEYS :: "string list" where
  "DRAFT_KEYS = [''schema_version'', ''id'', ''title'', ''description'', ''depends_on'', ''scope'',
     ''interfaces'', ''acceptance_criteria'', ''verifications'', ''budgets'']"

definition TOP_LEVEL_KEYS :: "string list" where
  "TOP_LEVEL_KEYS = DRAFT_KEYS @ [''digest'']"

section \<open>Names\<close>

text \<open>\<open>/^t[0-9]{2,}$/\<close>\<close>

definition is_ticket_id :: "string \<Rightarrow> bool" where
  "is_ticket_id s = (case s of c # ds \<Rightarrow> c = CHR ''t'' \<and> length ds \<ge> 2 \<and> list_all is_digit ds | [] \<Rightarrow> False)"

text \<open>\<open>/^[A-Z][A-Z0-9]*(?:-[A-Z0-9]+)+$/\<close>\<close>

definition upper_or_digit :: "char \<Rightarrow> bool" where
  "upper_or_digit c = (is_upper c \<or> is_digit c)"

definition is_local_id :: "string \<Rightarrow> bool" where
  "is_local_id s =
     (case split_on CHR ''-'' s of
        first # second # others \<Rightarrow>
          first \<noteq> '''' \<and> is_upper (hd first)
          \<and> list_all (\<lambda>part. part \<noteq> '''' \<and> list_all upper_or_digit part) (first # second # others)
      | _ \<Rightarrow> False)"

text \<open>\<open>/^[A-Za-z0-9._+/-]+$/\<close> and \<open>/^[A-Z][A-Z0-9_]*$/\<close>\<close>

definition is_executable :: "string \<Rightarrow> bool" where
  "is_executable s =
     (s \<noteq> '''' \<and> list_all (\<lambda>c. is_upper c \<or> is_lower c \<or> is_digit c \<or> c \<in> set ''._+/-'') s)"

definition is_environment_name :: "string \<Rightarrow> bool" where
  "is_environment_name s =
     (case s of c # cs \<Rightarrow> is_upper c \<and> list_all (\<lambda>d. upper_or_digit d \<or> d = CHR ''_'') cs | [] \<Rightarrow> False)"

definition SHELL_EXECUTABLES :: "string list" where
  "SHELL_EXECUTABLES = [''sh'', ''bash'', ''zsh'', ''cmd'', ''powershell'', ''pwsh'']"

definition parse_direction :: "jsval \<Rightarrow> TicketInterfaceDirection option" where
  "parse_direction v =
     (if v = JStr ''provides'' then Some Provides
      else if v = JStr ''consumes'' then Some Consumes else None)"

definition parse_cwd_class :: "jsval \<Rightarrow> VerificationCwdClass option" where
  "parse_cwd_class v =
     (if v = JStr ''repository_root'' then Some Repository_Root
      else if v = JStr ''orchestrator_package'' then Some Orchestrator_Package
      else if v = JStr ''attempt_output'' then Some Attempt_Output else None)"

fun direction_name :: "TicketInterfaceDirection \<Rightarrow> string" where
  "direction_name Provides = ''provides''"
| "direction_name Consumes = ''consumes''"

fun cwd_class_name :: "VerificationCwdClass \<Rightarrow> string" where
  "cwd_class_name Repository_Root = ''repository_root''"
| "cwd_class_name Orchestrator_Package = ''orchestrator_package''"
| "cwd_class_name Attempt_Output = ''attempt_output''"

section \<open>Field readers\<close>

definition exactObject ::
  "jsval \<Rightarrow> string list \<Rightarrow> string list \<Rightarrow> string \<Rightarrow> (contract_error, jsval) result" where
  "exactObject v allowed required code =
     (case v of
        JObj kvs \<Rightarrow>
          if list_ex (\<lambda>kv. fst kv \<notin> set allowed) kvs then fail ''TICKET_SCHEMA_UNKNOWN_FIELD''
          else if list_ex (\<lambda>key. \<not> has_prop v key) required then fail code
          else Inr v
      | _ \<Rightarrow> fail code)"

definition nonEmptyString :: "jsval \<Rightarrow> string \<Rightarrow> (string \<Rightarrow> bool) \<Rightarrow> (contract_error, string) result" where
  "nonEmptyString v code pattern =
     (case v of
        JStr s \<Rightarrow> if trim s = '''' \<or> s \<noteq> trim s \<or> \<not> pattern s then fail code else Inr s
      | _ \<Rightarrow> fail code)"

definition any_text :: "string \<Rightarrow> bool" where
  "any_text s = True"

definition stringArray :: "jsval \<Rightarrow> string \<Rightarrow> (contract_error, string list) result" where
  "stringArray v code =
     (case v of
        JArr vs \<Rightarrow> traverse (\<lambda>x. case x of JStr s \<Rightarrow> Inr s | _ \<Rightarrow> fail code) vs
      | _ \<Rightarrow> fail code)"

definition unique :: "'a list \<Rightarrow> string \<Rightarrow> (contract_error, unit) result" where
  "unique values code = (if no_dups values then Inr () else fail code)"

definition boundedInteger :: "jsval \<Rightarrow> int \<Rightarrow> int \<Rightarrow> string \<Rightarrow> (contract_error, int) result" where
  "boundedInteger v minimum maximum code =
     (case v of
        JNum i \<Rightarrow> if \<not> is_safe_int i \<or> i < minimum \<or> i > maximum then fail code else Inr i
      | _ \<Rightarrow> fail code)"

definition require :: "bool \<Rightarrow> string \<Rightarrow> (contract_error, unit) result" where
  "require ok code = (if ok then Inr () else fail code)"

text \<open>A value the code refuses when it is missing or of the wrong type.\<close>

definition or_fail :: "'a option \<Rightarrow> string \<Rightarrow> (contract_error, 'a) result" where
  "or_fail v code = (case v of Some x \<Rightarrow> Inr x | None \<Rightarrow> fail code)"

definition canonicalRepoPath :: "jsval \<Rightarrow> (contract_error, string) result" where
  "canonicalRepoPath v =
     rbind (nonEmptyString v ''TICKET_SCOPE_PATH_INVALID'' any_text) (\<lambda>p.
     if isAbsolute p \<or> drive_prefix p then fail ''TICKET_SCOPE_PATH_ABSOLUTE''
     else if CHR 0x5C \<in> set p \<or> CHR 0x00 \<in> set p \<or> contains p ''//'' \<or> ends_with p ''/''
     then fail ''TICKET_SCOPE_PATH_INVALID''
     else
       let segments = split_on CHR ''/'' p in
       if list_ex (\<lambda>s. s = '''' \<or> s = ''.'' \<or> s = ''..'') segments then fail ''TICKET_SCOPE_PATH_TRAVERSAL''
       else if list_ex (\<lambda>s. map to_lower s = ''.git'' \<or> map to_lower s = ''.rickgent'') segments
       then fail ''TICKET_SCOPE_PATH_RESERVED''
       else Inr p)"

lemma or_fail_ok [simp]: "or_fail v code = Inr x \<longleftrightarrow> v = Some x"
  by (cases v) (simp_all add: or_fail_def)

lemma require_ok [simp]: "require b code = Inr x \<longleftrightarrow> b"
  by (simp add: require_def)

lemma unique_ok [simp]: "unique xs code = Inr x \<longleftrightarrow> distinct xs"
  by (simp add: unique_def)

lemma exactObject_ok:
  "exactObject v allowed required code = Inr w \<longleftrightarrow>
     w = v \<and> (\<exists>kvs. v = JObj kvs \<and> fst ` set kvs \<subseteq> set allowed \<and> (\<forall>key \<in> set required. has_prop v key))"
  by (auto simp: exactObject_def list_ex_iff split: jsval.splits)

lemma nonEmptyString_ok: "nonEmptyString v code pattern = Inr s \<longleftrightarrow> v = JStr s \<and> trim s = s \<and> s \<noteq> [] \<and> pattern s"
  by (auto simp: nonEmptyString_def split: jsval.splits)

lemma stringArray_ok: "stringArray v code = Inr ss \<longleftrightarrow> v = JArr (map JStr ss)"
proof -
  have "traverse (\<lambda>x. case x of JStr s \<Rightarrow> Inr s | _ \<Rightarrow> fail code) vs = Inr ss \<longleftrightarrow> vs = map JStr ss" for vs ss
  proof (induction vs arbitrary: ss)
    case (Cons x vs)
    then show ?case by (cases ss; cases x) (auto simp: rbind_Inr_iff)
  qed auto
  then show ?thesis by (auto simp: stringArray_def split: jsval.splits)
qed

lemma boundedInteger_ok:
  "boundedInteger v lo hi code = Inr i \<longleftrightarrow> v = JNum i \<and> is_safe_int i \<and> lo \<le> i \<and> i \<le> hi"
  by (auto simp: boundedInteger_def split: jsval.splits)

lemmas reader_ok = rbind_Inr_iff exactObject_ok nonEmptyString_ok stringArray_ok boundedInteger_ok Let_def

section \<open>The repository\<close>

record RepositoryIo = IdentityFs +
  git_rev_parse :: "string \<Rightarrow> string option"
  git_ls_files :: "string \<Rightarrow> string option"

record RepositoryContext =
  repo_io :: RepositoryIo
  repo_root :: string
  gitAdministrativeRoots :: "string list"
  repo_stateRoots :: "FilesystemPathIdentity list"
  submodules :: "FilesystemPathIdentity list"
  repo_validateFilesystem :: bool

definition isEqualOrBelow :: "string \<Rightarrow> string \<Rightarrow> string \<Rightarrow> bool" where
  "isEqualOrBelow wd parent candidate =
     (let rel = relative wd parent candidate in
      rel = '''' \<or> (\<not> starts_with rel ''../'' \<and> rel \<noteq> ''..'' \<and> \<not> isAbsolute rel))"

definition inspection_failed :: "(contract_error, 'a) result" where
  "inspection_failed = infrastructure ''TICKET_REPOSITORY_INSPECTION_FAILED''"

definition or_inspection_failed :: "('e, 'a) result \<Rightarrow> (contract_error, 'a) result" where
  "or_inspection_failed r = (case r of Inl _ \<Rightarrow> inspection_failed | Inr x \<Rightarrow> Inr x)"

definition filesystemIdentity :: "'a IdentityFs_scheme \<Rightarrow> string \<Rightarrow> (contract_error, FilesystemPathIdentity) result" where
  "filesystemIdentity io absolutePath = or_inspection_failed (resolveFilesystemIdentity io absolutePath)"

definition resolveWithNearestExistingParent ::
  "'a IdentityFs_scheme \<Rightarrow> string \<Rightarrow> string \<Rightarrow> (contract_error, FilesystemPathIdentity) result" where
  "resolveWithNearestExistingParent io root repoPath =
     (let lexical = resolve (cwd io) (root # split_on CHR ''/'' repoPath) in
      if \<not> isEqualOrBelow (cwd io) root lexical then fail ''TICKET_SCOPE_PATH_ESCAPE''
      else filesystemIdentity io lexical)"

text \<open>\<open>output.trim().split(/\r?\n/)\<close>\<close>

definition strip_cr :: "string \<Rightarrow> string" where
  "strip_cr s = (if ends_with s [CHR 0x0D] then butlast s else s)"

definition output_lines :: "string \<Rightarrow> string list" where
  "output_lines s =
     (let ls = split_on CHR 0x0A (trim s) in map strip_cr (butlast ls) @ [last ls])"

definition first_occurrences :: "'a list \<Rightarrow> 'a list" where
  "first_occurrences xs = rev (remdups (rev xs))"

definition read_gitAdministrativeRoots :: "RepositoryIo \<Rightarrow> string \<Rightarrow> (contract_error, string list) result" where
  "read_gitAdministrativeRoots io root =
     (case git_rev_parse io root of
        None \<Rightarrow> inspection_failed
      | Some out \<Rightarrow>
          let paths = output_lines out in
          if length paths \<noteq> 2 \<or> list_ex (\<lambda>p. p = '''') paths then inspection_failed
          else or_inspection_failed (rbind
                 (traverse (\<lambda>p. realpathSync io (if isAbsolute p then p else resolve (cwd io) [root, p])) paths)
                 (\<lambda>ps. Inr (first_occurrences ps))))"

text \<open>\<open>/^160000 [0-9a-f]+ \d\t(.+)$/\<close> on a record of \<open>git ls-files --stage -z\<close>\<close>

definition gitlink_path :: "string \<Rightarrow> string option" where
  "gitlink_path entry =
     (let rest = drop 7 entry; oid = takeWhile is_hex rest; after = drop (length oid) rest; p = drop 3 after in
      if starts_with entry ''160000 '' \<and> oid \<noteq> '''' \<and> length after \<ge> 3 \<and> after ! 0 = CHR '' '' \<and> is_digit (after ! 1)
         \<and> after ! 2 = CHR 0x09 \<and> p \<noteq> '''' \<and> CHR 0x0A \<notin> set p \<and> CHR 0x0D \<notin> set p
      then Some p else None)"

definition read_gitSubmodules ::
  "RepositoryIo \<Rightarrow> string \<Rightarrow> (contract_error, FilesystemPathIdentity list) result" where
  "read_gitSubmodules io root =
     (case git_ls_files io root of
        None \<Rightarrow> inspection_failed
      | Some out \<Rightarrow>
          or_inspection_failed
            (traverse (resolveWithNearestExistingParent io root)
               (sort (map the (filter (\<lambda>p. p \<noteq> None) (map gitlink_path (split_on CHR 0x00 out)))))))"

record NormalizationContext =
  ctx_repositoryRoot :: "string option"
  ctx_stateRoots :: "string list option"
  ctx_knownExternalDependencyIds :: "string list option"
  ctx_activeContracts :: "TicketContract list option"
  ctx_validateFilesystem :: "bool option"

definition list_of :: "'a list option \<Rightarrow> 'a list" where
  "list_of v = (case v of Some xs \<Rightarrow> xs | None \<Rightarrow> [])"

definition repositoryContext ::
  "RepositoryIo \<Rightarrow> NormalizationContext \<Rightarrow> (contract_error, RepositoryContext option) result" where
  "repositoryContext io ctx =
     (case ctx_repositoryRoot ctx of
        None \<Rightarrow> Inr None
      | Some given \<Rightarrow>
          rbind (or_inspection_failed (realpathSync io given)) (\<lambda>root.
          rbind (or_inspection_failed (statIsDirectory io root)) (\<lambda>d.
          if \<not> d then inspection_failed
          else
            rbind (traverse (\<lambda>s. filesystemIdentity io (if isAbsolute s then s else resolve (cwd io) [root, s]))
                     (list_of (ctx_stateRoots ctx))) (\<lambda>states.
            rbind (read_gitAdministrativeRoots io root) (\<lambda>gits.
            rbind (read_gitSubmodules io root) (\<lambda>subs.
            Inr (Some \<lparr>repo_io = io, repo_root = root, gitAdministrativeRoots = gits, repo_stateRoots = states,
                       submodules = subs,
                       repo_validateFilesystem = (ctx_validateFilesystem ctx \<noteq> Some False)\<rparr>)))))))"

record PathObservation =
  obs_exists :: bool
  obs_directory :: "bool option"

definition inspectPath ::
  "RepositoryContext option \<Rightarrow> string \<Rightarrow> bool \<Rightarrow> (contract_error, PathObservation) result" where
  "inspectPath repository p ownsDescendants =
     (case repository of
        None \<Rightarrow> Inr \<lparr>obs_exists = False, obs_directory = None\<rparr>
      | Some r \<Rightarrow>
          let io = repo_io r; wd = cwd io in
          rbind (resolveWithNearestExistingParent io (repo_root r) p) (\<lambda>endpoint.
          if list_ex (\<lambda>s. filesystemIdentityIsEqualOrBelow wd s endpoint
                         \<or> (ownsDescendants \<and> filesystemIdentityIsEqualOrBelow wd endpoint s)) (submodules r)
          then fail ''TICKET_SCOPE_PATH_SUBMODULE''
          else if list_ex (\<lambda>g. isEqualOrBelow wd g (resolved endpoint)
                              \<or> (ownsDescendants \<and> isEqualOrBelow wd (resolved endpoint) g)) (gitAdministrativeRoots r)
          then fail ''TICKET_SCOPE_PATH_RESERVED''
          else if list_ex (\<lambda>s. filesystemIdentityIsEqualOrBelow wd s endpoint
                              \<or> (ownsDescendants \<and> filesystemIdentityIsEqualOrBelow wd endpoint s)) (repo_stateRoots r)
          then fail ''TICKET_SCOPE_PATH_RESERVED''
          else if \<not> isEqualOrBelow wd (repo_root r) (resolved endpoint) then fail ''TICKET_SCOPE_PATH_ESCAPE''
          else if \<not> identity_exists endpoint then Inr \<lparr>obs_exists = False, obs_directory = None\<rparr>
          else
            rbind (or_inspection_failed (lstatKind io (resolve wd (repo_root r # split_on CHR ''/'' p)))) (\<lambda>kind.
            rbind (if kind = Link_Node then or_inspection_failed (statIsDirectory io (resolved endpoint))
                   else Inr (kind = Directory_Node)) (\<lambda>d.
            Inr \<lparr>obs_exists = True, obs_directory = Some d\<rparr>))))"

section \<open>Scope\<close>

record OwnedEndpoint =
  endpoint_path :: string
  endpoint_directory :: bool
  endpoint_label :: string

definition endpointOverlap :: "OwnedEndpoint \<Rightarrow> OwnedEndpoint \<Rightarrow> bool" where
  "endpointOverlap left right =
     (if endpoint_path left = endpoint_path right then True
      else if endpoint_directory left \<and> starts_with (endpoint_path right) (endpoint_path left @ ''/'') then True
      else endpoint_directory right \<and> starts_with (endpoint_path left) (endpoint_path right @ ''/''))"

definition parse_from_path :: "jsval \<Rightarrow> ScopeChangeKind \<Rightarrow> string \<Rightarrow> (contract_error, string option) result" where
  "parse_from_path input kind p =
     (if kind = Rename then
        (if \<not> has_prop input ''from_path'' then fail ''TICKET_SCOPE_RENAME_INVALID''
         else
           rbind (canonicalRepoPath (get_prop input ''from_path'')) (\<lambda>f.
           if f = p then fail ''TICKET_SCOPE_RENAME_INVALID'' else Inr (Some f)))
      else if has_prop input ''from_path'' then fail ''TICKET_SCOPE_RENAME_INVALID''
      else Inr None)"

definition scope_feasible ::
  "RepositoryContext option \<Rightarrow> ScopeChangeKind \<Rightarrow> bool \<Rightarrow> PathObservation \<Rightarrow> PathObservation option
   \<Rightarrow> (contract_error, unit) result" where
  "scope_feasible repository kind directory destination source =
     (if (case repository of Some r \<Rightarrow> repo_validateFilesystem r | None \<Rightarrow> False) then
        rbind (require (\<not> (kind = Create \<and> obs_exists destination)) ''TICKET_SCOPE_CHANGE_MISMATCH'') (\<lambda>_.
        rbind (require (\<not> ((kind = Modify \<or> kind = Delete) \<and> \<not> obs_exists destination))
                 ''TICKET_SCOPE_CHANGE_MISMATCH'') (\<lambda>_.
        rbind (require (kind = Rename \<longrightarrow> (case source of Some s \<Rightarrow> obs_exists s | None \<Rightarrow> False))
                 ''TICKET_SCOPE_RENAME_INVALID'') (\<lambda>_.
        rbind (require (\<not> (kind = Rename \<and> obs_exists destination)) ''TICKET_SCOPE_RENAME_INVALID'') (\<lambda>_.
        let observed = (if kind = Rename then (case source of Some s \<Rightarrow> obs_directory s | None \<Rightarrow> None)
                        else obs_directory destination) in
        require (case observed of Some d \<Rightarrow> d = directory | None \<Rightarrow> True) ''TICKET_SCOPE_CHANGE_MISMATCH''))))
      else Inr ())"

definition entry_names :: "TicketScopeEntry \<Rightarrow> string list" where
  "entry_names e = entry_path e # (case from_path e of None \<Rightarrow> [] | Some f \<Rightarrow> [f])"

definition inspect_source ::
  "RepositoryContext option \<Rightarrow> string option \<Rightarrow> bool \<Rightarrow> (contract_error, PathObservation option) result" where
  "inspect_source repository f directory =
     (case f of
        None \<Rightarrow> Inr None
      | Some q \<Rightarrow> rbind (inspectPath repository q directory) (\<lambda>seen. Inr (Some seen)))"

definition parse_scope_entry ::
  "RepositoryContext option \<Rightarrow> string list \<Rightarrow> jsval \<Rightarrow> (contract_error, string list \<times> TicketScopeEntry) result" where
  "parse_scope_entry repository endpointNames v =
     rbind (exactObject v [''path'', ''change_kind'', ''directory'', ''from_path'']
              [''path'', ''change_kind'', ''directory''] ''TICKET_SCOPE_INVALID'') (\<lambda>input.
     rbind (canonicalRepoPath (get_prop input ''path'')) (\<lambda>p.
     rbind (or_fail (parse_change_kind (get_prop input ''change_kind'')) ''TICKET_SCOPE_INVALID'') (\<lambda>kind.
     rbind (or_fail (as_bool (get_prop input ''directory'')) ''TICKET_SCOPE_INVALID'') (\<lambda>directory.
              rbind (parse_from_path input kind p) (\<lambda>f.
              rbind (require (\<not> (directory \<and> (kind = Delete \<or> kind = Rename)))
                       ''TICKET_SCOPE_CHANGE_UNSUPPORTED'') (\<lambda>_.
              let entry = \<lparr>entry_path = p, change_kind = kind, entry_directory = directory, from_path = f\<rparr>;
                  candidates = entry_names entry in
              rbind (require (list_all (\<lambda>c. c \<notin> set endpointNames) candidates) ''TICKET_SCOPE_DUPLICATE'') (\<lambda>_.
              rbind (inspectPath repository p directory) (\<lambda>destination.
              rbind (inspect_source repository f directory) (\<lambda>source.
              rbind (scope_feasible repository kind directory destination source) (\<lambda>_.
              Inr (endpointNames @ candidates, entry)))))))))))"

definition entry_endpoints :: "nat \<Rightarrow> TicketScopeEntry \<Rightarrow> OwnedEndpoint list" where
  "entry_endpoints i e =
     map (\<lambda>p. \<lparr>endpoint_path = p, endpoint_directory = entry_directory e,
              endpoint_label = ''scope['' @ show_nat i @ '']''\<rparr>) (entry_names e)"

fun ordered_pairs :: "'a list \<Rightarrow> ('a \<times> 'a) list" where
  "ordered_pairs [] = []"
| "ordered_pairs (x # xs) = map (Pair x) xs @ ordered_pairs xs"

definition scope_endpoints :: "TicketScopeEntry list \<Rightarrow> OwnedEndpoint list" where
  "scope_endpoints scope = concat (map (\<lambda>(i, e). entry_endpoints i e) (zip [0..<length scope] scope))"

definition parseScope ::
  "RepositoryContext option \<Rightarrow> jsval
   \<Rightarrow> (contract_error, TicketScopeEntry list \<times> OwnedEndpoint list) result" where
  "parseScope repository v =
     rbind (or_fail (as_array v) ''TICKET_NO_OP'') (\<lambda>vs.
     rbind (require (vs \<noteq> []) ''TICKET_NO_OP'') (\<lambda>_.
     rbind (traverse_state (parse_scope_entry repository) [] vs) (\<lambda>(_, scope).
     let endpoints = scope_endpoints scope in
     rbind (check_all (\<lambda>(a, b). require (\<not> (endpoint_label a \<noteq> endpoint_label b \<and> endpointOverlap a b))
                                  ''TICKET_SCOPE_OVERLAP'') (ordered_pairs endpoints)) (\<lambda>_.
     Inr (scope, endpoints)))))"

section \<open>Interfaces, verifications, criteria and budgets\<close>

definition parse_interface ::
  "RepositoryContext option \<Rightarrow> string list \<Rightarrow> jsval \<Rightarrow> (contract_error, string list \<times> TicketInterface) result" where
  "parse_interface repository ids v =
     (let keys = [''id'', ''direction'', ''path'', ''owner'', ''description''] in
      rbind (exactObject v keys keys ''TICKET_INTERFACE_INVALID'') (\<lambda>input.
      rbind (nonEmptyString (get_prop input ''id'') ''TICKET_ID_INVALID'' is_local_id) (\<lambda>ident.
      rbind (require (ident \<notin> set ids) ''TICKET_ID_DUPLICATE'') (\<lambda>_.
      rbind (or_fail (parse_direction (get_prop input ''direction'')) ''TICKET_INTERFACE_INVALID'') (\<lambda>d.
          rbind (canonicalRepoPath (get_prop input ''path'')) (\<lambda>p.
          rbind (inspectPath repository p False) (\<lambda>_.
          rbind (nonEmptyString (get_prop input ''owner'') ''TICKET_INTERFACE_INVALID'' any_text) (\<lambda>own.
          rbind (nonEmptyString (get_prop input ''description'') ''TICKET_INTERFACE_INVALID'' any_text) (\<lambda>desc.
          Inr (ids @ [ident], \<lparr>interface_id = ident, direction = d, interface_path = p, interface_owner = own,
                               interface_description = desc\<rparr>))))))))))"

definition parseInterfaces :: "RepositoryContext option \<Rightarrow> jsval \<Rightarrow> (contract_error, TicketInterface list) result" where
  "parseInterfaces repository v =
     rbind (or_fail (as_array v) ''TICKET_INTERFACE_INVALID'') (\<lambda>vs.
     rbind (traverse_state (parse_interface repository) [] vs) (\<lambda>(_, xs). Inr xs))"

definition VERIFICATION_KEYS :: "string list" where
  "VERIFICATION_KEYS = [''id'', ''executable'', ''args'', ''cwd_class'', ''env_allowlist'', ''timeout_ms'',
     ''network'', ''writable_outputs'', ''expected_exit_codes'']"

definition parse_exit_codes :: "jsval \<Rightarrow> (contract_error, int list) result" where
  "parse_exit_codes v =
     rbind (or_fail (as_array v) ''TICKET_VERIFICATION_EXIT_INVALID'') (\<lambda>codes.
          rbind (require (codes \<noteq> []) ''TICKET_VERIFICATION_EXIT_INVALID'') (\<lambda>_.
          rbind (traverse (\<lambda>c. boundedInteger c 0 255 ''TICKET_VERIFICATION_EXIT_INVALID'') codes) (\<lambda>is.
          rbind (unique is ''TICKET_VERIFICATION_EXIT_INVALID'') (\<lambda>_. Inr is))))"

definition parse_outputs :: "RepositoryContext option \<Rightarrow> jsval \<Rightarrow> (contract_error, string list) result" where
  "parse_outputs repository v =
     rbind (stringArray v ''TICKET_VERIFICATION_OUTPUT_INVALID'') (\<lambda>outputs.
     rbind (unique outputs ''TICKET_VERIFICATION_OUTPUT_INVALID'') (\<lambda>_.
     traverse (\<lambda>out. rbind (canonicalRepoPath (JStr out)) (\<lambda>p.
                     rbind (inspectPath repository p False) (\<lambda>_. Inr p))) outputs))"

definition parse_verification ::
  "RepositoryContext option \<Rightarrow> string list \<Rightarrow> jsval \<Rightarrow> (contract_error, string list \<times> TicketVerification) result" where
  "parse_verification repository ids v =
     rbind (exactObject v VERIFICATION_KEYS VERIFICATION_KEYS ''TICKET_VERIFICATION_INVALID'') (\<lambda>input.
     rbind (nonEmptyString (get_prop input ''id'') ''TICKET_ID_INVALID'' is_local_id) (\<lambda>ident.
     rbind (require (ident \<notin> set ids) ''TICKET_ID_DUPLICATE'') (\<lambda>_.
     rbind (nonEmptyString (get_prop input ''executable'') ''TICKET_VERIFICATION_INVALID'' is_executable) (\<lambda>exe.
     rbind (require (map to_lower (last (split_on CHR ''/'' exe)) \<notin> set SHELL_EXECUTABLES)
              ''TICKET_VERIFICATION_SHELL_FORBIDDEN'') (\<lambda>_.
     rbind (stringArray (get_prop input ''args'') ''TICKET_VERIFICATION_INVALID'') (\<lambda>arguments.
     rbind (or_fail (parse_cwd_class (get_prop input ''cwd_class'')) ''TICKET_VERIFICATION_CWD_INVALID'') (\<lambda>cls.
         rbind (stringArray (get_prop input ''env_allowlist'') ''TICKET_VERIFICATION_ENV_INVALID'') (\<lambda>env.
         rbind (unique env ''TICKET_VERIFICATION_ENV_INVALID'') (\<lambda>_.
         rbind (require (list_all is_environment_name env) ''TICKET_VERIFICATION_ENV_INVALID'') (\<lambda>_.
         rbind (boundedInteger (get_prop input ''timeout_ms'') 1 3600000 ''TICKET_VERIFICATION_TIMEOUT_INVALID'') (\<lambda>timeout.
         rbind (require (get_prop input ''network'' = JStr ''deny'') ''TICKET_VERIFICATION_NETWORK_FORBIDDEN'') (\<lambda>_.
         rbind (parse_outputs repository (get_prop input ''writable_outputs'')) (\<lambda>outputs.
         rbind (parse_exit_codes (get_prop input ''expected_exit_codes'')) (\<lambda>codes.
         Inr (ids @ [ident],
              \<lparr>verification_id = ident, executable = exe, args = arguments, cwd_class = cls, env_allowlist = env,
               timeout_ms = timeout, writable_outputs = outputs, expected_exit_codes = codes\<rparr>)))))))))))))))"

definition parseVerifications :: "RepositoryContext option \<Rightarrow> jsval \<Rightarrow> (contract_error, TicketVerification list) result" where
  "parseVerifications repository v =
     rbind (or_fail (as_array v) ''TICKET_VERIFICATION_INVALID'') (\<lambda>vs.
     rbind (require (vs \<noteq> []) ''TICKET_VERIFICATION_INVALID'') (\<lambda>_.
     rbind (traverse_state (parse_verification repository) [] vs) (\<lambda>(_, xs). Inr xs)))"

definition check_references :: "string list \<Rightarrow> string \<Rightarrow> string list \<Rightarrow> (contract_error, unit) result" where
  "check_references known code refs =
     check_all (\<lambda>r. rbind (require (is_local_id r) ''TICKET_AC_INVALID'') (\<lambda>_. require (r \<in> set known) code)) refs"

definition parse_criterion ::
  "string list \<Rightarrow> string list \<Rightarrow> string list \<Rightarrow> jsval \<Rightarrow> (contract_error, string list \<times> TicketAcceptanceCriterion) result" where
  "parse_criterion interfaceIds verificationIds ids v =
     (let keys = [''id'', ''description'', ''interface_ids'', ''verification_ids''] in
      rbind (exactObject v keys keys ''TICKET_AC_INVALID'') (\<lambda>input.
      rbind (nonEmptyString (get_prop input ''id'') ''TICKET_ID_INVALID'' is_local_id) (\<lambda>ident.
      rbind (require (ident \<notin> set ids) ''TICKET_ID_DUPLICATE'') (\<lambda>_.
      rbind (stringArray (get_prop input ''interface_ids'') ''TICKET_AC_INVALID'') (\<lambda>irefs.
      rbind (unique irefs ''TICKET_AC_INVALID'') (\<lambda>_.
      rbind (stringArray (get_prop input ''verification_ids'') ''TICKET_AC_INVALID'') (\<lambda>vrefs.
      rbind (require (vrefs \<noteq> []) ''TICKET_AC_INVALID'') (\<lambda>_.
      rbind (unique vrefs ''TICKET_AC_INVALID'') (\<lambda>_.
      rbind (check_references interfaceIds ''TICKET_INTERFACE_REFERENCE_UNKNOWN'' irefs) (\<lambda>_.
      rbind (check_references verificationIds ''TICKET_VERIFICATION_REFERENCE_UNKNOWN'' vrefs) (\<lambda>_.
      rbind (nonEmptyString (get_prop input ''description'') ''TICKET_AC_INVALID'' any_text) (\<lambda>desc.
      Inr (ids @ [ident], \<lparr>criterion_id = ident, criterion_description = desc, interface_ids = irefs,
                           verification_ids = vrefs\<rparr>)))))))))))))"

definition parseAcceptanceCriteria ::
  "string list \<Rightarrow> string list \<Rightarrow> jsval \<Rightarrow> (contract_error, TicketAcceptanceCriterion list) result" where
  "parseAcceptanceCriteria interfaceIds verificationIds v =
     rbind (or_fail (as_array v) ''TICKET_AC_INVALID'') (\<lambda>vs.
     rbind (require (vs \<noteq> []) ''TICKET_AC_INVALID'') (\<lambda>_.
     rbind (traverse_state (parse_criterion interfaceIds verificationIds) [] vs) (\<lambda>(_, xs). Inr xs)))"

definition parseBudgets :: "jsval \<Rightarrow> (contract_error, TicketBudgets) result" where
  "parseBudgets v =
     (let keys = [''max_attempts'', ''max_review_cycles'', ''wall_clock_ms'', ''remediation_limit''];
          code = ''TICKET_BUDGET_INVALID'' in
      rbind (exactObject v keys keys code) (\<lambda>input.
      rbind (boundedInteger (get_prop input ''max_attempts'') 1 100 code) (\<lambda>attempts.
      rbind (boundedInteger (get_prop input ''max_review_cycles'') 0 100 code) (\<lambda>cycles.
      rbind (boundedInteger (get_prop input ''wall_clock_ms'') 1 86400000 code) (\<lambda>clock.
      rbind (boundedInteger (get_prop input ''remediation_limit'') 0 100 code) (\<lambda>limit.
      Inr \<lparr>max_attempts = attempts, max_review_cycles = cycles, wall_clock_ms = clock,
           remediation_limit = limit\<rparr>))))))"

section \<open>Digests\<close>

definition strings_js :: "string list \<Rightarrow> jsval" where
  "strings_js ss = JArr (map JStr ss)"

definition entry_js :: "TicketScopeEntry \<Rightarrow> jsval" where
  "entry_js e = JObj ([(''path'', JStr (entry_path e)), (''change_kind'', JStr (kind_name (change_kind e))),
     (''directory'', JBool (entry_directory e))]
     @ (case from_path e of None \<Rightarrow> [] | Some f \<Rightarrow> [(''from_path'', JStr f)]))"

definition interface_js :: "TicketInterface \<Rightarrow> jsval" where
  "interface_js i = JObj [(''id'', JStr (interface_id i)), (''direction'', JStr (direction_name (direction i))),
     (''path'', JStr (interface_path i)), (''owner'', JStr (interface_owner i)),
     (''description'', JStr (interface_description i))]"

definition criterion_js :: "TicketAcceptanceCriterion \<Rightarrow> jsval" where
  "criterion_js c = JObj [(''id'', JStr (criterion_id c)), (''description'', JStr (criterion_description c)),
     (''interface_ids'', strings_js (interface_ids c)), (''verification_ids'', strings_js (verification_ids c))]"

definition verification_js :: "TicketVerification \<Rightarrow> jsval" where
  "verification_js v = JObj [(''id'', JStr (verification_id v)), (''executable'', JStr (executable v)),
     (''args'', strings_js (args v)), (''cwd_class'', JStr (cwd_class_name (cwd_class v))),
     (''env_allowlist'', strings_js (env_allowlist v)), (''timeout_ms'', JNum (timeout_ms v)),
     (''network'', JStr ''deny''), (''writable_outputs'', strings_js (writable_outputs v)),
     (''expected_exit_codes'', JArr (map JNum (expected_exit_codes v)))]"

definition budgets_js :: "TicketBudgets \<Rightarrow> jsval" where
  "budgets_js b = JObj [(''max_attempts'', JNum (max_attempts b)), (''max_review_cycles'', JNum (max_review_cycles b)),
     (''wall_clock_ms'', JNum (wall_clock_ms b)), (''remediation_limit'', JNum (remediation_limit b))]"

definition contract_fields :: "TicketContract \<Rightarrow> (string \<times> jsval) list" where
  "contract_fields c =
     [(''schema_version'', JStr TICKET_CONTRACT_SCHEMA_VERSION), (''id'', JStr (contract_id c)),
      (''title'', JStr (title c)), (''description'', JStr (description c)),
      (''depends_on'', strings_js (depends_on c)), (''scope'', JArr (map entry_js (contract_scope c))),
      (''interfaces'', JArr (map interface_js (interfaces c))),
      (''acceptance_criteria'', JArr (map criterion_js (acceptance_criteria c))),
      (''verifications'', JArr (map verification_js (verifications c))), (''budgets'', budgets_js (budgets c))]"

definition contract_js :: "TicketContract \<Rightarrow> jsval" where
  "contract_js c = JObj (contract_fields c @ [(''digest'', JStr (contract_digest c))])"

definition without_digest :: "jsval \<Rightarrow> jsval" where
  "without_digest v = (case v of JObj kvs \<Rightarrow> JObj (filter (\<lambda>kv. fst kv \<noteq> ''digest'') kvs) | _ \<Rightarrow> v)"

definition ticketContractDigest :: "(string \<Rightarrow> string) \<Rightarrow> jsval \<Rightarrow> (contract_error, string) result" where
  "ticketContractDigest sha256 contract =
     rbind (canonical_json (without_digest contract)) (\<lambda>text. Inr (''sha256:'' @ sha256 text))"

section \<open>One contract\<close>

record ParsedContract =
  contract :: TicketContract
  endpoints :: "OwnedEndpoint list"

definition parseContract ::
  "(string \<Rightarrow> string) \<Rightarrow> RepositoryContext option \<Rightarrow> jsval \<Rightarrow> (contract_error, ParsedContract) result" where
  "parseContract sha256 repository v =
     rbind (exactObject v TOP_LEVEL_KEYS TOP_LEVEL_KEYS ''TICKET_SCHEMA_INVALID'') (\<lambda>input.
     rbind (require (get_prop input ''schema_version'' = JStr TICKET_CONTRACT_SCHEMA_VERSION)
              ''TICKET_SCHEMA_VERSION_UNSUPPORTED'') (\<lambda>_.
     rbind (nonEmptyString (get_prop input ''id'') ''TICKET_ID_INVALID'' is_ticket_id) (\<lambda>ident.
     rbind (nonEmptyString (get_prop input ''title'') ''TICKET_SCHEMA_INVALID'' any_text) (\<lambda>ttl.
     rbind (nonEmptyString (get_prop input ''description'') ''TICKET_SCHEMA_INVALID'' any_text) (\<lambda>desc.
     rbind (stringArray (get_prop input ''depends_on'') ''TICKET_DEPENDENCY_INVALID'') (\<lambda>deps.
     rbind (unique deps ''TICKET_DEPENDENCY_INVALID'') (\<lambda>_.
     rbind (require (list_all is_ticket_id deps) ''TICKET_DEPENDENCY_INVALID'') (\<lambda>_.
     rbind (require (ident \<notin> set deps) ''TICKET_DEPENDENCY_CYCLE'') (\<lambda>_.
     rbind (parseScope repository (get_prop input ''scope'')) (\<lambda>(scp, eps).
     rbind (parseInterfaces repository (get_prop input ''interfaces'')) (\<lambda>ifs.
     rbind (parseVerifications repository (get_prop input ''verifications'')) (\<lambda>vers.
     rbind (parseAcceptanceCriteria (map interface_id ifs) (map verification_id vers)
              (get_prop input ''acceptance_criteria'')) (\<lambda>crits.
     rbind (parseBudgets (get_prop input ''budgets'')) (\<lambda>bud.
     rbind (nonEmptyString (get_prop input ''digest'') ''TICKET_DIGEST_INVALID'' is_digest) (\<lambda>digest.
     let c = \<lparr>contract_id = ident, title = ttl, description = desc, depends_on = deps, contract_scope = scp,
              interfaces = ifs, acceptance_criteria = crits, verifications = vers, budgets = bud,
              contract_digest = digest\<rparr> in
     rbind (ticketContractDigest sha256 (contract_js c)) (\<lambda>expected.
     if digest \<noteq> expected then fail ''TICKET_DIGEST_MISMATCH''
     else Inr \<lparr>contract = c, endpoints = eps\<rparr>))))))))))))))))"

definition ticketOwnedPaths :: "TicketContract \<Rightarrow> string list" where
  "ticketOwnedPaths c = concat (map entry_names (contract_scope c))"

end
