(* ===== verification/Ticket_Graph.thy ===== *)
theory Ticket_Graph
  imports Prelude
begin

text \<open>
  The dependency graph of a set of ticket contracts: the depth-first search \<open>detectDependencyCycles\<close>
  and the work-list search \<open>dependsTransitively\<close> of \<open>orchestrator/src/contracts/ticket-contract.ts\<close>,
  on the association list from ticket identities to their \<open>depends_on\<close> lists. The search is proved to
  accept exactly the acyclic graphs and the work list to decide reachability.
\<close>

type_synonym dep_map = "(string \<times> string list) list"

section \<open>The searches\<close>

text \<open>
  \<open>visit\<close> with its two sets and its stack. \<open>visiting\<close> holds the elements of \<open>stack\<close>: both are extended
  on entry and shortened on exit, so the stack a call sees is an argument. The first argument bounds
  the depth of the recursion: \<open>None\<close> means it ran out. \<open>Some (Inl id)\<close> is the failure at a repeated
  \<open>id\<close>, \<open>Some (Inr visited)\<close> a normal return.
\<close>

fun visit :: "nat \<Rightarrow> dep_map \<Rightarrow> string list \<Rightarrow> string list \<Rightarrow> string \<Rightarrow> (string, string list) result option"
  and visit_all :: "nat \<Rightarrow> dep_map \<Rightarrow> string list \<Rightarrow> string list \<Rightarrow> string list \<Rightarrow> (string, string list) result option"
where
  "visit 0 byId stack visited x = None"
| "visit (Suc n) byId stack visited x =
     (if x \<in> set visited then Some (Inr visited)
      else if x \<in> set stack then Some (Inl x)
      else case map_of byId x of
        None \<Rightarrow> Some (Inr visited)
      | Some deps \<Rightarrow>
          (case visit_all n byId (stack @ [x]) visited (sort deps) of
             Some (Inr visited') \<Rightarrow> Some (Inr (visited' @ [x]))
           | failed \<Rightarrow> failed))"
| "visit_all n byId stack visited [] = Some (Inr visited)"
| "visit_all n byId stack visited (d # ds) =
     (case visit n byId stack visited d of
        Some (Inr visited') \<Rightarrow> visit_all n byId stack visited' ds
      | failed \<Rightarrow> failed)"

definition detectDependencyCycles :: "dep_map \<Rightarrow> (string, string list) result option" where
  "detectDependencyCycles byId =
     visit_all (length byId + 1) byId [] [] (sort (remdups (map fst byId)))"

text \<open>
  \<open>dependsTransitively\<close>: \<open>pending\<close> is kept with its last element, the next one popped, as the head.
\<close>

definition deps_of :: "dep_map \<Rightarrow> string \<Rightarrow> string list" where
  "deps_of byId x = (case map_of byId x of Some ds \<Rightarrow> ds | None \<Rightarrow> [])"

function search :: "dep_map \<Rightarrow> string \<Rightarrow> string list \<Rightarrow> string list \<Rightarrow> bool" where
  "search byId right seen [] = False"
| "search byId right seen (candidate # pending) =
     (if candidate = right then True
      else if candidate \<in> set seen then search byId right seen pending
      else search byId right (seen @ [candidate]) (rev (deps_of byId candidate) @ pending))"
  by pat_completeness auto

text \<open>Every ticket is expanded once: the pairs of unexpanded tickets and pending entries descend.\<close>

termination
proof (relation "measures [\<lambda>(m, r, seen, p). card (fst ` set m - set seen), \<lambda>(m, r, seen, p). length p]",
    simp, simp, goal_cases)
  case (1 byId right seen candidate pending)
  show ?case
  proof (cases "candidate \<in> fst ` set byId")
    case True
    then have "card (fst ` set byId - set (seen @ [candidate])) < card (fst ` set byId - set seen)"
      using 1 by (intro psubset_card_mono) auto
    then show ?thesis by simp
  next
    case False
    then have "deps_of byId candidate = []"
      by (auto simp: deps_of_def split: option.splits dest: map_of_SomeD intro: rev_image_eqI)
    moreover have "fst ` set byId - set (seen @ [candidate]) = fst ` set byId - set seen" using False by auto
    ultimately show ?thesis by simp
  qed
qed

definition dependsTransitively :: "string \<Rightarrow> string \<Rightarrow> dep_map \<Rightarrow> bool" where
  "dependsTransitively left right byId = search byId right [] (rev (deps_of byId left))"

section \<open>The dependency relation\<close>

definition depends :: "dep_map \<Rightarrow> (string \<times> string) set" where
  "depends byId = {(a, b). b \<in> set (deps_of byId a)}"

text \<open>The edges between tickets of the set, the only ones a cycle can use.\<close>

definition inner :: "dep_map \<Rightarrow> (string \<times> string) set" where
  "inner byId = {(a, b) \<in> depends byId. b \<in> fst ` set byId}"

lemma map_of_member: "map_of m a = Some d \<Longrightarrow> a \<in> fst ` set m"
  by (force dest: map_of_SomeD)

lemma depends_source: "(a, b) \<in> depends byId \<Longrightarrow> a \<in> fst ` set byId"
  by (cases "map_of byId a") (auto simp: depends_def deps_of_def map_of_member)

lemma depends_trancl_inner:
  assumes "(a, b) \<in> (depends byId)\<^sup>+" and "b \<in> fst ` set byId"
  shows "(a, b) \<in> (inner byId)\<^sup>+"
  using assms
proof (induction rule: trancl_induct)
  case (base y)
  then show ?case by (auto simp: inner_def)
next
  case (step y z)
  have "y \<in> fst ` set byId" using step.hyps(2) by (rule depends_source)
  then have "(a, y) \<in> (inner byId)\<^sup>+" using step.IH by simp
  moreover have "(y, z) \<in> inner byId" using step.hyps(2) step.prems by (simp add: inner_def)
  ultimately show ?case by simp
qed

lemma acyclic_depends_iff: "acyclic (depends byId) \<longleftrightarrow> acyclic (inner byId)"
proof
  show "acyclic (depends byId) \<Longrightarrow> acyclic (inner byId)"
    by (rule acyclic_subset) (auto simp: inner_def)
  show "acyclic (inner byId) \<Longrightarrow> acyclic (depends byId)"
    unfolding acyclic_def using depends_trancl_inner depends_source tranclD by metis
qed

section \<open>The work list decides reachability\<close>

lemma search_sound:
  assumes "search byId right seen pending" and "\<forall>c \<in> set pending. (left, c) \<in> (depends byId)\<^sup>+"
  shows "(left, right) \<in> (depends byId)\<^sup>+"
  using assms
proof (induction byId right seen pending rule: search.induct)
  case (2 byId right seen candidate pending)
  have next_ok: "\<forall>c \<in> set (rev (deps_of byId candidate) @ pending). (left, c) \<in> (depends byId)\<^sup>+"
    using 2(4) by (auto simp: depends_def intro: trancl_into_trancl)
  consider "candidate = right" | "candidate \<noteq> right" "candidate \<in> set seen" | "candidate \<noteq> right" "candidate \<notin> set seen"
    by blast
  then show ?case
  proof cases
    case 1
    then show ?thesis using 2(4) by simp
  next
    case c: 2
    then have "search byId right seen pending" using 2(3) by simp
    then show ?thesis using 2(1) [OF c] 2(4) by simp
  next
    case c: 3
    then have "search byId right (seen @ [candidate]) (rev (deps_of byId candidate) @ pending)" using 2(3) by simp
    then show ?thesis using 2(2) [OF c] next_ok by simp
  qed
qed simp

text \<open>A search that finds nothing has closed the set of the tickets seen and pending.\<close>

lemma search_complete:
  assumes "\<not> search byId right seen pending"
    and "right \<notin> set seen"
    and "\<forall>s \<in> set seen. set (deps_of byId s) \<subseteq> set seen \<union> set pending"
  shows "\<exists>S. set seen \<union> set pending \<subseteq> S \<and> right \<notin> S \<and> (\<forall>s \<in> S. set (deps_of byId s) \<subseteq> S)"
  using assms
proof (induction byId right seen pending rule: search.induct)
  case (1 byId right seen)
  then show ?case by (intro exI [of _ "set seen"]) auto
next
  case (2 byId right seen candidate pending)
  show ?case
  proof (cases "candidate \<in> set seen")
    case True
    then have c: "candidate \<noteq> right" using 2(4) by auto
    have "\<not> search byId right seen pending" using 2(3) True c by simp
    moreover have "\<forall>s \<in> set seen. set (deps_of byId s) \<subseteq> set seen \<union> set pending" using 2(5) True by auto
    ultimately obtain S where "set seen \<union> set pending \<subseteq> S" "right \<notin> S" "\<forall>s \<in> S. set (deps_of byId s) \<subseteq> S"
      using 2(1) [OF c True _ 2(4)] by blast
    then show ?thesis using True by (intro exI [of _ S]) auto
  next
    case False
    have "candidate \<noteq> right" using 2(3) by auto
    moreover from this have "\<not> search byId right (seen @ [candidate]) (rev (deps_of byId candidate) @ pending)"
      using 2(3) False by simp
    moreover have "right \<notin> set (seen @ [candidate])" using \<open>candidate \<noteq> right\<close> 2(4) by simp
    moreover have "\<forall>s \<in> set (seen @ [candidate]). set (deps_of byId s) \<subseteq>
        set (seen @ [candidate]) \<union> set (rev (deps_of byId candidate) @ pending)"
      using 2(5) by auto
    ultimately obtain S where "set (seen @ [candidate]) \<union> set (rev (deps_of byId candidate) @ pending) \<subseteq> S"
        "right \<notin> S" "\<forall>s \<in> S. set (deps_of byId s) \<subseteq> S"
      using 2(2) [OF _ False] by blast
    then show ?thesis by (intro exI [of _ S]) auto
  qed
qed

lemma closed_trancl:
  assumes "(a, b) \<in> (depends byId)\<^sup>+" and "set (deps_of byId a) \<subseteq> S" and "\<forall>s \<in> S. set (deps_of byId s) \<subseteq> S"
  shows "b \<in> S"
  using assms by (induction rule: trancl_induct) (auto simp: depends_def)

text \<open>
  C26. \<open>dependsTransitively\<close> terminates on every set of contracts, cyclic ones included, and answers
  exactly whether the right ticket is reachable from the left one along \<open>depends_on\<close>.
\<close>

theorem dependsTransitively_iff_reachable:
  "dependsTransitively left right byId \<longleftrightarrow> (left, right) \<in> (depends byId)\<^sup>+"
proof
  assume "dependsTransitively left right byId"
  then show "(left, right) \<in> (depends byId)\<^sup>+"
    unfolding dependsTransitively_def by (rule search_sound) (auto simp: depends_def)
next
  assume r: "(left, right) \<in> (depends byId)\<^sup>+"
  show "dependsTransitively left right byId"
  proof (rule ccontr)
    assume "\<not> dependsTransitively left right byId"
    then obtain S where "set (deps_of byId left) \<subseteq> S" "right \<notin> S" "\<forall>s \<in> S. set (deps_of byId s) \<subseteq> S"
      using search_complete [of byId right "[]" "rev (deps_of byId left)"] by (auto simp: dependsTransitively_def)
    then show False using closed_trancl [OF r] by blast
  qed
qed

section \<open>The depth-first search accepts exactly the acyclic graphs\<close>

text \<open>
  The visited tickets are closed under dependencies of the set and lie on no cycle.
\<close>

definition settled :: "dep_map \<Rightarrow> string set \<Rightarrow> bool" where
  "settled byId V =
     ((\<forall>a b. a \<in> V \<longrightarrow> (a, b) \<in> inner byId \<longrightarrow> b \<in> V) \<and> (\<forall>a \<in> V. (a, a) \<notin> (inner byId)\<^sup>+))"

lemma settled_trancl:
  assumes "settled byId V" and "(a, b) \<in> (inner byId)\<^sup>+" and "a \<in> V"
  shows "b \<in> V"
  using assms(2,1,3) by (induction rule: trancl_induct) (auto simp: settled_def)

lemma settled_insert:
  assumes "settled byId V" and "x \<notin> V" and "\<forall>b. (x, b) \<in> inner byId \<longrightarrow> b \<in> V"
  shows "settled byId (insert x V)"
proof -
  have "(x, x) \<notin> (inner byId)\<^sup>+"
  proof
    assume "(x, x) \<in> (inner byId)\<^sup>+"
    then obtain b where "(x, b) \<in> inner byId" "(b, x) \<in> (inner byId)\<^sup>*" by (auto dest: tranclD)
    then have "b \<in> V" "b = x \<or> (b, x) \<in> (inner byId)\<^sup>+" using assms(3) by (auto dest: rtranclD)
    then show False using settled_trancl [OF assms(1)] assms(2) by blast
  qed
  then show ?thesis using assms by (auto simp: settled_def)
qed

definition members :: "dep_map \<Rightarrow> string set" where
  "members byId = fst ` set byId"

lemma visit_settles:
  "\<lbrakk>visit n byId stack visited x = Some (Inr V'); settled byId (set visited); set stack \<inter> set visited = {};
    set visited \<subseteq> members byId\<rbrakk>
   \<Longrightarrow> settled byId (set V') \<and> set visited \<subseteq> set V' \<and> set stack \<inter> set V' = {} \<and> set V' \<subseteq> members byId
       \<and> (x \<in> members byId \<longrightarrow> x \<in> set V')"
  "\<lbrakk>visit_all n byId stack visited xs = Some (Inr V'); settled byId (set visited); set stack \<inter> set visited = {};
    set visited \<subseteq> members byId\<rbrakk>
   \<Longrightarrow> settled byId (set V') \<and> set visited \<subseteq> set V' \<and> set stack \<inter> set V' = {} \<and> set V' \<subseteq> members byId
       \<and> (\<forall>x \<in> set xs. x \<in> members byId \<longrightarrow> x \<in> set V')"
proof (induction n byId stack visited x and n byId stack visited xs arbitrary: V' and V' rule: visit_visit_all.induct)
  case (2 n byId stack visited x)
  show ?case
  proof (cases "x \<in> set visited \<or> map_of byId x = None")
    case True
    then have "visit (Suc n) byId stack visited x = Some (Inr visited) \<or> visit (Suc n) byId stack visited x = Some (Inl x)"
      by auto
    then have "V' = visited" using 2(2) by auto
    moreover have "x \<in> members byId \<longrightarrow> x \<in> set visited"
      using True by (auto simp: members_def map_of_eq_None_iff)
    ultimately show ?thesis using 2(3-5) by simp
  next
    case False
    then obtain deps where deps: "map_of byId x = Some deps" and x: "x \<notin> set visited" by auto
    have xs: "x \<notin> set stack" using 2(2) x by (auto split: if_splits)
    obtain W where W: "visit_all n byId (stack @ [x]) visited (sort deps) = Some (Inr W)" and V': "V' = W @ [x]"
      using 2(2) x xs deps by (auto split: option.splits sum.splits)
    have ih: "settled byId (set W)" "set visited \<subseteq> set W" "set (stack @ [x]) \<inter> set W = {}" "set W \<subseteq> members byId"
      "\<forall>d \<in> set deps. d \<in> members byId \<longrightarrow> d \<in> set W"
      using 2(1) [OF x xs deps W] 2(3-5) x by auto
    have "\<forall>b. (x, b) \<in> inner byId \<longrightarrow> b \<in> set W"
      using ih(5) deps by (auto simp: inner_def depends_def deps_of_def members_def)
    then have "settled byId (insert x (set W))" using settled_insert [OF ih(1)] ih(3) by auto
    moreover have "x \<in> members byId" using deps by (auto simp: members_def map_of_member)
    ultimately show ?thesis using ih xs V' by auto
  qed
next
  case (4 n byId stack visited d ds)
  obtain W where W: "visit n byId stack visited d = Some (Inr W)" "visit_all n byId stack W ds = Some (Inr V')"
    using 4(3) by (auto split: option.splits sum.splits)
  show ?case using 4(1) [OF W(1) 4(4-6)] 4(2) [OF W(1) _ W(2)] by auto
qed auto

text \<open>A failure exhibits a cycle: the stack is a path to the ticket being visited.\<close>

definition stack_path :: "dep_map \<Rightarrow> string list \<Rightarrow> string \<Rightarrow> bool" where
  "stack_path byId stack x = (\<forall>s \<in> set stack. (s, x) \<in> (depends byId)\<^sup>+)"

lemma visit_fails_on_cycle:
  "\<lbrakk>visit n byId stack visited x = Some (Inl y); stack_path byId stack x\<rbrakk> \<Longrightarrow> (y, y) \<in> (depends byId)\<^sup>+"
  "\<lbrakk>visit_all n byId stack visited xs = Some (Inl y); \<forall>x \<in> set xs. stack_path byId stack x\<rbrakk>
   \<Longrightarrow> (y, y) \<in> (depends byId)\<^sup>+"
proof (induction n byId stack visited x and n byId stack visited xs rule: visit_visit_all.induct)
  case (2 n byId stack visited x)
  show ?case
  proof (cases "x \<in> set stack")
    case True
    then show ?thesis using 2 by (auto simp: stack_path_def split: if_splits)
  next
    case False
    obtain deps where x: "x \<notin> set visited" and deps: "map_of byId x = Some deps"
      and all: "visit_all n byId (stack @ [x]) visited (sort deps) = Some (Inl y)"
      using 2(2) False by (auto split: if_splits option.splits sum.splits)
    have "(x, d) \<in> depends byId" if "d \<in> set deps" for d
      using that deps by (simp add: depends_def deps_of_def)
    then have "\<forall>d \<in> set (sort deps). stack_path byId (stack @ [x]) d"
      using 2(3) by (auto simp: stack_path_def intro: trancl_into_trancl)
    then show ?thesis using 2(1) [OF x False deps all] by blast
  qed
next
  case (4 n byId stack visited d ds)
  then show ?case by (auto split: option.splits sum.splits)
qed auto

text \<open>The depth never exceeds the number of tickets.\<close>

lemma visit_enough_fuel:
  "\<lbrakk>distinct stack; set stack \<subseteq> members byId; length stack + n > card (members byId)\<rbrakk>
   \<Longrightarrow> visit n byId stack visited x \<noteq> None"
  "\<lbrakk>distinct stack; set stack \<subseteq> members byId; length stack + n > card (members byId)\<rbrakk>
   \<Longrightarrow> visit_all n byId stack visited xs \<noteq> None"
proof (induction n byId stack visited x and n byId stack visited xs rule: visit_visit_all.induct)
  case (1 byId stack visited x)
  have "length stack \<le> card (members byId)"
    using 1 by (metis card_mono distinct_card finite_imageI finite_set members_def)
  then show ?case using 1 by simp
next
  case (2 n byId stack visited x)
  show ?case
  proof (cases "x \<in> set visited \<or> x \<in> set stack \<or> map_of byId x = None")
    case True
    then show ?thesis by auto
  next
    case False
    then obtain deps where deps: "map_of byId x = Some deps" by auto
    have "x \<in> members byId" using deps by (auto simp: members_def map_of_member)
    then have "visit_all n byId (stack @ [x]) visited (sort deps) \<noteq> None"
      using 2 False deps by (intro 2(1)) auto
    then show ?thesis using False deps by (auto split: option.splits sum.splits)
  qed
next
  case (4 n byId stack visited d ds)
  then show ?case by (auto split: option.splits sum.splits)
qed auto

text \<open>
  C27. \<open>detectDependencyCycles\<close> terminates and accepts exactly the acyclic dependency graphs: the depth
  of the search is bounded by the number of tickets, it returns normally iff no ticket of the set
  depends on itself through any number of steps, and when it throws the ticket it names lies on a
  cycle.
\<close>

theorem cycle_detection_exact:
  "detectDependencyCycles byId \<noteq> None
   \<and> ((\<exists>visited. detectDependencyCycles byId = Some (Inr visited)) \<longleftrightarrow> acyclic (depends byId))
   \<and> (\<forall>x. detectDependencyCycles byId = Some (Inl x) \<longrightarrow> (x, x) \<in> (depends byId)\<^sup>+)"
proof -
  let ?roots = "sort (remdups (map fst byId))"
  have "card (members byId) \<le> length byId"
    unfolding members_def by (metis card_length list.set_map length_map)
  then have total: "detectDependencyCycles byId \<noteq> None"
    unfolding detectDependencyCycles_def by (intro visit_enough_fuel) auto
  have cyc: "(x, x) \<in> (depends byId)\<^sup>+" if "detectDependencyCycles byId = Some (Inl x)" for x
    using visit_fails_on_cycle(2) that by (fastforce simp: detectDependencyCycles_def stack_path_def)
  have acy: "acyclic (depends byId)" if "detectDependencyCycles byId = Some (Inr V)" for V
  proof -
    have "settled byId (set V) \<and> (\<forall>x \<in> set ?roots. x \<in> members byId \<longrightarrow> x \<in> set V)"
      using visit_settles(2) [OF that [unfolded detectDependencyCycles_def]] by (simp add: settled_def)
    then have "\<forall>x \<in> members byId. (x, x) \<notin> (inner byId)\<^sup>+" by (auto simp: settled_def members_def)
    moreover have "x \<in> members byId" if "(x, x) \<in> (inner byId)\<^sup>+" for x
      using tranclD [OF that] by (auto simp: inner_def members_def dest: depends_source)
    ultimately have "acyclic (inner byId)" by (auto simp: acyclic_def)
    then show ?thesis by (simp add: acyclic_depends_iff)
  qed
  have "\<exists>V. detectDependencyCycles byId = Some (Inr V)" if "acyclic (depends byId)"
    using total cyc that by (cases "detectDependencyCycles byId"; cases "the (detectDependencyCycles byId)")
      (auto simp: acyclic_def)
  then show ?thesis using total cyc acy by blast
qed

theorem cycle_detection_exact_witness:
  "detectDependencyCycles [(''a'', [''b'']), (''b'', [''a''])] = Some (Inl ''a'')
   \<and> (''a'', ''a'') \<in> (depends [(''a'', [''b'']), (''b'', [''a''])])\<^sup>+"
proof -
  have "detectDependencyCycles [(''a'', [''b'']), (''b'', [''a''])] = Some (Inl ''a'')" by code_simp
  with cycle_detection_exact [of "[(''a'', [''b'']), (''b'', [''a''])]"] show ?thesis by blast
qed

end
