(* ===== verification/Ticket_Admission.thy ===== *)
theory Ticket_Admission
  imports Ticket_Contract Ticket_Graph
begin

text \<open>
  Admission of a set of ticket contracts (\<open>normalizeTicketContracts\<close>, \<open>sealTicketContracts\<close> of
  \<open>orchestrator/src/contracts/ticket-contract.ts\<close>) and what an admitted set guarantees: distinct
  identities, known and acyclic dependencies, and ownership of paths that is disjoint between tickets
  no dependency orders.
\<close>

section \<open>Admission\<close>

definition contractEndpoints :: "TicketContract \<Rightarrow> OwnedEndpoint list" where
  "contractEndpoints c =
     concat (map (\<lambda>(i, e).
         \<lparr>endpoint_path = entry_path e, endpoint_directory = entry_directory e,
          endpoint_label = contract_id c @ ''.scope['' @ show_nat i @ '']''\<rparr>
         # (case from_path e of None \<Rightarrow> []
            | Some f \<Rightarrow> [\<lparr>endpoint_path = f, endpoint_directory = entry_directory e,
                         endpoint_label = contract_id c @ ''.scope['' @ show_nat i @ ''].from_path''\<rparr>]))
       (zip [0..<length (contract_scope c)] (contract_scope c)))"

definition assertNoOverlap :: "OwnedEndpoint list \<Rightarrow> OwnedEndpoint list \<Rightarrow> (contract_error, unit) result" where
  "assertNoOverlap left right =
     check_all (\<lambda>l. check_all (\<lambda>r. require (\<not> endpointOverlap l r) ''TICKET_ACTIVE_SCOPE_OVERLAP'') right) left"

definition dependency_map :: "TicketContract list \<Rightarrow> dep_map" where
  "dependency_map cs = map (\<lambda>c. (contract_id c, depends_on c)) cs"

fun check_unique_ids :: "string list \<Rightarrow> TicketContract list \<Rightarrow> (contract_error, unit) result" where
  "check_unique_ids ids [] = Inr ()"
| "check_unique_ids ids (c # cs) =
     rbind (require (contract_id c \<notin> set ids) ''TICKET_ID_DUPLICATE'') (\<lambda>_. check_unique_ids (ids @ [contract_id c]) cs)"

text \<open>The last branch is unreachable: the search never runs out of fuel.\<close>

definition check_acyclic :: "dep_map \<Rightarrow> (contract_error, unit) result" where
  "check_acyclic byId =
     (case detectDependencyCycles byId of
        Some (Inr _) \<Rightarrow> Inr ()
      | Some (Inl _) \<Rightarrow> fail ''TICKET_DEPENDENCY_CYCLE''
      | None \<Rightarrow> fail ''unreachable'')"

definition check_known :: "string list \<Rightarrow> TicketContract list \<Rightarrow> (contract_error, unit) result" where
  "check_known known cs =
     check_all (\<lambda>c. check_all (\<lambda>d. require (d \<in> set known) ''TICKET_DEPENDENCY_UNKNOWN'') (depends_on c)) cs"

text \<open>Overlap is allowed only where a dependency path orders the two tickets.\<close>

definition check_pair :: "dep_map \<Rightarrow> ParsedContract \<times> ParsedContract \<Rightarrow> (contract_error, unit) result" where
  "check_pair byId pair =
     (let a = fst pair; b = snd pair in
      if \<not> dependsTransitively (contract_id (contract a)) (contract_id (contract b)) byId
         \<and> \<not> dependsTransitively (contract_id (contract b)) (contract_id (contract a)) byId
      then assertNoOverlap (endpoints a) (endpoints b) else Inr ())"

definition check_active :: "TicketContract list \<Rightarrow> ParsedContract list \<Rightarrow> (contract_error, unit) result" where
  "check_active actives parsed =
     check_all (\<lambda>active. check_all (\<lambda>candidate.
         rbind (require (contract_id active \<noteq> contract_id (contract candidate)) ''TICKET_ID_DUPLICATE'') (\<lambda>_.
         assertNoOverlap (contractEndpoints active) (endpoints candidate))) parsed) actives"

definition normalizeTicketContracts ::
  "(string \<Rightarrow> string) \<Rightarrow> RepositoryIo \<Rightarrow> jsval \<Rightarrow> NormalizationContext
   \<Rightarrow> (contract_error, TicketContract list) result" where
  "normalizeTicketContracts sha256 io candidates ctx =
     rbind (or_fail (as_array candidates) ''TICKET_SCHEMA_INVALID'') (\<lambda>vs.
     rbind (repositoryContext io ctx) (\<lambda>repository.
     rbind (traverse (parseContract sha256 repository) vs) (\<lambda>parsed.
     let contracts = map contract parsed;
         ids = map contract_id contracts;
         known = ids @ list_of (ctx_knownExternalDependencyIds ctx);
         byId = dependency_map contracts in
     rbind (check_unique_ids [] contracts) (\<lambda>_.
     rbind (check_known known contracts) (\<lambda>_.
     rbind (check_acyclic byId) (\<lambda>_.
     rbind (check_all (check_pair byId) (ordered_pairs parsed)) (\<lambda>_.
     rbind (check_active (list_of (ctx_activeContracts ctx)) parsed) (\<lambda>_.
     Inr contracts))))))))"

definition seal_draft :: "(string \<Rightarrow> string) \<Rightarrow> jsval \<Rightarrow> (contract_error, jsval) result" where
  "seal_draft sha256 v =
     rbind (exactObject v DRAFT_KEYS DRAFT_KEYS ''TICKET_SCHEMA_INVALID'') (\<lambda>draft.
     rbind (ticketContractDigest sha256 draft) (\<lambda>digest.
     Inr (case draft of JObj kvs \<Rightarrow> JObj (kvs @ [(''digest'', JStr digest)]) | _ \<Rightarrow> draft)))"

definition sealTicketContracts ::
  "(string \<Rightarrow> string) \<Rightarrow> RepositoryIo \<Rightarrow> jsval \<Rightarrow> NormalizationContext
   \<Rightarrow> (contract_error, TicketContract list) result" where
  "sealTicketContracts sha256 io drafts ctx =
     rbind (or_fail (as_array drafts) ''TICKET_SCHEMA_INVALID'') (\<lambda>vs.
     rbind (traverse (seal_draft sha256) vs) (\<lambda>sealed.
     normalizeTicketContracts sha256 io (JArr sealed) ctx))"

section \<open>Repository paths are a containment tree\<close>

definition repo_path :: "string \<Rightarrow> bool" where
  "repo_path p = list_all plain_seg (split_on CHR ''/'' p)"

definition repo_inside :: "string \<Rightarrow> string \<Rightarrow> bool" where
  "repo_inside root p = (p = root \<or> starts_with p (root @ ''/''))"

lemma repo_path_parts: "repo_path p \<Longrightarrow> \<forall>s \<in> set (split_on CHR ''/'' p). part_ok s"
  by (auto simp: repo_path_def list_all_iff plain_seg_def part_ok_def)

lemma repo_inside_prefix:
  assumes "repo_path a" and "repo_path b"
  shows "repo_inside a b \<longleftrightarrow> prefix (split_on CHR ''/'' a) (split_on CHR ''/'' b)"
  using starts_with_join_iff [of "split_on CHR ''/'' a" "split_on CHR ''/'' b"]
    repo_path_parts [OF assms(1)] repo_path_parts [OF assms(2)]
  by (auto simp: repo_inside_def)

interpretation repo: exact_containment repo_path repo_inside
proof
  show "repo_path a \<Longrightarrow> repo_inside a a" for a by (simp add: repo_inside_def)
  show "\<lbrakk>repo_path a; repo_path b; repo_path c; repo_inside a b; repo_inside b c\<rbrakk> \<Longrightarrow> repo_inside a c" for a b c
    by (auto simp: repo_inside_prefix dest: prefix_order.trans)
  show "\<lbrakk>repo_path a; repo_path b; repo_path c; repo_inside a c; repo_inside b c\<rbrakk>
        \<Longrightarrow> repo_inside a b \<or> repo_inside b a" for a b c
    by (auto simp: repo_inside_prefix dest: prefix_same_cases)
  show "\<lbrakk>repo_path a; repo_path b; repo_inside a b; repo_inside b a\<rbrakk> \<Longrightarrow> a = b" for a b
    by (metis join_split prefix_order.antisym repo_inside_prefix)
qed

lemma canonicalRepoPath_ok:
  assumes "canonicalRepoPath v = Inr p"
  shows "v = JStr p \<and> repo_path p"
proof -
  have "v = JStr p" and seg: "\<not> list_ex (\<lambda>s. s = '''' \<or> s = ''.'' \<or> s = ''..'') (split_on CHR ''/'' p)"
    using assms
    by (auto simp: canonicalRepoPath_def nonEmptyString_def rbind_Inr_iff Let_def split: jsval.splits if_splits)
  moreover have "repo_path p"
    using seg split_on_no_sep [of _ "CHR ''/''" p]
    by (auto simp: repo_path_def list_all_iff list_ex_iff plain_seg_def)
  ultimately show ?thesis by simp
qed

section \<open>Ownership\<close>

text \<open>A contract owns the paths its endpoints name and, for directories, everything below them.\<close>

definition endpoint_owns :: "OwnedEndpoint \<Rightarrow> string \<Rightarrow> bool" where
  "endpoint_owns e p =
     (if endpoint_directory e then repo_inside (endpoint_path e) p else p = endpoint_path e)"

definition contract_owns :: "TicketContract \<Rightarrow> string \<Rightarrow> bool" where
  "contract_owns c p =
     (\<exists>e \<in> set (contract_scope c). \<exists>q \<in> set (entry_names e).
        if entry_directory e then repo_inside q p else p = q)"

lemma overlap_iff_shared:
  assumes "repo_path (endpoint_path a)" and "repo_path (endpoint_path b)"
  shows "endpointOverlap a b \<longleftrightarrow> (\<exists>p. repo_path p \<and> endpoint_owns a p \<and> endpoint_owns b p)"
proof -
  have refl: "repo_inside p p" for p by (simp add: repo_inside_def)
  have "endpointOverlap a b \<longleftrightarrow>
      endpoint_path a = endpoint_path b
      \<or> (endpoint_directory a \<and> repo_inside (endpoint_path a) (endpoint_path b))
      \<or> (endpoint_directory b \<and> repo_inside (endpoint_path b) (endpoint_path a))"
    by (auto simp: endpointOverlap_def repo_inside_def)
  also have "\<dots> \<longleftrightarrow> (\<exists>p. repo_path p \<and> endpoint_owns a p \<and> endpoint_owns b p)"
  proof (cases "endpoint_directory a \<and> endpoint_directory b")
    case True
    then show ?thesis
      using repo.overlap_iff_common [OF assms] refl by (auto simp: endpoint_owns_def)
  next
    case False
    then show ?thesis using assms refl by (auto simp: endpoint_owns_def)
  qed
  finally show ?thesis .
qed

lemma scope_entry_paths:
  assumes "parse_scope_entry repository seen v = Inr (seen', e)"
  shows "\<forall>q \<in> set (entry_names e). repo_path q"
proof -
  obtain p kind f where "canonicalRepoPath (get_prop v ''path'') = Inr p"
    and f: "parse_from_path v kind p = Inr f"
    and e: "entry_path e = p" "from_path e = f"
    using assms by (auto simp: parse_scope_entry_def reader_ok)
  moreover have "repo_path q" if "f = Some q" for q
    using f that by (auto simp: parse_from_path_def rbind_Inr_iff dest: canonicalRepoPath_ok split: if_splits)
  ultimately show ?thesis
    by (auto simp: entry_names_def dest: canonicalRepoPath_ok split: option.splits)
qed

lemma parseScope_facts:
  assumes "parseScope repository v = Inr (scp, eps)"
  shows "eps = scope_endpoints scp \<and> (\<forall>e \<in> set scp. \<forall>q \<in> set (entry_names e). repo_path q)"
proof -
  obtain vs names where t: "traverse_state (parse_scope_entry repository) [] vs = Inr (names, scp)"
    and eps: "eps = scope_endpoints scp"
    using assms by (auto simp: parseScope_def reader_ok)
  have "list_all2 (\<lambda>x e. \<forall>q \<in> set (entry_names e). repo_path q) vs scp"
    by (rule traverse_state_all2 [OF t]) (rule scope_entry_paths)
  then have "\<forall>e \<in> set scp. \<forall>q \<in> set (entry_names e). repo_path q"
    unfolding list_all2_conv_all_nth by (metis in_set_conv_nth)
  then show ?thesis using eps by blast
qed

text \<open>What admission of one contract establishes, as far as the set-level checks need it.\<close>

definition well_parsed :: "ParsedContract \<Rightarrow> bool" where
  "well_parsed p =
     (endpoints p = scope_endpoints (contract_scope (contract p))
      \<and> (\<forall>e \<in> set (contract_scope (contract p)). \<forall>q \<in> set (entry_names e). repo_path q))"

lemma parseContract_well_parsed:
  assumes "parseContract sha256 repository v = Inr p"
  shows "well_parsed p"
proof -
  obtain scp eps v where "parseScope repository v = Inr (scp, eps)"
    and "contract_scope (contract p) = scp" "endpoints p = eps"
    using assms by (auto simp: parseContract_def reader_ok split: if_splits)
  then show ?thesis using parseScope_facts by (auto simp: well_parsed_def)
qed

text \<open>The endpoints of a scope without their labels.\<close>

definition bare :: "OwnedEndpoint \<Rightarrow> string \<times> bool" where
  "bare ep = (endpoint_path ep, endpoint_directory ep)"

definition bare_entry :: "TicketScopeEntry \<Rightarrow> (string \<times> bool) list" where
  "bare_entry e = map (\<lambda>q. (q, entry_directory e)) (entry_names e)"

definition bare_owns :: "string \<times> bool \<Rightarrow> string \<Rightarrow> bool" where
  "bare_owns b x = (if snd b then repo_inside (fst b) x else x = fst b)"

lemma zip_ignore_index:
  "length ns = length xs \<Longrightarrow> map (\<lambda>(i, e). h e) (zip ns xs) = map h xs"
  by (induction ns xs rule: list_induct2) auto

lemma bare_scope_endpoints: "map bare (scope_endpoints scp) = concat (map bare_entry scp)"
proof -
  have "map bare (scope_endpoints scp) = concat (map (\<lambda>(i, e). bare_entry e) (zip [0..<length scp] scp))"
    by (auto simp: scope_endpoints_def map_concat entry_endpoints_def bare_def bare_entry_def comp_def
        intro!: arg_cong [of _ _ concat])
  then show ?thesis by (simp add: zip_ignore_index)
qed

lemma bare_contractEndpoints: "map bare (contractEndpoints c) = concat (map bare_entry (contract_scope c))"
proof -
  have "map bare (contractEndpoints c) = concat (map (\<lambda>(i, e). bare_entry e) (zip [0..<length (contract_scope c)] (contract_scope c)))"
    by (auto simp: contractEndpoints_def map_concat bare_def bare_entry_def entry_names_def comp_def
        intro!: arg_cong [of _ _ concat] split: option.splits)
  then show ?thesis by (simp add: zip_ignore_index)
qed

lemma contract_owns_bare:
  "contract_owns c x \<longleftrightarrow> (\<exists>b \<in> set (concat (map bare_entry (contract_scope c))). bare_owns b x)"
  by (auto simp: contract_owns_def bare_entry_def bare_owns_def)

lemma endpoints_own_bare: "(\<exists>ep \<in> set eps. endpoint_owns ep x) \<longleftrightarrow> (\<exists>b \<in> set (map bare eps). bare_owns b x)"
  by (simp add: endpoint_owns_def bare_owns_def bare_def)

lemma parsed_owns:
  assumes "well_parsed p"
  shows "contract_owns (contract p) x \<longleftrightarrow> (\<exists>ep \<in> set (endpoints p). endpoint_owns ep x)"
  using assms by (simp only: well_parsed_def contract_owns_bare endpoints_own_bare bare_scope_endpoints)

lemma active_owns: "contract_owns c x \<longleftrightarrow> (\<exists>ep \<in> set (contractEndpoints c). endpoint_owns ep x)"
  by (simp only: contract_owns_bare endpoints_own_bare bare_contractEndpoints)

definition scope_paths_ok :: "TicketContract \<Rightarrow> bool" where
  "scope_paths_ok c = (\<forall>e \<in> set (contract_scope c). \<forall>q \<in> set (entry_names e). repo_path q)"

lemma bare_paths_ok:
  assumes "map bare eps = concat (map bare_entry scp)" and "\<forall>e \<in> set scp. \<forall>q \<in> set (entry_names e). repo_path q"
    and "ep \<in> set eps"
  shows "repo_path (endpoint_path ep)"
proof -
  have "bare ep \<in> set (concat (map bare_entry scp))" using assms(1,3) by (metis image_eqI list.set_map)
  then show ?thesis using assms(2) by (auto simp: bare_def bare_entry_def)
qed

lemma parsed_paths: "well_parsed p \<Longrightarrow> ep \<in> set (endpoints p) \<Longrightarrow> repo_path (endpoint_path ep)"
  by (rule bare_paths_ok [of "endpoints p" "contract_scope (contract p)"]) (auto simp: well_parsed_def bare_scope_endpoints)

lemma active_paths: "scope_paths_ok c \<Longrightarrow> ep \<in> set (contractEndpoints c) \<Longrightarrow> repo_path (endpoint_path ep)"
  by (rule bare_paths_ok [of "contractEndpoints c" "contract_scope c"]) (auto simp: scope_paths_ok_def bare_contractEndpoints)

lemma no_overlap_disjoint:
  assumes "assertNoOverlap left right = Inr ()"
    and "\<forall>e \<in> set left \<union> set right. repo_path (endpoint_path e)"
    and "repo_path x" and "a \<in> set left" and "b \<in> set right"
  shows "\<not> (endpoint_owns a x \<and> endpoint_owns b x)"
proof -
  have "\<not> endpointOverlap a b"
    using assms(1,4,5) by (auto simp: assertNoOverlap_def check_all_ok_iff)
  then show ?thesis using overlap_iff_shared [of a b] assms(2-5) by blast
qed

lemma ordered_pairs_nth: "i < j \<Longrightarrow> j < length xs \<Longrightarrow> (xs ! i, xs ! j) \<in> set (ordered_pairs xs)"
proof (induction xs arbitrary: i j)
  case (Cons x xs)
  then show ?case by (cases i; cases j) auto
qed simp

lemma check_unique_ids_ok:
  "check_unique_ids ids cs = Inr () \<longleftrightarrow> distinct (map contract_id cs) \<and> set ids \<inter> contract_id ` set cs = {}"
  by (induction cs arbitrary: ids) (auto simp: rbind_Inr_iff)

lemma check_acyclic_ok: "check_acyclic byId = Inr () \<longleftrightarrow> acyclic (depends byId)"
  using cycle_detection_exact [of byId]
  by (auto simp: check_acyclic_def split: option.splits sum.splits)


lemma disjoint_contracts:
  assumes "assertNoOverlap (endpoints a) (endpoints b) = Inr ()" and "well_parsed a" and "well_parsed b"
    and "repo_path x"
  shows "\<not> (contract_owns (contract a) x \<and> contract_owns (contract b) x)"
  using no_overlap_disjoint [OF assms(1) _ assms(4)] parsed_paths [OF assms(2)] parsed_paths [OF assms(3)]
    parsed_owns [OF assms(2)] parsed_owns [OF assms(3)] by blast

lemma disjoint_from_active:
  assumes "assertNoOverlap (contractEndpoints a) (endpoints b) = Inr ()" and "scope_paths_ok a" and "well_parsed b"
    and "repo_path x"
  shows "\<not> (contract_owns a x \<and> contract_owns (contract b) x)"
  using no_overlap_disjoint [OF assms(1) _ assms(4)] active_paths [OF assms(2)] parsed_paths [OF assms(3)]
    active_owns [of a] parsed_owns [OF assms(3)] by blast

text \<open>
  C28. What an admitted set of contracts guarantees. Every candidate is admitted, in order, with its own
  identity; dependencies name tickets of the set or known external ones and have no cycle; two tickets
  neither of which depends on the other, through any number of steps, own no path in common, so
  concurrent work never touches the same file; and no ticket shares an identity or a path with an
  active contract.
\<close>

theorem admitted_set_is_consistent:
  assumes "normalizeTicketContracts sha256 io candidates ctx = Inr cs"
    and "\<forall>active \<in> set (list_of (ctx_activeContracts ctx)). scope_paths_ok active"
  shows "(\<exists>vs. candidates = JArr vs \<and> length vs = length cs)
    \<and> distinct (map contract_id cs) \<and> acyclic (depends (dependency_map cs))
    \<and> (\<forall>c \<in> set cs. set (depends_on c) \<subseteq> contract_id ` set cs \<union> set (list_of (ctx_knownExternalDependencyIds ctx)))
    \<and> (\<forall>i j x. i < j \<and> j < length cs \<and> repo_path x \<and> contract_owns (cs ! i) x \<and> contract_owns (cs ! j) x \<longrightarrow>
         (contract_id (cs ! i), contract_id (cs ! j)) \<in> (depends (dependency_map cs))\<^sup>+
         \<or> (contract_id (cs ! j), contract_id (cs ! i)) \<in> (depends (dependency_map cs))\<^sup>+)
    \<and> (\<forall>active \<in> set (list_of (ctx_activeContracts ctx)). \<forall>c \<in> set cs.
         contract_id active \<noteq> contract_id c
         \<and> (\<forall>x. repo_path x \<longrightarrow> \<not> (contract_owns active x \<and> contract_owns c x)))"
proof -
  obtain vs repository parsed where
    vs: "as_array candidates = Some vs" and
    parsed: "traverse (parseContract sha256 repository) vs = Inr parsed" and
    cs: "cs = map contract parsed" and
    ids: "check_unique_ids [] cs = Inr ()" and
    known: "check_known (map contract_id cs @ list_of (ctx_knownExternalDependencyIds ctx)) cs = Inr ()" and
    acyc: "check_acyclic (dependency_map cs) = Inr ()" and
    pairs: "check_all (check_pair (dependency_map cs)) (ordered_pairs parsed) = Inr ()" and
    active: "check_active (list_of (ctx_activeContracts ctx)) parsed = Inr ()"
    using assms(1)
    by (auto simp: normalizeTicketContracts_def rbind_Inr_iff Let_def)
  have wp: "well_parsed p" if "p \<in> set parsed" for p
    using traverse_in_set [OF parsed that] parseContract_well_parsed by blast
  have len: "length vs = length cs" using traverse_length [OF parsed] cs by simp
  have disj: "(contract_id (cs ! i), contract_id (cs ! j)) \<in> (depends (dependency_map cs))\<^sup>+
         \<or> (contract_id (cs ! j), contract_id (cs ! i)) \<in> (depends (dependency_map cs))\<^sup>+"
    if "i < j" "j < length cs" "repo_path x" "contract_owns (cs ! i) x" "contract_owns (cs ! j) x" for i j x
  proof (rule ccontr)
    assume no: "\<not> ?thesis"
    have ij: "j < length parsed" "i < length parsed" using that cs by auto
    have "(parsed ! i, parsed ! j) \<in> set (ordered_pairs parsed)" using that(1) ij by (simp add: ordered_pairs_nth)
    then have "assertNoOverlap (endpoints (parsed ! i)) (endpoints (parsed ! j)) = Inr ()"
      using pairs no ij cs
      by (force simp: check_all_ok_iff check_pair_def Let_def dependsTransitively_iff_reachable)
    then show False
      using disjoint_contracts [OF _ wp wp] ij that cs nth_mem by (metis nth_map)
  qed
  have act: "contract_id active \<noteq> contract_id c
         \<and> (\<forall>x. repo_path x \<longrightarrow> \<not> (contract_owns active x \<and> contract_owns c x))"
    if in_active: "active \<in> set (list_of (ctx_activeContracts ctx))" and in_cs: "c \<in> set cs" for active c
  proof -
    obtain p where p: "p \<in> set parsed" "c = contract p" using in_cs cs by auto
    then have "contract_id active \<noteq> contract_id c"
      and "assertNoOverlap (contractEndpoints active) (endpoints p) = Inr ()"
      using active in_active by (auto simp: check_active_def check_all_ok_iff rbind_Inr_iff)
    then show ?thesis using disjoint_from_active assms(2) in_active wp p by blast
  qed
  show ?thesis
    apply (intro conjI)
    subgoal using vs len by (auto simp: as_array_Some)
    subgoal using ids by (simp add: check_unique_ids_ok)
    subgoal using acyc by (simp add: check_acyclic_ok)
    subgoal using known by (auto simp: check_known_def check_all_ok_iff)
    subgoal using disj by blast
    subgoal using act by blast
    done
qed

section \<open>A concrete set\<close>

definition zero_hash :: "string \<Rightarrow> string" where
  "zero_hash text = replicate 64 (CHR ''0'')"

definition no_io :: RepositoryIo where
  "no_io = \<lparr>cwd = ''/'', realpathSync = (\<lambda>p. Inl ENOENT), statIsDirectory = (\<lambda>p. Inl ENOENT),
     lstatSync = (\<lambda>p. Inl ENOENT), lstatKind = (\<lambda>p. Inl ENOENT), readlinkSync = (\<lambda>p. Inl ENOENT),
     readdirSync = (\<lambda>p. Inl ENOENT), git_rev_parse = (\<lambda>p. None), git_ls_files = (\<lambda>p. None)\<rparr>"

definition bare_context :: NormalizationContext where
  "bare_context = \<lparr>ctx_repositoryRoot = None, ctx_stateRoots = None, ctx_knownExternalDependencyIds = None,
     ctx_activeContracts = None, ctx_validateFilesystem = None\<rparr>"

definition sample_draft :: "string \<Rightarrow> string list \<Rightarrow> string \<Rightarrow> jsval" where
  "sample_draft ident deps p = JObj
     [(''schema_version'', JStr ''1.0.0''), (''id'', JStr ident), (''title'', JStr ''T''), (''description'', JStr ''D''),
      (''depends_on'', strings_js deps),
      (''scope'', JArr [JObj [(''path'', JStr p), (''change_kind'', JStr ''modify''), (''directory'', JBool True)]]),
      (''interfaces'', JArr []),
      (''acceptance_criteria'', JArr [JObj [(''id'', JStr ''AC-1''), (''description'', JStr ''d''),
          (''interface_ids'', JArr []), (''verification_ids'', JArr [JStr ''V-1''])]]),
      (''verifications'', JArr [JObj [(''id'', JStr ''V-1''), (''executable'', JStr ''npm''), (''args'', JArr []),
          (''cwd_class'', JStr ''repository_root''), (''env_allowlist'', JArr []), (''timeout_ms'', JNum 9),
          (''network'', JStr ''deny''), (''writable_outputs'', JArr []), (''expected_exit_codes'', JArr [JNum 0])]]),
      (''budgets'', JObj [(''max_attempts'', JNum 3), (''max_review_cycles'', JNum 2), (''wall_clock_ms'', JNum 8),
          (''remediation_limit'', JNum 1)])]"

lemma sample_sealed:
  "is_ok (sealTicketContracts zero_hash no_io (JArr [sample_draft ''t01'' [] ''src'', sample_draft ''t02'' [''t01''] ''src/a'']) bare_context)"
  by code_simp

lemma admitted_set_is_consistent_witness:
  "\<exists>cs. sealTicketContracts zero_hash no_io
      (JArr [sample_draft ''t01'' [] ''src'', sample_draft ''t02'' [''t01''] ''src/a'']) bare_context = Inr cs
     \<and> length cs = 2 \<and> distinct (map contract_id cs) \<and> acyclic (depends (dependency_map cs))"
proof -
  let ?drafts = "[sample_draft ''t01'' [] ''src'', sample_draft ''t02'' [''t01''] ''src/a'']"
  obtain cs where cs: "sealTicketContracts zero_hash no_io (JArr ?drafts) bare_context = Inr cs"
    using sample_sealed by (auto simp: is_ok_iff)
  then obtain sealed where sealed: "traverse (seal_draft zero_hash) ?drafts = Inr sealed"
    and n: "normalizeTicketContracts zero_hash no_io (JArr sealed) bare_context = Inr cs"
    by (auto simp: sealTicketContracts_def rbind_Inr_iff simp del: traverse.simps)
  have "\<forall>active \<in> set (list_of (ctx_activeContracts bare_context)). scope_paths_ok active"
    by (simp add: bare_context_def list_of_def)
  from admitted_set_is_consistent [OF n this] show ?thesis
    using cs traverse_length [OF sealed] by auto
qed

end
