(* ===== verification/Oracle.thy ===== *)
theory Oracle
  imports Canonical_Json Schema "HOL-Library.Product_Lexorder" "HOL-Library.Option_ord"
begin

text \<open>
  The attempt oracle of \<open>orchestrator/src/state/oracle.ts\<close>: from the references that a store
  transaction resolved it decides whether the attempt is accepted, records every reason against it
  and whether the references themselves were intact, and plans the rows to persist.

  The oracle collects reasons in a set and sorts them at the end. Here each part of
  \<open>evaluateAttemptOracle\<close> returns the reasons it adds and whether it left the integrity flag as it
  was; \<open>reports\<close> joins the parts. The SHA-256 of a text is a parameter; the sealed content of a
  reference is \<open>JNull\<close> where the code has null.
\<close>

section \<open>Reports\<close>

type_synonym report = "string list \<times> bool"

definition reports :: "report list \<Rightarrow> report" where
  "reports rs = (concat (map fst rs), list_all snd rs)"

text \<open>\<open>reasons.add(r)\<close> alone, and together with \<open>integrityExact = false\<close>, under a condition.\<close>

definition remark :: "bool \<Rightarrow> string \<Rightarrow> report" where
  "remark c r = (if c then [r] else [], True)"

definition breach :: "bool \<Rightarrow> string \<Rightarrow> report" where
  "breach c r = (if c then [r] else [], \<not> c)"

lemma reports_simps [oracle_simps]:
  "fst (reports rs) = [] \<longleftrightarrow> (\<forall>r \<in> set rs. fst r = [])"
  "snd (reports rs) \<longleftrightarrow> (\<forall>r \<in> set rs. snd r)"
  by (simp_all add: reports_def list_all_iff)

lemma remark_simps [oracle_simps]: "fst (remark c r) = [] \<longleftrightarrow> \<not> c" "snd (remark c r)"
  by (simp_all add: remark_def)

lemma breach_simps [oracle_simps]: "fst (breach c r) = [] \<longleftrightarrow> \<not> c" "snd (breach c r) \<longleftrightarrow> \<not> c"
  by (simp_all add: breach_def)

section \<open>Data\<close>

datatype oracle_error = TypeError string | ContractError contract_error

record AttemptOracleScope =
  scope_runId :: string
  scope_ticketInstanceId :: string
  scope_attemptId :: string

record OracleNormalizedDeltaEntry =
  delta_path :: string
  delta_changeKind :: string
  delta_fromPath :: "string option"
  delta_beforeMode :: "string option"
  delta_afterMode :: "string option"

record OracleAttributionDigests =
  candidateDiffDigest :: string
  pathSetDigest :: string
  changeKindSetDigest :: string
  modeSetDigest :: string

record OracleGate =
  gateId :: "string option"
  evaluationOrdinal :: "int option"
  gate_required :: "bool option"
  gate_state :: "string option"

datatype sealed_state = Absent | Exact | Invalid

record OracleEvaluatedReference =
  ordinal :: "int option"
  referenceKind :: string
  referenceId :: "string option"
  ref_runId :: "string option"
  ref_ticketInstanceId :: "string option"
  ref_attemptId :: "string option"
  ref_oracleVersion :: "string option"
  contentDigest :: "string option"
  resolvedContentDigest :: "string option"
  sealedContent :: jsval
  sealedContentState :: sealed_state
  gate :: "OracleGate option"

datatype OracleDecisionResult = Accepted | Rejected

record OraclePersistencePlan =
  plan_oracleVersion :: string
  plan_scope :: AttemptOracleScope
  plan_result :: OracleDecisionResult
  plan_reasons :: "string list"
  inputSetDigest :: string
  outputDigest :: string
  referenceIntegrity :: bool
  plan_references :: "OracleEvaluatedReference list"

text \<open>A value of the process: a plan the oracle issued (a member of \<open>ISSUED_PLANS\<close>), or any other.\<close>

datatype plan_value = Issued OraclePersistencePlan | Unbranded jsval

definition RICKGENT_ORACLE_VERSION :: string where
  "RICKGENT_ORACLE_VERSION = ''rickgent.oracle.v2''"

definition LEGACY_REFERENCE_KINDS :: "string list" where
  "LEGACY_REFERENCE_KINDS = [''cleanup_record'', ''process_receipt'']"

definition REFERENCE_ID_COLUMN :: "(string \<times> string) list" where
  "REFERENCE_ID_COLUMN =
    [(''run_manifest'', ''run_manifest_digest''),
     (''ticket_contract'', ''contract_digest''),
     (''execution_context'', ''context_id''),
     (''evidence'', ''evidence_id''),
     (''gate_result'', ''gate_result_id''),
     (''review_record'', ''review_record_id''),
     (''commit_attribution'', ''commit_attribution_id''),
     (''cleanup_record'', ''cleanup_record_id''),
     (''dependency_edge'', ''dependency_digest''),
     (''attempt_resource_snapshot'', ''resource_snapshot_evidence_id''),
     (''lease_snapshot'', ''lease_snapshot_evidence_id''),
     (''process_receipt'', ''process_receipt_id'')]"

definition REFERENCE_ID_COLUMNS :: "string list" where
  "REFERENCE_ID_COLUMNS = map snd REFERENCE_ID_COLUMN"

definition REQUIRED_CLASS_KIND :: "(string \<times> string) list" where
  "REQUIRED_CLASS_KIND =
    [(''run_manifest'', ''run_manifest''),
     (''ticket_contract'', ''ticket_contract''),
     (''execution_context'', ''execution_context''),
     (''required_gates'', ''gate_result''),
     (''independent_review'', ''review_record''),
     (''commit_attribution'', ''commit_attribution''),
     (''attempt_resource_snapshots'', ''attempt_resource_snapshot''),
     (''lease_snapshots'', ''lease_snapshot'')]"

section \<open>Readers of untyped content\<close>

text \<open>\<open>nullableText\<close> is \<open>as_string\<close>, \<open>safeInteger\<close> is \<open>as_safe_int\<close>.\<close>

definition digest :: "(string \<Rightarrow> string) \<Rightarrow> jsval \<Rightarrow> (oracle_error, string) result" where
  "digest sha v =
     (case canonical_json v of
        Inl e \<Rightarrow> Inl (ContractError e)
      | Inr text \<Rightarrow> Inr (''sha256:'' @ sha text))"

definition requiredText :: "jsval \<Rightarrow> string \<Rightarrow> (oracle_error, string) result" where
  "requiredText v label =
     (case as_string v of
        None \<Rightarrow> Inl (TypeError (label @ '' must be a nonempty canonical string''))
      | Some s \<Rightarrow>
          if s = '''' \<or> s \<noteq> trim s
          then Inl (TypeError (label @ '' must be a nonempty canonical string'')) else Inr s)"

definition objectValue :: "jsval \<Rightarrow> jsval" where
  "objectValue v = (if is_plain_object v then v else JNull)"

definition stringArray_oracle :: "jsval \<Rightarrow> string list option" where
  "stringArray_oracle v =
     (case as_array v of
        None \<Rightarrow> None
      | Some vs \<Rightarrow>
          if list_ex (\<lambda>x. as_string x = None \<or> x = JStr '''') vs then None
          else Some (map (\<lambda>x. the (as_string x)) vs))"

definition nullable :: "string option \<Rightarrow> jsval" where
  "nullable s = (case s of None \<Rightarrow> JNull | Some t \<Rightarrow> JStr t)"

definition show_ref_id :: "string option \<Rightarrow> string" where
  "show_ref_id i = (case i of None \<Rightarrow> ''<invalid>'' | Some s \<Rightarrow> s)"

section \<open>The normalized delta\<close>

definition CHANGE_KIND_SET :: "string list" where
  "CHANGE_KIND_SET = [''create'', ''modify'', ''delete'', ''rename'']"

text \<open>The path conditions \<open>normalizedDeltaEntry\<close> applies to \<open>path\<close> and to \<open>from_path\<close>.\<close>

definition delta_path_ok :: "string \<Rightarrow> bool" where
  "delta_path_ok p =
     (p \<noteq> '''' \<and> p = trim p \<and> \<not> starts_with p ''/'' \<and> CHR 0x5C \<notin> set p
      \<and> \<not> list_ex (\<lambda>part. part = '''' \<or> part = ''.'' \<or> part = ''..'') (split_on (CHR ''/'') p))"

definition delta_shape_ok :: "string \<Rightarrow> string \<Rightarrow> string option \<Rightarrow> string option \<Rightarrow> string option \<Rightarrow> bool" where
  "delta_shape_ok p kind from old new =
     (kind \<in> set CHANGE_KIND_SET
      \<and> \<not> (kind = ''create'' \<and> (from \<noteq> None \<or> old \<noteq> None \<or> new = None))
      \<and> \<not> (kind = ''modify'' \<and> (from \<noteq> None \<or> old = None \<or> new = None))
      \<and> \<not> (kind = ''delete'' \<and> (from \<noteq> None \<or> old = None \<or> new \<noteq> None))
      \<and> \<not> (kind = ''rename'' \<and> (from = None \<or> from = Some p \<or> old = None \<or> new = None)))"

definition before_mode_ok :: "string \<Rightarrow> string \<Rightarrow> bool" where
  "before_mode_ok kind mode = (is_regular_mode mode \<or> kind = ''delete'' \<and> mode = ''120000'')"

definition opt_all :: "('a \<Rightarrow> bool) \<Rightarrow> 'a option \<Rightarrow> bool" where
  "opt_all p x = (case x of None \<Rightarrow> True | Some y \<Rightarrow> p y)"

text \<open>A field that must be present and be null or a string.\<close>

definition null_or_text :: "jsval \<Rightarrow> bool" where
  "null_or_text v = (v = JNull \<or> as_string v \<noteq> None)"

definition normalizedDeltaEntry :: "jsval \<Rightarrow> OracleNormalizedDeltaEntry option" where
  "normalizedDeltaEntry v =
     (let entry = objectValue v;
          from = as_string (get_prop entry ''from_path'');
          old = as_string (get_prop entry ''before_mode'');
          new = as_string (get_prop entry ''after_mode'')
      in case (as_string (get_prop entry ''path''), as_string (get_prop entry ''change_kind'')) of
           (Some p, Some kind) \<Rightarrow>
             if delta_path_ok p
                \<and> null_or_text (get_prop entry ''from_path'')
                \<and> null_or_text (get_prop entry ''before_mode'')
                \<and> null_or_text (get_prop entry ''after_mode'')
                \<and> opt_all delta_path_ok from
                \<and> opt_all (before_mode_ok kind) old
                \<and> opt_all is_regular_mode new
                \<and> delta_shape_ok p kind from old new
             then Some \<lparr>delta_path = p, delta_changeKind = kind, delta_fromPath = from,
                        delta_beforeMode = old, delta_afterMode = new\<rparr>
             else None
         | _ \<Rightarrow> None)"

text \<open>The comparator of \<open>orderedDelta\<close> is the lexicographic order of this key, null first.\<close>

definition delta_key ::
  "OracleNormalizedDeltaEntry \<Rightarrow> string \<times> string option \<times> string \<times> string option \<times> string option" where
  "delta_key e =
     (delta_path e, delta_fromPath e, delta_changeKind e, delta_beforeMode e, delta_afterMode e)"

definition orderedDelta :: "OracleNormalizedDeltaEntry list \<Rightarrow> OracleNormalizedDeltaEntry list" where
  "orderedDelta delta = sort_key delta_key delta"

definition delta_js :: "OracleNormalizedDeltaEntry \<Rightarrow> jsval" where
  "delta_js e =
     JObj [(''path'', JStr (delta_path e)), (''change_kind'', JStr (delta_changeKind e)),
           (''from_path'', nullable (delta_fromPath e)), (''before_mode'', nullable (delta_beforeMode e)),
           (''after_mode'', nullable (delta_afterMode e))]"

definition candidate_js :: "OracleNormalizedDeltaEntry \<Rightarrow> jsval" where
  "candidate_js e =
     JObj [(''path'', JStr (delta_path e)), (''from_path'', nullable (delta_fromPath e)),
           (''change_kind'', JStr (delta_changeKind e)), (''before_mode'', nullable (delta_beforeMode e)),
           (''after_mode'', nullable (delta_afterMode e))]"

definition path_set_js :: "OracleNormalizedDeltaEntry \<Rightarrow> jsval" where
  "path_set_js e = JObj [(''path'', JStr (delta_path e)), (''from_path'', nullable (delta_fromPath e))]"

definition change_kind_set_js :: "OracleNormalizedDeltaEntry \<Rightarrow> jsval" where
  "change_kind_set_js e =
     JObj [(''path'', JStr (delta_path e)), (''from_path'', nullable (delta_fromPath e)),
           (''change_kind'', JStr (delta_changeKind e))]"

definition mode_set_js :: "OracleNormalizedDeltaEntry \<Rightarrow> jsval" where
  "mode_set_js e =
     JObj [(''path'', JStr (delta_path e)), (''from_path'', nullable (delta_fromPath e)),
           (''before_mode'', nullable (delta_beforeMode e)), (''after_mode'', nullable (delta_afterMode e))]"

definition deriveOracleAttributionDigests ::
  "(string \<Rightarrow> string) \<Rightarrow> OracleNormalizedDeltaEntry list \<Rightarrow> (oracle_error, OracleAttributionDigests) result" where
  "deriveOracleAttributionDigests sha delta =
     (if delta = [] then Inl (TypeError ''oracle normalized delta must be nonempty'')
      else
        let normalized = map (\<lambda>e. normalizedDeltaEntry (delta_js e)) delta in
        if None \<in> set normalized then Inl (TypeError ''oracle normalized delta entry is invalid'')
        else
          let entries = orderedDelta (map the normalized) in
          rbind (digest sha (JArr (map candidate_js entries))) (\<lambda>candidate.
          rbind (digest sha (JArr (map path_set_js entries))) (\<lambda>paths.
          rbind (digest sha (JArr (map change_kind_set_js entries))) (\<lambda>kinds.
          rbind (digest sha (JArr (map mode_set_js entries))) (\<lambda>modes.
          Inr \<lparr>candidateDiffDigest = candidate, pathSetDigest = paths, changeKindSetDigest = kinds,
               modeSetDigest = modes\<rparr>)))))"

section \<open>The sealed scope\<close>

record SealedScopeEntry =
  sealed_path :: string
  sealed_changeKind :: string
  sealed_directory :: bool
  sealed_fromPath :: "string option"

definition sealedScopeEntry :: "jsval \<Rightarrow> SealedScopeEntry option" where
  "sealedScopeEntry v =
     (let entry = objectValue v; from = as_string (get_prop entry ''from_path'') in
      case (as_string (get_prop entry ''path''), as_string (get_prop entry ''change_kind''),
            as_bool (get_prop entry ''directory'')) of
        (Some p, Some kind, Some directory) \<Rightarrow>
          if p = '''' \<or> kind \<notin> set CHANGE_KIND_SET
             \<or> (if kind = ''rename'' then from = None \<or> from = Some p else from \<noteq> None)
          then None
          else Some \<lparr>sealed_path = p, sealed_changeKind = kind, sealed_directory = directory,
                     sealed_fromPath = from\<rparr>
      | _ \<Rightarrow> None)"

definition pathWithin :: "string \<Rightarrow> string \<Rightarrow> bool \<Rightarrow> bool" where
  "pathWithin p root directory = (p = root \<or> directory \<and> starts_with p (root @ ''/''))"

definition deltaMatchesScope :: "OracleNormalizedDeltaEntry \<Rightarrow> SealedScopeEntry \<Rightarrow> bool" where
  "deltaMatchesScope delta scope =
     (if \<not> pathWithin (delta_path delta) (sealed_path scope) (sealed_directory scope) then False
      else if sealed_directory scope then
        (sealed_changeKind scope = ''modify'' \<or> delta_changeKind delta = sealed_changeKind scope)
        \<and> opt_all (\<lambda>from. pathWithin from (sealed_path scope) True) (delta_fromPath delta)
      else if delta_changeKind delta \<noteq> sealed_changeKind scope then False
      else if sealed_changeKind scope \<noteq> ''rename'' then delta_fromPath delta = None
      else delta_fromPath delta \<noteq> None \<and> sealed_fromPath scope = delta_fromPath delta)"

text \<open>The identity joins the two paths with a NUL; a missing source path reads as the empty one.\<close>

definition delta_identity :: "OracleNormalizedDeltaEntry \<Rightarrow> string" where
  "delta_identity e =
     delta_path e @ [CHR 0x00] @ (case delta_fromPath e of None \<Rightarrow> '''' | Some p \<Rightarrow> p)"

definition hasDuplicateDeltaIdentity :: "OracleNormalizedDeltaEntry list \<Rightarrow> bool" where
  "hasDuplicateDeltaIdentity delta = (\<not> no_dups (map delta_identity delta))"

section \<open>References\<close>

text \<open>\<open>JSON.parse(canonicalJson(value))\<close>, with the keys sorted, or null when the text is refused.\<close>

definition normalizeSealedContent :: "jsval \<Rightarrow> jsval \<times> sealed_state" where
  "normalizeSealedContent v =
     (if v = JUndef then (JNull, Absent)
      else if \<not> is_plain_object v then (JNull, Invalid)
      else case canonical_json v of
        Inl _ \<Rightarrow> (JNull, Invalid)
      | Inr _ \<Rightarrow> (key_normal v, Exact))"

definition normalizeGate :: "jsval \<Rightarrow> OracleGate option" where
  "normalizeGate v =
     (if \<not> is_objectlike v then None
      else Some \<lparr>gateId = as_string (get_prop v ''gateId''),
                 evaluationOrdinal = as_safe_int (get_prop v ''evaluationOrdinal''),
                 gate_required = as_bool (get_prop v ''required''),
                 gate_state = as_string (get_prop v ''status'')\<rparr>)"

definition normalizeReference :: "jsval \<Rightarrow> OracleEvaluatedReference" where
  "normalizeReference v =
     (let sealed = normalizeSealedContent (get_prop v ''sealedContent'') in
      \<lparr>ordinal = as_safe_int (get_prop v ''ordinal''),
       referenceKind = (case as_string (get_prop v ''referenceKind'') of Some k \<Rightarrow> k | None \<Rightarrow> ''<invalid>''),
       referenceId = as_string (get_prop v ''referenceId''),
       ref_runId = as_string (get_prop v ''runId''),
       ref_ticketInstanceId = as_string (get_prop v ''ticketInstanceId''),
       ref_attemptId = as_string (get_prop v ''attemptId''),
       ref_oracleVersion = as_string (get_prop v ''oracleVersion''),
       contentDigest = as_string (get_prop v ''contentDigest''),
       resolvedContentDigest = as_string (get_prop v ''resolvedContentDigest''),
       sealedContent = fst sealed,
       sealedContentState = snd sealed,
       gate = normalizeGate (get_prop v ''gate'')\<rparr>)"

definition expectedLineage ::
  "string \<Rightarrow> AttemptOracleScope \<Rightarrow> (string \<times> string option \<times> string option) option" where
  "expectedLineage kind scope =
     (if kind = ''run_manifest'' then Some (scope_runId scope, None, None)
      else if kind = ''ticket_contract'' \<or> kind = ''dependency_edge''
      then Some (scope_runId scope, Some (scope_ticketInstanceId scope), None)
      else if kind \<in> set ORACLE_REFERENCE_KINDS
      then Some (scope_runId scope, Some (scope_ticketInstanceId scope), Some (scope_attemptId scope))
      else None)"

text \<open>What the first loop accumulates; \<open>requiredGates\<close> lists the gate id of every required gate.\<close>

record reference_scan =
  observedKinds :: "string list"
  observedIdentities :: "string list"
  observedContent :: "string list"
  requiredGates :: "string list"

definition nul_join :: "string \<Rightarrow> string \<Rightarrow> string" where
  "nul_join a b = a @ [CHR 0x00] @ b"

definition identity_ok :: "OracleEvaluatedReference \<Rightarrow> bool" where
  "identity_ok r = (case referenceId r of None \<Rightarrow> False | Some i \<Rightarrow> i \<noteq> '''' \<and> i = trim i)"

definition identity_of :: "OracleEvaluatedReference \<Rightarrow> string" where
  "identity_of r = nul_join (referenceKind r) (the (referenceId r))"

definition content_identity :: "OracleEvaluatedReference \<Rightarrow> string" where
  "content_identity r = nul_join (referenceKind r) (the (contentDigest r))"

definition lineage_ok :: "AttemptOracleScope \<Rightarrow> OracleEvaluatedReference \<Rightarrow> bool" where
  "lineage_ok scope r =
     (case expectedLineage (referenceKind r) scope of
        None \<Rightarrow> False
      | Some (run, ticket, attempt) \<Rightarrow>
          ref_runId r = Some run \<and> ref_ticketInstanceId r = ticket \<and> ref_attemptId r = attempt)"

definition sealed_required :: "jsval \<Rightarrow> jsval" where
  "sealed_required content =
     (let q = get_prop content ''required'' in
      if q = JNum 1 then JBool True else if q = JNum 0 then JBool False else q)"

definition gate_projection_ok :: "OracleEvaluatedReference \<Rightarrow> bool" where
  "gate_projection_ok r =
     (case gate r of
        None \<Rightarrow> False
      | Some g \<Rightarrow>
          (case (gateId g, evaluationOrdinal g, gate_required g, gate_state g) of
             (Some i, Some n, Some q, Some s) \<Rightarrow>
               0 \<le> n \<and> s \<in> set GATE_STATUSES \<and> sealedContentState r = Exact \<and> sealedContent r \<noteq> JNull
               \<and> get_prop (sealedContent r) ''gate_id'' = JStr i
               \<and> get_prop (sealedContent r) ''evaluation_ordinal'' = JNum n
               \<and> sealed_required (sealedContent r) = JBool q
               \<and> get_prop (sealedContent r) ''status'' = JStr s
               \<and> test_string is_git_oid (get_prop (sealedContent r) ''candidate_tree_oid'')
               \<and> test_string is_digest (get_prop (sealedContent r) ''candidate_diff_digest'')
           | _ \<Rightarrow> False))"

definition required_gate :: "OracleEvaluatedReference \<Rightarrow> bool" where
  "required_gate r =
     (referenceKind r = ''gate_result'' \<and> (case gate r of None \<Rightarrow> False | Some g \<Rightarrow> gate_required g = Some True))"

definition gate_name :: "OracleEvaluatedReference \<Rightarrow> string" where
  "gate_name r = show_ref_id (case gate r of None \<Rightarrow> None | Some g \<Rightarrow> gateId g)"

definition gate_status_of :: "OracleEvaluatedReference \<Rightarrow> string" where
  "gate_status_of r = show_ref_id (case gate r of None \<Rightarrow> None | Some g \<Rightarrow> gate_state g)"

definition gate_report :: "string \<Rightarrow> OracleEvaluatedReference \<Rightarrow> report" where
  "gate_report label r =
     (if referenceKind r = ''gate_result'' then
        (if \<not> gate_projection_ok r then breach True (''gate_projection_invalid:'' @ label)
         else
           remark (required_gate r \<and> gate_status_of r \<noteq> ''passed'')
             (''required_gate_blocking:'' @ (case referenceId r of None \<Rightarrow> ''null'' | Some i \<Rightarrow> i) @ '':'' @ gate_status_of r))
      else breach (gate r \<noteq> None) (''unexpected_gate_projection:'' @ label))"

text \<open>The digest of the sealed content, computed only for content that was sealed exactly.\<close>

definition sealed_digest ::
  "(string \<Rightarrow> string) \<Rightarrow> OracleEvaluatedReference \<Rightarrow> (oracle_error, string option) result" where
  "sealed_digest sha r =
     (if sealedContentState r = Exact \<and> sealedContent r \<noteq> JNull
      then rbind (digest sha (sealedContent r)) (\<lambda>d. Inr (Some d)) else Inr None)"

definition ref_label :: "nat \<Rightarrow> OracleEvaluatedReference \<Rightarrow> string" where
  "ref_label index r = show_nat index @ '':'' @ referenceKind r @ '':'' @ show_ref_id (referenceId r)"

definition scan_reference :: "OracleEvaluatedReference \<Rightarrow> reference_scan \<Rightarrow> reference_scan" where
  "scan_reference r st =
     st\<lparr>observedKinds := observedKinds st @ [referenceKind r],
        observedIdentities :=
          observedIdentities st @ (if identity_ok r then [identity_of r] else []),
        observedContent :=
          observedContent st @ (if contentDigest r = None then [] else [content_identity r]),
        requiredGates :=
          requiredGates st @ (if required_gate r \<and> gate_projection_ok r then [gate_name r] else [])\<rparr>"

definition reference_report ::
  "string \<Rightarrow> AttemptOracleScope \<Rightarrow> nat \<Rightarrow> OracleEvaluatedReference \<Rightarrow> reference_scan \<Rightarrow> string option \<Rightarrow> report" where
  "reference_report version scope index r st sealed =
     (let label = ref_label index r in
      reports
        [breach (ordinal r \<noteq> Some (int index)) (''reference_ordinal_mismatch:'' @ label),
         breach (referenceKind r \<in> set LEGACY_REFERENCE_KINDS) (''legacy_reference_kind_forbidden:'' @ label),
         breach (\<not> identity_ok r) (''reference_identity_invalid:'' @ label),
         breach (identity_ok r \<and> identity_of r \<in> set (observedIdentities st))
           (''reference_identity_duplicate:'' @ label),
         breach (ref_oracleVersion r \<noteq> Some version) (''reference_oracle_version_mismatch:'' @ label),
         breach (\<not> lineage_ok scope r) (''reference_lineage_mismatch:'' @ label),
         breach (\<not> test_string is_digest (nullable (contentDigest r)))
           (''reference_content_digest_invalid:'' @ label),
         breach (\<not> test_string is_digest (nullable (resolvedContentDigest r)))
           (''reference_resolved_digest_invalid:'' @ label),
         breach (contentDigest r \<noteq> resolvedContentDigest r) (''reference_content_digest_mismatch:'' @ label),
         breach (sealedContentState r = Invalid) (''reference_sealed_content_invalid:'' @ label),
         breach (sealed \<noteq> None \<and> sealed \<noteq> contentDigest r)
           (''reference_sealed_content_digest_mismatch:'' @ label),
         breach (contentDigest r \<noteq> None \<and> content_identity r \<in> set (observedContent st))
           (''reference_content_duplicate:'' @ label),
         gate_report label r])"

definition checkReference ::
  "(string \<Rightarrow> string) \<Rightarrow> string \<Rightarrow> AttemptOracleScope \<Rightarrow> nat \<Rightarrow> OracleEvaluatedReference \<Rightarrow> reference_scan
   \<Rightarrow> (oracle_error, reference_scan \<times> report) result" where
  "checkReference sha version scope index r st =
     (if referenceKind r \<notin> set ORACLE_REFERENCE_KINDS then
        Inr (st, reports
          [breach (ordinal r \<noteq> Some (int index)) (''reference_ordinal_mismatch:'' @ ref_label index r),
           breach True (''reference_kind_invalid:'' @ ref_label index r)])
      else
        rbind (sealed_digest sha r) (\<lambda>sealed.
        Inr (scan_reference r st, reference_report version scope index r st sealed)))"

fun checkReferences ::
  "(string \<Rightarrow> string) \<Rightarrow> string \<Rightarrow> AttemptOracleScope \<Rightarrow> nat \<Rightarrow> OracleEvaluatedReference list \<Rightarrow> reference_scan
   \<Rightarrow> (oracle_error, reference_scan \<times> report) result" where
  "checkReferences sha version scope index [] st = Inr (st, reports [])"
| "checkReferences sha version scope index (r # rs) st =
     rbind (checkReference sha version scope index r st) (\<lambda>(st', rep).
     rbind (checkReferences sha version scope (Suc index) rs st') (\<lambda>(st'', rep').
     Inr (st'', reports [rep, rep'])))"

definition empty_scan :: reference_scan where
  "empty_scan = \<lparr>observedKinds = [], observedIdentities = [], observedContent = [], requiredGates = []\<rparr>"

definition missing_classes :: "reference_scan \<Rightarrow> report" where
  "missing_classes st =
     reports (map (\<lambda>(cls, kind).
       remark (kind \<notin> set (observedKinds st)) (''missing_input_class:'' @ cls)) REQUIRED_CLASS_KIND)"

section \<open>Evidence of the completed targets, the cleanup and the identity\<close>

definition of_kind :: "string \<Rightarrow> OracleEvaluatedReference list \<Rightarrow> OracleEvaluatedReference list" where
  "of_kind kind refs = filter (\<lambda>r. referenceKind r = kind) refs"

definition evidence_class :: "string \<Rightarrow> OracleEvaluatedReference list \<Rightarrow> OracleEvaluatedReference list" where
  "evidence_class cls refs =
     filter (\<lambda>r. referenceKind r = ''evidence''
                 \<and> get_prop (sealedContent r) ''oracle_input_class'' = JStr cls) refs"

definition first :: "'a list \<Rightarrow> 'a option" where
  "first xs = (case xs of [] \<Rightarrow> None | x # _ \<Rightarrow> Some x)"

definition has_text :: "jsval \<Rightarrow> string \<Rightarrow> bool" where
  "has_text v k = (as_string (get_prop v k) \<noteq> None)"

definition has_int :: "jsval \<Rightarrow> string \<Rightarrow> bool" where
  "has_int v k = (as_safe_int (get_prop v k) \<noteq> None)"

text \<open>\<open>reference?.sealedContent?.k\<close>.\<close>

definition sealed_prop :: "OracleEvaluatedReference option \<Rightarrow> string \<Rightarrow> jsval" where
  "sealed_prop r k = (case r of None \<Rightarrow> JUndef | Some x \<Rightarrow> get_prop (sealedContent x) k)"

definition exactly_sealed :: "OracleEvaluatedReference \<Rightarrow> bool" where
  "exactly_sealed r = (sealedContentState r = Exact \<and> sealedContent r \<noteq> JNull)"

definition target_proof_ok :: "jsval \<Rightarrow> bool" where
  "target_proof_ok p =
     (is_plain_object p \<and> has_text p ''phase_execution_id''
      \<and> test_string (\<lambda>k. k = ''terminal_process'' \<or> k = ''never_released'') (get_prop p ''proof_kind'')
      \<and> test_string is_digest (get_prop p ''member_digest''))"

definition target_proof_set_ok :: "AttemptOracleScope \<Rightarrow> OracleEvaluatedReference \<Rightarrow> bool" where
  "target_proof_set_ok scope r =
     (let content = sealedContent r in
      exactly_sealed r \<and> has_text content ''target_proof_set_id''
      \<and> get_prop content ''attempt_id'' = JStr (scope_attemptId scope)
      \<and> has_text content ''ownership_id'' \<and> has_int content ''owner_generation''
      \<and> has_text content ''ownership_context_digest''
      \<and> test_string is_digest (get_prop content ''target_proof_set_digest'')
      \<and> (case as_array (get_prop content ''target_proofs'') of
           None \<Rightarrow> False
         | Some proofs \<Rightarrow>
             as_safe_int (get_prop content ''target_count'') = Some (int (length proofs))
             \<and> proofs \<noteq> [] \<and> list_all target_proof_ok proofs
             \<and> no_dups (map (\<lambda>p. as_string (get_prop p ''phase_execution_id'')) proofs)))"

definition target_proof_report :: "AttemptOracleScope \<Rightarrow> OracleEvaluatedReference list \<Rightarrow> report" where
  "target_proof_report scope refs =
     (let sets = evidence_class ''complete_target_proof_set'' refs in
      reports
        [remark (length sets \<noteq> 1) (''complete_target_proof_set_cardinality:'' @ show_nat (length sets)),
         case first sets of
           None \<Rightarrow> reports []
         | Some r \<Rightarrow> breach (\<not> target_proof_set_ok scope r)
             (''complete_target_proof_set_projection_invalid:'' @ show_ref_id (referenceId r))])"

definition cleanup_eligibility_ok ::
  "AttemptOracleScope \<Rightarrow> OracleEvaluatedReference option \<Rightarrow> OracleEvaluatedReference \<Rightarrow> bool" where
  "cleanup_eligibility_ok scope proof_set r =
     (let content = sealedContent r in
      exactly_sealed r \<and> has_text content ''eligibility_id''
      \<and> get_prop content ''attempt_id'' = JStr (scope_attemptId scope)
      \<and> has_text content ''ownership_id'' \<and> has_int content ''owner_generation''
      \<and> has_int content ''ownership_state_version'' \<and> has_text content ''ownership_context_digest''
      \<and> has_text content ''commit_intent_id'' \<and> has_text content ''commit_attribution_id''
      \<and> test_string is_git_oid (get_prop content ''candidate_oid'')
      \<and> test_string is_git_oid (get_prop content ''baseline_oid'')
      \<and> strict_eq (get_prop content ''delivery_observed_oid'') (get_prop content ''baseline_oid'')
      \<and> has_text content ''delivery_ref'' \<and> has_text content ''attempt_ref''
      \<and> strict_eq (get_prop content ''attempt_ref_observed_oid'') (get_prop content ''candidate_oid'')
      \<and> test_string is_digest (get_prop content ''claim_preimage_digest'')
      \<and> has_text content ''ownership_snapshot_evidence_id''
      \<and> (case as_array (get_prop content ''claim_snapshot_evidence_ids'') of
           None \<Rightarrow> False
         | Some snapshots \<Rightarrow>
             length snapshots = length RESOURCE_KINDS \<and> list_all (\<lambda>i. as_string i \<noteq> None) snapshots
             \<and> no_dups snapshots)
      \<and> has_text content ''target_proof_set_id''
      \<and> test_string is_digest (get_prop content ''target_proof_set_digest'')
      \<and> (case as_safe_int (get_prop content ''target_proof_count'') of None \<Rightarrow> False | Some n \<Rightarrow> 1 \<le> n)
      \<and> strict_eq (get_prop content ''target_proof_set_id'') (sealed_prop proof_set ''target_proof_set_id'')
      \<and> strict_eq (get_prop content ''target_proof_set_digest'') (sealed_prop proof_set ''target_proof_set_digest'')
      \<and> strict_eq (get_prop content ''target_proof_count'') (sealed_prop proof_set ''target_count''))"

definition cleanup_report :: "AttemptOracleScope \<Rightarrow> OracleEvaluatedReference list \<Rightarrow> report" where
  "cleanup_report scope refs =
     (let found = evidence_class ''cleanup_eligibility'' refs;
          proof_set = first (evidence_class ''complete_target_proof_set'' refs) in
      reports
        [remark (length found \<noteq> 1) (''cleanup_eligibility_cardinality:'' @ show_nat (length found)),
         case first found of
           None \<Rightarrow> reports []
         | Some r \<Rightarrow> breach (\<not> cleanup_eligibility_ok scope proof_set r)
             (''cleanup_eligibility_projection_invalid:'' @ show_ref_id (referenceId r))])"

definition identity_binding_ok :: "AttemptOracleScope \<Rightarrow> OracleEvaluatedReference \<Rightarrow> bool" where
  "identity_binding_ok scope r =
     (exactly_sealed r \<and> get_prop (sealedContent r) ''attempt_id'' = JStr (scope_attemptId scope)
      \<and> has_text (sealedContent r) ''requested_evidence_id''
      \<and> has_text (sealedContent r) ''invoked_evidence_id''
      \<and> has_text (sealedContent r) ''observed_evidence_id'')"

definition identity_report :: "AttemptOracleScope \<Rightarrow> OracleEvaluatedReference list \<Rightarrow> report" where
  "identity_report scope refs =
     (let found = evidence_class ''identity_bound_completion'' refs in
      reports
        [remark (length found \<noteq> 1) (''identity_binding_cardinality:'' @ show_nat (length found)),
         case first found of
           None \<Rightarrow> breach True ''missing_input_class:identity_binding''
         | Some r \<Rightarrow> breach (\<not> identity_binding_ok scope r)
             (''identity_binding_projection_invalid:'' @ show_ref_id (referenceId r))])"

section \<open>The sealed contract and manifest\<close>

text \<open>What the oracle reads from the sealed contract; every field is null when it cannot be read.\<close>

record contract_view =
  view_contractId :: "string option"
  view_dependencies :: "string list option"
  view_remediationLimit :: "int option"
  view_maxReviewCycles :: "int option"
  view_verificationIds :: "string list option"
  view_scope :: "SealedScopeEntry list option"

definition no_contract :: contract_view where
  "no_contract =
     \<lparr>view_contractId = None, view_dependencies = None, view_remediationLimit = None,
      view_maxReviewCycles = None, view_verificationIds = None, view_scope = None\<rparr>"

definition verification_ids :: "jsval list \<Rightarrow> string list" where
  "verification_ids vs =
     concat (map (\<lambda>v. case as_string (get_prop v ''id'') of None \<Rightarrow> [] | Some i \<Rightarrow> [i]) vs)"

definition sealed_scope :: "jsval list \<Rightarrow> SealedScopeEntry list option" where
  "sealed_scope vs =
     (let entries = map sealedScopeEntry vs in
      if None \<in> set entries then None else Some (map the entries))"

definition read_contract :: "jsval \<Rightarrow> contract_view" where
  "read_contract content =
     (let budgets = objectValue (get_prop content ''budgets'') in
      \<lparr>view_contractId = as_string (get_prop content ''id''),
       view_dependencies = stringArray_oracle (get_prop content ''depends_on''),
       view_remediationLimit = as_safe_int (get_prop budgets ''remediation_limit''),
       view_maxReviewCycles = as_safe_int (get_prop budgets ''max_review_cycles''),
       view_verificationIds = map_option verification_ids (as_array (get_prop content ''verifications'')),
       view_scope = Option.bind (as_array (get_prop content ''scope'')) sealed_scope\<rparr>)"

definition contract_projection_ok :: "OracleEvaluatedReference \<Rightarrow> bool" where
  "contract_projection_ok r =
     (let view = read_contract (sealedContent r) in
      exactly_sealed r
      \<and> (case (view_contractId view, view_dependencies view, view_remediationLimit view,
               view_maxReviewCycles view, as_array (get_prop (sealedContent r) ''verifications''),
               view_verificationIds view, view_scope view) of
           (Some i, Some deps, Some limit, Some cycles, Some verifications, Some ids, Some scope) \<Rightarrow>
             \<not> limit < 0 \<and> \<not> cycles < 1 \<and> length ids = length verifications \<and> \<not> length ids < 1
             \<and> no_dups ids \<and> no_dups deps \<and> \<not> length scope < 1
         | _ \<Rightarrow> False)
      \<and> referenceId r = contentDigest r)"

definition contract_view_of :: "OracleEvaluatedReference list \<Rightarrow> contract_view" where
  "contract_view_of refs =
     (case first (of_kind ''ticket_contract'' refs) of
        None \<Rightarrow> no_contract
      | Some r \<Rightarrow> read_contract (sealedContent r))"

definition contract_report :: "OracleEvaluatedReference list \<Rightarrow> report" where
  "contract_report refs =
     (case first (of_kind ''ticket_contract'' refs) of
        None \<Rightarrow> reports []
      | Some r \<Rightarrow> breach (\<not> contract_projection_ok r) ''sealed_contract_projection_invalid'')"

definition cardinality_report :: "OracleEvaluatedReference list \<Rightarrow> report" where
  "cardinality_report refs =
     (let manifests = length (of_kind ''run_manifest'' refs);
          contracts = length (of_kind ''ticket_contract'' refs) in
      reports
        [remark (manifests \<noteq> 1) (''sealed_manifest_cardinality:'' @ show_nat manifests),
         remark (contracts \<noteq> 1) (''sealed_contract_cardinality:'' @ show_nat contracts)])"

definition gate_set_report :: "contract_view \<Rightarrow> reference_scan \<Rightarrow> report" where
  "gate_set_report view st =
     (case view_verificationIds view of
        None \<Rightarrow> reports []
      | Some ids \<Rightarrow> reports
          (map (\<lambda>i. remark (count_list (requiredGates st) i \<noteq> 1)
                 (''required_gate_missing_or_duplicate:'' @ i)) ids
           @ map (\<lambda>i. remark (i \<notin> set ids) (''required_gate_unsealed:'' @ i))
               (remdups (requiredGates st))))"

definition manifest_projection_ok ::
  "string \<Rightarrow> contract_view \<Rightarrow> OracleEvaluatedReference option \<Rightarrow> OracleEvaluatedReference \<Rightarrow> bool" where
  "manifest_projection_ok version view contract_ref r =
     (let content = sealedContent r in
      exactly_sealed r \<and> get_prop content ''oracle_version'' = JStr version
      \<and> (case as_array (get_prop content ''tickets'') of
           None \<Rightarrow> False
         | Some tickets \<Rightarrow>
             let ticket = (case find (\<lambda>t. strict_eq (get_prop t ''ticket_id'')
                                             (nullable (view_contractId view))) tickets of
                             None \<Rightarrow> JUndef | Some t \<Rightarrow> t) in
             is_plain_object ticket
             \<and> (case contract_ref of
                  None \<Rightarrow> False
                | Some c \<Rightarrow> strict_eq (get_prop ticket ''contract_digest'') (nullable (referenceId c)))
             \<and> (case (stringArray_oracle (get_prop ticket ''depends_on_ticket_ids''), view_dependencies view) of
                  (Some ds, Some deps) \<Rightarrow>
                    canonical_json (JArr (map JStr ds)) = canonical_json (JArr (map JStr deps))
                | _ \<Rightarrow> False))
      \<and> referenceId r = contentDigest r)"

definition manifest_report :: "string \<Rightarrow> OracleEvaluatedReference list \<Rightarrow> report" where
  "manifest_report version refs =
     (case first (of_kind ''run_manifest'' refs) of
        None \<Rightarrow> reports []
      | Some r \<Rightarrow>
          breach (\<not> manifest_projection_ok version (contract_view_of refs)
                      (first (of_kind ''ticket_contract'' refs)) r)
            ''sealed_manifest_projection_invalid'')"

section \<open>Dependencies\<close>

definition dependency_ok ::
  "AttemptOracleScope \<Rightarrow> string \<Rightarrow> OracleEvaluatedReference \<Rightarrow> bool" where
  "dependency_ok scope cid r =
     (exactly_sealed r \<and> has_text (sealedContent r) ''depends_on_ticket_id''
      \<and> get_prop (sealedContent r) ''run_id'' = JStr (scope_runId scope)
      \<and> get_prop (sealedContent r) ''ticket_id'' = JStr cid
      \<and> referenceId r = contentDigest r)"

definition depends_on_of :: "OracleEvaluatedReference \<Rightarrow> string" where
  "depends_on_of r = the (as_string (get_prop (sealedContent r) ''depends_on_ticket_id''))"

definition dependency_report ::
  "AttemptOracleScope \<Rightarrow> contract_view \<Rightarrow> OracleEvaluatedReference list \<Rightarrow> report" where
  "dependency_report scope view refs =
     (case (view_dependencies view, view_contractId view) of
        (Some deps, Some cid) \<Rightarrow>
          let edges = of_kind ''dependency_edge'' refs;
              observed = map depends_on_of (filter (dependency_ok scope cid) edges) in
          reports
            (map (\<lambda>r. breach (\<not> dependency_ok scope cid r)
                   (''dependency_projection_invalid:'' @ show_ref_id (referenceId r))) edges
             @ map (\<lambda>d. remark (count_list observed d \<noteq> 1) (''dependency_edge_missing_or_duplicate:'' @ d)) deps
             @ map (\<lambda>d. remark (d \<notin> set deps) (''dependency_edge_unsealed:'' @ d)) (remdups observed)
             @ [remark (length edges \<noteq> length deps)
                  (''dependency_edge_cardinality:'' @ show_nat (length edges) @ '':'' @ show_nat (length deps))])
      | _ \<Rightarrow> reports [])"

section \<open>Reviews and remediations\<close>

text \<open>The cycle and verdict of a well-formed review record.\<close>

definition review_entry :: "OracleEvaluatedReference \<Rightarrow> (int \<times> string) option" where
  "review_entry r =
     (case (as_safe_int (get_prop (sealedContent r) ''cycle''),
            as_string (get_prop (sealedContent r) ''verdict'')) of
        (Some cycle, Some verdict) \<Rightarrow>
          if exactly_sealed r \<and> \<not> cycle < 1 \<and> (verdict = ''accepted'' \<or> verdict = ''rejected'')
             \<and> test_string is_git_oid (get_prop (sealedContent r) ''input_tree_oid'')
             \<and> test_string is_digest (get_prop (sealedContent r) ''input_diff_digest'')
          then Some (cycle, verdict) else None
      | _ \<Rightarrow> None)"

text \<open>The map \<open>reviewCycles\<close> in insertion order; a cycle seen before makes the record invalid.\<close>

fun reviewLoop :: "OracleEvaluatedReference list \<Rightarrow> (int \<times> string) list \<Rightarrow> (int \<times> string) list \<times> report" where
  "reviewLoop [] cycles = (cycles, reports [])"
| "reviewLoop (r # rs) cycles =
     (case review_entry r of
        Some (cycle, verdict) \<Rightarrow>
          if cycle \<in> set (map fst cycles) then
            (let (cycles', rep) = reviewLoop rs cycles in
             (cycles', reports [breach True (''review_projection_invalid:'' @ show_ref_id (referenceId r)), rep]))
          else reviewLoop rs (cycles @ [(cycle, verdict)])
      | None \<Rightarrow>
          (let (cycles', rep) = reviewLoop rs cycles in
           (cycles', reports [breach True (''review_projection_invalid:'' @ show_ref_id (referenceId r)), rep])))"

definition review_cycles :: "OracleEvaluatedReference list \<Rightarrow> (int \<times> string) list" where
  "review_cycles refs = fst (reviewLoop (of_kind ''review_record'' refs) [])"

definition rejected_cycles :: "OracleEvaluatedReference list \<Rightarrow> int list" where
  "rejected_cycles refs = map fst (filter (\<lambda>c. snd c = ''rejected'') (review_cycles refs))"

definition final_cycle :: "OracleEvaluatedReference list \<Rightarrow> int option" where
  "final_cycle refs = first (rev (sort (map fst (review_cycles refs))))"

definition final_accepted :: "OracleEvaluatedReference list \<Rightarrow> bool" where
  "final_accepted refs =
     (case final_cycle refs of
        None \<Rightarrow> False
      | Some c \<Rightarrow> map_of (review_cycles refs) c = Some ''accepted'')"

definition over :: "int option \<Rightarrow> nat \<Rightarrow> bool" where
  "over limit n = (case limit of None \<Rightarrow> False | Some l \<Rightarrow> l < int n)"

definition review_report :: "contract_view \<Rightarrow> OracleEvaluatedReference list \<Rightarrow> report" where
  "review_report view refs =
     (let ordered = sort (map fst (review_cycles refs)) in
      reports
        [snd (reviewLoop (of_kind ''review_record'' refs) []),
         remark (list_ex (\<lambda>(i, cycle). cycle \<noteq> int i + 1) (enumerate 0 ordered)
                 \<or> over (view_maxReviewCycles view) (length ordered))
           ''review_cycle_set_incomplete_or_over_budget'',
         remark (\<not> final_accepted refs) ''final_review_not_accepted''])"

definition remediation_cycle :: "OracleEvaluatedReference \<Rightarrow> int option" where
  "remediation_cycle r =
     (case as_safe_int (get_prop (sealedContent r) ''cycle'') of
        None \<Rightarrow> None
      | Some c \<Rightarrow> if sealedContentState r = Exact \<and> \<not> c < 1 then Some c else None)"

definition remediation_report :: "contract_view \<Rightarrow> OracleEvaluatedReference list \<Rightarrow> report" where
  "remediation_report view refs =
     (let found = evidence_class ''remediation_cycle'' refs;
          cycles = map (\<lambda>r. the (remediation_cycle r)) (filter (\<lambda>r. remediation_cycle r \<noteq> None) found);
          rejected = rejected_cycles refs in
      reports
        (map (\<lambda>r. breach (remediation_cycle r = None)
               (''remediation_projection_invalid:'' @ show_ref_id (referenceId r))) found
         @ map (\<lambda>c. remark (count_list cycles c \<noteq> 1)
                 (''remediation_cycle_missing_or_duplicate:'' @ show_int c)) rejected
         @ map (\<lambda>c. remark (c \<notin> set rejected) (''remediation_cycle_unsealed:'' @ show_int c)) (remdups cycles)
         @ [remark (over (view_remediationLimit view) (length rejected)) ''remediation_budget_exceeded'']))"

section \<open>The attributed commit\<close>

definition attributed_delta :: "jsval \<Rightarrow> OracleNormalizedDeltaEntry option list option" where
  "attributed_delta content =
     map_option (map normalizedDeltaEntry) (as_array (get_prop content ''normalized_delta''))"

definition attribution_projection_ok :: "OracleEvaluatedReference \<Rightarrow> bool" where
  "attribution_projection_ok r =
     (let content = sealedContent r in
      exactly_sealed r
      \<and> test_string is_git_oid (get_prop content ''baseline_oid'')
      \<and> as_string (get_prop content ''parent_oid'') = as_string (get_prop content ''baseline_oid'')
      \<and> test_string is_git_oid (get_prop content ''tree_before_oid'')
      \<and> test_string is_git_oid (get_prop content ''tree_after_oid'')
      \<and> test_string is_git_oid (get_prop content ''commit_oid'')
      \<and> has_text content ''contract_digest''
      \<and> test_string is_digest (get_prop content ''candidate_diff_digest'')
      \<and> test_string is_digest (get_prop content ''path_set_digest'')
      \<and> test_string is_digest (get_prop content ''change_kind_set_digest'')
      \<and> test_string is_digest (get_prop content ''mode_set_digest'')
      \<and> (case attributed_delta content of
           None \<Rightarrow> False
         | Some entries \<Rightarrow> entries \<noteq> [] \<and> None \<notin> set entries))"

definition delta_of :: "OracleEvaluatedReference \<Rightarrow> OracleNormalizedDeltaEntry list" where
  "delta_of r =
     (case attributed_delta (sealedContent r) of None \<Rightarrow> [] | Some entries \<Rightarrow> map the entries)"

definition scope_mismatch ::
  "SealedScopeEntry list option \<Rightarrow> OracleNormalizedDeltaEntry list \<Rightarrow> bool" where
  "scope_mismatch scope delta =
     (case scope of
        None \<Rightarrow> True
      | Some declared \<Rightarrow>
          list_ex (\<lambda>e. \<not> list_ex (deltaMatchesScope e) declared) delta
          \<or> list_ex (\<lambda>d. \<not> list_ex (\<lambda>e. deltaMatchesScope e d) delta) declared)"

definition digests_match :: "OracleEvaluatedReference \<Rightarrow> OracleAttributionDigests \<Rightarrow> bool" where
  "digests_match r derived =
     (get_prop (sealedContent r) ''candidate_diff_digest'' = JStr (candidateDiffDigest derived)
      \<and> get_prop (sealedContent r) ''path_set_digest'' = JStr (pathSetDigest derived)
      \<and> get_prop (sealedContent r) ''change_kind_set_digest'' = JStr (changeKindSetDigest derived)
      \<and> get_prop (sealedContent r) ''mode_set_digest'' = JStr (modeSetDigest derived))"

text \<open>The candidate tree and diff digest, null unless the attribution could be read.\<close>

type_synonym candidate = "(string \<times> string) option"

definition attribution_report ::
  "(string \<Rightarrow> string) \<Rightarrow> contract_view \<Rightarrow> OracleEvaluatedReference list
   \<Rightarrow> (oracle_error, candidate \<times> report) result" where
  "attribution_report sha view refs =
     (let found = of_kind ''commit_attribution'' refs;
          cardinality = remark (length found \<noteq> 1) (''commit_attribution_cardinality:'' @ show_nat (length found)) in
      case first found of
        None \<Rightarrow> Inr (None, cardinality)
      | Some r \<Rightarrow>
          let ident = show_ref_id (referenceId r); delta = delta_of r in
          if \<not> attribution_projection_ok r
          then Inr (None, reports [cardinality, breach True (''commit_attribution_projection_invalid:'' @ ident)])
          else
            rbind (deriveOracleAttributionDigests sha delta) (\<lambda>derived.
            Inr (Some (the (as_string (get_prop (sealedContent r) ''tree_after_oid'')),
                       the (as_string (get_prop (sealedContent r) ''candidate_diff_digest''))),
              reports
                [cardinality,
                 remark (\<not> digests_match r derived) (''commit_attribution_digest_mismatch:'' @ ident),
                 remark (case first (of_kind ''ticket_contract'' refs) of
                           None \<Rightarrow> True
                         | Some c \<Rightarrow> as_string (get_prop (sealedContent r) ''contract_digest'') \<noteq> referenceId c)
                   (''commit_attribution_contract_mismatch:'' @ ident),
                 remark (hasDuplicateDeltaIdentity delta) (''commit_attribution_delta_duplicate:'' @ ident),
                 remark (scope_mismatch (view_scope view) delta)
                   (''commit_attribution_scope_mismatch:'' @ ident)])))"

definition cleanup_candidate_report :: "OracleEvaluatedReference list \<Rightarrow> report" where
  "cleanup_candidate_report refs =
     (case (first (evidence_class ''cleanup_eligibility'' refs), first (of_kind ''commit_attribution'' refs)) of
        (Some e, Some a) \<Rightarrow>
          remark
            (\<not> strict_eq (get_prop (sealedContent e) ''commit_attribution_id'') (nullable (referenceId a))
             \<or> \<not> strict_eq (get_prop (sealedContent e) ''candidate_oid'') (get_prop (sealedContent a) ''commit_oid'')
             \<or> \<not> strict_eq (get_prop (sealedContent e) ''baseline_oid'') (get_prop (sealedContent a) ''baseline_oid''))
            (''cleanup_eligibility_candidate_mismatch:'' @ show_ref_id (referenceId e))
      | _ \<Rightarrow> reports [])"

definition final_review :: "OracleEvaluatedReference list \<Rightarrow> OracleEvaluatedReference option" where
  "final_review refs =
     find (\<lambda>r. as_safe_int (get_prop (sealedContent r) ''cycle'') = final_cycle refs)
       (of_kind ''review_record'' refs)"

definition final_review_report :: "candidate \<Rightarrow> OracleEvaluatedReference list \<Rightarrow> report" where
  "final_review_report cand refs =
     (if \<not> final_accepted refs then reports []
      else
        remark
          (case (final_review refs, cand) of
             (Some r, Some (tree, diff)) \<Rightarrow>
               get_prop (sealedContent r) ''input_tree_oid'' \<noteq> JStr tree
               \<or> get_prop (sealedContent r) ''input_diff_digest'' \<noteq> JStr diff
           | _ \<Rightarrow> True)
          (''final_review_candidate_mismatch:''
           @ (case Option.bind (final_review refs) referenceId of None \<Rightarrow> ''<missing>'' | Some i \<Rightarrow> i)))"

definition gate_candidate_report :: "candidate \<Rightarrow> OracleEvaluatedReference list \<Rightarrow> report" where
  "gate_candidate_report cand refs =
     (case cand of
        None \<Rightarrow> reports []
      | Some (tree, diff) \<Rightarrow> reports
          (map (\<lambda>r. remark
             (required_gate r
              \<and> (get_prop (sealedContent r) ''candidate_tree_oid'' \<noteq> JStr tree
                 \<or> get_prop (sealedContent r) ''candidate_diff_digest'' \<noteq> JStr diff))
             (''required_gate_candidate_mismatch:'' @ gate_name r @ '':'' @ show_ref_id (referenceId r))) refs))"

section \<open>The decision\<close>

definition scope_js :: "AttemptOracleScope \<Rightarrow> jsval" where
  "scope_js s =
     JObj [(''run_id'', JStr (scope_runId s)), (''ticket_instance_id'', JStr (scope_ticketInstanceId s)),
           (''attempt_id'', JStr (scope_attemptId s))]"

fun state_name :: "sealed_state \<Rightarrow> string" where
  "state_name Absent = ''absent''"
| "state_name Exact = ''exact''"
| "state_name Invalid = ''invalid''"

definition nullable_int :: "int option \<Rightarrow> jsval" where
  "nullable_int i = (case i of None \<Rightarrow> JNull | Some n \<Rightarrow> JNum n)"

definition gate_js :: "OracleGate option \<Rightarrow> jsval" where
  "gate_js g =
     (case g of
        None \<Rightarrow> JNull
      | Some x \<Rightarrow> JObj
          [(''gateId'', nullable (gateId x)), (''evaluationOrdinal'', nullable_int (evaluationOrdinal x)),
           (''required'', case gate_required x of None \<Rightarrow> JNull | Some b \<Rightarrow> JBool b),
           (''status'', nullable (gate_state x))])"

definition reference_js :: "OracleEvaluatedReference \<Rightarrow> jsval" where
  "reference_js r = JObj
     [(''ordinal'', nullable_int (ordinal r)), (''reference_kind'', JStr (referenceKind r)),
      (''reference_id'', nullable (referenceId r)), (''run_id'', nullable (ref_runId r)),
      (''ticket_instance_id'', nullable (ref_ticketInstanceId r)), (''attempt_id'', nullable (ref_attemptId r)),
      (''oracle_version'', nullable (ref_oracleVersion r)), (''content_digest'', nullable (contentDigest r)),
      (''resolved_content_digest'', nullable (resolvedContentDigest r)),
      (''sealed_content'', sealedContent r), (''sealed_content_state'', JStr (state_name (sealedContentState r))),
      (''gate'', gate_js (gate r))]"

definition input_set_js :: "string \<Rightarrow> AttemptOracleScope \<Rightarrow> OracleEvaluatedReference list \<Rightarrow> jsval" where
  "input_set_js version scope refs = JObj
     [(''schema_version'', JStr ''rickgent.oracle-input-set.v1''), (''oracle_version'', JStr version),
      (''scope'', scope_js scope), (''references'', JArr (map reference_js refs))]"

definition result_js :: "OracleDecisionResult \<Rightarrow> jsval" where
  "result_js r = JStr (case r of Accepted \<Rightarrow> ''accepted'' | Rejected \<Rightarrow> ''rejected'')"

definition output_js ::
  "string \<Rightarrow> AttemptOracleScope \<Rightarrow> string \<Rightarrow> OracleDecisionResult \<Rightarrow> string list \<Rightarrow> jsval" where
  "output_js version scope inputs res rs = JObj
     [(''schema_version'', JStr ''rickgent.oracle-output.v1''), (''oracle_version'', JStr version),
      (''scope'', scope_js scope), (''input_set_digest'', JStr inputs), (''result'', result_js res),
      (''reasons'', JArr (map JStr rs))]"

definition read_scope :: "jsval \<Rightarrow> (oracle_error, AttemptOracleScope) result" where
  "read_scope v =
     (if \<not> is_objectlike v then Inl (TypeError ''oracle scope must be an object'')
      else
        rbind (requiredText (get_prop v ''runId'') ''scope.runId'') (\<lambda>run.
        rbind (requiredText (get_prop v ''ticketInstanceId'') ''scope.ticketInstanceId'') (\<lambda>ticket.
        rbind (requiredText (get_prop v ''attemptId'') ''scope.attemptId'') (\<lambda>attempt.
        Inr \<lparr>scope_runId = run, scope_ticketInstanceId = ticket, scope_attemptId = attempt\<rparr>))))"

text \<open>The body after the header has been read: every reason, in the order the code adds it.\<close>

definition collect_reasons ::
  "(string \<Rightarrow> string) \<Rightarrow> string \<Rightarrow> AttemptOracleScope \<Rightarrow> OracleEvaluatedReference list
   \<Rightarrow> (oracle_error, report) result" where
  "collect_reasons sha version scope refs =
     rbind (checkReferences sha version scope 0 refs empty_scan) (\<lambda>(st, scanned).
     rbind (attribution_report sha (contract_view_of refs) refs) (\<lambda>(cand, attributed).
     Inr (reports
       [breach (version \<noteq> RICKGENT_ORACLE_VERSION) (''unsupported_oracle_version:'' @ version),
        scanned,
        missing_classes st,
        target_proof_report scope refs,
        cleanup_report scope refs,
        identity_report scope refs,
        remark (requiredGates st = []) ''required_gate_missing'',
        cardinality_report refs,
        contract_report refs,
        gate_set_report (contract_view_of refs) st,
        manifest_report version refs,
        dependency_report scope (contract_view_of refs) refs,
        review_report (contract_view_of refs) refs,
        remediation_report (contract_view_of refs) refs,
        attributed,
        cleanup_candidate_report refs,
        final_review_report cand refs,
        gate_candidate_report cand refs])))"

definition evaluateAttemptOracle ::
  "(string \<Rightarrow> string) \<Rightarrow> jsval \<Rightarrow> (oracle_error, OraclePersistencePlan) result" where
  "evaluateAttemptOracle sha input =
     (if \<not> is_objectlike input then Inl (TypeError ''oracle projection must be an object'')
      else
        rbind (requiredText (get_prop input ''oracleVersion'') ''oracleVersion'') (\<lambda>version.
        rbind (read_scope (get_prop input ''scope'')) (\<lambda>scope.
        case as_array (get_prop input ''references'') of
          None \<Rightarrow> Inl (TypeError ''oracle references must be an array'')
        | Some vs \<Rightarrow>
            let refs = map normalizeReference vs in
            rbind (collect_reasons sha version scope refs) (\<lambda>(reasons, exact).
            rbind (digest sha (input_set_js version scope refs)) (\<lambda>inputs.
            let ordered = sort (remdups reasons);
                res = (if ordered = [] then Accepted else Rejected) in
            rbind (digest sha (output_js version scope inputs res ordered)) (\<lambda>output.
            Inr \<lparr>plan_oracleVersion = version, plan_scope = scope, plan_result = res,
                 plan_reasons = ordered, inputSetDigest = inputs, outputDigest = output,
                 referenceIntegrity = exact, plan_references = refs\<rparr>))))))"

section \<open>Persistence\<close>

definition oraclePersistenceProjection :: "plan_value \<Rightarrow> (oracle_error, OraclePersistencePlan) result" where
  "oraclePersistenceProjection v =
     (case v of
        Issued plan \<Rightarrow> Inr plan
      | Unbranded _ \<Rightarrow> Inl (TypeError ''oracle persistence plan was not issued by the versioned oracle''))"

record OraclePersistenceRows =
  decision_row :: "(string \<times> jsval) list"
  reference_rows :: "(string \<times> jsval) list list"

definition reference_row :: "string \<Rightarrow> AttemptOracleScope \<Rightarrow> OracleEvaluatedReference \<Rightarrow> (string \<times> jsval) list" where
  "reference_row decision scope r =
     [(''oracle_decision_id'', JStr decision), (''run_id'', JStr (scope_runId scope)),
      (''ticket_instance_id'', JStr (scope_ticketInstanceId scope)), (''attempt_id'', JStr (scope_attemptId scope)),
      (''ordinal'', nullable_int (ordinal r)), (''reference_kind'', JStr (referenceKind r)),
      (''content_digest'', nullable (contentDigest r))]
     @ map (\<lambda>c. (c, if map_of REFERENCE_ID_COLUMN (referenceKind r) = Some c
                    then nullable (referenceId r) else JNull)) REFERENCE_ID_COLUMNS"

text \<open>\<open>date_parses\<close> tells whether \<open>Date.parse\<close> returns a number.\<close>

definition utc_timestamp :: "(string \<Rightarrow> bool) \<Rightarrow> string \<Rightarrow> bool" where
  "utc_timestamp date_parses s = (\<not> (length s < 20 \<or> \<not> ends_with s ''Z'' \<or> \<not> date_parses s))"

definition materializeOraclePersistenceRows ::
  "(string \<Rightarrow> bool) \<Rightarrow> plan_value \<Rightarrow> jsval \<Rightarrow> (oracle_error, OraclePersistenceRows) result" where
  "materializeOraclePersistenceRows date_parses v identity =
     rbind (oraclePersistenceProjection v) (\<lambda>plan.
     if \<not> referenceIntegrity plan
     then Inl (TypeError ''oracle projection with invalid reference integrity cannot be persisted'')
     else
       rbind (requiredText (get_prop identity ''oracleDecisionId'') ''oracleDecisionId'') (\<lambda>decision.
       rbind (requiredText (get_prop identity ''idempotencyKey'') ''idempotencyKey'') (\<lambda>key.
       rbind (requiredText (get_prop identity ''createdAt'') ''createdAt'') (\<lambda>created.
       if \<not> utc_timestamp date_parses created then Inl (TypeError ''createdAt must be a UTC timestamp'')
       else
         case canonical_json (JArr (map JStr (plan_reasons plan))) of
           Inl e \<Rightarrow> Inl (ContractError e)
         | Inr reasons \<Rightarrow>
             Inr \<lparr>decision_row =
                    [(''oracle_decision_id'', JStr decision), (''oracle_version'', JStr (plan_oracleVersion plan)),
                     (''scope_kind'', JStr ''attempt''), (''run_id'', JStr (scope_runId (plan_scope plan))),
                     (''ticket_instance_id'', JStr (scope_ticketInstanceId (plan_scope plan))),
                     (''attempt_id'', JStr (scope_attemptId (plan_scope plan))),
                     (''input_set_digest'', JStr (inputSetDigest plan)), (''result'', result_js (plan_result plan)),
                     (''reasons_json'', JStr reasons), (''output_digest'', JStr (outputDigest plan)),
                     (''idempotency_key'', JStr key), (''created_at'', JStr created)],
                  reference_rows = map (reference_row decision (plan_scope plan)) (plan_references plan)\<rparr>))))"

end
