(* ===== verification/Oracle_Decision.thy ===== *)
theory Oracle_Decision
  imports Oracle
begin

text \<open>
  What an accepted attempt carries: the lemmas read every section of the oracle's report backwards,
  from the absence of reasons to the condition the section checks, and the properties put them
  together for the decision, its digests and its persisted rows.
\<close>

section \<open>A scanned reference\<close>

definition digests_ok :: "(string \<Rightarrow> string) \<Rightarrow> OracleEvaluatedReference \<Rightarrow> bool" where
  "digests_ok sha r =
     (case contentDigest r of
        None \<Rightarrow> False
      | Some d \<Rightarrow>
          resolvedContentDigest r = Some d \<and> is_digest d \<and> sealedContentState r \<noteq> Invalid
          \<and> (exactly_sealed r \<longrightarrow> digest sha (sealedContent r) = Inr d))"

definition gate_ok :: "OracleEvaluatedReference \<Rightarrow> bool" where
  "gate_ok r =
     (if referenceKind r = ''gate_result''
      then gate_projection_ok r \<and> (required_gate r \<longrightarrow> gate_status_of r = ''passed'')
      else gate r = None)"

definition reference_ok ::
  "(string \<Rightarrow> string) \<Rightarrow> string \<Rightarrow> AttemptOracleScope \<Rightarrow> nat \<Rightarrow> OracleEvaluatedReference \<Rightarrow> bool" where
  "reference_ok sha version scope index r =
     (referenceKind r \<in> set ORACLE_REFERENCE_KINDS \<and> referenceKind r \<notin> set LEGACY_REFERENCE_KINDS
      \<and> ordinal r = Some (int index) \<and> identity_ok r \<and> ref_oracleVersion r = Some version
      \<and> lineage_ok scope r \<and> digests_ok sha r \<and> gate_ok r)"

lemma test_nullable [simp]: "test_string p (nullable x) \<longleftrightarrow> (case x of None \<Rightarrow> p '''' | Some s \<Rightarrow> p s)"
  by (cases x) (simp_all add: test_string_def nullable_def)

lemma not_digest_Nil [simp]: "\<not> is_digest ''''"
  by (simp add: is_digest_def)

lemma not_oid_Nil [simp]: "\<not> is_git_oid ''''"
  by (simp add: is_git_oid_def)

lemma sealed_digest_cases:
  assumes "sealed_digest sha r = Inr sealed"
  shows "sealed = None \<and> \<not> exactly_sealed r \<or> (\<exists>d. sealed = Some d \<and> exactly_sealed r \<and> digest sha (sealedContent r) = Inr d)"
  using assms by (auto simp: sealed_digest_def exactly_sealed_def rbind_Inr_iff split: if_splits)

lemma gate_report_clean: "fst (gate_report label r) = [] \<longleftrightarrow> gate_ok r"
  by (simp add: gate_report_def gate_ok_def oracle_simps)

lemma gate_report_exact: "fst (gate_report label r) = [] \<Longrightarrow> snd (gate_report label r)"
  by (simp add: gate_report_def oracle_simps split: if_splits)

lemma checkReference_clean:
  assumes "checkReference sha version scope index r st = Inr (st', rep)" and "fst rep = []"
  shows "reference_ok sha version scope index r" and "snd rep" and "st' = scan_reference r st"
    and "identity_of r \<notin> set (observedIdentities st)" and "content_identity r \<notin> set (observedContent st)"
proof -
  have kind: "referenceKind r \<in> set ORACLE_REFERENCE_KINDS"
    using assms by (auto simp: checkReference_def oracle_simps split: if_splits)
  obtain sealed where sealed: "sealed_digest sha r = Inr sealed"
    and st': "st' = scan_reference r st"
    and rep: "rep = reference_report version scope index r st sealed"
    using assms(1) kind by (auto simp: checkReference_def rbind_Inr_iff)
  have clean: "ordinal r = Some (int index)" "referenceKind r \<notin> set LEGACY_REFERENCE_KINDS" "identity_ok r"
    "identity_of r \<notin> set (observedIdentities st)" "ref_oracleVersion r = Some version" "lineage_ok scope r"
    "test_string is_digest (nullable (contentDigest r))" "contentDigest r = resolvedContentDigest r"
    "sealedContentState r \<noteq> Invalid" "sealed = None \<or> sealed = contentDigest r"
    "contentDigest r = None \<or> content_identity r \<notin> set (observedContent st)"
    "fst (gate_report (ref_label index r) r) = []"
    using assms(2) unfolding rep reference_report_def Let_def by (auto simp: oracle_simps)
  then obtain d where d: "contentDigest r = Some d" "is_digest d" by (auto split: option.splits)
  with clean(8) have d': "resolvedContentDigest r = Some d" by simp
  have digests: "digests_ok sha r"
    using sealed_digest_cases [OF sealed] d d' clean(9,10) by (auto simp: digests_ok_def)
  show "reference_ok sha version scope index r"
    using kind clean digests by (simp add: reference_ok_def gate_report_clean)
  show "snd rep"
    using clean gate_report_exact [of "ref_label index r" r] d
    unfolding rep reference_report_def Let_def by (auto simp: oracle_simps)
  show "st' = scan_reference r st" by fact
  show "identity_of r \<notin> set (observedIdentities st)" by fact
  show "content_identity r \<notin> set (observedContent st)" using clean(11) d by simp
qed

text \<open>What a clean scan leaves behind: every reference in order, no identity or content twice.\<close>

lemma checkReferences_clean:
  assumes "checkReferences sha version scope k rs st = Inr (st', rep)" and "fst rep = []"
    and "distinct (observedIdentities st)" and "distinct (observedContent st)"
  shows "snd rep \<and> (\<forall>i < length rs. reference_ok sha version scope (k + i) (rs ! i))
    \<and> observedKinds st' = observedKinds st @ map referenceKind rs
    \<and> observedIdentities st' = observedIdentities st @ map identity_of rs
    \<and> observedContent st' = observedContent st @ map content_identity rs
    \<and> requiredGates st' = requiredGates st @ map gate_name (filter required_gate rs)
    \<and> distinct (observedIdentities st') \<and> distinct (observedContent st')"
  using assms
proof (induction rs arbitrary: k st rep)
  case Nil
  then show ?case by (auto simp: reports_def)
next
  case (Cons r rs)
  from Cons.prems(1) obtain st1 rep1 rep2 where
    one: "checkReference sha version scope k r st = Inr (st1, rep1)"
    and more: "checkReferences sha version scope (Suc k) rs st1 = Inr (st', rep2)"
    and rep: "rep = reports [rep1, rep2]"
    by (auto simp: rbind_Inr_iff)
  have c1: "fst rep1 = []" and c2: "fst rep2 = []" using Cons.prems(2) by (simp_all add: rep oracle_simps)
  note step = checkReference_clean [OF one c1]
  have ok: "identity_ok r" "contentDigest r \<noteq> None" "required_gate r \<Longrightarrow> gate_projection_ok r"
    using step(1) by (auto simp: reference_ok_def digests_ok_def gate_ok_def required_gate_def split: option.splits)
  then have st1: "observedKinds st1 = observedKinds st @ [referenceKind r]"
    "observedIdentities st1 = observedIdentities st @ [identity_of r]"
    "observedContent st1 = observedContent st @ [content_identity r]"
    "requiredGates st1 = requiredGates st @ map gate_name (filter required_gate [r])"
    unfolding step(3) by (auto simp: scan_reference_def)
  have "distinct (observedIdentities st1)" "distinct (observedContent st1)"
    using Cons.prems(3,4) step(4,5) by (simp_all add: st1)
  note ih = Cons.IH [OF more c2 this]
  have "reference_ok sha version scope (k + i) ((r # rs) ! i)" if "i < length (r # rs)" for i
    using ih step(1) that by (cases i) auto
  moreover have "snd rep" using ih step(2) by (simp add: rep oracle_simps)
  moreover have "distinct (observedIdentities st')" "distinct (observedContent st')" using ih by blast+
  moreover have "requiredGates st' = requiredGates st @ map gate_name (filter required_gate (r # rs))"
    using ih by (simp add: st1(4))
  ultimately show ?case using ih st1(1-3) by simp
qed

section \<open>The sections of the report\<close>

text \<open>No section breaches the integrity of the references without leaving a reason.\<close>

definition honest :: "report \<Rightarrow> bool" where
  "honest r = (fst r = [] \<longrightarrow> snd r)"

lemma honest_simps [simp, oracle_simps]:
  "honest (remark c x)" "honest (breach c x)"
  by (simp_all add: honest_def remark_def breach_def)

lemma honest_reports: "list_all honest rs \<Longrightarrow> honest (reports rs)"
  by (simp add: honest_def list_all_iff reports_simps)

lemma honest_clean: "list_all honest rs \<Longrightarrow> \<forall>r \<in> set rs. fst r = [] \<Longrightarrow> snd (reports rs)"
  by (simp add: honest_def list_all_iff reports_simps)

lemma honest_review_loop: "honest (snd (reviewLoop rs cycles))"
  by (induction rs cycles rule: reviewLoop.induct)
     (auto simp: honest_def oracle_simps split: option.splits prod.splits)

lemma honest_sections:
  "honest (missing_classes st)" "honest (target_proof_report scope refs)" "honest (cleanup_report scope refs)"
  "honest (identity_report scope refs)" "honest (cardinality_report refs)" "honest (contract_report refs)"
  "honest (gate_set_report view st)" "honest (manifest_report version refs)"
  "honest (dependency_report scope view refs)" "honest (review_report view refs)"
  "honest (remediation_report view refs)" "honest (cleanup_candidate_report refs)"
  "honest (final_review_report cand refs)" "honest (gate_candidate_report cand refs)"
  by (auto simp: missing_classes_def target_proof_report_def cleanup_report_def identity_report_def
      cardinality_report_def contract_report_def gate_set_report_def manifest_report_def
      dependency_report_def review_report_def remediation_report_def cleanup_candidate_report_def
      final_review_report_def gate_candidate_report_def Let_def honest_review_loop list_all_iff
      intro!: honest_reports split: option.splits)

lemma honest_attribution:
  "attribution_report sha view refs = Inr (cand, rep) \<Longrightarrow> honest rep"
  by (auto simp: attribution_report_def Let_def rbind_Inr_iff intro!: honest_reports split: option.splits if_splits)

text \<open>The evaluation of an accepted attempt: every section of the report is empty.\<close>

definition clean_sections ::
  "(string \<Rightarrow> string) \<Rightarrow> AttemptOracleScope \<Rightarrow> OracleEvaluatedReference list \<Rightarrow> reference_scan \<Rightarrow> candidate \<Rightarrow> bool" where
  "clean_sections sha scope refs st cand =
     (let version = RICKGENT_ORACLE_VERSION; view = contract_view_of refs in
      (\<exists>rep. checkReferences sha version scope 0 refs empty_scan = Inr (st, rep) \<and> fst rep = [])
      \<and> (\<exists>rep. attribution_report sha view refs = Inr (cand, rep) \<and> fst rep = [])
      \<and> fst (missing_classes st) = [] \<and> fst (target_proof_report scope refs) = []
      \<and> fst (cleanup_report scope refs) = [] \<and> fst (identity_report scope refs) = []
      \<and> requiredGates st \<noteq> [] \<and> fst (cardinality_report refs) = [] \<and> fst (contract_report refs) = []
      \<and> fst (gate_set_report view st) = [] \<and> fst (manifest_report version refs) = []
      \<and> fst (dependency_report scope view refs) = [] \<and> fst (review_report view refs) = []
      \<and> fst (remediation_report view refs) = [] \<and> fst (cleanup_candidate_report refs) = []
      \<and> fst (final_review_report cand refs) = [] \<and> fst (gate_candidate_report cand refs) = [])"

lemma collect_reasons_clean:
  assumes "collect_reasons sha version scope refs = Inr (rs, exact)" and "rs = []"
  shows "version = RICKGENT_ORACLE_VERSION \<and> exact \<and> (\<exists>st cand. clean_sections sha scope refs st cand)"
proof -
  obtain st scanned cand attributed where
    scan: "checkReferences sha version scope 0 refs empty_scan = Inr (st, scanned)"
    and attr: "attribution_report sha (contract_view_of refs) refs = Inr (cand, attributed)"
    and rep: "(rs, exact) = reports
       [breach (version \<noteq> RICKGENT_ORACLE_VERSION) (''unsupported_oracle_version:'' @ version),
        scanned, missing_classes st, target_proof_report scope refs, cleanup_report scope refs,
        identity_report scope refs, remark (requiredGates st = []) ''required_gate_missing'',
        cardinality_report refs, contract_report refs, gate_set_report (contract_view_of refs) st,
        manifest_report version refs, dependency_report scope (contract_view_of refs) refs,
        review_report (contract_view_of refs) refs, remediation_report (contract_view_of refs) refs,
        attributed, cleanup_candidate_report refs, final_review_report cand refs,
        gate_candidate_report cand refs]" (is "_ = reports ?sections")
    using assms(1) by (auto simp: collect_reasons_def rbind_Inr_iff)
  have clean: "\<forall>r \<in> set ?sections. fst r = []"
    using arg_cong [OF rep, of fst] assms(2) by (simp only: fst_conv reports_simps(1) [symmetric])
  then have "version = RICKGENT_ORACLE_VERSION" "fst scanned = []" by (simp_all add: oracle_simps)
  moreover have "snd scanned"
    using checkReferences_clean [OF scan \<open>fst scanned = []\<close>] by (simp add: empty_scan_def)
  then have "honest scanned" by (simp add: honest_def)
  then have "list_all honest ?sections"
    using honest_sections honest_attribution [OF attr] by (simp only: list.pred_inject honest_simps simp_thms)
  then have "snd (reports ?sections)" using clean by (rule honest_clean)
  then have exact: exact unfolding rep [symmetric] by simp
  moreover have "clean_sections sha scope refs st cand"
    unfolding clean_sections_def Let_def
    using clean scan attr \<open>version = RICKGENT_ORACLE_VERSION\<close> \<open>fst scanned = []\<close>
    by (simp add: oracle_simps)
  ultimately show ?thesis by blast
qed

lemma accepted_run:
  assumes "evaluateAttemptOracle sha input = Inr plan" and "plan_result plan = Accepted"
  obtains st cand where "clean_sections sha (plan_scope plan) (plan_references plan) st cand"
    and "plan_oracleVersion plan = RICKGENT_ORACLE_VERSION" and "referenceIntegrity plan"
    and "plan_reasons plan = []"
proof -
  from assms(1) obtain version scope vs rs exact inputs outs where
    collected: "collect_reasons sha version scope (map normalizeReference vs) = Inr (rs, exact)"
    and plan: "plan = \<lparr>plan_oracleVersion = version, plan_scope = scope,
       plan_result = (if sort (remdups rs) = [] then Accepted else Rejected),
       plan_reasons = sort (remdups rs), inputSetDigest = inputs, outputDigest = outs,
       referenceIntegrity = exact, plan_references = map normalizeReference vs\<rparr>"
    unfolding evaluateAttemptOracle_def
    by (auto simp: rbind_Inr_iff Let_def split: if_split_asm option.split_asm)
  have "sort (remdups rs) = []" using assms(2) by (simp add: plan split: if_split_asm)
  then have "rs = []" by (metis length_0_conv length_sort remdups_eq_nil_iff)
  with collect_reasons_clean [OF collected] that show thesis by (auto simp: plan)
qed

section \<open>The evaluation never throws after its header\<close>

lemma digest_ok_iff: "is_ok (digest sha v) \<longleftrightarrow> admissible v"
  by (cases "canonical_json v") (simp_all add: digest_def canonical_json_ok_iff [symmetric])

lemma admissible_nullable [simp]: "admissible (nullable s)"
  by (simp add: nullable_def split: option.split)

text \<open>Every number of a normalized reference is safe and its sealed content has a canonical text.\<close>

definition normal_reference :: "OracleEvaluatedReference \<Rightarrow> bool" where
  "normal_reference r =
     (admissible (sealedContent r) \<and> opt_all is_safe_int (ordinal r)
      \<and> opt_all (\<lambda>g. opt_all is_safe_int (evaluationOrdinal g)) (gate r))"

lemma safe_as_safe_int: "opt_all is_safe_int (as_safe_int v)"
  by (simp add: opt_all_def as_safe_int_def split: jsval.split)

lemma admissible_key_normal: "admissible (key_normal v) \<longleftrightarrow> admissible v"
  by (simp flip: canonical_json_ok_iff add: canonical_json_normal)

lemma normalizeReference_normal: "normal_reference (normalizeReference v)"
proof -
  have "admissible (fst (normalizeSealedContent x))" for x
    by (auto simp: normalizeSealedContent_def canonical_json_normal simp flip: canonical_json_ok_iff
        split: sum.split)
  moreover have "opt_all (\<lambda>g. opt_all is_safe_int (evaluationOrdinal g)) (normalizeGate x)" for x
    using safe_as_safe_int [of "get_prop x ''evaluationOrdinal''"] by (simp add: opt_all_def normalizeGate_def)
  ultimately show ?thesis by (simp add: normal_reference_def normalizeReference_def Let_def safe_as_safe_int)
qed

lemma sealed_digest_ok: "normal_reference r \<Longrightarrow> is_ok (sealed_digest sha r)"
  using digest_ok_iff [of sha "sealedContent r"]
  by (auto simp: sealed_digest_def normal_reference_def is_ok_iff)

lemma checkReferences_ok:
  "list_all normal_reference rs \<Longrightarrow> is_ok (checkReferences sha version scope k rs st)"
proof (induction rs arbitrary: k st)
  case (Cons r rs)
  then obtain sealed where "sealed_digest sha r = Inr sealed" using sealed_digest_ok by (fastforce simp: is_ok_iff)
  then obtain st1 rep1 where "checkReference sha version scope k r st = Inr (st1, rep1)"
    by (cases "referenceKind r \<in> set ORACLE_REFERENCE_KINDS") (simp_all add: checkReference_def)
  moreover obtain out where "checkReferences sha version scope (Suc k) rs st1 = Inr out"
    using Cons by (fastforce simp: is_ok_iff)
  ultimately show ?case by (simp split: prod.split)
qed simp

lemma nullable_text [simp]: "as_string (nullable x) = x" "null_or_text (nullable x)"
  by (cases x; simp add: nullable_def null_or_text_def)+

text \<open>A normalized entry is a fixed point of the normalization.\<close>

lemma normalizedDeltaEntry_again:
  "normalizedDeltaEntry v = Some e \<Longrightarrow> normalizedDeltaEntry (delta_js e) = Some e"
  by (auto simp: normalizedDeltaEntry_def delta_js_def objectValue_def is_plain_object_def Let_def
      split: option.splits if_splits)

lemma delta_json_admissible [simp]:
  "admissible (candidate_js e)" "admissible (path_set_js e)" "admissible (change_kind_set_js e)"
  "admissible (mode_set_js e)"
  by (simp_all add: candidate_js_def path_set_js_def change_kind_set_js_def mode_set_js_def)

lemma deriveOracleAttributionDigests_ok:
  assumes "delta \<noteq> []" and "\<forall>e \<in> set delta. \<exists>v. normalizedDeltaEntry v = Some e"
  shows "is_ok (deriveOracleAttributionDigests sha delta)"
proof -
  let ?es = "orderedDelta (map the (map (\<lambda>e. normalizedDeltaEntry (delta_js e)) delta))"
  have "None \<notin> set (map (\<lambda>e. normalizedDeltaEntry (delta_js e)) delta)"
    using assms(2) normalizedDeltaEntry_again by fastforce
  moreover have "\<exists>d. digest sha (JArr (map f ?es)) = Inr d" if "\<And>e. admissible (f e)" for f
    using that digest_ok_iff [of sha "JArr (map f ?es)"] by (simp add: is_ok_iff)
  from this [of candidate_js] this [of path_set_js] this [of change_kind_set_js] this [of mode_set_js]
  obtain a b c d where "digest sha (JArr (map candidate_js ?es)) = Inr a"
    "digest sha (JArr (map path_set_js ?es)) = Inr b" "digest sha (JArr (map change_kind_set_js ?es)) = Inr c"
    "digest sha (JArr (map mode_set_js ?es)) = Inr d"
    by auto
  ultimately show ?thesis
    using assms(1) by (simp add: deriveOracleAttributionDigests_def Let_def del: map_map)
qed

lemma attribution_report_ok: "is_ok (attribution_report sha view refs)"
proof (cases "first (of_kind ''commit_attribution'' refs)")
  case (Some r)
  show ?thesis
  proof (cases "attribution_projection_ok r")
    case True
    then obtain entries where e: "attributed_delta (sealedContent r) = Some entries" "entries \<noteq> []" "None \<notin> set entries"
      by (auto simp: attribution_projection_ok_def Let_def split: option.splits)
    have "\<exists>v. normalizedDeltaEntry v = Some d" if "d \<in> set (map the entries)" for d
    proof -
      obtain x where x: "x \<in> set entries" "d = the x" using \<open>d \<in> set (map the entries)\<close> by auto
      with e(3) have "Some d = x" by (metis option.collapse)
      with x have "Some d \<in> set entries" by simp
      moreover obtain z where "entries = map normalizedDeltaEntry z"
        using e(1) by (auto simp: attributed_delta_def)
      ultimately show ?thesis by (metis imageE list.set_map)
    qed
    then have "is_ok (deriveOracleAttributionDigests sha (delta_of r))"
      using e by (intro deriveOracleAttributionDigests_ok) (auto simp: delta_of_def)
    then show ?thesis using Some True by (auto simp: attribution_report_def Let_def is_ok_iff)
  qed (simp add: attribution_report_def Let_def Some)
qed (simp add: attribution_report_def Let_def)

lemma collect_reasons_ok:
  "list_all normal_reference refs \<Longrightarrow> is_ok (collect_reasons sha version scope refs)"
  using checkReferences_ok [of refs sha version scope 0 empty_scan] attribution_report_ok [of sha "contract_view_of refs" refs]
  by (auto simp: collect_reasons_def is_ok_iff)

lemma reference_js_admissible: "normal_reference r \<Longrightarrow> admissible (reference_js r)"
  by (auto simp: reference_js_def normal_reference_def gate_js_def nullable_int_def opt_all_def split: option.splits)

lemma scope_js_admissible [simp]: "admissible (scope_js s)"
  by (simp add: scope_js_def)

lemma input_set_ok: "list_all normal_reference refs \<Longrightarrow> is_ok (digest sha (input_set_js version scope refs))"
  by (auto simp: digest_ok_iff input_set_js_def list_all_iff reference_js_admissible)

lemma output_ok: "is_ok (digest sha (output_js version scope inputs res rs))"
  by (simp add: digest_ok_iff output_js_def result_js_def)

definition header_ok :: "jsval \<Rightarrow> bool" where
  "header_ok input =
     (is_objectlike input \<and> is_ok (requiredText (get_prop input ''oracleVersion'') ''oracleVersion'')
      \<and> is_ok (read_scope (get_prop input ''scope'')) \<and> as_array (get_prop input ''references'') \<noteq> None)"

lemma normalized_all: "list_all normal_reference (map normalizeReference vs)"
  by (simp add: list_all_iff normalizeReference_normal)

lemma evaluate_header:
  assumes "header_ok input"
  obtains version scope vs rs exact plan where
    "requiredText (get_prop input ''oracleVersion'') ''oracleVersion'' = Inr version"
    "read_scope (get_prop input ''scope'') = Inr scope"
    "as_array (get_prop input ''references'') = Some vs"
    "collect_reasons sha version scope (map normalizeReference vs) = Inr (rs, exact)"
    "evaluateAttemptOracle sha input = Inr plan"
    "plan_references plan = map normalizeReference vs" "plan_scope plan = scope"
    "plan_reasons plan = sort (remdups rs)" "plan_oracleVersion plan = version"
    "plan_result plan = (if rs = [] then Accepted else Rejected)" "referenceIntegrity plan = exact"
proof -
  from assms obtain version scope vs where h: "is_objectlike input"
    "requiredText (get_prop input ''oracleVersion'') ''oracleVersion'' = Inr version"
    "read_scope (get_prop input ''scope'') = Inr scope"
    "as_array (get_prop input ''references'') = Some vs"
    by (auto simp: header_ok_def is_ok_iff)
  let ?refs = "map normalizeReference vs"
  obtain rs exact where c: "collect_reasons sha version scope ?refs = Inr (rs, exact)"
    using collect_reasons_ok [OF normalized_all] by (fastforce simp: is_ok_iff)
  obtain inputs where i: "digest sha (input_set_js version scope ?refs) = Inr inputs"
    using input_set_ok [OF normalized_all] by (fastforce simp: is_ok_iff)
  let ?res = "if sort (remdups rs) = [] then Accepted else Rejected"
  obtain outs where o: "digest sha (output_js version scope inputs ?res (sort (remdups rs))) = Inr outs"
    using output_ok by (fastforce simp: is_ok_iff)
  have empty: "sort (remdups rs) = [] \<longleftrightarrow> rs = []" by (metis length_0_conv length_sort remdups_eq_nil_iff)
  have "evaluateAttemptOracle sha input = Inr \<lparr>plan_oracleVersion = version, plan_scope = scope,
       plan_result = ?res, plan_reasons = sort (remdups rs), inputSetDigest = inputs, outputDigest = outs,
       referenceIntegrity = exact, plan_references = ?refs\<rparr>"
    unfolding evaluateAttemptOracle_def Let_def using h(1) by (simp add: h c i o)
  from that [OF h(2-4) c this] show thesis by (simp add: empty)
qed

section \<open>Clean sections, read backwards\<close>

lemma first_Some: "first xs = Some x \<Longrightarrow> x \<in> set xs"
  by (cases xs) (auto simp: first_def)

lemma first_single: "length xs = 1 \<Longrightarrow> \<exists>x. xs = [x] \<and> first xs = Some x"
  by (cases xs) (auto simp: first_def)

lemma count_one_distinct: "(\<And>x. x \<in> set xs \<Longrightarrow> count_list xs x = 1) \<Longrightarrow> distinct xs"
proof (induction xs)
  case (Cons x xs)
  have "x \<notin> set xs" using Cons.prems [of x] by (simp add: count_list_0_iff)
  moreover have "count_list xs y = 1" if "y \<in> set xs" for y
    using Cons.prems [of y] that \<open>x \<notin> set xs\<close> by (cases "x = y") auto
  ultimately show ?case using Cons.IH by simp
qed simp

lemma clean_scan:
  assumes "clean_sections sha scope refs st cand"
  shows "i < length refs \<Longrightarrow> reference_ok sha RICKGENT_ORACLE_VERSION scope i (refs ! i)"
    and "observedKinds st = map referenceKind refs"
    and "requiredGates st = map gate_name (filter required_gate refs)"
    and "distinct (map identity_of refs)" and "distinct (map content_identity refs)"
proof -
  obtain rep where "checkReferences sha RICKGENT_ORACLE_VERSION scope 0 refs empty_scan = Inr (st, rep)" "fst rep = []"
    using assms by (auto simp: clean_sections_def Let_def)
  from checkReferences_clean [OF this] have scanned: "\<forall>i < length refs. reference_ok sha RICKGENT_ORACLE_VERSION scope i (refs ! i)"
    "observedKinds st = map referenceKind refs" "requiredGates st = map gate_name (filter required_gate refs)"
    "distinct (map identity_of refs)" "distinct (map content_identity refs)"
    by (simp_all add: empty_scan_def) metis+
  from scanned show "i < length refs \<Longrightarrow> reference_ok sha RICKGENT_ORACLE_VERSION scope i (refs ! i)" by simp
  show "observedKinds st = map referenceKind refs" by (rule scanned(2))
  show "requiredGates st = map gate_name (filter required_gate refs)" by (rule scanned(3))
  show "distinct (map identity_of refs)" by (rule scanned(4))
  show "distinct (map content_identity refs)" by (rule scanned(5))
qed

lemma distinct_map_via: "distinct (map f xs) \<Longrightarrow> (\<And>x. f x = h (g x)) \<Longrightarrow> distinct (map g xs)"
  by (induction xs) force+

lemma clean_scan_pairs:
  assumes "clean_sections sha scope refs st cand"
  shows "distinct (map (\<lambda>r. (referenceKind r, referenceId r)) refs)"
    and "distinct (map (\<lambda>r. (referenceKind r, contentDigest r)) refs)"
proof -
  show "distinct (map (\<lambda>r. (referenceKind r, referenceId r)) refs)"
    using clean_scan(4) [OF assms] by (rule distinct_map_via [where h = "\<lambda>p. nul_join (fst p) (the (snd p))"]) (simp add: identity_of_def)
  show "distinct (map (\<lambda>r. (referenceKind r, contentDigest r)) refs)"
    using clean_scan(5) [OF assms] by (rule distinct_map_via [where h = "\<lambda>p. nul_join (fst p) (the (snd p))"]) (simp add: content_identity_def)
qed

lemma clean_contract:
  assumes "clean_sections sha scope refs st cand"
  obtains c where "of_kind ''ticket_contract'' refs = [c]" and "contract_projection_ok c"
    and "contract_view_of refs = read_contract (sealedContent c)"
    and "first (of_kind ''ticket_contract'' refs) = Some c"
proof -
  have "length (of_kind ''ticket_contract'' refs) = 1"
    using assms by (simp add: clean_sections_def cardinality_report_def Let_def oracle_simps)
  then obtain c where c: "of_kind ''ticket_contract'' refs = [c]" "first (of_kind ''ticket_contract'' refs) = Some c"
    using first_single by blast
  moreover have "contract_projection_ok c"
    using assms c(2) by (simp add: clean_sections_def contract_report_def Let_def oracle_simps)
  ultimately show thesis using that by (simp add: contract_view_of_def)
qed

lemma contract_projection_view:
  assumes "contract_projection_ok c"
  obtains i deps limit cycles ids scope where
    "view_contractId (read_contract (sealedContent c)) = Some i"
    "view_dependencies (read_contract (sealedContent c)) = Some deps" "distinct deps"
    "view_remediationLimit (read_contract (sealedContent c)) = Some limit" "0 \<le> limit"
    "view_maxReviewCycles (read_contract (sealedContent c)) = Some cycles" "1 \<le> cycles"
    "view_verificationIds (read_contract (sealedContent c)) = Some ids" "ids \<noteq> []" "distinct ids"
    "view_scope (read_contract (sealedContent c)) = Some scope" "scope \<noteq> []"
    "exactly_sealed c" "referenceId c = contentDigest c"
  using assms unfolding contract_projection_ok_def Let_def
  by (auto split: option.split_asm)

lemma gate_set_clean:
  "view_verificationIds view = Some ids \<Longrightarrow>
     fst (gate_set_report view st) = [] \<longleftrightarrow>
       (\<forall>i \<in> set ids. count_list (requiredGates st) i = 1) \<and> (\<forall>i \<in> set (requiredGates st). i \<in> set ids)"
  by (simp add: gate_set_report_def oracle_simps ball_Un)

lemma clean_gates:
  assumes "clean_sections sha scope refs st cand" and "view_verificationIds (contract_view_of refs) = Some ids"
  shows "set (map gate_name (filter required_gate refs)) = set ids"
    and "distinct (map gate_name (filter required_gate refs))"
proof -
  have "\<forall>i \<in> set ids. count_list (requiredGates st) i = 1" "set (requiredGates st) \<subseteq> set ids"
    using assms gate_set_clean [OF assms(2), of st] by (auto simp: clean_sections_def Let_def)
  then have "set (requiredGates st) = set ids" "distinct (requiredGates st)"
    using count_one_distinct [of "requiredGates st"] by (auto, metis count_list_0_iff zero_neq_one)
  then show "set (map gate_name (filter required_gate refs)) = set ids"
    and "distinct (map gate_name (filter required_gate refs))"
    unfolding clean_scan(3) [OF assms(1)] by simp_all
qed

lemma clean_gate_status:
  assumes "clean_sections sha scope refs st cand" and "r \<in> set refs" and "required_gate r"
  shows "gate_status_of r = ''passed''" and "gate_projection_ok r"
proof -
  obtain i where "i < length refs" "r = refs ! i" using assms(2) by (metis in_set_conv_nth)
  with clean_scan(1) [OF assms(1)] have "gate_ok r" by (auto simp: reference_ok_def)
  with assms(3) show "gate_status_of r = ''passed''" "gate_projection_ok r"
    by (auto simp: gate_ok_def required_gate_def)
qed

lemma review_loop_clean:
  "fst (snd (reviewLoop rs cycles)) = [] \<Longrightarrow> distinct (map fst cycles) \<Longrightarrow>
     \<exists>vs. map review_entry rs = map Some vs \<and> fst (reviewLoop rs cycles) = cycles @ vs
          \<and> distinct (map fst (cycles @ vs))"
proof (induction rs cycles rule: reviewLoop.induct)
  case (2 r rs cycles)
  then obtain c v where e: "review_entry r = Some (c, v)" and new: "c \<notin> fst ` set cycles"
    by (auto simp: oracle_simps split: option.splits prod.splits if_splits)
  then have "distinct (map fst (cycles @ [(c, v)]))" using 2(5) by auto
  with 2(3) e new 2(4) obtain vs where "map review_entry rs = map Some vs"
    "fst (reviewLoop rs (cycles @ [(c, v)])) = (cycles @ [(c, v)]) @ vs"
    "distinct (map fst ((cycles @ [(c, v)]) @ vs))"
    by fastforce
  with e new show ?case by (intro exI [of _ "(c, v) # vs"]) auto
qed (auto intro: exI [of _ "[]"])

lemma clean_reviews:
  assumes "clean_sections sha scope refs st cand"
  obtains vs where "map review_entry (of_kind ''review_record'' refs) = map Some vs"
    and "review_cycles refs = vs" and "distinct (map fst vs)"
proof -
  have "fst (snd (reviewLoop (of_kind ''review_record'' refs) [])) = []"
    using assms by (simp add: clean_sections_def review_report_def Let_def oracle_simps)
  from review_loop_clean [OF this] that show thesis by (auto simp: review_cycles_def)
qed

lemma consecutive_from_one:
  "\<not> list_ex (\<lambda>(i, c). c \<noteq> int i + 1) (enumerate 0 cs) \<Longrightarrow> cs = map (\<lambda>i. int i + 1) [0..<length cs]"
  by (rule nth_equalityI) (auto simp: list_ex_iff in_set_enumerate_eq)

lemma clean_review_cycles:
  assumes "clean_sections sha scope refs st cand"
    and "view_maxReviewCycles (contract_view_of refs) = Some most"
    and "view_remediationLimit (contract_view_of refs) = Some limit"
  shows "sort (map fst (review_cycles refs)) = map (\<lambda>i. int i + 1) [0..<length (review_cycles refs)]"
    and "int (length (review_cycles refs)) \<le> most" and "final_accepted refs"
    and "int (length (rejected_cycles refs)) \<le> limit"
    and "c \<in> set (rejected_cycles refs) \<Longrightarrow>
           count_list (map remediation_cycle (evidence_class ''remediation_cycle'' refs)) (Some c) = 1"
proof -
  have review: "\<not> list_ex (\<lambda>(i, c). c \<noteq> int i + 1) (enumerate 0 (sort (map fst (review_cycles refs))))"
    "\<not> over (Some most) (length (sort (map fst (review_cycles refs))))" "final_accepted refs"
    using assms(1,2) by (simp_all add: clean_sections_def review_report_def Let_def oracle_simps)
  show "sort (map fst (review_cycles refs)) = map (\<lambda>i. int i + 1) [0..<length (review_cycles refs)]"
    using consecutive_from_one [OF review(1)] by simp
  show "int (length (review_cycles refs)) \<le> most" using review(2) by (simp add: over_def)
  show "final_accepted refs" by (rule review(3))
  let ?found = "evidence_class ''remediation_cycle'' refs"
  let ?cycles = "map (\<lambda>r. the (remediation_cycle r)) (filter (\<lambda>r. remediation_cycle r \<noteq> None) ?found)"
  have "fst (remediation_report (contract_view_of refs) refs) = []"
    using assms(1) by (simp add: clean_sections_def Let_def)
  then have clean: "\<not> over (Some limit) (length (rejected_cycles refs))
      \<and> (\<forall>r \<in> set ?found. remediation_cycle r \<noteq> None)
      \<and> (\<forall>c \<in> set (rejected_cycles refs). count_list ?cycles c = 1)"
    using assms(3) by (simp add: remediation_report_def Let_def oracle_simps ball_Un del: filter_True)
  then have all: "\<forall>r \<in> set ?found. remediation_cycle r \<noteq> None"
    and one: "\<forall>c \<in> set (rejected_cycles refs). count_list ?cycles c = 1"
    and budget: "\<not> over (Some limit) (length (rejected_cycles refs))"
    by blast+
  show "int (length (rejected_cycles refs)) \<le> limit" using budget by (simp add: over_def)
  have "count_list (map remediation_cycle xs) (Some c) = count_list (map (\<lambda>r. the (remediation_cycle r)) (filter (\<lambda>r. remediation_cycle r \<noteq> None) xs)) c"
    if "\<forall>r \<in> set xs. remediation_cycle r \<noteq> None" for xs c
    using that by (induction xs) auto
  with all one show "c \<in> set (rejected_cycles refs) \<Longrightarrow>
       count_list (map remediation_cycle ?found) (Some c) = 1" by simp
qed

lemma final_accepted_last:
  assumes "sort (map fst vs) = map (\<lambda>i. int i + 1) [0..<length vs]" and "vs = review_cycles refs" and "final_accepted refs"
  shows "vs \<noteq> []" and "map_of vs (int (length vs)) = Some ''accepted''" and "final_cycle refs = Some (int (length vs))"
proof -
  obtain c where c: "final_cycle refs = Some c" "map_of vs c = Some ''accepted''"
    using assms(2,3) by (auto simp: final_accepted_def split: option.splits)
  then show "vs \<noteq> []" by auto
  then obtain n where n: "length vs = Suc n" by (cases vs) auto
  have "final_cycle refs = first (rev (map (\<lambda>i. int i + 1) [0..<length vs]))"
    using assms(1,2) by (simp add: final_cycle_def)
  then show "final_cycle refs = Some (int (length vs))" using n by (simp add: first_def)
  with c show "map_of vs (int (length vs)) = Some ''accepted''" by simp
qed

text \<open>The attributed commit, and the evidence that names the same candidate.\<close>

lemma clean_attribution:
  assumes "clean_sections sha scope refs st cand"
    and "first (of_kind ''ticket_contract'' refs) = Some c" and "view_scope (contract_view_of refs) = Some declared"
  obtains a derived where "of_kind ''commit_attribution'' refs = [a]" and "attribution_projection_ok a"
    and "deriveOracleAttributionDigests sha (delta_of a) = Inr derived" and "digests_match a derived"
    and "as_string (get_prop (sealedContent a) ''contract_digest'') = referenceId c"
    and "distinct (map delta_identity (delta_of a))"
    and "\<forall>e \<in> set (delta_of a). \<exists>d \<in> set declared. deltaMatchesScope e d"
    and "\<forall>d \<in> set declared. \<exists>e \<in> set (delta_of a). deltaMatchesScope e d"
    and "cand = Some (the (as_string (get_prop (sealedContent a) ''tree_after_oid'')),
                      the (as_string (get_prop (sealedContent a) ''candidate_diff_digest'')))"
proof -
  obtain rep where rep: "attribution_report sha (contract_view_of refs) refs = Inr (cand, rep)" "fst rep = []"
    using assms(1) by (auto simp: clean_sections_def Let_def)
  have one: "length (of_kind ''commit_attribution'' refs) = 1"
    using rep by (auto simp: attribution_report_def Let_def rbind_Inr_iff oracle_simps split: option.splits if_splits)
  then obtain a where a: "of_kind ''commit_attribution'' refs = [a]" "first (of_kind ''commit_attribution'' refs) = Some a"
    using first_single by blast
  have ok: "attribution_projection_ok a"
    using rep a(2) by (auto simp: attribution_report_def Let_def oracle_simps split: if_split_asm)
  then obtain derived where derived: "deriveOracleAttributionDigests sha (delta_of a) = Inr derived"
    and cand: "cand = Some (the (as_string (get_prop (sealedContent a) ''tree_after_oid'')),
                      the (as_string (get_prop (sealedContent a) ''candidate_diff_digest'')))"
    and clean: "digests_match a derived" "as_string (get_prop (sealedContent a) ''contract_digest'') = referenceId c"
      "\<not> hasDuplicateDeltaIdentity (delta_of a)" "\<not> scope_mismatch (Some declared) (delta_of a)"
    using rep a assms(2,3) by (auto simp: attribution_report_def Let_def rbind_Inr_iff oracle_simps)
  from clean(3) have "distinct (map delta_identity (delta_of a))" by (simp add: hasDuplicateDeltaIdentity_def)
  with that [OF a(1) ok derived clean(1,2)] clean(4) cand show thesis
    by (auto simp: scope_mismatch_def list_ex_iff)
qed

lemma clean_final_review:
  assumes "clean_sections sha scope refs st cand" and "final_accepted refs"
  obtains r tree diff where "final_review refs = Some r" and "cand = Some (tree, diff)"
    and "get_prop (sealedContent r) ''input_tree_oid'' = JStr tree"
    and "get_prop (sealedContent r) ''input_diff_digest'' = JStr diff"
proof -
  have "fst (final_review_report cand refs) = []" using assms(1) by (simp add: clean_sections_def Let_def)
  with assms(2) that show thesis
    by (auto simp: final_review_report_def oracle_simps split: option.split_asm prod.split_asm)
qed

lemma clean_gate_candidate:
  assumes "clean_sections sha scope refs st (Some (tree, diff))" and "r \<in> set refs" and "required_gate r"
  shows "get_prop (sealedContent r) ''candidate_tree_oid'' = JStr tree"
    and "get_prop (sealedContent r) ''candidate_diff_digest'' = JStr diff"
proof -
  have "fst (gate_candidate_report (Some (tree, diff)) refs) = []"
    using assms(1) by (simp add: clean_sections_def Let_def)
  then show "get_prop (sealedContent r) ''candidate_tree_oid'' = JStr tree"
    and "get_prop (sealedContent r) ''candidate_diff_digest'' = JStr diff"
    using assms(2,3) by (auto simp: gate_candidate_report_def oracle_simps)
qed

lemma clean_cleanup:
  assumes "clean_sections sha scope refs st cand" and "of_kind ''commit_attribution'' refs = [a]"
  obtains e where "evidence_class ''cleanup_eligibility'' refs = [e]"
    and "get_prop (sealedContent e) ''attempt_id'' = JStr (scope_attemptId scope)"
    and "get_prop (sealedContent e) ''candidate_oid'' = get_prop (sealedContent a) ''commit_oid''"
    and "get_prop (sealedContent e) ''baseline_oid'' = get_prop (sealedContent a) ''baseline_oid''"
    and "get_prop (sealedContent e) ''delivery_observed_oid'' = get_prop (sealedContent a) ''baseline_oid''"
proof -
  have "length (evidence_class ''cleanup_eligibility'' refs) = 1"
    using assms(1) by (simp add: clean_sections_def cleanup_report_def Let_def oracle_simps)
  then obtain e where e: "evidence_class ''cleanup_eligibility'' refs = [e]"
    "first (evidence_class ''cleanup_eligibility'' refs) = Some e"
    using first_single by blast
  have ok: "cleanup_eligibility_ok scope (first (evidence_class ''complete_target_proof_set'' refs)) e"
    using assms(1) e by (simp add: clean_sections_def cleanup_report_def Let_def oracle_simps)
  have "fst (cleanup_candidate_report refs) = []" using assms(1) by (simp add: clean_sections_def Let_def)
  then have eq: "strict_eq (get_prop (sealedContent e) ''candidate_oid'') (get_prop (sealedContent a) ''commit_oid'')"
    "strict_eq (get_prop (sealedContent e) ''baseline_oid'') (get_prop (sealedContent a) ''baseline_oid'')"
    using e(2) assms(2) by (simp_all add: cleanup_candidate_report_def first_def oracle_simps)
  from ok have "get_prop (sealedContent e) ''attempt_id'' = JStr (scope_attemptId scope)"
    and "strict_eq (get_prop (sealedContent e) ''delivery_observed_oid'') (get_prop (sealedContent e) ''baseline_oid'')"
    unfolding cleanup_eligibility_ok_def Let_def by blast+
  with that [OF e(1)] eq strict_eq_imp_eq show thesis by metis
qed

section \<open>Intact references and their rows\<close>

lemma reference_report_exact:
  "snd (reference_report version scope index r st sealed) \<Longrightarrow>
     ordinal r = Some (int index) \<and> identity_ok r \<and> contentDigest r \<noteq> None"
  by (auto simp: reference_report_def Let_def oracle_simps split: option.split_asm)

lemma collect_reasons_scan:
  assumes "collect_reasons sha version scope refs = Inr (rs, True)"
  obtains st scanned where "checkReferences sha version scope 0 refs empty_scan = Inr (st, scanned)" and "snd scanned"
proof -
  from assms obtain st scanned cand attributed where
    scan: "checkReferences sha version scope 0 refs empty_scan = Inr (st, scanned)"
    and attr: "attribution_report sha (contract_view_of refs) refs = Inr (cand, attributed)"
    by (auto simp: collect_reasons_def rbind_Inr_iff)
  from assms have "snd scanned" by (simp add: collect_reasons_def scan attr reports_def)
  with scan that show thesis by blast
qed

lemma checkReferences_exact:
  "checkReferences sha version scope k rs st = Inr (st', rep) \<Longrightarrow> snd rep \<Longrightarrow> i < length rs \<Longrightarrow>
     ordinal (rs ! i) = Some (int (k + i)) \<and> referenceKind (rs ! i) \<in> set ORACLE_REFERENCE_KINDS
     \<and> identity_ok (rs ! i) \<and> contentDigest (rs ! i) \<noteq> None"
proof (induction rs arbitrary: k st rep i)
  case (Cons r rs)
  from Cons.prems(1) obtain st1 rep1 rep2 where
    one: "checkReference sha version scope k r st = Inr (st1, rep1)"
    and more: "checkReferences sha version scope (Suc k) rs st1 = Inr (st', rep2)"
    and rep: "rep = reports [rep1, rep2]"
    by (auto simp: rbind_Inr_iff)
  have ok: "snd rep1" "snd rep2" using Cons.prems(2) by (simp_all add: rep oracle_simps)
  then have "referenceKind r \<in> set ORACLE_REFERENCE_KINDS"
    using one by (auto simp: checkReference_def oracle_simps split: if_split_asm)
  moreover from this obtain sealed where "rep1 = reference_report version scope k r st sealed"
    using one by (auto simp: checkReference_def rbind_Inr_iff)
  then have "ordinal r = Some (int k)" "identity_ok r" "contentDigest r \<noteq> None"
    using ok(1) reference_report_exact by blast+
  ultimately show ?case
    using Cons.IH [OF more ok(2), of "i - 1"] Cons.prems(3) by (cases i) auto
qed simp

lemma exact_plan_references:
  assumes "evaluateAttemptOracle sha input = Inr plan" and "referenceIntegrity plan"
    and "i < length (plan_references plan)"
  shows "ordinal (plan_references plan ! i) = Some (int i)"
    and "referenceKind (plan_references plan ! i) \<in> set ORACLE_REFERENCE_KINDS"
    and "identity_ok (plan_references plan ! i)" and "contentDigest (plan_references plan ! i) \<noteq> None"
proof -
  from assms(1) obtain version scope rs where
    "collect_reasons sha version scope (plan_references plan) = Inr (rs, referenceIntegrity plan)"
    unfolding evaluateAttemptOracle_def
    by (auto simp: rbind_Inr_iff Let_def split: if_split_asm option.split_asm)
  then have c: "collect_reasons sha version scope (plan_references plan) = Inr (rs, True)" using assms(2) by simp
  obtain st scanned where "checkReferences sha version scope 0 (plan_references plan) empty_scan = Inr (st, scanned)"
    and "snd scanned"
    by (rule collect_reasons_scan [OF c])
  from checkReferences_exact [OF this assms(3)]
  show "ordinal (plan_references plan ! i) = Some (int i)"
    and "referenceKind (plan_references plan ! i) \<in> set ORACLE_REFERENCE_KINDS"
    and "identity_ok (plan_references plan ! i)" and "contentDigest (plan_references plan ! i) \<noteq> None"
    by simp_all
qed

lemma kinds_have_columns: "map fst REFERENCE_ID_COLUMN = ORACLE_REFERENCE_KINDS"
  by (simp add: REFERENCE_ID_COLUMN_def ORACLE_REFERENCE_KINDS_def)

lemma columns_distinct: "distinct REFERENCE_ID_COLUMNS" "distinct (map fst REFERENCE_ID_COLUMN)"
  by (simp_all add: REFERENCE_ID_COLUMNS_def REFERENCE_ID_COLUMN_def)

definition id_columns :: "(string \<times> jsval) list \<Rightarrow> (string \<times> jsval) list" where
  "id_columns row = filter (\<lambda>cv. fst cv \<in> set REFERENCE_ID_COLUMNS \<and> snd cv \<noteq> JNull) row"

lemma fixed_columns:
  "\<forall>c \<in> set [''oracle_decision_id'', ''run_id'', ''ticket_instance_id'', ''attempt_id'', ''ordinal'',
     ''reference_kind'', ''content_digest'']. c \<notin> set REFERENCE_ID_COLUMNS"
  by (simp add: REFERENCE_ID_COLUMNS_def REFERENCE_ID_COLUMN_def)

lemma filter_marked: "distinct cs \<Longrightarrow> c \<in> set cs \<Longrightarrow> v \<noteq> JNull \<Longrightarrow>
    filter (\<lambda>cv. snd cv \<noteq> JNull) (map (\<lambda>d. (d, if c = d then v else JNull)) cs) = [(c, v)]"
proof (induction cs)
  case (Cons d cs)
  have "filter (\<lambda>cv. snd cv \<noteq> JNull) (map (\<lambda>d. (d, if c = d then v else JNull)) cs) = []" if "c \<notin> set cs"
    using that by (induction cs) auto
  with Cons show ?case by auto
qed simp

lemma reference_row_column:
  assumes "referenceKind r \<in> set ORACLE_REFERENCE_KINDS" and "identity_ok r"
  obtains c i where "map_of REFERENCE_ID_COLUMN (referenceKind r) = Some c" and "referenceId r = Some i"
    and "id_columns (reference_row decision scope r) = [(c, JStr i)]"
proof -
  obtain c where c: "map_of REFERENCE_ID_COLUMN (referenceKind r) = Some c"
    using assms(1) by (metis kinds_have_columns map_of_eq_None_iff option.exhaust set_map)
  then have mem: "c \<in> set REFERENCE_ID_COLUMNS"
    unfolding REFERENCE_ID_COLUMNS_def by (metis map_of_SomeD in_set_zipE set_map image_eqI snd_conv)
  obtain i where i: "referenceId r = Some i" using assms(2) by (auto simp: identity_ok_def split: option.splits)
  let ?cells = "map (\<lambda>d. (d, if c = d then JStr i else JNull)) REFERENCE_ID_COLUMNS"
  have cells: "map (\<lambda>d. (d, if map_of REFERENCE_ID_COLUMN (referenceKind r) = Some d
      then nullable (referenceId r) else JNull)) REFERENCE_ID_COLUMNS = ?cells"
    by (simp add: c i nullable_def)
  have "id_columns (reference_row decision scope r) = id_columns ?cells"
    using fixed_columns unfolding id_columns_def reference_row_def cells filter_append by simp
  also have "\<dots> = filter (\<lambda>cv. snd cv \<noteq> JNull) ?cells"
    unfolding id_columns_def by (rule filter_cong) auto
  finally have "id_columns (reference_row decision scope r) = filter (\<lambda>cv. snd cv \<noteq> JNull) ?cells" .
  with filter_marked [OF columns_distinct(1) mem] show thesis using that [OF c i] by simp
qed

section \<open>The digests commit to the decision\<close>

lemma get_prop_key_normal:
  assumes "distinct (map fst kvs)"
  shows "get_prop (key_normal (JObj kvs)) k = key_normal (get_prop (JObj kvs) k)"
proof -
  have "map_of (sort_key fst kvs) = map_of kvs"
  proof (rule map_of_eqI)
    show "set (map fst (sort_key fst kvs)) = set (map fst kvs)" by simp
    show "\<forall>k \<in> set (map fst (sort_key fst kvs)). map_of (sort_key fst kvs) k = map_of kvs k"
    proof
      fix k assume "k \<in> set (map fst (sort_key fst kvs))"
      then obtain v where v: "(k, v) \<in> set kvs" by auto
      have "distinct (map fst (sort_key fst kvs))"
        using assms by (simp add: distinct_map)
      with v assms show "map_of (sort_key fst kvs) k = map_of kvs k" by simp
    qed
  qed
  moreover have "map_of (map (\<lambda>kv. (fst kv, key_normal (snd kv))) xs) k = map_option key_normal (map_of xs k)" for xs
    by (induction xs) auto
  ultimately show ?thesis by (simp add: get_prop_def split: option.split)
qed

lemma key_normal_JStr_eq [simp]: "key_normal v = JStr s \<longleftrightarrow> v = JStr s"
  by (cases v) auto

lemma js_fields_eq:
  assumes "key_normal (JObj kvs) = key_normal (JObj kws)" and "distinct (map fst kvs)" and "distinct (map fst kws)"
  shows "key_normal (get_prop (JObj kvs) k) = key_normal (get_prop (JObj kws) k)"
  using assms by (metis get_prop_key_normal)

lemma js_text_fields_eq:
  assumes "key_normal (JObj kvs) = key_normal (JObj kws)" and "distinct (map fst kvs)" and "distinct (map fst kws)"
    and "get_prop (JObj kvs) k = JStr s" and "get_prop (JObj kws) k = JStr t"
  shows "s = t"
  using js_fields_eq [OF assms(1-3), of k] assms(4,5) by simp

text \<open>The two texts an evaluation hashes to name its decision.\<close>

definition hashed_texts :: "OraclePersistencePlan \<Rightarrow> string set" where
  "hashed_texts p =
     {t. canonical_json (input_set_js (plan_oracleVersion p) (plan_scope p) (plan_references p)) = Inr t
       \<or> canonical_json (output_js (plan_oracleVersion p) (plan_scope p) (inputSetDigest p) (plan_result p)
            (plan_reasons p)) = Inr t}"

lemma plan_digests:
  assumes "evaluateAttemptOracle sha input = Inr p"
  shows "digest sha (input_set_js (plan_oracleVersion p) (plan_scope p) (plan_references p)) = Inr (inputSetDigest p)"
    and "digest sha (output_js (plan_oracleVersion p) (plan_scope p) (inputSetDigest p) (plan_result p) (plan_reasons p))
           = Inr (outputDigest p)"
  using assms unfolding evaluateAttemptOracle_def
  by (auto simp: rbind_Inr_iff Let_def split: if_split_asm option.split_asm)

lemma digest_collision_free:
  assumes "digest sha v = Inr d" and "digest sha w = Inr d"
    and "\<And>s t. canonical_json v = Inr s \<Longrightarrow> canonical_json w = Inr t \<Longrightarrow> sha s = sha t \<Longrightarrow> s = t"
  shows "key_normal v = key_normal w"
proof -
  from assms(1,2) obtain s t where "canonical_json v = Inr s" "canonical_json w = Inr t" "sha s = sha t"
    by (auto simp: digest_def split: sum.split_asm)
  with assms(3) canonical_json_inject show ?thesis by metis
qed

lemma output_js_inject:
  assumes "key_normal (output_js v s i r rs) = key_normal (output_js v' s' i' r' rs')"
  shows "v = v'" "s = s'" "i = i'" "r = r'" "rs = rs'"
proof -
  let ?k = "\<lambda>k. key_normal (get_prop (output_js v s i r rs) k) = key_normal (get_prop (output_js v' s' i' r' rs') k)"
  have field: "?k k" for k
    using assms unfolding output_js_def by (rule js_fields_eq) simp_all
  show "v = v'" using field [of "''oracle_version''"] by (simp add: output_js_def)
  show "i = i'" using field [of "''input_set_digest''"] by (simp add: output_js_def)
  show "r = r'" using field [of "''result''"]
    by (cases r; cases r') (simp_all add: output_js_def result_js_def)
  have "map key_normal (map JStr rs) = map key_normal (map JStr rs')"
    using field [of "''reasons''"] by (simp add: output_js_def)
  then have "map JStr rs = map JStr rs'" by (simp add: comp_def)
  then show "rs = rs'" by (simp add: inj_map_eq_map inj_def)
  have "key_normal (scope_js s) = key_normal (scope_js s')"
    using field [of "''scope''"] by (simp add: output_js_def)
  then have scope: "key_normal (get_prop (scope_js s) k) = key_normal (get_prop (scope_js s') k)" for k
    unfolding scope_js_def by (rule js_fields_eq) simp_all
  show "s = s'"
    using scope [of "''run_id''"] scope [of "''ticket_instance_id''"] scope [of "''attempt_id''"]
    by (cases s; cases s') (simp add: scope_js_def)
qed

lemma input_set_js_inject:
  assumes "key_normal (input_set_js v s rs) = key_normal (input_set_js v' s' rs')"
  shows "map (\<lambda>r. key_normal (reference_js r)) rs = map (\<lambda>r. key_normal (reference_js r)) rs'"
proof -
  have "key_normal (get_prop (input_set_js v s rs) k) = key_normal (get_prop (input_set_js v' s' rs') k)" for k
    using assms unfolding input_set_js_def by (rule js_fields_eq) simp_all
  from this [of "''references''"] show ?thesis by (simp add: input_set_js_def comp_def)
qed

lemma materialize_rows:
  assumes "materializeOraclePersistenceRows date_parses v identity = Inr rows"
  obtains plan decision where "v = Issued plan" and "referenceIntegrity plan"
    and "reference_rows rows = map (reference_row decision (plan_scope plan)) (plan_references plan)"
    and "map_of (decision_row rows) ''result'' = Some (result_js (plan_result plan))"
    and "map_of (decision_row rows) ''output_digest'' = Some (JStr (outputDigest plan))"
proof -
  obtain plan where plan: "v = Issued plan"
    using assms by (cases v) (auto simp: materializeOraclePersistenceRows_def oraclePersistenceProjection_def)
  have ok: "referenceIntegrity plan"
    using assms by (rule contrapos_pp) (simp add: materializeOraclePersistenceRows_def oraclePersistenceProjection_def plan)
  from assms obtain decision where
    "reference_rows rows = map (reference_row decision (plan_scope plan)) (plan_references plan)"
    "map_of (decision_row rows) ''result'' = Some (result_js (plan_result plan))"
    "map_of (decision_row rows) ''output_digest'' = Some (JStr (outputDigest plan))"
    unfolding materializeOraclePersistenceRows_def oraclePersistenceProjection_def plan
    by (auto simp: rbind_Inr_iff ok simp del: map_eq_conv split: if_split_asm sum.split_asm)
  with that plan ok show thesis by blast
qed

end
