(* ===== verification/Oracle_Accepts.thy ===== *)
theory Oracle_Accepts
  imports Oracle_Decision
begin

text \<open>
  The properties of the attempt oracle, with a small attempt that is accepted as their witness.
\<close>

section \<open>A small accepted attempt\<close>

text \<open>
  A hash for examples: zeros and one character, chosen by the first value of an object whose first
  key has one letter.
\<close>

definition hash_end :: "char \<Rightarrow> string" where
  "hash_end c = replicate 63 (CHR ''0'') @ [c]"

definition mark_hash :: "string \<Rightarrow> string" where
  "mark_hash text =
     hash_end (case drop 6 text of
       [] \<Rightarrow> CHR ''0''
     | c # _ \<Rightarrow> if c = CHR ''X'' then CHR ''1'' else if c = CHR ''Y'' then CHR ''2''
                else if c = CHR ''Z'' then CHR ''3'' else CHR ''0'')"

definition sample_digest :: "char \<Rightarrow> string" where
  "sample_digest c = ''sha256:'' @ hash_end c"

definition sample_oid :: "char \<Rightarrow> jsval" where
  "sample_oid c = JStr (replicate 40 c)"

definition sample_reference ::
  "int \<Rightarrow> string \<Rightarrow> string option \<Rightarrow> string option \<Rightarrow> string \<Rightarrow> char \<Rightarrow> jsval \<Rightarrow> jsval \<Rightarrow> jsval" where
  "sample_reference n kind ticket attempt ident mark content g = JObj
     [(''ordinal'', JNum n), (''referenceKind'', JStr kind), (''referenceId'', JStr ident),
      (''runId'', JStr ''r''), (''ticketInstanceId'', nullable ticket), (''attemptId'', nullable attempt),
      (''oracleVersion'', JStr RICKGENT_ORACLE_VERSION),
      (''contentDigest'', JStr (sample_digest mark)),
      (''resolvedContentDigest'', JStr (sample_digest mark)),
      (''sealedContent'', content), (''gate'', g)]"

definition sample_attempt_reference :: "int \<Rightarrow> string \<Rightarrow> string \<Rightarrow> char \<Rightarrow> jsval \<Rightarrow> jsval \<Rightarrow> jsval" where
  "sample_attempt_reference n kind = sample_reference n kind (Some ''t1'') (Some ''a'')"

definition sample_references :: "jsval list" where
  "sample_references =
    [sample_reference 0 ''run_manifest'' None None (sample_digest CHR ''0'') CHR ''0''
       (JObj [(''oracle_version'', JStr RICKGENT_ORACLE_VERSION),
              (''tickets'', JArr [JObj [(''ticket_id'', JStr ''t''), (''contract_digest'', JStr (sample_digest CHR ''0'')),
                                        (''depends_on_ticket_ids'', JArr [])]])]) JNull,
     sample_reference 1 ''ticket_contract'' (Some ''t1'') None (sample_digest CHR ''0'') CHR ''0''
       (JObj [(''id'', JStr ''t''), (''depends_on'', JArr []),
              (''budgets'', JObj [(''remediation_limit'', JNum 0), (''max_review_cycles'', JNum 1)]),
              (''verifications'', JArr [JObj [(''id'', JStr ''g'')]]),
              (''scope'', JArr [JObj [(''path'', JStr ''src''), (''change_kind'', JStr ''modify''),
                                      (''directory'', JBool True)]])]) JNull,
     sample_attempt_reference 2 ''execution_context'' ''c'' CHR ''0'' JUndef JNull,
     sample_attempt_reference 3 ''gate_result'' ''g'' CHR ''0''
       (JObj [(''gate_id'', JStr ''g''), (''evaluation_ordinal'', JNum 0), (''required'', JNum 1),
              (''status'', JStr ''passed''), (''candidate_tree_oid'', sample_oid CHR ''b''),
              (''candidate_diff_digest'', JStr (sample_digest CHR ''0''))])
       (JObj [(''gateId'', JStr ''g''), (''evaluationOrdinal'', JNum 0), (''required'', JBool True),
              (''status'', JStr ''passed'')]),
     sample_attempt_reference 4 ''review_record'' ''v'' CHR ''0''
       (JObj [(''cycle'', JNum 1), (''verdict'', JStr ''accepted''), (''input_tree_oid'', sample_oid CHR ''b''),
              (''input_diff_digest'', JStr (sample_digest CHR ''0''))]) JNull,
     sample_attempt_reference 5 ''commit_attribution'' ''m'' CHR ''0''
       (JObj [(''baseline_oid'', sample_oid CHR ''a''), (''parent_oid'', sample_oid CHR ''a''),
              (''tree_before_oid'', sample_oid CHR ''a''), (''tree_after_oid'', sample_oid CHR ''b''),
              (''commit_oid'', sample_oid CHR ''c''), (''contract_digest'', JStr (sample_digest CHR ''0'')),
              (''candidate_diff_digest'', JStr (sample_digest CHR ''0'')), (''path_set_digest'', JStr (sample_digest CHR ''0'')),
              (''change_kind_set_digest'', JStr (sample_digest CHR ''0'')), (''mode_set_digest'', JStr (sample_digest CHR ''0'')),
              (''normalized_delta'', JArr [JObj [(''path'', JStr ''src/a''), (''change_kind'', JStr ''modify''),
                 (''from_path'', JNull), (''before_mode'', JStr ''100644''), (''after_mode'', JStr ''100755'')]])]) JNull,
     sample_attempt_reference 6 ''attempt_resource_snapshot'' ''s'' CHR ''0'' JUndef JNull,
     sample_attempt_reference 7 ''lease_snapshot'' ''l'' CHR ''0'' JUndef JNull,
     sample_attempt_reference 8 ''evidence'' ''e1'' CHR ''1''
       (JObj [(''a'', JStr ''X''), (''oracle_input_class'', JStr ''complete_target_proof_set''), (''target_proof_set_id'', JStr ''p''),
              (''attempt_id'', JStr ''a''), (''ownership_id'', JStr ''o''), (''owner_generation'', JNum 1),
              (''ownership_context_digest'', JStr ''d''), (''target_proof_set_digest'', JStr (sample_digest CHR ''0'')),
              (''target_count'', JNum 1),
              (''target_proofs'', JArr [JObj [(''phase_execution_id'', JStr ''x''),
                 (''proof_kind'', JStr ''terminal_process''), (''member_digest'', JStr (sample_digest CHR ''0''))]])]) JNull,
     sample_attempt_reference 9 ''evidence'' ''e2'' CHR ''2''
       (JObj [(''a'', JStr ''Y''), (''oracle_input_class'', JStr ''cleanup_eligibility''), (''eligibility_id'', JStr ''y''),
              (''attempt_id'', JStr ''a''), (''ownership_id'', JStr ''o''), (''owner_generation'', JNum 1),
              (''ownership_state_version'', JNum 1), (''ownership_context_digest'', JStr ''d''),
              (''commit_intent_id'', JStr ''i''), (''commit_attribution_id'', JStr ''m''),
              (''candidate_oid'', sample_oid CHR ''c''), (''baseline_oid'', sample_oid CHR ''a''),
              (''delivery_observed_oid'', sample_oid CHR ''a''), (''delivery_ref'', JStr ''d''),
              (''attempt_ref'', JStr ''r''), (''attempt_ref_observed_oid'', sample_oid CHR ''c''),
              (''claim_preimage_digest'', JStr (sample_digest CHR ''0'')), (''ownership_snapshot_evidence_id'', JStr ''w''),
              (''claim_snapshot_evidence_ids'', JArr (map (\<lambda>c. JStr [c]) ''abcdefghijk'')),
              (''target_proof_set_id'', JStr ''p''), (''target_proof_set_digest'', JStr (sample_digest CHR ''0'')),
              (''target_proof_count'', JNum 1)]) JNull,
     sample_attempt_reference 10 ''evidence'' ''e3'' CHR ''3''
       (JObj [(''a'', JStr ''Z''), (''oracle_input_class'', JStr ''identity_bound_completion''), (''attempt_id'', JStr ''a''),
              (''requested_evidence_id'', JStr ''z''), (''invoked_evidence_id'', JStr ''i''),
              (''observed_evidence_id'', JStr ''o'')]) JNull]"

definition sample_projection :: jsval where
  "sample_projection = JObj
     [(''oracleVersion'', JStr RICKGENT_ORACLE_VERSION),
      (''scope'', JObj [(''runId'', JStr ''r''), (''ticketInstanceId'', JStr ''t1''), (''attemptId'', JStr ''a'')]),
      (''references'', JArr sample_references)]"


declare breach_def [code_unfold] remark_def [code_unfold]

definition sample_scope :: AttemptOracleScope where
  "sample_scope = \<lparr>scope_runId = ''r'', scope_ticketInstanceId = ''t1'', scope_attemptId = ''a''\<rparr>"

lemma sample_reasons:
  "collect_reasons mark_hash RICKGENT_ORACLE_VERSION sample_scope (map normalizeReference sample_references)
     = Inr ([], True)"
  by code_simp

lemma sample_header:
  "header_ok sample_projection"
  "requiredText (get_prop sample_projection ''oracleVersion'') ''oracleVersion'' = Inr RICKGENT_ORACLE_VERSION"
  "read_scope (get_prop sample_projection ''scope'') = Inr sample_scope"
  "as_array (get_prop sample_projection ''references'') = Some sample_references"
  by code_simp (code_simp, code_simp, simp add: sample_projection_def)

lemma sample_accepted:
  obtains plan where "evaluateAttemptOracle mark_hash sample_projection = Inr plan"
    and "plan_result plan = Accepted" and "plan_references plan = map normalizeReference sample_references"
    and "plan_scope plan = sample_scope" and "referenceIntegrity plan"
  by (rule evaluate_header [OF sample_header(1), of mark_hash]) (use sample_reasons sample_header in auto)

section \<open>What acceptance means\<close>

text \<open>
  C29. An accepted attempt rests on intact references: every reference is in its place, of a known and
  current kind, of the oracle's version and of the attempt's own lineage; the digest it was recorded
  under is the digest it resolved to and, where its content is sealed, the digest of that content;
  and no reference and no content of a kind occurs twice.
\<close>

theorem accepted_references_intact:
  assumes "evaluateAttemptOracle sha input = Inr plan" and "plan_result plan = Accepted"
  shows "referenceIntegrity plan \<and> plan_reasons plan = []
    \<and> (\<forall>i < length (plan_references plan).
         reference_ok sha RICKGENT_ORACLE_VERSION (plan_scope plan) i (plan_references plan ! i))
    \<and> distinct (map (\<lambda>r. (referenceKind r, referenceId r)) (plan_references plan))
    \<and> distinct (map (\<lambda>r. (referenceKind r, contentDigest r)) (plan_references plan))"
proof -
  obtain st cand where "clean_sections sha (plan_scope plan) (plan_references plan) st cand"
    "referenceIntegrity plan" "plan_reasons plan = []"
    using accepted_run [OF assms] by metis
  with clean_scan(1) clean_scan_pairs show ?thesis by blast
qed

theorem accepted_references_intact_witness:
  "\<exists>plan. evaluateAttemptOracle mark_hash sample_projection = Inr plan \<and> plan_result plan = Accepted
     \<and> distinct (map (\<lambda>r. (referenceKind r, contentDigest r)) (plan_references plan))"
proof -
  obtain plan where p: "evaluateAttemptOracle mark_hash sample_projection = Inr plan" "plan_result plan = Accepted"
    by (rule sample_accepted)
  from accepted_references_intact [OF p] p show ?thesis by blast
qed

text \<open>
  C30. An accepted attempt passed exactly the gates its contract declares: there is one sealed
  contract, the required gate results carry pairwise different gate ids, these are the ids of the
  contract's verifications, and every one of them passed.
\<close>

theorem accepted_gates_are_the_declared_ones:
  assumes "evaluateAttemptOracle sha input = Inr plan" and "plan_result plan = Accepted"
  shows "\<exists>c ids. of_kind ''ticket_contract'' (plan_references plan) = [c]
    \<and> view_verificationIds (read_contract (sealedContent c)) = Some ids \<and> ids \<noteq> [] \<and> distinct ids
    \<and> set (map gate_name (filter required_gate (plan_references plan))) = set ids
    \<and> distinct (map gate_name (filter required_gate (plan_references plan)))
    \<and> (\<forall>r \<in> set (plan_references plan).
         required_gate r \<longrightarrow> gate_projection_ok r \<and> gate_status_of r = ''passed'')"
proof -
  obtain st cand where clean: "clean_sections sha (plan_scope plan) (plan_references plan) st cand"
    using accepted_run [OF assms] by metis
  obtain c where c: "of_kind ''ticket_contract'' (plan_references plan) = [c]" "contract_projection_ok c"
    and view: "contract_view_of (plan_references plan) = read_contract (sealedContent c)"
    using clean_contract [OF clean] by metis
  obtain ids where ids: "view_verificationIds (read_contract (sealedContent c)) = Some ids" "ids \<noteq> []" "distinct ids"
    using contract_projection_view [OF c(2)] by metis
  show ?thesis
    using c(1) ids clean_gates [OF clean, unfolded view, OF ids(1)] clean_gate_status [OF clean] by blast
qed

theorem accepted_gates_are_the_declared_ones_witness:
  "\<exists>plan c. evaluateAttemptOracle mark_hash sample_projection = Inr plan
     \<and> of_kind ''ticket_contract'' (plan_references plan) = [c]
     \<and> filter required_gate (plan_references plan) \<noteq> []"
proof -
  obtain plan where p: "evaluateAttemptOracle mark_hash sample_projection = Inr plan" "plan_result plan = Accepted"
    by (rule sample_accepted)
  from accepted_gates_are_the_declared_ones [OF p] obtain c ids where
    c: "of_kind ''ticket_contract'' (plan_references plan) = [c]" and "ids \<noteq> []"
    "set (map gate_name (filter required_gate (plan_references plan))) = set ids" by blast
  then have "filter required_gate (plan_references plan) \<noteq> []" by (metis list.simps(8) set_empty)
  with p c show ?thesis by blast
qed

text \<open>
  C31. The review history of an accepted attempt is complete and within budget: every review record
  is well-formed, the cycles are numbered from one without a gap, there are at most
  \<open>max_review_cycles\<close> of them, the last one accepted, at most \<open>remediation_limit\<close> of them
  rejected, and every rejected cycle has exactly one remediation.
\<close>

theorem accepted_review_history:
  assumes "evaluateAttemptOracle sha input = Inr plan" and "plan_result plan = Accepted"
  shows "\<exists>c verdicts most limit. of_kind ''ticket_contract'' (plan_references plan) = [c]
    \<and> view_maxReviewCycles (read_contract (sealedContent c)) = Some most
    \<and> view_remediationLimit (read_contract (sealedContent c)) = Some limit
    \<and> map review_entry (of_kind ''review_record'' (plan_references plan)) = map Some verdicts
    \<and> sort (map fst verdicts) = map (\<lambda>i. int i + 1) [0..<length verdicts]
    \<and> map_of verdicts (int (length verdicts)) = Some ''accepted''
    \<and> int (length verdicts) \<le> most
    \<and> int (length (filter (\<lambda>v. snd v = ''rejected'') verdicts)) \<le> limit
    \<and> (\<forall>v \<in> set verdicts. snd v = ''rejected'' \<longrightarrow>
         count_list (map remediation_cycle (evidence_class ''remediation_cycle'' (plan_references plan)))
           (Some (fst v)) = 1)"
proof -
  let ?refs = "plan_references plan"
  obtain st cand where clean: "clean_sections sha (plan_scope plan) ?refs st cand"
    using accepted_run [OF assms] by metis
  obtain c where c: "of_kind ''ticket_contract'' ?refs = [c]" "contract_projection_ok c"
    and view: "contract_view_of ?refs = read_contract (sealedContent c)"
    using clean_contract [OF clean] by metis
  obtain most limit where ml: "view_maxReviewCycles (read_contract (sealedContent c)) = Some most"
    "view_remediationLimit (read_contract (sealedContent c)) = Some limit"
    using contract_projection_view [OF c(2)] by metis
  obtain verdicts where v: "map review_entry (of_kind ''review_record'' ?refs) = map Some verdicts"
    "review_cycles ?refs = verdicts"
    using clean_reviews [OF clean] by metis
  note cycles = clean_review_cycles [OF clean ml [folded view]]
  note last = final_accepted_last [OF cycles(1) refl cycles(3)]
  have "count_list (map remediation_cycle (evidence_class ''remediation_cycle'' ?refs)) (Some (fst x)) = 1"
    if "x \<in> set verdicts" "snd x = ''rejected''" for x
    using cycles(5) [of "fst x"] that v(2) by (auto simp: rejected_cycles_def)
  moreover have "int (length (filter (\<lambda>v. snd v = ''rejected'') verdicts)) \<le> limit"
    using cycles(4) v(2) by (simp add: rejected_cycles_def)
  ultimately show ?thesis
    using c(1) ml v(1) cycles(1,2) last(2) unfolding v(2) by blast
qed

theorem accepted_review_history_witness:
  "\<exists>plan verdicts. evaluateAttemptOracle mark_hash sample_projection = Inr plan
     \<and> map review_entry (of_kind ''review_record'' (plan_references plan)) = map Some verdicts
     \<and> map_of verdicts (int (length verdicts)) = Some ''accepted''"
proof -
  obtain plan where p: "evaluateAttemptOracle mark_hash sample_projection = Inr plan" "plan_result plan = Accepted"
    by (rule sample_accepted)
  from accepted_review_history [OF p] p show ?thesis by blast
qed

text \<open>
  C32. An accepted attempt is about one candidate that stays in the declared scope. There is one
  attribution; the digests it carries are recomputed from its delta; it names the sealed contract;
  every changed path is covered by an entry of the contract's scope and every entry is used; and the
  tree and diff it names are those the last review saw and every required gate ran on, its commit and
  baseline those the cleanup found at the attempt and delivery refs.
\<close>

theorem accepted_candidate_is_scoped_and_shared:
  assumes "evaluateAttemptOracle sha input = Inr plan" and "plan_result plan = Accepted"
  shows "\<exists>c declared a derived tree diff review cleanup.
      of_kind ''ticket_contract'' (plan_references plan) = [c]
    \<and> view_scope (read_contract (sealedContent c)) = Some declared
    \<and> of_kind ''commit_attribution'' (plan_references plan) = [a]
    \<and> deriveOracleAttributionDigests sha (delta_of a) = Inr derived \<and> digests_match a derived
    \<and> as_string (get_prop (sealedContent a) ''contract_digest'') = referenceId c
    \<and> (\<forall>e \<in> set (delta_of a). \<exists>d \<in> set declared. deltaMatchesScope e d)
    \<and> (\<forall>d \<in> set declared. \<exists>e \<in> set (delta_of a). deltaMatchesScope e d)
    \<and> as_string (get_prop (sealedContent a) ''tree_after_oid'') = Some tree
    \<and> as_string (get_prop (sealedContent a) ''candidate_diff_digest'') = Some diff
    \<and> final_review (plan_references plan) = Some review
    \<and> get_prop (sealedContent review) ''input_tree_oid'' = JStr tree
    \<and> get_prop (sealedContent review) ''input_diff_digest'' = JStr diff
    \<and> (\<forall>r \<in> set (plan_references plan). required_gate r \<longrightarrow>
         get_prop (sealedContent r) ''candidate_tree_oid'' = JStr tree
         \<and> get_prop (sealedContent r) ''candidate_diff_digest'' = JStr diff)
    \<and> evidence_class ''cleanup_eligibility'' (plan_references plan) = [cleanup]
    \<and> get_prop (sealedContent cleanup) ''candidate_oid'' = get_prop (sealedContent a) ''commit_oid''
    \<and> get_prop (sealedContent cleanup) ''delivery_observed_oid'' = get_prop (sealedContent a) ''baseline_oid''"
proof -
  let ?refs = "plan_references plan"
  obtain st cand where clean: "clean_sections sha (plan_scope plan) ?refs st cand"
    using accepted_run [OF assms] by metis
  obtain c where c: "of_kind ''ticket_contract'' ?refs = [c]" "contract_projection_ok c"
    "contract_view_of ?refs = read_contract (sealedContent c)" "first (of_kind ''ticket_contract'' ?refs) = Some c"
    by (rule clean_contract [OF clean])
  obtain declared most limit where view: "view_scope (read_contract (sealedContent c)) = Some declared"
    "view_maxReviewCycles (read_contract (sealedContent c)) = Some most"
    "view_remediationLimit (read_contract (sealedContent c)) = Some limit"
    using contract_projection_view [OF c(2)] by metis
  obtain a derived where a: "of_kind ''commit_attribution'' ?refs = [a]" "attribution_projection_ok a"
    "deriveOracleAttributionDigests sha (delta_of a) = Inr derived" "digests_match a derived"
    "as_string (get_prop (sealedContent a) ''contract_digest'') = referenceId c"
    "\<forall>e \<in> set (delta_of a). \<exists>d \<in> set declared. deltaMatchesScope e d"
    "\<forall>d \<in> set declared. \<exists>e \<in> set (delta_of a). deltaMatchesScope e d"
    "cand = Some (the (as_string (get_prop (sealedContent a) ''tree_after_oid'')),
                  the (as_string (get_prop (sealedContent a) ''candidate_diff_digest'')))"
    by (rule clean_attribution [OF clean c(4) view(1) [folded c(3)]])
  have "final_accepted ?refs" using clean_review_cycles(3) [OF clean view(2,3) [folded c(3)]] .
  then obtain review tree diff where r: "final_review ?refs = Some review" "cand = Some (tree, diff)"
    "get_prop (sealedContent review) ''input_tree_oid'' = JStr tree"
    "get_prop (sealedContent review) ''input_diff_digest'' = JStr diff"
    using clean_final_review [OF clean] by metis
  have oids: "as_string (get_prop (sealedContent a) ''tree_after_oid'') = Some tree"
    "as_string (get_prop (sealedContent a) ''candidate_diff_digest'') = Some diff"
    using a(2,8) r(2) by (auto simp: attribution_projection_ok_def test_string_def Let_def split: option.split_asm)
  obtain cleanup where e: "evidence_class ''cleanup_eligibility'' ?refs = [cleanup]"
    "get_prop (sealedContent cleanup) ''candidate_oid'' = get_prop (sealedContent a) ''commit_oid''"
    "get_prop (sealedContent cleanup) ''delivery_observed_oid'' = get_prop (sealedContent a) ''baseline_oid''"
    using clean_cleanup [OF clean a(1)] by metis
  note gates = clean_gate_candidate [OF clean [unfolded r(2)]]
  show ?thesis
    by (intro exI conjI) (rule c(1) view(1) a(1) a(3-7) oids r(1) r(3,4) e | use gates in blast)+
qed

theorem accepted_candidate_is_scoped_and_shared_witness:
  "\<exists>plan a. evaluateAttemptOracle mark_hash sample_projection = Inr plan
     \<and> of_kind ''commit_attribution'' (plan_references plan) = [a]
     \<and> (\<exists>review tree. final_review (plan_references plan) = Some review
          \<and> get_prop (sealedContent review) ''input_tree_oid'' = JStr tree
          \<and> as_string (get_prop (sealedContent a) ''tree_after_oid'') = Some tree)"
proof -
  obtain plan where p: "evaluateAttemptOracle mark_hash sample_projection = Inr plan" "plan_result plan = Accepted"
    by (rule sample_accepted)
  from accepted_candidate_is_scoped_and_shared [OF p] p show ?thesis by blast
qed

section \<open>Errors and persistence\<close>

text \<open>
  C33. The oracle throws only on a malformed header: with a version, the three identifiers of the scope
  and an array of references, whatever these contain, it returns a plan; without them it throws.
\<close>

theorem oracle_throws_only_on_header:
  "is_ok (evaluateAttemptOracle sha input) \<longleftrightarrow> header_ok input"
proof
  assume "is_ok (evaluateAttemptOracle sha input)"
  then show "header_ok input"
    by (auto simp: evaluateAttemptOracle_def header_ok_def is_ok_iff rbind_Inr_iff
        split: if_split_asm option.split_asm)
next
  assume "header_ok input"
  then obtain plan where "evaluateAttemptOracle sha input = Inr plan"
    by (rule evaluate_header)
  then show "is_ok (evaluateAttemptOracle sha input)" by simp
qed

text \<open>
  C34. Only a plan the oracle issued with intact references reaches the database, accepted or rejected,
  and its rows say what the plan says: the decision row carries the plan's result and output digest;
  there is one reference row per reference, numbered from zero; and each has exactly one non-null
  identity column, the one of its kind, holding the reference's identity.
\<close>

theorem persisted_rows_match_plan:
  assumes "materializeOraclePersistenceRows date_parses v identity = Inr rows"
    and "\<And>plan. v = Issued plan \<Longrightarrow> evaluateAttemptOracle sha input = Inr plan"
  shows "\<exists>plan. v = Issued plan \<and> referenceIntegrity plan
    \<and> map_of (decision_row rows) ''result'' = Some (result_js (plan_result plan))
    \<and> map_of (decision_row rows) ''output_digest'' = Some (JStr (outputDigest plan))
    \<and> length (reference_rows rows) = length (plan_references plan)
    \<and> (\<forall>i < length (plan_references plan).
         map_of (reference_rows rows ! i) ''ordinal'' = Some (JNum (int i))
         \<and> (\<exists>c ident. map_of REFERENCE_ID_COLUMN (referenceKind (plan_references plan ! i)) = Some c
              \<and> referenceId (plan_references plan ! i) = Some ident
              \<and> id_columns (reference_rows rows ! i) = [(c, JStr ident)]))"
proof -
  obtain plan decision where plan: "v = Issued plan" "referenceIntegrity plan"
    and rows: "reference_rows rows = map (reference_row decision (plan_scope plan)) (plan_references plan)"
    and decided: "map_of (decision_row rows) ''result'' = Some (result_js (plan_result plan))"
      "map_of (decision_row rows) ''output_digest'' = Some (JStr (outputDigest plan))"
    by (rule materialize_rows [OF assms(1)])
  note refs = exact_plan_references [OF assms(2) [OF plan(1)] plan(2)]
  have "map_of (reference_row decision (plan_scope plan) (plan_references plan ! i)) ''ordinal'' = Some (JNum (int i))"
    if "i < length (plan_references plan)" for i
    using refs(1) [OF that] by (simp add: reference_row_def nullable_int_def)
  moreover have "\<exists>c ident. map_of REFERENCE_ID_COLUMN (referenceKind (plan_references plan ! i)) = Some c
      \<and> referenceId (plan_references plan ! i) = Some ident
      \<and> id_columns (reference_row decision (plan_scope plan) (plan_references plan ! i)) = [(c, JStr ident)]"
    if "i < length (plan_references plan)" for i
    by (rule reference_row_column [OF refs(2,3) [OF that]]) blast
  ultimately show ?thesis using plan decided rows by simp
qed

definition sample_row_identity :: jsval where
  "sample_row_identity = JObj
     [(''oracleDecisionId'', JStr ''d''), (''idempotencyKey'', JStr ''k''),
      (''createdAt'', JStr ''2026-01-01T00:00:00Z'')]"

theorem persisted_rows_match_plan_witness:
  "\<exists>plan rows. evaluateAttemptOracle mark_hash sample_projection = Inr plan
     \<and> materializeOraclePersistenceRows (\<lambda>s. True) (Issued plan) sample_row_identity = Inr rows
     \<and> map_of (decision_row rows) ''result'' = Some (JStr ''accepted'')
     \<and> length (reference_rows rows) = length (plan_references plan)"
proof -
  obtain plan where p: "evaluateAttemptOracle mark_hash sample_projection = Inr plan" "plan_result plan = Accepted"
    "referenceIntegrity plan"
    by (rule sample_accepted)
  have "requiredText (get_prop sample_row_identity ''oracleDecisionId'') ''oracleDecisionId'' = Inr ''d''"
    "requiredText (get_prop sample_row_identity ''idempotencyKey'') ''idempotencyKey'' = Inr ''k''"
    "requiredText (get_prop sample_row_identity ''createdAt'') ''createdAt'' = Inr ''2026-01-01T00:00:00Z''"
    "utc_timestamp (\<lambda>s. True) ''2026-01-01T00:00:00Z''"
    by code_simp+
  moreover obtain reasons where "canonical_json (JArr (map JStr (plan_reasons plan))) = Inr reasons"
    using canonical_json_ok_iff [of "JArr (map JStr (plan_reasons plan))"] by (auto simp: is_ok_iff)
  ultimately obtain rows where rows: "materializeOraclePersistenceRows (\<lambda>s. True) (Issued plan) sample_row_identity = Inr rows"
    using p(3) by (simp add: materializeOraclePersistenceRows_def oraclePersistenceProjection_def)
  from persisted_rows_match_plan [OF rows, of mark_hash sample_projection] p rows show ?thesis
    by (auto simp: result_js_def)
qed

text \<open>
  C35. The output digest of a plan commits to the whole decision: two evaluations with the same output
  digest agree on the version, the scope, the result, the reasons and every field of every
  reference, sealed contents up to the order of their keys, provided the hash does not collide on
  the texts the two evaluations hash.
\<close>

theorem oracle_digest_commits:
  assumes "evaluateAttemptOracle sha input = Inr p" and "evaluateAttemptOracle sha input' = Inr q"
    and "outputDigest p = outputDigest q" and "inj_on sha (hashed_texts p \<union> hashed_texts q)"
  shows "plan_oracleVersion p = plan_oracleVersion q \<and> plan_scope p = plan_scope q
    \<and> plan_result p = plan_result q \<and> plan_reasons p = plan_reasons q
    \<and> map (\<lambda>r. key_normal (reference_js r)) (plan_references p)
      = map (\<lambda>r. key_normal (reference_js r)) (plan_references q)"
proof -
  have out: "key_normal (output_js (plan_oracleVersion p) (plan_scope p) (inputSetDigest p) (plan_result p) (plan_reasons p))
      = key_normal (output_js (plan_oracleVersion q) (plan_scope q) (inputSetDigest q) (plan_result q) (plan_reasons q))"
    using plan_digests(2) [OF assms(1)] plan_digests(2) [OF assms(2), folded assms(3)]
    by (rule digest_collision_free) (auto simp: hashed_texts_def intro: inj_onD [OF assms(4)])
  note same = output_js_inject [OF out]
  have "key_normal (input_set_js (plan_oracleVersion p) (plan_scope p) (plan_references p))
      = key_normal (input_set_js (plan_oracleVersion q) (plan_scope q) (plan_references q))"
    using plan_digests(1) [OF assms(1)] plan_digests(1) [OF assms(2), folded same(3)]
    by (rule digest_collision_free) (auto simp: hashed_texts_def intro: inj_onD [OF assms(4)])
  from input_set_js_inject [OF this] same show ?thesis by blast
qed

definition annotated_projection :: jsval where
  "annotated_projection = JObj
     [(''note'', JNull), (''oracleVersion'', get_prop sample_projection ''oracleVersion''),
      (''scope'', get_prop sample_projection ''scope''), (''references'', get_prop sample_projection ''references'')]"

theorem oracle_digest_commits_witness:
  "\<exists>p q. evaluateAttemptOracle (\<lambda>t. t) sample_projection = Inr p
     \<and> evaluateAttemptOracle (\<lambda>t. t) annotated_projection = Inr q
     \<and> plan_scope p = plan_scope q \<and> plan_result p = plan_result q"
proof -
  obtain p where p: "evaluateAttemptOracle (\<lambda>t. t) sample_projection = Inr p"
    by (rule evaluate_header [OF sample_header(1)])
  have "is_objectlike sample_projection" "is_objectlike annotated_projection"
    by (simp_all add: sample_projection_def annotated_projection_def is_objectlike_def)
  then have q: "evaluateAttemptOracle (\<lambda>t. t) annotated_projection = Inr p"
    using p unfolding evaluateAttemptOracle_def by (simp add: annotated_projection_def)
  have "inj_on (\<lambda>t. t) (hashed_texts p \<union> hashed_texts p)" by simp
  from oracle_digest_commits [OF p q refl this] p q show ?thesis by blast
qed

end
