(* ===== verification/Contract_Evidence.thy ===== *)
theory Contract_Evidence
  imports Ticket_Admission Oracle_Decision
begin

text \<open>
  A sealed contract between the two modules that read it: \<open>contracts/ticket-contract.ts\<close> parses it and
  hashes its canonical text, \<open>state/oracle.ts\<close> reads the parsed text again as evidence.
\<close>

section \<open>What the parser guarantees\<close>

lemma parsed_scope_entry:
  "parse_scope_entry repository names v = Inr (names', e) \<Longrightarrow>
     entry_path e \<noteq> [] \<and> (if change_kind e = Rename then from_path e \<noteq> None \<and> from_path e \<noteq> Some (entry_path e)
                         else from_path e = None)"
  by (auto simp: parse_scope_entry_def reader_ok canonicalRepoPath_def parse_from_path_def
      split: if_split_asm)

lemma parsed_scope:
  assumes "parseScope repository v = Inr (scope, eps)"
  shows "scope \<noteq> []" and "e \<in> set scope \<Longrightarrow> entry_path e \<noteq> [] \<and>
      (if change_kind e = Rename then from_path e \<noteq> None \<and> from_path e \<noteq> Some (entry_path e) else from_path e = None)"
proof -
  obtain vs names where vs: "vs \<noteq> []" and t: "traverse_state (parse_scope_entry repository) [] vs = Inr (names, scope)"
    using assms by (auto simp: parseScope_def reader_ok)
  show "scope \<noteq> []" using traverse_state_length [OF t] vs by auto
  have "list_all2 (\<lambda>v e. entry_path e \<noteq> [] \<and> (if change_kind e = Rename then from_path e \<noteq> None
      \<and> from_path e \<noteq> Some (entry_path e) else from_path e = None)) vs scope"
    using t by (rule traverse_state_all2) (rule parsed_scope_entry)
  then show "e \<in> set scope \<Longrightarrow> entry_path e \<noteq> [] \<and>
      (if change_kind e = Rename then from_path e \<noteq> None \<and> from_path e \<noteq> Some (entry_path e) else from_path e = None)"
    by (auto simp: list_all2_conv_all_nth in_set_conv_nth)
qed

lemma parsed_verifications:
  assumes "parseVerifications repository v = Inr vers"
  shows "vers \<noteq> []" and "distinct (map verification_id vers)"
proof -
  obtain vs names where vs: "vs \<noteq> []" and t: "traverse_state (parse_verification repository) [] vs = Inr (names, vers)"
    using assms by (auto simp: parseVerifications_def reader_ok)
  show "vers \<noteq> []" using traverse_state_length [OF t] vs by auto
  have "distinct (concat (map (\<lambda>x. [verification_id x]) vers)) \<and>
      set (concat (map (\<lambda>x. [verification_id x]) vers)) \<inter> set [] = {} \<and> names = [] @ concat (map (\<lambda>x. [verification_id x]) vers)"
    using t by (rule traverse_state_distinct) (auto simp: parse_verification_def reader_ok)
  then show "distinct (map verification_id vers)" by (simp add: concat_map_singleton)
qed

lemma parsed_budgets:
  "parseBudgets v = Inr b \<Longrightarrow> is_safe_int (max_review_cycles b) \<and> 0 \<le> max_review_cycles b
     \<and> is_safe_int (remediation_limit b) \<and> 0 \<le> remediation_limit b"
  by (auto simp: parseBudgets_def reader_ok)

lemma parsed_contract:
  assumes "parseContract sha256 repository v = Inr p"
  shows "distinct (depends_on (contract p))" and "[] \<notin> set (depends_on (contract p))"
    and "contract_scope (contract p) \<noteq> []"
    and "e \<in> set (contract_scope (contract p)) \<Longrightarrow> entry_path e \<noteq> [] \<and>
      (if change_kind e = Rename then from_path e \<noteq> None \<and> from_path e \<noteq> Some (entry_path e) else from_path e = None)"
    and "verifications (contract p) \<noteq> []" and "distinct (map verification_id (verifications (contract p)))"
    and "is_safe_int (max_review_cycles (budgets (contract p)))" and "0 \<le> max_review_cycles (budgets (contract p))"
    and "is_safe_int (remediation_limit (budgets (contract p)))" and "0 \<le> remediation_limit (budgets (contract p))"
    and "ticketContractDigest sha256 (contract_js (contract p)) = Inr (contract_digest (contract p))"
proof -
  obtain w u x where deps: "distinct (depends_on (contract p))" "list_all is_ticket_id (depends_on (contract p))"
    and scope: "parseScope repository w = Inr (contract_scope (contract p), endpoints p)"
    and vers: "parseVerifications repository u = Inr (verifications (contract p))"
    and budgets: "parseBudgets x = Inr (budgets (contract p))"
    and sealed: "ticketContractDigest sha256 (contract_js (contract p)) = Inr (contract_digest (contract p))"
    using assms by (auto simp: parseContract_def reader_ok split: if_split_asm)
  show "distinct (depends_on (contract p))" by (rule deps(1))
  show "[] \<notin> set (depends_on (contract p))" using deps(2) by (auto simp: list_all_iff is_ticket_id_def)
  show "contract_scope (contract p) \<noteq> []" by (rule parsed_scope(1) [OF scope])
  show "e \<in> set (contract_scope (contract p)) \<Longrightarrow> entry_path e \<noteq> [] \<and>
      (if change_kind e = Rename then from_path e \<noteq> None \<and> from_path e \<noteq> Some (entry_path e) else from_path e = None)"
    by (rule parsed_scope(2) [OF scope])
  show "verifications (contract p) \<noteq> []" "distinct (map verification_id (verifications (contract p)))"
    by (rule parsed_verifications [OF vers])+
  show "is_safe_int (max_review_cycles (budgets (contract p)))" "0 \<le> max_review_cycles (budgets (contract p))"
    "is_safe_int (remediation_limit (budgets (contract p)))" "0 \<le> remediation_limit (budgets (contract p))"
    using parsed_budgets [OF budgets] by blast+
  show "ticketContractDigest sha256 (contract_js (contract p)) = Inr (contract_digest (contract p))" by (rule sealed)
qed

section \<open>What the oracle reads\<close>

definition sealed_contract_js :: "TicketContract \<Rightarrow> jsval" where
  "sealed_contract_js c = without_digest (contract_js c)"

lemma sealed_contract_fields: "sealed_contract_js c = JObj (contract_fields c)"
  by (simp add: sealed_contract_js_def contract_js_def without_digest_def contract_fields_def)

lemma sealed_field:
  "get_prop (key_normal (sealed_contract_js c)) k = key_normal (get_prop (JObj (contract_fields c)) k)"
  unfolding sealed_contract_fields by (rule get_prop_key_normal) (simp add: contract_fields_def)

lemma sealed_budget:
  "get_prop (key_normal (budgets_js b)) k = key_normal (get_prop (budgets_js b) k)"
  unfolding budgets_js_def by (rule get_prop_key_normal) simp

lemma normal_strings: "key_normal (strings_js ss) = strings_js ss"
  by (simp add: strings_js_def comp_def)

lemma read_strings: "[] \<notin> set ss \<Longrightarrow> stringArray_oracle (strings_js ss) = Some ss"
  by (simp add: stringArray_oracle_def strings_js_def list_ex_iff comp_def)

lemma read_verification_ids:
  "Oracle.verification_ids (map (\<lambda>x. key_normal (verification_js x)) vers) = map verification_id vers"
proof -
  have "get_prop (key_normal (verification_js x)) ''id'' = JStr (verification_id x)" for x
    unfolding verification_js_def by (subst get_prop_key_normal) simp_all
  then show ?thesis by (induction vers) (simp_all add: Oracle.verification_ids_def)
qed

definition sealed_view :: "TicketScopeEntry \<Rightarrow> SealedScopeEntry" where
  "sealed_view e =
     \<lparr>sealed_path = entry_path e, sealed_changeKind = kind_name (change_kind e),
      sealed_directory = entry_directory e, sealed_fromPath = from_path e\<rparr>"

lemma read_scope_entry:
  assumes "entry_path e \<noteq> []"
    and "if change_kind e = Rename then from_path e \<noteq> None \<and> from_path e \<noteq> Some (entry_path e) else from_path e = None"
  shows "sealedScopeEntry (key_normal (entry_js e)) = Some (sealed_view e)"
proof -
  have get: "get_prop (key_normal (entry_js e)) k = key_normal (get_prop (entry_js e) k)" for k
    unfolding entry_js_def by (rule get_prop_key_normal) (auto split: option.split)
  have obj: "objectValue (key_normal (entry_js e)) = key_normal (entry_js e)"
    by (simp add: objectValue_def entry_js_def is_plain_object_def)
  have fields: "get_prop (key_normal (entry_js e)) ''path'' = JStr (entry_path e)"
    "get_prop (key_normal (entry_js e)) ''change_kind'' = JStr (kind_name (change_kind e))"
    "get_prop (key_normal (entry_js e)) ''directory'' = JBool (entry_directory e)"
    "as_string (get_prop (key_normal (entry_js e)) ''from_path'') = from_path e"
    unfolding get by (simp_all add: entry_js_def split: option.split)
  have kinds: "kind_name k \<in> set CHANGE_KIND_SET" "kind_name k = ''rename'' \<longleftrightarrow> k = Rename" for k
    by (cases k; simp add: CHANGE_KIND_SET_def)+
  show ?thesis
    using assms by (auto simp: sealedScopeEntry_def obj fields kinds sealed_view_def Let_def split: if_split_asm)
qed

lemma read_scope_entries:
  assumes "\<And>e. e \<in> set es \<Longrightarrow> entry_path e \<noteq> [] \<and>
      (if change_kind e = Rename then from_path e \<noteq> None \<and> from_path e \<noteq> Some (entry_path e) else from_path e = None)"
  shows "sealed_scope (map (\<lambda>e. key_normal (entry_js e)) es) = Some (map sealed_view es)"
proof -
  have "map sealedScopeEntry (map (\<lambda>e. key_normal (entry_js e)) es) = map (\<lambda>e. Some (sealed_view e)) es"
    using assms by (simp add: read_scope_entry)
  then show ?thesis by (auto simp: sealed_scope_def Let_def comp_def)
qed

text \<open>The view of a contract the oracle should get.\<close>

definition true_view :: "TicketContract \<Rightarrow> contract_view" where
  "true_view c =
     \<lparr>view_contractId = Some (contract_id c), view_dependencies = Some (depends_on c),
      view_remediationLimit = Some (remediation_limit (budgets c)),
      view_maxReviewCycles = Some (max_review_cycles (budgets c)),
      view_verificationIds = Some (map verification_id (verifications c)),
      view_scope = Some (map sealed_view (contract_scope c))\<rparr>"

lemma sealed_fields:
  "get_prop (key_normal (sealed_contract_js c)) ''id'' = JStr (contract_id c)"
  "get_prop (key_normal (sealed_contract_js c)) ''depends_on'' = strings_js (depends_on c)"
  "get_prop (key_normal (sealed_contract_js c)) ''budgets'' = key_normal (budgets_js (budgets c))"
  "get_prop (key_normal (sealed_contract_js c)) ''verifications''
     = JArr (map (\<lambda>x. key_normal (verification_js x)) (verifications c))"
  "get_prop (key_normal (sealed_contract_js c)) ''scope''
     = JArr (map (\<lambda>e. key_normal (entry_js e)) (contract_scope c))"
  unfolding sealed_field by (simp_all add: contract_fields_def normal_strings comp_def)

lemma budget_fields:
  "get_prop (objectValue (key_normal (budgets_js b))) ''remediation_limit'' = JNum (remediation_limit b)"
  "get_prop (objectValue (key_normal (budgets_js b))) ''max_review_cycles'' = JNum (max_review_cycles b)"
proof -
  have "objectValue (key_normal (budgets_js b)) = key_normal (budgets_js b)"
    by (simp add: objectValue_def budgets_js_def is_plain_object_def)
  then show "get_prop (objectValue (key_normal (budgets_js b))) ''remediation_limit'' = JNum (remediation_limit b)"
    "get_prop (objectValue (key_normal (budgets_js b))) ''max_review_cycles'' = JNum (max_review_cycles b)"
    by (simp_all add: sealed_budget, simp_all add: budgets_js_def)
qed

lemma read_sealed_contract:
  assumes "parseContract sha256 repository v = Inr p"
  shows "read_contract (key_normal (sealed_contract_js (contract p))) = true_view (contract p)"
  using parsed_contract [OF assms] read_scope_entries [of "contract_scope (contract p)"]
  by (simp add: read_contract_def sealed_fields budget_fields true_view_def read_strings read_verification_ids Let_def)

text \<open>
  C36. The oracle reads from a sealed contract what the contract module parsed: the digest it
  recomputes is the contract's own, every field it extracts is the field of the parsed contract, and
  the projection is valid exactly when the contract allows a review. So a contract with
  \<open>max_review_cycles\<close> zero, which the parser admits, makes every attempt at its ticket fail.
\<close>

theorem oracle_reads_parsed_contract:
  assumes "parseContract sha256 repository v = Inr p"
    and "sealedContent r = key_normal (sealed_contract_js (contract p))" and "sealedContentState r = Exact"
    and "referenceId r = contentDigest r"
  shows "digest sha256 (sealedContent r) = Inr (contract_digest (contract p))
    \<and> read_contract (sealedContent r) = true_view (contract p)
    \<and> (contract_projection_ok r \<longleftrightarrow> 1 \<le> max_review_cycles (budgets (contract p)))"
proof (intro conjI)
  note parsed = parsed_contract [OF assms(1)]
  show "digest sha256 (sealedContent r) = Inr (contract_digest (contract p))"
    using parsed(11) unfolding assms(2) digest_def canonical_json_normal
    by (auto simp: sealed_contract_js_def ticketContractDigest_def rbind_Inr_iff)
  show view: "read_contract (sealedContent r) = true_view (contract p)"
    unfolding assms(2) by (rule read_sealed_contract [OF assms(1)])
  have "exactly_sealed r" using assms(2,3) by (simp add: exactly_sealed_def sealed_contract_fields)
  moreover have "as_array (get_prop (sealedContent r) ''verifications'')
      = Some (map (\<lambda>x. key_normal (verification_js x)) (verifications (contract p)))"
    by (simp add: assms(2) sealed_fields)
  ultimately show "contract_projection_ok r \<longleftrightarrow> 1 \<le> max_review_cycles (budgets (contract p))"
    using parsed assms(4)
    by (auto simp: contract_projection_ok_def Let_def view true_view_def not_less Suc_le_eq)
qed

definition unreviewable_contract :: jsval where
  "unreviewable_contract = JObj
     [(''schema_version'', JStr ''1.0.0''), (''id'', JStr ''t01''), (''title'', JStr ''T''), (''description'', JStr ''D''),
      (''depends_on'', JArr []),
      (''scope'', JArr [JObj [(''path'', JStr ''src''), (''change_kind'', JStr ''modify''), (''directory'', JBool True)]]),
      (''interfaces'', JArr []),
      (''acceptance_criteria'', JArr [JObj [(''id'', JStr ''AC-1''), (''description'', JStr ''d''),
          (''interface_ids'', JArr []), (''verification_ids'', JArr [JStr ''V-1''])]]),
      (''verifications'', JArr [JObj [(''id'', JStr ''V-1''), (''executable'', JStr ''npm''), (''args'', JArr []),
          (''cwd_class'', JStr ''repository_root''), (''env_allowlist'', JArr []), (''timeout_ms'', JNum 9),
          (''network'', JStr ''deny''), (''writable_outputs'', JArr []), (''expected_exit_codes'', JArr [JNum 0])]]),
      (''budgets'', JObj [(''max_attempts'', JNum 3), (''max_review_cycles'', JNum 0), (''wall_clock_ms'', JNum 8),
          (''remediation_limit'', JNum 1)]),
      (''digest'', JStr (''sha256:'' @ zero_hash ''''))]"

lemma unreviewable_parsed:
  "case parseContract zero_hash None unreviewable_contract of
     Inl _ \<Rightarrow> False | Inr p \<Rightarrow> max_review_cycles (budgets (contract p)) = 0"
  by code_simp

definition sealed_reference :: "jsval \<Rightarrow> string \<Rightarrow> OracleEvaluatedReference" where
  "sealed_reference content d =
     \<lparr>ordinal = Some 1, referenceKind = ''ticket_contract'', referenceId = Some d, ref_runId = Some ''r'',
      ref_ticketInstanceId = Some ''t1'', ref_attemptId = None, ref_oracleVersion = Some RICKGENT_ORACLE_VERSION,
      contentDigest = Some d, resolvedContentDigest = Some d, sealedContent = content,
      sealedContentState = Exact, gate = None\<rparr>"

theorem oracle_reads_parsed_contract_witness:
  "\<exists>p. parseContract zero_hash None unreviewable_contract = Inr p
     \<and> \<not> contract_projection_ok
         (sealed_reference (key_normal (sealed_contract_js (contract p))) (contract_digest (contract p)))"
proof -
  obtain p where p: "parseContract zero_hash None unreviewable_contract = Inr p"
    and zero: "max_review_cycles (budgets (contract p)) = 0"
    using unreviewable_parsed by (auto split: sum.split_asm)
  let ?r = "sealed_reference (key_normal (sealed_contract_js (contract p))) (contract_digest (contract p))"
  have "sealedContent ?r = key_normal (sealed_contract_js (contract p))" "sealedContentState ?r = Exact"
    "referenceId ?r = contentDigest ?r"
    by (simp_all add: sealed_reference_def)
  from oracle_reads_parsed_contract [OF p this] p zero show ?thesis by auto
qed
end
