(* ===== verification/Transition_Authority.thy ===== *)
theory Transition_Authority
  imports Phase Js
begin

text \<open>
  The typed requests, the guards and the service-owned edges of
  \<open>orchestrator/src/state/transitions.ts\<close>. A transition commit can only be minted by one of the
  methods below (the class keeps its constructor behind a private symbol), so \<open>TransitionCommit\<close> is
  a record whose values the model builds with \<open>authorizedCommit\<close> alone.

  The methods return the commit they hand to the store. The last section shows that the typed
  methods and the generic \<open>commitAttemptEdge\<close> mint the same commits, all of them taken from the
  normative phase table.
\<close>

section \<open>Names\<close>

fun lifecycle_state_name :: "lifecycle_state \<Rightarrow> string" where
  "lifecycle_state_name Planned = ''planned''"
| "lifecycle_state_name Implementing = ''implementing''"
| "lifecycle_state_name ImplementationCaptured = ''implementation_captured''"
| "lifecycle_state_name Reviewing = ''reviewing''"
| "lifecycle_state_name Remediating = ''remediating''"
| "lifecycle_state_name RemediationCaptured = ''remediation_captured''"
| "lifecycle_state_name VerificationQueued = ''verification_queued''"
| "lifecycle_state_name Verifying = ''verifying''"
| "lifecycle_state_name Converging = ''converging''"
| "lifecycle_state_name CleanupPending = ''cleanup_pending''"
| "lifecycle_state_name OracleEvaluation = ''oracle_evaluation''"
| "lifecycle_state_name FailedClean = ''failed_clean''"
| "lifecycle_state_name Quarantined = ''quarantined''"
| "lifecycle_state_name Verified = ''verified''"
| "lifecycle_state_name Active = ''active''"
| "lifecycle_state_name Failed = ''failed''"
| "lifecycle_state_name ReadyForDelivery = ''ready_for_delivery''"
| "lifecycle_state_name DeliveryFailed = ''delivery_failed''"
| "lifecycle_state_name Delivered = ''delivered''"
| "lifecycle_state_name (OtherState s) = s"

fun service_name :: "service \<Rightarrow> string" where
  "service_name RunAllocationService = ''RunAllocationService''"
| "service_name RetryAllocationService = ''RetryAllocationService''"
| "service_name AttemptLifecycleService = ''AttemptLifecycleService''"
| "service_name ReviewService = ''ReviewService''"
| "service_name RemediationService = ''RemediationService''"
| "service_name VerificationService = ''VerificationService''"
| "service_name CleanupService = ''CleanupService''"
| "service_name TicketFinalizationService = ''TicketFinalizationService''"
| "service_name RunLifecycleService = ''RunLifecycleService''"
| "service_name RunFinalizationService = ''RunFinalizationService''"
| "service_name DeliveryService = ''DeliveryService''"
| "service_name (OtherService s) = s"

fun phase_role_name :: "phase_role \<Rightarrow> string" where
  "phase_role_name Worker = ''worker''"
| "phase_role_name Reviewer = ''reviewer''"
| "phase_role_name Remediator = ''remediator''"
| "phase_role_name Verifier = ''verifier''"
| "phase_role_name Cleanup = ''cleanup''"
| "phase_role_name Finalizer = ''finalizer''"

section \<open>Requests\<close>

datatype TransitionEntityKind = RunEntity | TicketEntity | AttemptEntity

fun entity_kind_name :: "TransitionEntityKind \<Rightarrow> string" where
  "entity_kind_name RunEntity = ''run''"
| "entity_kind_name TicketEntity = ''ticket''"
| "entity_kind_name AttemptEntity = ''attempt''"

record InlineTransitionEvidence =
  ie_contextId :: string
  ie_producerService :: service
  ie_scope :: string
  ie_schemaVersion :: string
  ie_payload :: jsval
  ie_idempotencyKey :: string

text \<open>A reference names existing evidence by its id or carries it inline.\<close>

datatype TransitionEvidenceReference =
    ExistingEvidence string string
  | InlineEvidence string InlineTransitionEvidence

record TransitionRequest =
  tr_expectedVersion :: int
  tr_ownerContextDigest :: string
  tr_idempotencyKey :: string
  tr_evidence :: "TransitionEvidenceReference list"

record RunTransitionRequest = TransitionRequest +
  tr_runId :: string

record TicketTransitionRequest = TransitionRequest +
  tr_ticketInstanceId :: string

record AttemptTransitionRequest = TransitionRequest +
  tr_attemptId :: string

section \<open>Guards\<close>

datatype cleanup_outcome = OutcomeFailedClean | OutcomeQuarantined

fun cleanup_outcome_name :: "cleanup_outcome \<Rightarrow> string" where
  "cleanup_outcome_name OutcomeFailedClean = ''failed_clean''"
| "cleanup_outcome_name OutcomeQuarantined = ''quarantined''"

datatype TransitionGuard =
    RunInitialAttempt string
  | TicketAttemptAllocation string bool
  | LiveLease string
  | ExitedProcess string
  | PhaseContext string string
  | ReviewVerdict string string
  | RemediationDone string
  | GatesSelected "string list"
  | CleanupBegin "string option"
  | CleanupDone string cleanup_outcome
  | OraclePromotion string string
  | VerifiedPromotion string string string
  | TicketAttemptCleanup string
  | TicketFailure string string bool
  | TicketFinalization string string string string
  | RunCleanupBegin string
  | RunCleanupComplete string
  | RunFailure string
  | RunReady
  | DeliveryDone string string

text \<open>The guard as the object its canonical text is taken of.\<close>

fun guard_js :: "TransitionGuard \<Rightarrow> jsval" where
  "guard_js (RunInitialAttempt a) = JObj [(''kind'', JStr ''run_initial_attempt''), (''attemptId'', JStr a)]"
| "guard_js (TicketAttemptAllocation a r) =
     JObj [(''kind'', JStr ''ticket_attempt_allocation''), (''attemptId'', JStr a), (''retry'', JBool r)]"
| "guard_js (LiveLease l) = JObj [(''kind'', JStr ''live_lease''), (''ownershipId'', JStr l)]"
| "guard_js (ExitedProcess p) = JObj [(''kind'', JStr ''process_receipt''), (''processReceiptId'', JStr p)]"
| "guard_js (PhaseContext c r) =
     JObj [(''kind'', JStr ''execution_context''), (''contextId'', JStr c), (''expectedRole'', JStr r)]"
| "guard_js (ReviewVerdict i v) =
     JObj [(''kind'', JStr ''review_record''), (''reviewRecordId'', JStr i), (''verdict'', JStr v)]"
| "guard_js (RemediationDone i) =
     JObj [(''kind'', JStr ''remediation_record''), (''remediationRecordId'', JStr i)]"
| "guard_js (GatesSelected ids) =
     JObj [(''kind'', JStr ''gate_results''), (''gateResultIds'', JArr (map JStr ids))]"
| "guard_js (CleanupBegin None) = JObj [(''kind'', JStr ''cleanup_pending'')]"
| "guard_js (CleanupBegin (Some c)) =
     JObj [(''kind'', JStr ''cleanup_pending''), (''commitAttributionId'', JStr c)]"
| "guard_js (CleanupDone c out) =
     JObj [(''kind'', JStr ''cleanup_record''), (''cleanupRecordId'', JStr c),
           (''outcome'', JStr (cleanup_outcome_name out))]"
| "guard_js (OraclePromotion d p) =
     JObj [(''kind'', JStr ''oracle_promotion''), (''oracleDecisionId'', JStr d), (''promotionIntentId'', JStr p)]"
| "guard_js (VerifiedPromotion d p c) =
     JObj [(''kind'', JStr ''verified_promotion''), (''oracleDecisionId'', JStr d),
           (''promotionIntentId'', JStr p), (''cleanupRecordId'', JStr c)]"
| "guard_js (TicketAttemptCleanup a) = JObj [(''kind'', JStr ''ticket_attempt_cleanup''), (''attemptId'', JStr a)]"
| "guard_js (TicketFailure a c q) =
     JObj [(''kind'', JStr ''ticket_failure''), (''attemptId'', JStr a), (''cleanupRecordId'', JStr c),
           (''quarantined'', JBool q)]"
| "guard_js (TicketFinalization a c d p) =
     JObj [(''kind'', JStr ''ticket_finalization''), (''attemptId'', JStr a), (''cleanupRecordId'', JStr c),
           (''oracleDecisionId'', JStr d), (''promotionIntentId'', JStr p)]"
| "guard_js (RunCleanupBegin a) = JObj [(''kind'', JStr ''run_cleanup_begin''), (''attemptId'', JStr a)]"
| "guard_js (RunCleanupComplete c) =
     JObj [(''kind'', JStr ''run_cleanup_complete''), (''cleanupRecordId'', JStr c)]"
| "guard_js (RunFailure c) = JObj [(''kind'', JStr ''run_failure''), (''cleanupRecordId'', JStr c)]"
| "guard_js RunReady = JObj [(''kind'', JStr ''run_ready'')]"
| "guard_js (DeliveryDone d v) =
     JObj [(''kind'', JStr ''delivery_record''), (''deliveryRecordId'', JStr d), (''decision'', JStr v)]"

section \<open>Commits\<close>

record TransitionCommit =
  tc_entityKind :: TransitionEntityKind
  tc_entityId :: string
  tc_fromState :: lifecycle_state
  tc_toState :: lifecycle_state
  tc_ownerService :: service
  tc_expectedVersion :: int
  tc_ownerContextDigest :: string
  tc_idempotencyKey :: string
  tc_evidence :: "TransitionEvidenceReference list"
  tc_guard :: TransitionGuard

definition authorizedCommit ::
  "TransitionEntityKind \<Rightarrow> string \<Rightarrow> lifecycle_state \<Rightarrow> lifecycle_state \<Rightarrow> service
    \<Rightarrow> 'a TransitionRequest_scheme \<Rightarrow> TransitionGuard \<Rightarrow> TransitionCommit" where
  "authorizedCommit kind entity f t owner request guard =
     \<lparr>tc_entityKind = kind, tc_entityId = entity, tc_fromState = f, tc_toState = t,
      tc_ownerService = owner, tc_expectedVersion = tr_expectedVersion request,
      tc_ownerContextDigest = tr_ownerContextDigest request,
      tc_idempotencyKey = tr_idempotencyKey request, tc_evidence = tr_evidence request,
      tc_guard = guard\<rparr>"

text \<open>The last record fields of the typed requests are the further arguments of each method.\<close>

definition activateRun :: "RunTransitionRequest \<Rightarrow> string \<Rightarrow> TransitionCommit" where
  "activateRun request initialAttemptId =
     authorizedCommit RunEntity (tr_runId request) Planned Active RunAllocationService request
       (RunInitialAttempt initialAttemptId)"

definition activateInitialTicket :: "TicketTransitionRequest \<Rightarrow> string \<Rightarrow> TransitionCommit" where
  "activateInitialTicket request attempt =
     authorizedCommit TicketEntity (tr_ticketInstanceId request) Planned Active RunAllocationService request
       (TicketAttemptAllocation attempt False)"

definition activateRetryTicket :: "TicketTransitionRequest \<Rightarrow> string \<Rightarrow> TransitionCommit" where
  "activateRetryTicket request attempt =
     authorizedCommit TicketEntity (tr_ticketInstanceId request) CleanupPending Active RetryAllocationService
       request (TicketAttemptAllocation attempt True)"

definition startAttempt :: "AttemptTransitionRequest \<Rightarrow> string \<Rightarrow> TransitionCommit" where
  "startAttempt request ownership =
     authorizedCommit AttemptEntity (tr_attemptId request) Planned Implementing AttemptLifecycleService
       request (LiveLease ownership)"

definition captureImplementation :: "AttemptTransitionRequest \<Rightarrow> string \<Rightarrow> TransitionCommit" where
  "captureImplementation request receipt =
     authorizedCommit AttemptEntity (tr_attemptId request) Implementing ImplementationCaptured
       AttemptLifecycleService request (ExitedProcess receipt)"

definition beginReview :: "AttemptTransitionRequest \<Rightarrow> string \<Rightarrow> TransitionCommit" where
  "beginReview request ctx =
     authorizedCommit AttemptEntity (tr_attemptId request) ImplementationCaptured Reviewing ReviewService
       request (PhaseContext ctx ''reviewer'')"

definition queueVerification :: "AttemptTransitionRequest \<Rightarrow> string \<Rightarrow> TransitionCommit" where
  "queueVerification request review =
     authorizedCommit AttemptEntity (tr_attemptId request) Reviewing VerificationQueued ReviewService
       request (ReviewVerdict review ''accepted'')"

definition beginRemediation :: "AttemptTransitionRequest \<Rightarrow> string \<Rightarrow> TransitionCommit" where
  "beginRemediation request review =
     authorizedCommit AttemptEntity (tr_attemptId request) Reviewing Remediating ReviewService
       request (ReviewVerdict review ''rejected'')"

definition captureRemediation :: "AttemptTransitionRequest \<Rightarrow> string \<Rightarrow> TransitionCommit" where
  "captureRemediation request remediation =
     authorizedCommit AttemptEntity (tr_attemptId request) Remediating RemediationCaptured RemediationService
       request (RemediationDone remediation)"

definition beginReviewAfterRemediation :: "AttemptTransitionRequest \<Rightarrow> string \<Rightarrow> TransitionCommit" where
  "beginReviewAfterRemediation request ctx =
     authorizedCommit AttemptEntity (tr_attemptId request) RemediationCaptured Reviewing ReviewService
       request (PhaseContext ctx ''reviewer'')"

definition beginVerification :: "AttemptTransitionRequest \<Rightarrow> string \<Rightarrow> TransitionCommit" where
  "beginVerification request ctx =
     authorizedCommit AttemptEntity (tr_attemptId request) VerificationQueued Verifying VerificationService
       request (PhaseContext ctx ''verifier'')"

definition completeVerification :: "AttemptTransitionRequest \<Rightarrow> string list \<Rightarrow> TransitionCommit" where
  "completeVerification request gates =
     authorizedCommit AttemptEntity (tr_attemptId request) Verifying Converging VerificationService
       request (GatesSelected gates)"

definition beginAttemptCleanup :: "AttemptTransitionRequest \<Rightarrow> string option \<Rightarrow> TransitionCommit" where
  "beginAttemptCleanup request attribution =
     authorizedCommit AttemptEntity (tr_attemptId request) Converging CleanupPending AttemptLifecycleService
       request (CleanupBegin attribution)"

definition markAttemptFailedClean :: "AttemptTransitionRequest \<Rightarrow> string \<Rightarrow> TransitionCommit" where
  "markAttemptFailedClean request cleanup =
     authorizedCommit AttemptEntity (tr_attemptId request) CleanupPending FailedClean CleanupService
       request (CleanupDone cleanup OutcomeFailedClean)"

definition quarantineAttempt :: "AttemptTransitionRequest \<Rightarrow> string \<Rightarrow> TransitionCommit" where
  "quarantineAttempt request cleanup =
     authorizedCommit AttemptEntity (tr_attemptId request) CleanupPending Quarantined CleanupService
       request (CleanupDone cleanup OutcomeQuarantined)"

definition beginTicketCleanup :: "TicketTransitionRequest \<Rightarrow> string \<Rightarrow> TransitionCommit" where
  "beginTicketCleanup request attempt =
     authorizedCommit TicketEntity (tr_ticketInstanceId request) Active CleanupPending AttemptLifecycleService
       request (TicketAttemptCleanup attempt)"

definition failTicket :: "TicketTransitionRequest \<Rightarrow> string \<Rightarrow> string \<Rightarrow> TransitionCommit" where
  "failTicket request attempt cleanup =
     authorizedCommit TicketEntity (tr_ticketInstanceId request) CleanupPending Failed CleanupService
       request (TicketFailure attempt cleanup False)"

definition quarantineTicket :: "TicketTransitionRequest \<Rightarrow> string \<Rightarrow> string \<Rightarrow> TransitionCommit" where
  "quarantineTicket request attempt cleanup =
     authorizedCommit TicketEntity (tr_ticketInstanceId request) CleanupPending Quarantined CleanupService
       request (TicketFailure attempt cleanup True)"

definition beginRunCleanup :: "RunTransitionRequest \<Rightarrow> string \<Rightarrow> TransitionCommit" where
  "beginRunCleanup request attempt =
     authorizedCommit RunEntity (tr_runId request) Active CleanupPending RunLifecycleService
       request (RunCleanupBegin attempt)"

definition reactivateRun :: "RunTransitionRequest \<Rightarrow> string \<Rightarrow> TransitionCommit" where
  "reactivateRun request cleanup =
     authorizedCommit RunEntity (tr_runId request) CleanupPending Active RunLifecycleService
       request (RunCleanupComplete cleanup)"

definition finalizeActiveRunFailure :: "RunTransitionRequest \<Rightarrow> string \<Rightarrow> TransitionCommit" where
  "finalizeActiveRunFailure request cleanup =
     authorizedCommit RunEntity (tr_runId request) Active Failed RunFinalizationService
       request (RunFailure cleanup)"

definition finalizeFailedRun :: "RunTransitionRequest \<Rightarrow> string \<Rightarrow> TransitionCommit" where
  "finalizeFailedRun request cleanup =
     authorizedCommit RunEntity (tr_runId request) CleanupPending Failed RunFinalizationService
       request (RunFailure cleanup)"

definition finalizeReadyRun :: "RunTransitionRequest \<Rightarrow> TransitionCommit" where
  "finalizeReadyRun request =
     authorizedCommit RunEntity (tr_runId request) Active ReadyForDelivery RunFinalizationService
       request RunReady"

section \<open>The generic attempt edge\<close>

text \<open>
  \<open>commitAttemptEdge\<close>: the guard comes from the edge the phase table declares and from the
  dedicated operands of the request. The error is the \<open>TypeError\<close> thrown before the store is
  reached.
\<close>

record AttemptEdgeRequest = AttemptTransitionRequest +
  ae_from :: lifecycle_state
  ae_to :: lifecycle_state
  ae_ownerService :: service
  ae_guard :: "TransitionGuard option"
  ae_contextId :: "string option"
  ae_gateResultIds :: "string list option"
  ae_commitAttributionId :: "string option"

datatype edge_error = EdgeUndeclared | OperandMissing | GuardUnsupported

definition deriveEdgeGuard ::
  "lifecycle_state \<Rightarrow> lifecycle_state \<Rightarrow> AttemptEdgeRequest \<Rightarrow> (edge_error, TransitionGuard) result" where
  "deriveEdgeGuard f t request =
     (case legalPhaseEdge f t of
        None \<Rightarrow> Inl EdgeUndeclared
      | Some e \<Rightarrow>
          (case pe_guard e of
             GExecutionContext \<Rightarrow>
               (case ae_contextId request of
                  None \<Rightarrow> Inl OperandMissing
                | Some ctx \<Rightarrow>
                    if ctx = [] then Inl OperandMissing
                    else Inr (PhaseContext ctx (phase_role_name (pe_role e))))
           | GGateResults \<Rightarrow>
               (case ae_gateResultIds request of
                  None \<Rightarrow> Inl OperandMissing
                | Some ids \<Rightarrow> if ids = [] then Inl OperandMissing else Inr (GatesSelected ids))
           | GCleanupPending \<Rightarrow> Inr (CleanupBegin (ae_commitAttributionId request))
           | GBudgetExhausted \<Rightarrow> Inr (CleanupBegin (ae_commitAttributionId request))
           | _ \<Rightarrow> Inl GuardUnsupported))"

definition commitAttemptEdge :: "AttemptEdgeRequest \<Rightarrow> (edge_error, TransitionCommit) result" where
  "commitAttemptEdge request =
     rbind (deriveEdgeGuard (ae_from request) (ae_to request) request) (\<lambda>guard.
       Inr (authorizedCommit AttemptEntity (tr_attemptId request) (ae_from request) (ae_to request)
              (ae_ownerService request) request guard))"

section \<open>Commits of promotion and delivery\<close>

text \<open>
  \<open>PromotionAuthority.finalize\<close> mints the three transitions of a finalization, and
  \<open>DeliveryAuthority.recordDecision\<close> the terminal transition of a run.
\<close>

definition oracleEvaluationCommit :: "AttemptTransitionRequest \<Rightarrow> string \<Rightarrow> string \<Rightarrow> TransitionCommit" where
  "oracleEvaluationCommit request decision promotion =
     authorizedCommit AttemptEntity (tr_attemptId request) CleanupPending OracleEvaluation
       TicketFinalizationService request (OraclePromotion decision promotion)"

definition verifiedAttemptCommit ::
  "AttemptTransitionRequest \<Rightarrow> string \<Rightarrow> string \<Rightarrow> string \<Rightarrow> TransitionCommit" where
  "verifiedAttemptCommit request decision promotion cleanup =
     authorizedCommit AttemptEntity (tr_attemptId request) OracleEvaluation Verified
       TicketFinalizationService request (VerifiedPromotion decision promotion cleanup)"

definition readyTicketCommit ::
  "TicketTransitionRequest \<Rightarrow> string \<Rightarrow> string \<Rightarrow> string \<Rightarrow> string \<Rightarrow> TransitionCommit" where
  "readyTicketCommit request attempt cleanup decision promotion =
     authorizedCommit TicketEntity (tr_ticketInstanceId request) CleanupPending ReadyForDelivery
       TicketFinalizationService request (TicketFinalization attempt cleanup decision promotion)"

datatype delivery_decision = DecidedDelivered | DecidedFailed

fun delivery_decision_state :: "delivery_decision \<Rightarrow> lifecycle_state" where
  "delivery_decision_state DecidedDelivered = Delivered"
| "delivery_decision_state DecidedFailed = DeliveryFailed"

definition deliveryTerminalCommit :: "RunTransitionRequest \<Rightarrow> string \<Rightarrow> delivery_decision \<Rightarrow> TransitionCommit" where
  "deliveryTerminalCommit request record_id decision =
     authorizedCommit RunEntity (tr_runId request) ReadyForDelivery (delivery_decision_state decision)
       DeliveryService request
       (DeliveryDone record_id (lifecycle_state_name (delivery_decision_state decision)))"

section \<open>Minted commits\<close>

text \<open>The commits that exist: one rule for each method that mints one.\<close>

inductive minted :: "TransitionCommit \<Rightarrow> bool" where
  "minted (activateRun rr a)"
| "minted (activateInitialTicket tr a)"
| "minted (activateRetryTicket tr a)"
| "minted (startAttempt ar x)"
| "minted (captureImplementation ar x)"
| "minted (beginReview ar x)"
| "minted (queueVerification ar x)"
| "minted (beginRemediation ar x)"
| "minted (captureRemediation ar x)"
| "minted (beginReviewAfterRemediation ar x)"
| "minted (beginVerification ar x)"
| "minted (completeVerification ar ids)"
| "minted (beginAttemptCleanup ar attribution)"
| "minted (markAttemptFailedClean ar x)"
| "minted (quarantineAttempt ar x)"
| "minted (beginTicketCleanup tr a)"
| "minted (failTicket tr a x)"
| "minted (quarantineTicket tr a x)"
| "minted (beginRunCleanup rr a)"
| "minted (reactivateRun rr x)"
| "minted (finalizeActiveRunFailure rr x)"
| "minted (finalizeFailedRun rr x)"
| "minted (finalizeReadyRun rr)"
| "minted (oracleEvaluationCommit ar d p)"
| "minted (verifiedAttemptCommit ar d p x)"
| "minted (readyTicketCommit tr a x d p)"
| "minted (deliveryTerminalCommit rr x decision)"
| "commitAttemptEdge er = Inr c \<Longrightarrow> minted c"

text \<open>The guard a phase edge asks for, against the guard of a commit.\<close>

fun guard_fits :: "TransitionGuard \<Rightarrow> phase_edge \<Rightarrow> bool" where
  "guard_fits (LiveLease _) e = (pe_guard e = GLiveLease)"
| "guard_fits (ExitedProcess _) e = (pe_guard e = GProcessReceipt)"
| "guard_fits (PhaseContext _ role) e = (pe_guard e = GExecutionContext \<and> role = phase_role_name (pe_role e))"
| "guard_fits (ReviewVerdict _ v) e =
     (pe_guard e = GReviewAccepted \<and> v = ''accepted'' \<or> pe_guard e = GReviewRejected \<and> v = ''rejected'')"
| "guard_fits (RemediationDone _) e = (pe_guard e = GRemediationRecord)"
| "guard_fits (GatesSelected _) e = (pe_guard e = GGateResults)"
| "guard_fits (CleanupBegin _) e = (pe_guard e = GCleanupPending \<or> pe_guard e = GBudgetExhausted)"
| "guard_fits (CleanupDone _ OutcomeFailedClean) e = (pe_guard e = GCleanupFailed)"
| "guard_fits (CleanupDone _ OutcomeQuarantined) e = (pe_guard e = GCleanupQuarantined)"
| "guard_fits (OraclePromotion _ _) e = (pe_guard e = GOraclePromotion)"
| "guard_fits (VerifiedPromotion _ _ _) e = (pe_guard e = GVerifiedPromotion)"
| "guard_fits _ e = False"

definition entity_catalog :: "TransitionEntityKind \<Rightarrow> declared_edge list" where
  "entity_catalog kind =
     (case kind of RunEntity \<Rightarrow> RUN_TRANSITIONS | TicketEntity \<Rightarrow> TICKET_TRANSITIONS | AttemptEntity \<Rightarrow> ATTEMPT_TRANSITIONS)"

lemmas commit_fields = authorizedCommit_def activateRun_def activateInitialTicket_def
  activateRetryTicket_def startAttempt_def captureImplementation_def beginReview_def
  queueVerification_def beginRemediation_def captureRemediation_def beginReviewAfterRemediation_def
  beginVerification_def completeVerification_def beginAttemptCleanup_def markAttemptFailedClean_def
  quarantineAttempt_def beginTicketCleanup_def failTicket_def quarantineTicket_def
  beginRunCleanup_def reactivateRun_def finalizeActiveRunFailure_def finalizeFailedRun_def
  finalizeReadyRun_def oracleEvaluationCommit_def verifiedAttemptCommit_def readyTicketCommit_def
  deliveryTerminalCommit_def

lemma derived_guard_fits:
  "deriveEdgeGuard f t request = Inr guard \<Longrightarrow> \<exists>e. legalPhaseEdge f t = Some e \<and> guard_fits guard e"
  by (auto simp: deriveEdgeGuard_def split: option.splits phase_guard.splits if_split_asm)

lemma derived_guard_ignores_caller:
  "deriveEdgeGuard f t (request\<lparr>ae_guard := g\<rparr>) = deriveEdgeGuard f t request"
  unfolding deriveEdgeGuard_def by (auto split: option.split phase_guard.split)

lemma generic_edge_cases:
  assumes "commitAttemptEdge request = Inr c"
  shows "tc_entityKind c = AttemptEntity \<and> tc_entityId c = tr_attemptId request
    \<and> tc_fromState c = ae_from request \<and> tc_toState c = ae_to request
    \<and> tc_ownerService c = ae_ownerService request
    \<and> deriveEdgeGuard (ae_from request) (ae_to request) request = Inr (tc_guard c)"
  using assms by (auto simp: commitAttemptEdge_def authorizedCommit_def rbind_Inr_iff)

text \<open>Evaluating the lookups of the phase table and of the catalogs.\<close>

lemmas table_lookup = legalPhaseEdge_def PHASE_TRANSITION_TABLE_def

lemmas catalog_lookup = entity_catalog_def RUN_TRANSITIONS_def TICKET_TRANSITIONS_def
  ATTEMPT_TRANSITIONS_def find_edge_def edge_def

lemma attempt_edge_guarded:
  assumes "minted c" and "tc_entityKind c = AttemptEntity"
  shows "\<exists>e. legalPhaseEdge (tc_fromState c) (tc_toState c) = Some e \<and> guard_fits (tc_guard c) e"
  using assms
proof cases
  case (28 er)
  then show ?thesis using generic_edge_cases [OF 28] derived_guard_fits by metis
qed (simp_all add: commit_fields table_lookup)

text \<open>
  C38. Every commit that can be minted follows the frozen contract. An attempt commit goes along an edge
  of the phase table and carries exactly the guard that edge declares, for a context guard with the
  role the edge declares, whichever method minted it; a run or ticket commit goes along an edge of
  its catalog that its service owns. The guard a caller passes to the generic edge method has no
  influence.
\<close>

theorem minted_commits_follow_contract:
  assumes "minted c"
  shows "(tc_entityKind c = AttemptEntity
            \<longrightarrow> (\<exists>e. legalPhaseEdge (tc_fromState c) (tc_toState c) = Some e \<and> guard_fits (tc_guard c) e))
    \<and> (tc_entityKind c \<noteq> AttemptEntity
            \<longrightarrow> map_option de_owner (find_edge (entity_catalog (tc_entityKind c)) (tc_fromState c) (tc_toState c))
                = Some (tc_ownerService c))
    \<and> commitAttemptEdge (er\<lparr>ae_guard := Some (tc_guard c)\<rparr>) = commitAttemptEdge er"
proof (intro conjI impI)
  show "\<exists>e. legalPhaseEdge (tc_fromState c) (tc_toState c) = Some e \<and> guard_fits (tc_guard c) e"
    if "tc_entityKind c = AttemptEntity"
    using assms that by (rule attempt_edge_guarded)
  show "map_option de_owner (find_edge (entity_catalog (tc_entityKind c)) (tc_fromState c) (tc_toState c))
      = Some (tc_ownerService c)" if "tc_entityKind c \<noteq> AttemptEntity"
    using assms
  proof cases
    case (27 rr x decision)
    then show ?thesis by (cases decision) (simp_all add: commit_fields catalog_lookup)
  next
    case (28 er)
    with that generic_edge_cases [OF 28] show ?thesis by simp
  qed (use that in \<open>simp_all add: commit_fields catalog_lookup\<close>)
  show "commitAttemptEdge (er\<lparr>ae_guard := Some (tc_guard c)\<rparr>) = commitAttemptEdge er"
    by (simp add: commitAttemptEdge_def authorizedCommit_def derived_guard_ignores_caller)
qed

definition sample_request :: AttemptTransitionRequest where
  "sample_request =
     \<lparr>tr_expectedVersion = 6, tr_ownerContextDigest = ''d'', tr_idempotencyKey = ''k'',
      tr_evidence = [], tr_attemptId = ''a''\<rparr>"

lemma minted_commits_follow_contract_witness:
  "\<exists>e. legalPhaseEdge RemediationCaptured Reviewing = Some e
     \<and> guard_fits (tc_guard (beginReviewAfterRemediation sample_request ''ctx'')) e
     \<and> \<not> guard_fits (RemediationDone ''rm'') e"
proof -
  have "minted (beginReviewAfterRemediation sample_request ''ctx'')" by (rule minted.intros)
  from minted_commits_follow_contract [OF this]
  obtain e where e: "legalPhaseEdge RemediationCaptured Reviewing = Some e"
    "guard_fits (tc_guard (beginReviewAfterRemediation sample_request ''ctx'')) e"
    by (auto simp: commit_fields)
  then have "pe_guard e = GExecutionContext" by (simp add: commit_fields)
  with e show ?thesis by auto
qed

end
