(* ===== verification/Attempt_Workspace.thy ===== *)
theory Attempt_Workspace
  imports Canonical_Json Paths Schema
begin

text \<open>
  The pure part of \<open>orchestrator/src/git/attempt-workspace.ts\<close>: the plan of refs, paths and resource
  identities an attempt owns. No path or ref component of the plan comes from a caller; the plan is
  derived from the persisted lineage of the attempt, with the SHA-256 function as a parameter. The
  lemmas show that the paths of one plan stay inside the resource directory and that the plans of
  two attempts share no path, so that cleaning one attempt up cannot touch another.

  The file system checks, Git commands and receipts of the module are not modelled.
\<close>

fun resource_kind_text :: "resource_kind \<Rightarrow> string" where
  "resource_kind_text DeliveryRef = ''delivery_ref''"
| "resource_kind_text AttemptRef = ''attempt_ref''"
| "resource_kind_text Worktree = ''worktree''"
| "resource_kind_text IsolatedIndex = ''isolated_index''"
| "resource_kind_text PolicyContext = ''policy_context''"
| "resource_kind_text PolicyBundle = ''policy_bundle''"
| "resource_kind_text ProcessGroup = ''process_group''"
| "resource_kind_text StdoutFile = ''stdout''"
| "resource_kind_text StderrFile = ''stderr''"
| "resource_kind_text VerificationOutput = ''verification_output''"
| "resource_kind_text SalvageArchive = ''salvage_archive''"

text \<open>The part of \<open>StateLocation\<close> the derivation reads.\<close>

record StateLocation =
  sl_repositoryId :: string
  sl_resourceDirectory :: string

record AttemptOwnershipLineage =
  ol_repositoryId :: string
  ol_runId :: string
  ol_ticketInstanceId :: string
  ol_ticketId :: string
  ol_attemptId :: string
  ol_attemptNumber :: int
  ol_contractDigest :: string
  ol_resourceIdentityVersion :: string
  ol_deliveryBaselineOid :: string
  ol_deliveryRef :: string

record AttemptResourceIdentity =
  ri_resourceClaimId :: string
  ri_slot :: resource_kind
  ri_kind :: resource_kind
  ri_canonicalIdentity :: string
  ri_identityDigest :: string

record AttemptWorkspacePlan =
  wp_lineage :: AttemptOwnershipLineage
  wp_allocationDigest :: string
  wp_allocationRoot :: string
  wp_attemptRef :: string
  wp_worktreePath :: string
  wp_isolatedIndexPath :: string
  wp_policyContextPath :: string
  wp_policyBundlePath :: string
  wp_stdoutPath :: string
  wp_stderrPath :: string
  wp_verificationOutputPath :: string
  wp_salvageArchivePath :: string
  wp_resources :: "AttemptResourceIdentity list"

text \<open>The \<open>TypeError\<close>s of the derivation; \<open>Not_Canonical\<close> is the error of \<open>canonicalJson\<close>.\<close>

datatype plan_error =
    Foreign_Repository
  | Unsafe_Ref_Component string
  | Bad_Attempt_Number
  | Not_Strict_Descendant string
  | Not_Canonical contract_error

text \<open>\<open>/^[A-Za-z0-9][A-Za-z0-9._-]{0,127}$/\<close>; the names \<open>.\<close> and \<open>..\<close> already fail on the first
  character.\<close>

definition ref_char :: "char \<Rightarrow> bool" where
  "ref_char c = (is_upper c \<or> is_lower c \<or> is_digit c)"

definition safe_ref_component :: "string \<Rightarrow> bool" where
  "safe_ref_component s =
     (case s of
        [] \<Rightarrow> False
      | c # cs \<Rightarrow> ref_char c \<and> length cs \<le> 127 \<and> list_all (\<lambda>d. ref_char d \<or> d \<in> set ''._-'') cs)"

definition assertSafeRefComponent :: "string \<Rightarrow> string \<Rightarrow> (plan_error, unit) result" where
  "assertSafeRefComponent value label =
     (if \<not> safe_ref_component value \<or> value = ''.'' \<or> value = ''..''
      then Inl (Unsafe_Ref_Component label) else Inr ())"

definition assertContained :: "string \<Rightarrow> string \<Rightarrow> string \<Rightarrow> string \<Rightarrow> (plan_error, unit) result" where
  "assertContained cwd root path label =
     (let fromRoot = relative cwd root path in
      if fromRoot = '''' \<or> fromRoot = ''..'' \<or> starts_with fromRoot ''../'' \<or> isAbsolute fromRoot
      then Inl (Not_Strict_Descendant label) else Inr ())"

definition plan_digest :: "(string \<Rightarrow> string) \<Rightarrow> jsval \<Rightarrow> (plan_error, string) result" where
  "plan_digest sha256 v =
     (case canonical_json v of Inl e \<Rightarrow> Inl (Not_Canonical e) | Inr t \<Rightarrow> Inr (sha256 t))"

definition resource_identity ::
  "(string \<Rightarrow> string) \<Rightarrow> string \<Rightarrow> string \<Rightarrow> resource_kind \<times> string
    \<Rightarrow> (plan_error, AttemptResourceIdentity) result" where
  "resource_identity sha256 attempt version kc =
     (let kind = fst kc; canonicalIdentity = snd kc in
      rbind (plan_digest sha256 (JObj [
        (''schema_version'', JStr version),
        (''kind'', JStr (resource_kind_text kind)),
        (''canonical_identity'', JStr canonicalIdentity)])) (\<lambda>identityDigest.
      rbind (plan_digest sha256 (JObj [
        (''schema_version'', JStr version),
        (''attempt_id'', JStr attempt),
        (''slot'', JStr (resource_kind_text kind)),
        (''canonical_identity'', JStr canonicalIdentity)])) (\<lambda>claimDigest.
      Inr \<lparr>ri_resourceClaimId = ''claim-'' @ drop 7 claimDigest, ri_slot = kind, ri_kind = kind,
           ri_canonicalIdentity = canonicalIdentity, ri_identityDigest = identityDigest\<rparr>)))"

definition allocation_js :: "AttemptOwnershipLineage \<Rightarrow> jsval" where
  "allocation_js lineage =
     JObj [(''repository_id'', JStr (ol_repositoryId lineage)),
           (''run_id'', JStr (ol_runId lineage)),
           (''ticket_instance_id'', JStr (ol_ticketInstanceId lineage)),
           (''attempt_id'', JStr (ol_attemptId lineage))]"

text \<open>The paths of a plan, with the labels its containment check uses.\<close>

definition labelled_paths :: "AttemptWorkspacePlan \<Rightarrow> (string \<times> string) list" where
  "labelled_paths plan =
     [(''allocation root'', wp_allocationRoot plan),
      (''worktree'', wp_worktreePath plan),
      (''isolated index'', wp_isolatedIndexPath plan),
      (''policy context'', wp_policyContextPath plan),
      (''policy bundle'', wp_policyBundlePath plan),
      (''stdout'', wp_stdoutPath plan),
      (''stderr'', wp_stderrPath plan),
      (''verification output'', wp_verificationOutputPath plan),
      (''salvage archive'', wp_salvageArchivePath plan)]"

definition plan_layout :: "StateLocation \<Rightarrow> AttemptOwnershipLineage \<Rightarrow> string \<Rightarrow> AttemptWorkspacePlan" where
  "plan_layout location lineage allocationDigest =
     (let root = path_join [sl_resourceDirectory location, drop 7 allocationDigest] in
      \<lparr>wp_lineage = lineage,
       wp_allocationDigest = allocationDigest,
       wp_allocationRoot = root,
       wp_attemptRef = ''refs/rickgent/runs/'' @ ol_runId lineage @ ''/attempts/'' @ ol_attemptId lineage,
       wp_worktreePath = path_join [root, ''worktree''],
       wp_isolatedIndexPath = path_join [root, ''index''],
       wp_policyContextPath = path_join [root, ''policy'', ''context.json''],
       wp_policyBundlePath = path_join [root, ''policy'', ''bundle''],
       wp_stdoutPath = path_join [root, ''output'', ''stdout.log''],
       wp_stderrPath = path_join [root, ''output'', ''stderr.log''],
       wp_verificationOutputPath = path_join [root, ''output'', ''verification.json''],
       wp_salvageArchivePath =
         path_join [sl_resourceDirectory location, ''salvage'', drop 7 allocationDigest, ''archive''],
       wp_resources = []\<rparr>)"

definition plan_identities :: "AttemptWorkspacePlan \<Rightarrow> (resource_kind \<times> string) list" where
  "plan_identities plan =
     [(DeliveryRef, ol_deliveryRef (wp_lineage plan)),
      (AttemptRef, wp_attemptRef plan),
      (Worktree, wp_worktreePath plan),
      (IsolatedIndex, wp_isolatedIndexPath plan),
      (PolicyContext, wp_policyContextPath plan),
      (PolicyBundle, wp_policyBundlePath plan),
      (ProcessGroup, ''process-group:'' @ ol_attemptId (wp_lineage plan)),
      (StdoutFile, wp_stdoutPath plan),
      (StderrFile, wp_stderrPath plan),
      (VerificationOutput, wp_verificationOutputPath plan),
      (SalvageArchive, wp_salvageArchivePath plan)]"

definition deriveAttemptWorkspacePlan ::
  "(string \<Rightarrow> string) \<Rightarrow> string \<Rightarrow> StateLocation \<Rightarrow> AttemptOwnershipLineage
    \<Rightarrow> (plan_error, AttemptWorkspacePlan) result" where
  "deriveAttemptWorkspacePlan sha256 cwd location lineage =
     (if ol_repositoryId lineage \<noteq> sl_repositoryId location then Inl Foreign_Repository
      else
        rbind (assertSafeRefComponent (ol_runId lineage) ''run id'') (\<lambda>_.
        rbind (assertSafeRefComponent (ol_attemptId lineage) ''attempt id'') (\<lambda>_.
        if \<not> is_safe_int (ol_attemptNumber lineage) \<or> ol_attemptNumber lineage < 1 then Inl Bad_Attempt_Number
        else
          rbind (plan_digest sha256 (allocation_js lineage)) (\<lambda>allocationDigest.
          let plan = plan_layout location lineage allocationDigest in
          rbind (check_all (\<lambda>lp. assertContained cwd (sl_resourceDirectory location) (snd lp) (fst lp))
                   (labelled_paths plan)) (\<lambda>_.
          rbind (traverse (resource_identity sha256 (ol_attemptId lineage) (ol_resourceIdentityVersion lineage))
                   (plan_identities plan)) (\<lambda>resources.
          Inr (plan\<lparr>wp_resources := resources\<rparr>)))))))"

section \<open>Every resource kind once\<close>

lemma resource_identity_slot:
  "resource_identity sha256 a v kc = Inr r \<Longrightarrow>
     ri_slot r = fst kc \<and> ri_kind r = fst kc \<and> ri_canonicalIdentity r = snd kc"
  by (auto simp: resource_identity_def Let_def rbind_Inr_iff)

lemma plan_slots: "map fst (plan_identities plan) = RESOURCE_KINDS"
  by (simp add: plan_identities_def RESOURCE_KINDS_def)

lemma derive_cases:
  assumes "deriveAttemptWorkspacePlan sha256 cwd location lineage = Inr plan"
  obtains allocationDigest resources where
    "ol_repositoryId lineage = sl_repositoryId location"
    "safe_ref_component (ol_runId lineage)" "safe_ref_component (ol_attemptId lineage)"
    "plan_digest sha256 (allocation_js lineage) = Inr allocationDigest"
    "\<forall>lp \<in> set (labelled_paths (plan_layout location lineage allocationDigest)).
       assertContained cwd (sl_resourceDirectory location) (snd lp) (fst lp) = Inr ()"
    "traverse (resource_identity sha256 (ol_attemptId lineage) (ol_resourceIdentityVersion lineage))
       (plan_identities (plan_layout location lineage allocationDigest)) = Inr resources"
    "plan = (plan_layout location lineage allocationDigest)\<lparr>wp_resources := resources\<rparr>"
  using assms
  by (auto simp: deriveAttemptWorkspacePlan_def Let_def rbind_Inr_iff assertSafeRefComponent_def
      check_all_ok_iff split: if_split_asm)

lemma plan_resource_slots:
  assumes "deriveAttemptWorkspacePlan sha256 cwd location lineage = Inr plan"
  shows "map ri_slot (wp_resources plan) = RESOURCE_KINDS"
proof -
  obtain d rs where rs:
    "traverse (resource_identity sha256 (ol_attemptId lineage) (ol_resourceIdentityVersion lineage))
       (plan_identities (plan_layout location lineage d)) = Inr rs"
    and plan: "plan = (plan_layout location lineage d)\<lparr>wp_resources := rs\<rparr>"
    by (rule derive_cases [OF assms])
  have "list_all2 (\<lambda>kc r. ri_slot r = fst kc) (plan_identities (plan_layout location lineage d)) rs"
    using rs by (auto simp: traverse_Inr_iff elim!: list_all2_mono dest: resource_identity_slot)
  then have "map ri_slot rs = map fst (plan_identities (plan_layout location lineage d))"
    by (simp add: list_all2_conv_all_nth list_eq_iff_nth_eq)
  then show ?thesis by (simp add: plan plan_slots)
qed

lemma plan_resource_count:
  assumes "deriveAttemptWorkspacePlan sha256 cwd location lineage = Inr plan"
  shows "length (wp_resources plan) = 11"
  using arg_cong [OF plan_resource_slots [OF assms], of length] by (simp add: RESOURCE_KINDS_def)

section \<open>Two attempts share no path\<close>

lemma join_cons: "ss \<noteq> [] \<Longrightarrow> join_with sep (s # ss) = s @ sep @ join_with sep ss"
  by (cases ss) auto

lemma split_on_join_tail:
  "\<forall>s \<in> set tail. c \<notin> set s \<Longrightarrow> split_on c (join_with [c] (root # tail)) = split_on c root @ tail"
proof (cases "tail = []")
  case False
  assume "\<forall>s \<in> set tail. c \<notin> set s"
  with False show ?thesis using split_on_append_sep [of c root "join_with [c] tail"] by (simp add: join_cons split_join)
qed simp

lemma path_join_canonical:
  assumes "canonical_path root" and "list_all plain_seg tail" and "tail \<noteq> []"
  shows "path_join (root # tail) = render (abs_segs root @ tail)"
proof -
  have slashless: "\<forall>s \<in> set tail. CHR ''/'' \<notin> set s" and nonempty: "\<forall>s \<in> set tail. s \<noteq> []"
    using assms(2) by (auto simp: list_all_iff plain_seg_def)
  have "root \<noteq> []" using assms(1) by (auto simp: canonical_path_def isAbsolute_def starts_with_def)
  then have used: "filter (\<lambda>p. p \<noteq> []) (root # tail) = root # tail"
    using nonempty by (simp add: filter_id_conv)
  let ?joined = "join_with ''/'' (root # tail)"
  have joined: "?joined = root @ ''/'' @ join_with ''/'' tail" using assms(3) by (simp add: join_cons)
  have "isAbsolute root" using assms(1) by (simp add: canonical_path_def)
  then have absolute: "isAbsolute ?joined"
    using joined by (auto simp: isAbsolute_def starts_with_iff)
  have segs: "normalize_segs True [] (split_on CHR ''/'' ?joined) = abs_segs root @ tail"
    using split_on_join_tail [OF slashless, of root] normalize_segs_append [OF assms(2), of True "[]" "split_on CHR ''/'' root"]
    by (simp add: abs_segs_def)
  have "\<not> ends_with (join_with ''/'' tail) ''/''"
    using slashless nonempty by (intro join_not_ends_slash) (auto simp: part_ok_def)
  moreover have "join_with ''/'' tail \<noteq> []"
    using assms(3) nonempty by (cases tail; cases "tl tail") auto
  ultimately have "\<not> ends_with ?joined ''/''"
    unfolding joined by (cases "join_with ''/'' tail" rule: rev_cases) (auto simp: ends_with_iff)
  then show ?thesis
    using used joined absolute segs \<open>root \<noteq> []\<close> by (simp add: path_join_def normalize_def Let_def)
qed

lemma digest_name_plain:
  assumes "is_digest d"
  shows "plain_seg (drop 7 d)" and "drop 7 d \<noteq> ''salvage''"
proof -
  have h: "list_all is_hex (drop 7 d)" "length (drop 7 d) = 64" using assms by (simp_all add: is_digest_def)
  have nothex: "\<not> is_hex CHR ''/''" by code_simp
  then have "CHR ''/'' \<notin> set (drop 7 d)" using h(1) by (auto simp: list_all_iff)
  moreover have other: "drop 7 d \<noteq> x" if "length x < 64" for x using h(2) that by auto
  ultimately show "plain_seg (drop 7 d)" using other [of "[]"] other [of "''.''"] other [of "''..''"]
    by (simp add: plain_seg_def)
  show "drop 7 d \<noteq> ''salvage''" by (rule other) simp
qed

text \<open>The names below the resource directory a plan reserves, by the allocation directory's name.\<close>

definition plan_branches :: "string \<Rightarrow> string list list" where
  "plan_branches d =
     [[d], [d, ''worktree''], [d, ''index''], [d, ''policy'', ''context.json''], [d, ''policy'', ''bundle''],
      [d, ''output'', ''stdout.log''], [d, ''output'', ''stderr.log''], [d, ''output'', ''verification.json''],
      [''salvage'', d, ''archive'']]"

lemma plan_layout_paths:
  assumes "canonical_path (sl_resourceDirectory location)" and "is_digest d"
  shows "map snd (labelled_paths (plan_layout location lineage d)) =
         map (\<lambda>b. render (abs_segs (sl_resourceDirectory location) @ b)) (plan_branches (drop 7 d))"
proof -
  let ?D = "sl_resourceDirectory location" and ?n = "drop 7 d"
  note n = digest_name_plain [OF assms(2)]
  have root: "path_join [?D, ?n] = render (abs_segs ?D @ [?n])"
    using assms(1) n by (simp add: path_join_canonical)
  have plain: "list_all plain_seg (abs_segs ?D @ [?n])" using abs_segs_plain n by simp
  have below: "path_join (render (abs_segs ?D @ [?n]) # tail) = render (abs_segs ?D @ ?n # tail)"
    if "list_all plain_seg tail" "tail \<noteq> []" for tail
    using path_join_canonical [OF canonical_render [OF plain] that] abs_segs_render [OF plain] by simp
  have names: "plain_seg ''worktree''" "plain_seg ''index''" "plain_seg ''policy''" "plain_seg ''context.json''"
    "plain_seg ''bundle''" "plain_seg ''output''" "plain_seg ''stdout.log''" "plain_seg ''stderr.log''"
    "plain_seg ''verification.json''" "plain_seg ''salvage''" "plain_seg ''archive''"
    by code_simp+
  have salvage: "path_join [?D, ''salvage'', ?n, ''archive''] = render (abs_segs ?D @ [''salvage'', ?n, ''archive''])"
    using assms(1) n names by (simp add: path_join_canonical)
  show ?thesis
    by (simp add: labelled_paths_def plan_layout_def Let_def root below names salvage plan_branches_def)
qed

lemma branch_disjoint:
  assumes "m \<noteq> n" "m \<noteq> ''salvage''" "n \<noteq> ''salvage''" "b \<in> set (plan_branches m)" "c \<in> set (plan_branches n)"
  shows "\<not> prefix b c"
  using assms by (auto simp: plan_branches_def)

lemma plans_disjoint:
  assumes "canonical_path (sl_resourceDirectory location)" and "is_digest d" "is_digest e"
    and "drop 7 d \<noteq> drop 7 e"
    and "p \<in> snd ` set (labelled_paths (plan_layout location lineage d))"
    and "q \<in> snd ` set (labelled_paths (plan_layout location lineage' e))"
  shows "\<not> pathInside cwd p q"
proof -
  let ?R = "abs_segs (sl_resourceDirectory location)"
  have plain: "list_all plain_seg (?R @ b)" if "b \<in> set (plan_branches (drop 7 x))" "is_digest x" for b x
  proof -
    have "list_all (list_all plain_seg) (plan_branches (drop 7 x))"
      using digest_name_plain(1) [OF that(2)]
      by (simp add: plan_branches_def) (simp add: plain_seg_def)
    then show ?thesis using that(1) abs_segs_plain by (auto simp: list_all_iff)
  qed
  obtain b where b: "b \<in> set (plan_branches (drop 7 d))" "p = render (?R @ b)"
    using assms(5) plan_layout_paths [OF assms(1,2), of lineage] by (metis (no_types, lifting) image_set imageE)
  obtain c where c: "c \<in> set (plan_branches (drop 7 e))" "q = render (?R @ c)"
    using assms(6) plan_layout_paths [OF assms(1,3), of lineage'] by (metis (no_types, lifting) image_set imageE)
  have "\<not> prefix b c"
    using branch_disjoint [OF assms(4) digest_name_plain(2) [OF assms(2)] digest_name_plain(2) [OF assms(3)] b(1) c(1)] .
  then show ?thesis
    using plain [OF b(1) assms(2)] plain [OF c(1) assms(3)] by (simp add: b c pathInside_prefix)
qed

section \<open>The derivation succeeds\<close>

lemma strict_descendant_contained:
  assumes "canonical_path root" "canonical_path path" "prefix (abs_segs root) (abs_segs path)" "path \<noteq> root"
  shows "assertContained cwd root path label = Inr ()"
proof -
  have "abs_segs root \<noteq> abs_segs path" using assms canonical_segs_inject by metis
  then obtain x xs where t: "abs_segs path = abs_segs root @ x # xs"
    using assms(3) by (metis append_Nil2 neq_Nil_conv prefixE)
  have "plain_seg x" "list_all plain_seg (x # xs)"
    using abs_segs_plain [of path] t by (simp_all add: list_all_iff)
  then have "relative cwd root path \<noteq> ''''"
    using assms(1,2) t drop_join_plain [of x xs] by (simp add: relative_def Let_def)
  with assms show ?thesis
    using pathInside_prefix [OF assms(1,2), of cwd] by (auto simp: assertContained_def pathInside_def Let_def)
qed

lemma resource_identity_ok: "is_ok (resource_identity sha256 a v kc)"
proof -
  have "is_ok (plan_digest sha256 (JObj kvs))" if "\<forall>kv \<in> set kvs. admissible (snd kv)" for kvs
    using canonical_json_ok_iff [of "JObj kvs"] that by (auto simp: plan_digest_def is_ok_iff split: sum.split)
  then have "\<exists>d. plan_digest sha256 (JObj kvs) = Inr d" if "\<forall>kv \<in> set kvs. admissible (snd kv)" for kvs
    using that by (simp add: is_ok_iff)
  from this [of "[(''schema_version'', JStr v), (''kind'', JStr (resource_kind_text (fst kc))),
                  (''canonical_identity'', JStr (snd kc))]"]
    this [of "[(''schema_version'', JStr v), (''attempt_id'', JStr a), (''slot'', JStr (resource_kind_text (fst kc))),
               (''canonical_identity'', JStr (snd kc))]"]
  show ?thesis by (auto simp: resource_identity_def Let_def)
qed

lemma derive_succeeds:
  assumes "ol_repositoryId lineage = sl_repositoryId location"
    and "safe_ref_component (ol_runId lineage)" "safe_ref_component (ol_attemptId lineage)"
    and "is_safe_int (ol_attemptNumber lineage)" "ol_attemptNumber lineage \<ge> 1"
    and "canonical_path (sl_resourceDirectory location)" and digests: "\<And>text. is_digest (sha256 text)"
  shows "\<exists>plan. deriveAttemptWorkspacePlan sha256 cwd location lineage = Inr plan"
proof -
  have dots: "\<not> safe_ref_component ''.''" "\<not> safe_ref_component ''..''" by code_simp+
  obtain d where d: "plan_digest sha256 (allocation_js lineage) = Inr d"
    using canonical_json_ok_iff [of "allocation_js lineage"]
    by (auto simp: plan_digest_def allocation_js_def is_ok_iff split: sum.split)
  then have digest: "is_digest d" using digests by (auto simp: plan_digest_def split: sum.split_asm)
  let ?D = "sl_resourceDirectory location" and ?layout = "plan_layout location lineage d"
  have "assertContained cwd ?D p label = Inr ()" if "p \<in> set (map snd (labelled_paths ?layout))" for p label
  proof -
    have "p \<in> set (map (\<lambda>b. render (abs_segs ?D @ b)) (plan_branches (drop 7 d)))"
      using that plan_layout_paths [OF assms(6) digest, of lineage] by simp
    then obtain b where b: "b \<in> set (plan_branches (drop 7 d))" "p = render (abs_segs ?D @ b)" by auto
    have "list_all plain_seg b" "b \<noteq> []"
      using b(1) digest_name_plain(1) [OF digest] by (auto simp: plan_branches_def) (simp_all add: plain_seg_def)
    then have plain: "list_all plain_seg (abs_segs ?D @ b)" using abs_segs_plain by simp
    have "p \<noteq> ?D"
      using abs_segs_render [OF plain] \<open>b \<noteq> []\<close> b(2) by auto
    then show ?thesis
      using assms(6) plain by (intro strict_descendant_contained) (simp_all add: b(2))
  qed
  then have "check_all (\<lambda>lp. assertContained cwd ?D (snd lp) (fst lp)) (labelled_paths ?layout) = Inr ()"
    by (auto simp: check_all_ok_iff)
  moreover obtain rs where "traverse (resource_identity sha256 (ol_attemptId lineage) (ol_resourceIdentityVersion lineage))
      (plan_identities ?layout) = Inr rs"
    using is_ok_traverse resource_identity_ok by (metis is_ok_iff)
  ultimately show ?thesis
    using assms(1-5) d dots by (auto simp: deriveAttemptWorkspacePlan_def Let_def assertSafeRefComponent_def)
qed

section \<open>Properties\<close>

lemma contained_inside:
  assumes "assertContained cwd root path label = Inr ()"
  shows "pathInside cwd root path \<and> path \<noteq> root"
proof -
  have "relative cwd root root = ''''" by (simp add: relative_def)
  with assms show ?thesis
    by (auto simp: assertContained_def pathInside_def Let_def split: if_split_asm)
qed

lemma plan_digest_inject:
  assumes "plan_digest sha256 v = Inr d" "plan_digest sha256 w = Inr d"
    and "\<And>s t. \<lbrakk>canonical_json v = Inr s; canonical_json w = Inr t; sha256 s = sha256 t\<rbrakk> \<Longrightarrow> s = t"
  shows "key_normal v = key_normal w"
  using assms by (auto simp: plan_digest_def split: sum.split_asm) (metis canonical_json_inject)

lemma key_normal_members:
  "key_normal (JObj kvs) = key_normal (JObj kws) \<Longrightarrow> member_normal ` set kvs = member_normal ` set kws"
  unfolding key_normal_JObj by (metis jsval.inject(6) list.set_map set_sort)

lemma allocation_inject:
  assumes "key_normal (allocation_js l) = key_normal (allocation_js l')"
  shows "ol_runId l = ol_runId l' \<and> ol_ticketInstanceId l = ol_ticketInstanceId l' \<and> ol_attemptId l = ol_attemptId l'"
proof -
  let ?members = "\<lambda>l. {(''repository_id'', JStr (ol_repositoryId l)), (''run_id'', JStr (ol_runId l)),
     (''ticket_instance_id'', JStr (ol_ticketInstanceId l)), (''attempt_id'', JStr (ol_attemptId l))}"
  have "?members l = ?members l'"
    using key_normal_members [OF assms [unfolded allocation_js_def]] by (simp add: member_normal_def)
  then have "(''run_id'', JStr (ol_runId l)) \<in> ?members l'"
    "(''ticket_instance_id'', JStr (ol_ticketInstanceId l)) \<in> ?members l'"
    "(''attempt_id'', JStr (ol_attemptId l)) \<in> ?members l'"
    by (simp_all only: insert_iff simp_thms flip: \<open>?members l = ?members l'\<close>)
  then show ?thesis by simp
qed

lemma digest_tail_inject:
  assumes "is_digest d" "is_digest e" "drop 7 d = drop 7 e"
  shows "d = e"
proof -
  have "take 7 x = ''sha256:''" if "is_digest x" for x
    using that by (simp add: is_digest_def starts_with_def eval_nat_numeral)
  then have "take 7 d = take 7 e" using assms(1,2) by simp
  with assms(3) show ?thesis by (metis append_take_drop_id)
qed

text \<open>
  C37. Attempts own disjoint parts of the resource directory. A derived plan holds one resource of each of
  the eleven fixed kinds, every path of it lies strictly below the resource directory, and for two
  attempts of the repository (another run, ticket instance or attempt id) no path of one plan lies at
  or below a path of the other, salvage archives included. Of SHA-256 this uses the form of its
  digests and that it separates the two allocation texts.
\<close>

theorem attempt_workspaces_are_disjoint:
  assumes "deriveAttemptWorkspacePlan sha256 cwd location lineage = Inr plan"
    and "deriveAttemptWorkspacePlan sha256 cwd location lineage' = Inr plan'"
    and "canonical_path (sl_resourceDirectory location)"
    and "\<And>text. is_digest (sha256 text)"
    and "\<And>s t. \<lbrakk>canonical_json (allocation_js lineage) = Inr s; canonical_json (allocation_js lineage') = Inr t;
           sha256 s = sha256 t\<rbrakk> \<Longrightarrow> s = t"
    and "(ol_runId lineage, ol_ticketInstanceId lineage, ol_attemptId lineage)
           \<noteq> (ol_runId lineage', ol_ticketInstanceId lineage', ol_attemptId lineage')"
  shows "map ri_slot (wp_resources plan) = RESOURCE_KINDS
    \<and> (\<forall>p \<in> snd ` set (labelled_paths plan).
           pathInside cwd (sl_resourceDirectory location) p \<and> p \<noteq> sl_resourceDirectory location)
    \<and> (\<forall>p \<in> snd ` set (labelled_paths plan). \<forall>q \<in> snd ` set (labelled_paths plan').
           \<not> pathInside cwd p q \<and> \<not> pathInside cwd q p)"
proof (intro conjI)
  obtain d rs where d: "plan_digest sha256 (allocation_js lineage) = Inr d"
    "\<forall>lp \<in> set (labelled_paths (plan_layout location lineage d)).
       assertContained cwd (sl_resourceDirectory location) (snd lp) (fst lp) = Inr ()"
    "plan = (plan_layout location lineage d)\<lparr>wp_resources := rs\<rparr>"
    by (rule derive_cases [OF assms(1)])
  obtain e rs' where e: "plan_digest sha256 (allocation_js lineage') = Inr e"
    "plan' = (plan_layout location lineage' e)\<lparr>wp_resources := rs'\<rparr>"
    by (rule derive_cases [OF assms(2)])
  have paths: "labelled_paths (plan_layout location l x\<lparr>wp_resources := r\<rparr>)
      = labelled_paths (plan_layout location l x)" for l x r
    by (simp add: labelled_paths_def)
  have digests: "is_digest d" "is_digest e"
    using d(1) e(1) assms(4) by (auto simp: plan_digest_def split: sum.split_asm)
  have "d \<noteq> e"
  proof
    assume "d = e"
    with d(1) e(1) have "key_normal (allocation_js lineage) = key_normal (allocation_js lineage')"
      using assms(5) by (blast intro: plan_digest_inject)
    with allocation_inject assms(6) show False by blast
  qed
  then have apart: "drop 7 d \<noteq> drop 7 e" "drop 7 e \<noteq> drop 7 d"
    using digest_tail_inject digests by metis+
  show "map ri_slot (wp_resources plan) = RESOURCE_KINDS" by (rule plan_resource_slots [OF assms(1)])
  show "\<forall>p \<in> snd ` set (labelled_paths plan).
          pathInside cwd (sl_resourceDirectory location) p \<and> p \<noteq> sl_resourceDirectory location"
    using d(2) contained_inside by (auto simp only: d(3) paths image_iff)
  show "\<forall>p \<in> snd ` set (labelled_paths plan). \<forall>q \<in> snd ` set (labelled_paths plan').
          \<not> pathInside cwd p q \<and> \<not> pathInside cwd q p"
    using plans_disjoint [OF assms(3) digests apart(1)] plans_disjoint [OF assms(3) digests(2,1) apart(2)]
    unfolding d(3) e(2) paths by blast
qed

definition sample_lineage :: "string \<Rightarrow> AttemptOwnershipLineage" where
  "sample_lineage attempt =
     \<lparr>ol_repositoryId = ''repo'', ol_runId = ''r'', ol_ticketInstanceId = ''t'', ol_ticketId = ''T'',
      ol_attemptId = attempt, ol_attemptNumber = 1, ol_contractDigest = ''c'',
      ol_resourceIdentityVersion = ''v'', ol_deliveryBaselineOid = ''o'', ol_deliveryRef = ''d''\<rparr>"

definition sample_location :: StateLocation where
  "sample_location = \<lparr>sl_repositoryId = ''repo'', sl_resourceDirectory = ''/s''\<rparr>"

text \<open>A stand-in for SHA-256 that tells apart texts whose attempt ids end in \<open>1\<close> or not.\<close>

definition sample_sha :: "string \<Rightarrow> string" where
  "sample_sha text = ''sha256:'' @ replicate 63 CHR ''0'' @ (if take 1 (drop 16 text) = ''1'' then ''1'' else ''2'')"

lemma sample_sha_digest: "is_digest (sample_sha text)"
proof -
  have "is_digest (''sha256:'' @ replicate 63 CHR ''0'' @ ''1'')"
    "is_digest (''sha256:'' @ replicate 63 CHR ''0'' @ ''2'')"
    by code_simp+
  then show ?thesis by (simp add: sample_sha_def)
qed

lemma attempt_workspaces_are_disjoint_witness:
  "\<exists>plan plan'. deriveAttemptWorkspacePlan sample_sha ''/'' sample_location (sample_lineage ''a1'') = Inr plan
     \<and> deriveAttemptWorkspacePlan sample_sha ''/'' sample_location (sample_lineage ''a2'') = Inr plan'
     \<and> length (wp_resources plan) = 11
     \<and> \<not> pathInside ''/'' (wp_allocationRoot plan) (wp_salvageArchivePath plan')"
proof -
  have c: "canonical_path (sl_resourceDirectory sample_location)" by code_simp
  have names: "safe_ref_component ''r''" "safe_ref_component ''a1''" "safe_ref_component ''a2''" by code_simp+
  have derived: "\<exists>plan. deriveAttemptWorkspacePlan sample_sha ''/'' sample_location (sample_lineage a) = Inr plan"
    if "safe_ref_component a" for a
    using c names that by (intro derive_succeeds sample_sha_digest)
      (simp_all add: sample_lineage_def sample_location_def is_safe_int_def max_safe_def)
  obtain plan plan' where p:
    "deriveAttemptWorkspacePlan sample_sha ''/'' sample_location (sample_lineage ''a1'') = Inr plan"
    "deriveAttemptWorkspacePlan sample_sha ''/'' sample_location (sample_lineage ''a2'') = Inr plan'"
    using derived [OF names(2)] derived [OF names(3)] by blast
  have "plan_digest sample_sha (allocation_js (sample_lineage ''a1''))
      \<noteq> plan_digest sample_sha (allocation_js (sample_lineage ''a2''))"
    by code_simp
  then have apart: "s = t" if "canonical_json (allocation_js (sample_lineage ''a1'')) = Inr s"
    "canonical_json (allocation_js (sample_lineage ''a2'')) = Inr t" "sample_sha s = sample_sha t" for s t
    using that by (simp add: plan_digest_def)
  have ids: "(ol_runId (sample_lineage ''a1''), ol_ticketInstanceId (sample_lineage ''a1''), ol_attemptId (sample_lineage ''a1''))
      \<noteq> (ol_runId (sample_lineage ''a2''), ol_ticketInstanceId (sample_lineage ''a2''), ol_attemptId (sample_lineage ''a2''))"
    by (simp add: sample_lineage_def)
  note disjoint = attempt_workspaces_are_disjoint [OF p c sample_sha_digest apart ids]
  have "length (wp_resources plan) = 11"
    by (rule plan_resource_count [OF p(1)])
  moreover have "wp_allocationRoot plan \<in> snd ` set (labelled_paths plan)"
    "wp_salvageArchivePath plan' \<in> snd ` set (labelled_paths plan')"
    by (simp_all add: labelled_paths_def)
  then have "\<not> pathInside ''/'' (wp_allocationRoot plan) (wp_salvageArchivePath plan')"
    using disjoint by blast
  ultimately show ?thesis using p by blast
qed

end
