(* ===== verification/Js_Date.thy ===== *)
theory Js_Date
  imports Js
begin

text \<open>
  The dates of the language as far as the sources use them: \<open>new Date(ms).toISOString()\<close> and
  \<open>Date.parse\<close> (also \<open>new Date(text).getTime()\<close>) of such texts. An instant is the number of
  milliseconds since 1970-01-01T00:00:00Z. The calendar is the proleptic Gregorian one, whose 400
  years have 146097 days.

  The main lemmas: parsing a printed instant gives it back, and printed instants are ordered as
  texts as the instants are, so that the comparisons SQLite makes on timestamp columns are
  comparisons of instants.
\<close>

section \<open>The calendar\<close>

definition leap_year :: "int \<Rightarrow> bool" where
  "leap_year y = (y mod 4 = 0 \<and> (y mod 100 \<noteq> 0 \<or> y mod 400 = 0))"

definition year_length :: "int \<Rightarrow> int" where
  "year_length y = (if leap_year y then 366 else 365)"

definition month_lengths :: "int \<Rightarrow> int list" where
  "month_lengths y = [31, if leap_year y then 29 else 28, 31, 30, 31, 30, 31, 31, 30, 31, 30, 31]"

text \<open>The year of the \<open>d\<close>-th day from the first of January of \<open>y\<close>, and the day in that year.\<close>

function year_walk :: "int \<Rightarrow> int \<Rightarrow> int \<times> int" where
  "year_walk y d = (if d < year_length y then (y, d) else year_walk (y + 1) (d - year_length y))"
  by pat_completeness auto
termination
  by (relation "measure (\<lambda>(y, d). nat d)") (auto simp: year_length_def split: if_splits)

declare year_walk.simps [simp del]

fun month_walk :: "int list \<Rightarrow> int \<Rightarrow> int \<Rightarrow> int \<times> int" where
  "month_walk [] m d = (m, d)"
| "month_walk (l # ls) m d = (if d < l then (m, d) else month_walk ls (m + 1) (d - l))"

record civil =
  cv_year :: int
  cv_month :: int
  cv_day :: int

definition civil_of_days :: "int \<Rightarrow> civil" where
  "civil_of_days z =
     (let (y, d) = year_walk (1970 + 400 * (z div 146097)) (z mod 146097);
          (m, k) = month_walk (month_lengths y) 1 d
      in \<lparr>cv_year = y, cv_month = m, cv_day = k + 1\<rparr>)"

definition leap_days :: "int \<Rightarrow> int" where
  "leap_days y = y div 4 - y div 100 + y div 400"

definition days_before_year :: "int \<Rightarrow> int" where
  "days_before_year y = 365 * (y - 1970) + leap_days (y - 1) - leap_days 1969"

definition days_of_civil :: "civil \<Rightarrow> int" where
  "days_of_civil c =
     days_before_year (cv_year c) + sum_list (take (nat (cv_month c - 1)) (month_lengths (cv_year c))) + (cv_day c - 1)"

definition valid_civil :: "civil \<Rightarrow> bool" where
  "valid_civil c =
     (1 \<le> cv_month c \<and> cv_month c \<le> 12 \<and> 1 \<le> cv_day c
      \<and> cv_day c \<le> month_lengths (cv_year c) ! nat (cv_month c - 1))"

lemma div_pred:
  fixes n q r :: int
  assumes "0 \<le> r" and "r < n"
  shows "(n * q + r - 1) div n = (if r = 0 then q - 1 else q)"
proof (cases "r = 0")
  case True
  have "n * q - 1 = n * (q - 1) + (n - 1)" by (simp add: right_diff_distrib)
  then have "(n * q - 1) div n = q - 1" using assms by (intro int_div_pos_eq [where r = "n - 1"]) auto
  with True show ?thesis by simp
next
  case False
  have "(n * q + r - 1) div n = q" using assms False by (intro int_div_pos_eq [where r = "r - 1"]) auto
  with False show ?thesis by simp
qed

lemma leap_days_step: "leap_days y - leap_days (y - 1) = of_bool (leap_year y)"
proof -
  have d: "y div n - (y - 1) div n = of_bool (y mod n = 0)" if "0 < n" for n :: int
    using div_pred [of "y mod n" n "y div n"] that by simp
  have steps: "y div 4 - (y - 1) div 4 = of_bool (y mod 4 = 0)"
    "y div 100 - (y - 1) div 100 = of_bool (y mod 100 = 0)"
    "y div 400 - (y - 1) div 400 = of_bool (y mod 400 = 0)"
    by (rule d, simp)+
  have multiple: "y mod 400 = 0 \<Longrightarrow> y mod 100 = 0" "y mod 100 = 0 \<Longrightarrow> y mod 4 = 0" by presburger+
  have "leap_days y - leap_days (y - 1)
      = of_bool (y mod 4 = 0) - of_bool (y mod 100 = 0) + of_bool (y mod 400 = 0)"
    unfolding leap_days_def using steps by linarith
  also have "\<dots> = of_bool (leap_year y)"
    unfolding leap_year_def using multiple
    by (cases "y mod 4 = 0"; cases "y mod 100 = 0"; cases "y mod 400 = 0") simp_all
  finally show ?thesis .
qed

lemma days_before_next_year: "days_before_year (y + 1) = days_before_year y + year_length y"
  using leap_days_step [of y] by (auto simp: days_before_year_def year_length_def)

lemma year_length_pos: "0 < year_length y"
  by (simp add: year_length_def)

lemma year_walk_spec:
  assumes "0 \<le> d" and "year_walk y d = (y', d')"
  shows "days_before_year y' + d' = days_before_year y + d \<and> 0 \<le> d' \<and> d' < year_length y' \<and> y \<le> y'"
  using assms
proof (induction y d rule: year_walk.induct)
  case (1 y d)
  show ?case
  proof (cases "d < year_length y")
    case True
    with 1 show ?thesis by (simp add: year_walk.simps [of y d])
  next
    case False
    with 1 show ?thesis
      using days_before_next_year [of y] by (fastforce simp: year_walk.simps [of y d])
  qed
qed

lemma cycle_start: "days_before_year (1970 + 400 * q) = 146097 * q"
proof -
  have "(1969 + 400 * q) div 4 = 492 + 100 * q" "(1969 + 400 * q) div 100 = 19 + 4 * q"
    "(1969 + 400 * q) div 400 = 4 + q"
    by simp_all
  then show ?thesis by (simp add: days_before_year_def leap_days_def add.commute)
qed

lemma month_walk_spec:
  assumes "0 \<le> d" and "d < sum_list ls" and "month_walk ls m d = (m', d')" and "\<forall>l \<in> set ls. 0 < l"
  shows "m \<le> m' \<and> nat (m' - m) < length ls \<and> sum_list (take (nat (m' - m)) ls) + d' = d
    \<and> 0 \<le> d' \<and> d' < ls ! nat (m' - m)"
  using assms
proof (induction ls m d rule: month_walk.induct)
  case (2 l ls m d)
  show ?case
  proof (cases "d < l")
    case True
    with 2 show ?thesis by simp
  next
    case False
    with 2 have step: "m + 1 \<le> m'" "nat (m' - (m + 1)) < length ls"
      "sum_list (take (nat (m' - (m + 1))) ls) + d' = d - l" "0 \<le> d'" "d' < ls ! nat (m' - (m + 1))"
      by auto
    have "nat (m' - m) = Suc (nat (m' - (m + 1)))" using step(1) by simp
    with step show ?thesis by simp
  qed
qed simp

lemma month_lengths_sum: "sum_list (month_lengths y) = year_length y"
  by (simp add: month_lengths_def year_length_def)

lemma month_lengths_count [simp]: "length (month_lengths y) = 12"
  by (simp add: month_lengths_def)

lemma month_lengths_pos: "\<forall>l \<in> set (month_lengths y). 0 < l \<and> l \<le> 31"
  by (simp add: month_lengths_def)

lemma civil_of_days_spec:
  "days_of_civil (civil_of_days z) = z \<and> valid_civil (civil_of_days z)
   \<and> 1970 + 400 * (z div 146097) \<le> cv_year (civil_of_days z)"
proof -
  obtain y d where w: "year_walk (1970 + 400 * (z div 146097)) (z mod 146097) = (y, d)" by fastforce
  obtain m k where v: "month_walk (month_lengths y) 1 d = (m, k)" by fastforce
  have c: "civil_of_days z = \<lparr>cv_year = y, cv_month = m, cv_day = k + 1\<rparr>"
    by (simp add: civil_of_days_def w v)
  have year: "days_before_year y + d = z" "0 \<le> d" "d < year_length y" "1970 + 400 * (z div 146097) \<le> y"
    using year_walk_spec [OF _ w] cycle_start [of "z div 146097"] by simp_all
  have month: "1 \<le> m" "nat (m - 1) < 12" "sum_list (take (nat (m - 1)) (month_lengths y)) + k = d"
    "0 \<le> k" "k < month_lengths y ! nat (m - 1)"
    using month_walk_spec [OF year(2) _ v] year(3) month_lengths_pos [of y]
    by (simp_all add: month_lengths_sum)
  show ?thesis
    using year month by (simp add: c days_of_civil_def valid_civil_def)
qed

section \<open>Texts\<close>

text \<open>The last \<open>k\<close> decimal digits of a number.\<close>

fun pad :: "nat \<Rightarrow> int \<Rightarrow> string" where
  "pad 0 n = []"
| "pad (Suc k) n = pad k (n div 10) @ [digit_char (nat (n mod 10))]"

definition day_ms :: int where
  "day_ms = 86400000"

text \<open>\<open>new Date(ms).toISOString()\<close>; the \<open>RangeError\<close> beyond 100 million days is not modelled.\<close>

definition toISOString :: "int \<Rightarrow> string" where
  "toISOString ms =
     (let c = civil_of_days (ms div day_ms); y = cv_year c; t = ms mod day_ms in
      (if 0 \<le> y \<and> y \<le> 9999 then pad 4 y else (if y < 0 then ''-'' else ''+'') @ pad 6 \<bar>y\<bar>)
      @ ''-'' @ pad 2 (cv_month c) @ ''-'' @ pad 2 (cv_day c)
      @ ''T'' @ pad 2 (t div 3600000) @ '':'' @ pad 2 (t div 60000 mod 60)
      @ '':'' @ pad 2 (t div 1000 mod 60) @ ''.'' @ pad 3 (t mod 1000) @ ''Z'')"

definition digit_int :: "char \<Rightarrow> int" where
  "digit_int c = of_char c - 48"

definition read_int :: "string \<Rightarrow> int" where
  "read_int s = foldl (\<lambda>a c. 10 * a + digit_int c) 0 s"

definition field :: "string \<Rightarrow> nat \<Rightarrow> nat \<Rightarrow> string" where
  "field s i n = take n (drop i s)"

definition iso_shape :: "string \<Rightarrow> bool" where
  "iso_shape s =
     (length s = 24 \<and> list_all is_digit (field s 0 4) \<and> field s 4 1 = ''-'' \<and> list_all is_digit (field s 5 2)
      \<and> field s 7 1 = ''-'' \<and> list_all is_digit (field s 8 2) \<and> field s 10 1 = ''T''
      \<and> list_all is_digit (field s 11 2) \<and> field s 13 1 = '':'' \<and> list_all is_digit (field s 14 2)
      \<and> field s 16 1 = '':'' \<and> list_all is_digit (field s 17 2) \<and> field s 19 1 = ''.''
      \<and> list_all is_digit (field s 20 3) \<and> field s 23 1 = ''Z'')"

text \<open>The instant of a text of exactly the shape \<open>YYYY-MM-DDTHH:mm:ss.sssZ\<close>.\<close>

definition iso_instant :: "string \<Rightarrow> int option" where
  "iso_instant s =
     (if \<not> iso_shape s then None
      else
        let c = \<lparr>cv_year = read_int (field s 0 4), cv_month = read_int (field s 5 2),
                 cv_day = read_int (field s 8 2)\<rparr>;
            h = read_int (field s 11 2); m = read_int (field s 14 2); sec = read_int (field s 17 2)
        in if valid_civil c \<and> h < 24 \<and> m < 60 \<and> sec < 60
           then Some (days_of_civil c * day_ms + h * 3600000 + m * 60000 + sec * 1000 + read_int (field s 20 3))
           else None)"

text \<open>\<open>Date.parse\<close>: \<open>None\<close> is \<open>NaN\<close>. The treatment of texts of another shape, which is partly up
  to the implementation, is the parameter \<open>other\<close>.\<close>

definition date_parse :: "(string \<Rightarrow> int option) \<Rightarrow> string \<Rightarrow> int option" where
  "date_parse other s = (case iso_instant s of Some ms \<Rightarrow> Some ms | None \<Rightarrow> other s)"

section \<open>Round trip\<close>

lemma pad_length [simp]: "length (pad k n) = k"
  by (induction k arbitrary: n) auto

lemma digit_int_digit_char: "d < 10 \<Longrightarrow> is_digit (digit_char d) \<and> digit_int (digit_char d) = int d"
proof -
  assume "d < 10"
  moreover have "\<forall>d \<in> set [0..<10]. is_digit (digit_char d) \<and> digit_int (digit_char d) = int d" by code_simp
  ultimately show ?thesis by simp
qed

lemma mod_ten: "nat (n mod 10) < 10" for n :: int
  by simp

lemma pad_digits [simp]: "list_all is_digit (pad k n)"
  by (induction k arbitrary: n) (simp_all add: digit_int_digit_char [OF mod_ten])

lemma read_pad:
  "0 \<le> n \<Longrightarrow> n < 10 ^ k \<Longrightarrow> read_int (pad k n) = n"
proof (induction k arbitrary: n)
  case (Suc k)
  have "n div 10 < 10 ^ k" using Suc.prems by (simp add: div_less_iff_less_mult mult.commute)
  then have "read_int (pad k (n div 10)) = n div 10" using Suc by simp
  then show ?case by (simp add: read_int_def digit_int_digit_char [OF mod_ten])
qed (simp add: read_int_def)

definition max_iso :: int where
  "max_iso = 253402300800000"

lemma mixed_radix:
  fixes t u v :: int
  assumes "u * 1000 + k = t" and "v * 60 + sec = u" and "h * 60 + m = v"
  shows "t = h * 3600000 + m * 60000 + sec * 1000 + k"
  using assms by simp

text \<open>The hours, minutes, seconds and milliseconds of an instant of the day.\<close>

lemma clock_split:
  assumes "0 \<le> t" and "t < day_ms"
    and "h = t div 3600000" and "m = t div 60000 mod 60" and "sec = t div 1000 mod 60" and "k = t mod 1000"
  shows "t = h * 3600000 + m * 60000 + sec * 1000 + k" "0 \<le> h" "h < 24" "0 \<le> m" "m < 60" "0 \<le> sec" "sec < 60"
    "0 \<le> k" "k < 1000"
proof -
  have e: "t div 60000 = t div 1000 div 60" "t div 3600000 = t div 1000 div 60 div 60"
    by (simp_all add: zdiv_zmult2_eq [symmetric])
  show "t = h * 3600000 + m * 60000 + sec * 1000 + k"
    unfolding assms(3-6) e by (rule mixed_radix; rule div_mult_mod_eq)
  show "0 \<le> h" using assms(1,3) by (simp add: pos_imp_zdiv_nonneg_iff)
  show "h < 24" using assms(2,3) by (simp add: day_ms_def div_less_iff_less_mult)
qed (simp_all add: assms(4-6))

lemma days_before_mono: "y \<le> z \<Longrightarrow> days_before_year y \<le> days_before_year z"
proof (induction z rule: int_ge_induct)
  case (step z)
  then show ?case using days_before_next_year [of z] year_length_pos [of z] by simp
qed simp

lemma days_in_year:
  assumes "valid_civil c"
  shows "days_before_year (cv_year c) \<le> days_of_civil c"
    and "days_of_civil c < days_before_year (cv_year c + 1)"
proof -
  let ?i = "nat (cv_month c - 1)" and ?ls = "month_lengths (cv_year c)"
  have i: "?i < length ?ls" using assms by (auto simp: valid_civil_def)
  have pos: "0 \<le> sum_list xs" if "set xs \<subseteq> set ?ls" for xs
    using that month_lengths_pos [of "cv_year c"] by (intro sum_list_nonneg) fastforce
  have "sum_list ?ls = sum_list (take ?i ?ls) + ?ls ! ?i + sum_list (drop (Suc ?i) ?ls)"
    using i by (metis (no_types, lifting) append_take_drop_id id_take_nth_drop sum_list.Cons sum_list_append add.assoc)
  moreover have "0 \<le> sum_list (take ?i ?ls)" "0 \<le> sum_list (drop (Suc ?i) ?ls)"
    by (auto intro!: pos dest: in_set_takeD in_set_dropD)
  moreover have "1 \<le> cv_day c" "cv_day c \<le> ?ls ! ?i" using assms by (simp_all add: valid_civil_def)
  moreover note days_before_next_year [of "cv_year c"]
  ultimately show "days_before_year (cv_year c) \<le> days_of_civil c"
    "days_of_civil c < days_before_year (cv_year c + 1)"
    unfolding days_of_civil_def month_lengths_sum by linarith+
qed

lemma instant_year:
  assumes "0 \<le> ms" and "ms < max_iso"
  shows "1970 \<le> cv_year (civil_of_days (ms div day_ms))" and "cv_year (civil_of_days (ms div day_ms)) \<le> 9999"
proof -
  let ?z = "ms div day_ms"
  have z: "0 \<le> ?z" using assms by (simp add: day_ms_def pos_imp_zdiv_nonneg_iff)
  then show "1970 \<le> cv_year (civil_of_days ?z)"
    using civil_of_days_spec [of ?z] by (smt (verit) pos_imp_zdiv_nonneg_iff)
  have "?z < 2932897" using assms by (simp add: day_ms_def max_iso_def div_less_iff_less_mult)
  moreover have "days_before_year 10000 = 2932897" by code_simp
  ultimately show "cv_year (civil_of_days ?z) \<le> 9999"
    using days_in_year(1) [of "civil_of_days ?z"] civil_of_days_spec [of ?z]
      days_before_mono [of 10000 "cv_year (civil_of_days ?z)"] by force
qed

lemma civil_ranges:
  assumes "valid_civil c"
  shows "0 \<le> cv_month c" "cv_month c < 100" "0 \<le> cv_day c" "cv_day c < 100"
proof -
  have "month_lengths (cv_year c) ! nat (cv_month c - 1) \<in> set (month_lengths (cv_year c))"
    using assms by (intro nth_mem) (auto simp: valid_civil_def)
  then have "month_lengths (cv_year c) ! nat (cv_month c - 1) \<le> 31" using month_lengths_pos by blast
  then show "0 \<le> cv_month c" "cv_month c < 100" "0 \<le> cv_day c" "cv_day c < 100"
    using assms by (simp_all add: valid_civil_def)
qed

lemma iso_text:
  assumes "0 \<le> ms" and "ms < max_iso"
  shows "toISOString ms =
    (let c = civil_of_days (ms div day_ms); t = ms mod day_ms in
     pad 4 (cv_year c) @ ''-'' @ pad 2 (cv_month c) @ ''-'' @ pad 2 (cv_day c)
      @ ''T'' @ pad 2 (t div 3600000) @ '':'' @ pad 2 (t div 60000 mod 60)
      @ '':'' @ pad 2 (t div 1000 mod 60) @ ''.'' @ pad 3 (t mod 1000) @ ''Z'')"
  using instant_year [OF assms] by (simp add: toISOString_def Let_def)

lemma civil_collapse: "\<lparr>cv_year = cv_year c, cv_month = cv_month c, cv_day = cv_day c\<rparr> = c"
  by simp

text \<open>A printed instant, read back.\<close>

lemma iso_instant_iso_text:
  assumes "0 \<le> ms" and "ms < max_iso"
  shows "iso_instant (toISOString ms) = Some ms"
proof -
  define c t where "c = civil_of_days (ms div day_ms)" and "t = ms mod day_ms"
  define h m sec k where "h = t div 3600000" and "m = t div 60000 mod 60" and "sec = t div 1000 mod 60"
    and "k = t mod 1000"
  have c: "days_of_civil c = ms div day_ms" "valid_civil c"
    using civil_of_days_spec by (simp_all add: c_def)
  have "0 \<le> t" "t < day_ms" by (simp_all add: t_def day_ms_def)
  note clock = clock_split [OF this h_def m_def sec_def k_def]
  define s where "s = toISOString ms"
  have s: "s = pad 4 (cv_year c) @ ''-'' @ pad 2 (cv_month c) @ ''-'' @ pad 2 (cv_day c)
      @ ''T'' @ pad 2 h @ '':'' @ pad 2 m @ '':'' @ pad 2 sec @ ''.'' @ pad 3 k @ ''Z''"
    unfolding s_def iso_text [OF assms] Let_def c_def h_def m_def sec_def k_def t_def ..
  have fields: "field s 0 4 = pad 4 (cv_year c)" "field s 4 1 = ''-''" "field s 5 2 = pad 2 (cv_month c)"
    "field s 7 1 = ''-''" "field s 8 2 = pad 2 (cv_day c)" "field s 10 1 = ''T''"
    "field s 11 2 = pad 2 h" "field s 13 1 = '':''" "field s 14 2 = pad 2 m" "field s 16 1 = '':''"
    "field s 17 2 = pad 2 sec" "field s 19 1 = ''.''" "field s 20 3 = pad 3 k" "field s 23 1 = ''Z''"
    unfolding s field_def by (simp_all del: pad.simps)
  have len: "length s = 24" unfolding s by (simp del: pad.simps)
  have read: "read_int (pad 4 (cv_year c)) = cv_year c" "read_int (pad 2 (cv_month c)) = cv_month c"
    "read_int (pad 2 (cv_day c)) = cv_day c" "read_int (pad 2 h) = h" "read_int (pad 2 m) = m"
    "read_int (pad 2 sec) = sec" "read_int (pad 3 k) = k"
    using instant_year [OF assms] civil_ranges [OF c(2)] clock(2-)
    by (auto intro!: read_pad simp: c_def [symmetric] simp del: pad.simps)
  have shape: "iso_shape s"
    unfolding iso_shape_def fields len by (simp del: pad.simps)
  have "ms div day_ms * day_ms + t = ms" unfolding t_def by (rule div_mult_mod_eq)
  then have "days_of_civil c * day_ms + h * 3600000 + m * 60000 + sec * 1000 + k = ms"
    using clock(1) c(1) by simp
  then have "iso_instant s = Some ms"
    using shape c(2) clock(3,5,7)
    by (simp add: iso_instant_def fields read Let_def civil_collapse del: pad.simps)
  then show ?thesis by (simp add: s_def)
qed

lemma date_parse_iso: "0 \<le> ms \<Longrightarrow> ms < max_iso \<Longrightarrow> date_parse other (toISOString ms) = Some ms"
  by (simp add: date_parse_def iso_instant_iso_text)

section \<open>Order\<close>

lemma prefix_less: "length xs = length ys \<Longrightarrow> xs < ys \<Longrightarrow> xs @ us < ys @ vs"
  for xs ys :: "'a::linorder list"
  by (induction xs ys rule: list_induct2) auto

lemma suffix_less: "us < vs \<Longrightarrow> xs @ us < xs @ vs"
  for us vs :: "'a::linorder list"
  by (induction xs) auto

lemma digit_char_less: "d < e \<Longrightarrow> e < 10 \<Longrightarrow> digit_char d < digit_char e"
proof -
  assume "d < e" "e < 10"
  moreover have "\<forall>e \<in> set [0..<10]. \<forall>d \<in> set [0..<e]. digit_char d < digit_char e" by code_simp
  ultimately show ?thesis by simp
qed

lemma pad_less: "0 \<le> m \<Longrightarrow> m < n \<Longrightarrow> n < 10 ^ k \<Longrightarrow> pad k m < pad k n"
proof (induction k arbitrary: m n)
  case (Suc k)
  show ?case
  proof (cases "m div 10 = n div 10")
    case True
    then have "m mod 10 < n mod 10" using Suc.prems by (smt (verit) div_mult_mod_eq)
    then have "digit_char (nat (m mod 10)) < digit_char (nat (n mod 10))" by (intro digit_char_less) auto
    with True show ?thesis by (simp add: suffix_less)
  next
    case False
    moreover have "m div 10 \<le> n div 10" using Suc.prems by (simp add: zdiv_mono1)
    moreover have "n div 10 < 10 ^ k" using Suc.prems by (simp add: div_less_iff_less_mult mult.commute)
    ultimately have "pad k (m div 10) < pad k (n div 10)" using Suc by (simp add: pos_imp_zdiv_nonneg_iff)
    then show ?thesis by (simp add: prefix_less)
  qed
qed simp

lemma sum_take_mono:
  assumes "\<forall>l \<in> set ls. (0::int) < l" and "i < j" and "j \<le> length ls"
  shows "sum_list (take i ls) + ls ! i \<le> sum_list (take j ls)"
  using assms(2,3)
proof (induction j)
  case (Suc j)
  have j: "sum_list (take (Suc j) ls) = sum_list (take j ls) + ls ! j" "0 < ls ! j"
    using Suc.prems assms(1) by (simp_all add: take_Suc_conv_app_nth)
  show ?case
  proof (cases "i = j")
    case False
    then show ?thesis using Suc j by simp
  qed (use j in simp)
qed simp

text \<open>Days are ordered as their years, months and days of the month.\<close>

lemma civil_less:
  assumes "valid_civil c" and "valid_civil e" and "days_of_civil c < days_of_civil e"
  shows "cv_year c < cv_year e
    \<or> cv_year c = cv_year e \<and> (cv_month c < cv_month e \<or> cv_month c = cv_month e \<and> cv_day c < cv_day e)"
proof -
  consider (later) "cv_year e < cv_year c" | (year) "cv_year c < cv_year e" | (same) "cv_year c = cv_year e"
    by linarith
  then show ?thesis
  proof cases
    case later
    then have "days_before_year (cv_year e + 1) \<le> days_before_year (cv_year c)" by (intro days_before_mono) simp
    with days_in_year(1) [OF assms(1)] days_in_year(2) [OF assms(2)] assms(3) show ?thesis by linarith
  next
    case same
    let ?ls = "month_lengths (cv_year c)"
    let ?i = "nat (cv_month c - 1)" and ?j = "nat (cv_month e - 1)"
    have days: "sum_list (take ?i ?ls) + cv_day c < sum_list (take ?j ?ls) + cv_day e"
      using assms(3) same by (simp add: days_of_civil_def)
    have "\<not> cv_month e < cv_month c"
    proof
      assume "cv_month e < cv_month c"
      then have "?j < ?i" "?i \<le> length ?ls" using assms(1,2) by (auto simp: valid_civil_def)
      then have "sum_list (take ?j ?ls) + ?ls ! ?j \<le> sum_list (take ?i ?ls)"
        using month_lengths_pos by (intro sum_take_mono) auto
      moreover have "cv_day e \<le> ?ls ! ?j" "1 \<le> cv_day c" using assms(1,2) same by (simp_all add: valid_civil_def)
      ultimately show False using days by linarith
    qed
    moreover have "cv_day c < cv_day e" if "cv_month c = cv_month e" using days that by simp
    ultimately show ?thesis using same by linarith
  qed simp
qed

lemma clock_less:
  fixes h m sec k h' m' sec' k' :: int
  assumes "h * 3600000 + m * 60000 + sec * 1000 + k < h' * 3600000 + m' * 60000 + sec' * 1000 + k'"
    and "m < 60" "sec < 60" "k < 1000" "0 \<le> m'" "0 \<le> sec'" "0 \<le> k'" "m' < 60" "sec' < 60" "k' < 1000"
    and "0 \<le> m" "0 \<le> sec" "0 \<le> k"
  shows "h < h' \<or> h = h' \<and> (m < m' \<or> m = m' \<and> (sec < sec' \<or> sec = sec' \<and> k < k'))"
proof (cases "h = h'")
  case h: True
  show ?thesis
  proof (cases "m = m'")
    case m: True
    show ?thesis using assms h m by (cases "sec = sec'") auto
  qed (use assms h in auto)
qed (use assms in auto)

text \<open>A text whose parts are compared from left to right.\<close>

lemma pad_step:
  assumes "0 \<le> a" and "a < 10 ^ n" and "0 \<le> b" and "b < 10 ^ n" and "a < b \<or> a = b \<and> xs < ys"
  shows "pad n a @ c # xs < pad n b @ c # ys"
  using assms by (auto intro: prefix_less pad_less suffix_less)

lemma iso_text_mono:
  assumes "0 \<le> a" and "a < b" and "b < max_iso"
  shows "toISOString a < toISOString b"
proof -
  define c t where "c = civil_of_days (a div day_ms)" and "t = a mod day_ms"
  define h m sec k where "h = t div 3600000" and "m = t div 60000 mod 60" and "sec = t div 1000 mod 60"
    and "k = t mod 1000"
  define c' t' where "c' = civil_of_days (b div day_ms)" and "t' = b mod day_ms"
  define h' m' sec' k' where "h' = t' div 3600000" and "m' = t' div 60000 mod 60" and "sec' = t' div 1000 mod 60"
    and "k' = t' mod 1000"
  have a: "a < max_iso" and b: "0 \<le> b" using assms by simp_all
  have c: "days_of_civil c = a div day_ms" "valid_civil c" "days_of_civil c' = b div day_ms" "valid_civil c'"
    using civil_of_days_spec by (simp_all add: c_def c'_def)
  have t: "0 \<le> t" "t < day_ms" "0 \<le> t'" "t' < day_ms" by (simp_all add: t_def t'_def day_ms_def)
  note clock = clock_split [OF t(1,2) h_def m_def sec_def k_def]
  note clock' = clock_split [OF t(3,4) h'_def m'_def sec'_def k'_def]
  have texts: "toISOString a = pad 4 (cv_year c) @ ''-'' @ pad 2 (cv_month c) @ ''-'' @ pad 2 (cv_day c)
      @ ''T'' @ pad 2 h @ '':'' @ pad 2 m @ '':'' @ pad 2 sec @ ''.'' @ pad 3 k @ ''Z''"
    "toISOString b = pad 4 (cv_year c') @ ''-'' @ pad 2 (cv_month c') @ ''-'' @ pad 2 (cv_day c')
      @ ''T'' @ pad 2 h' @ '':'' @ pad 2 m' @ '':'' @ pad 2 sec' @ ''.'' @ pad 3 k' @ ''Z''"
    unfolding iso_text [OF assms(1) a] iso_text [OF b assms(3)] Let_def c_def h_def m_def sec_def k_def t_def
      c'_def h'_def m'_def sec'_def k'_def t'_def
    by (rule refl)+
  have whole: "a = days_of_civil c * day_ms + t" "b = days_of_civil c' * day_ms + t'"
    unfolding c t_def t'_def by (rule div_mult_mod_eq [symmetric])+
  have "days_of_civil c \<le> days_of_civil c'"
    unfolding c using assms(2) by (intro zdiv_mono1) (simp_all add: day_ms_def)
  then have "days_of_civil c < days_of_civil c' \<or> days_of_civil c = days_of_civil c' \<and> t < t'"
    using whole assms(2) by auto
  moreover have "h < h' \<or> h = h' \<and> (m < m' \<or> m = m' \<and> (sec < sec' \<or> sec = sec' \<and> k < k'))" if "t < t'"
    using that clock(2-) clock'(2-) unfolding clock(1) clock'(1) by (intro clock_less) auto
  moreover have "c = c'" if "days_of_civil c = days_of_civil c'"
    using that by (simp only: c) (simp add: c_def c'_def)
  moreover note years = instant_year [OF assms(1) a, folded c_def] instant_year [OF b assms(3), folded c'_def]
  note ranges = civil_ranges [OF c(2)] civil_ranges [OF c(4)]
  show ?thesis
    unfolding texts
    using calculation civil_less [OF c(2,4)] years ranges clock(2-) clock'(2-)
    unfolding append.simps by (intro pad_step) (auto simp del: pad.simps intro!: pad_step)
qed

text \<open>Instants are ordered as their texts.\<close>

lemma iso_text_less_iff:
  assumes "0 \<le> a" "a < max_iso" "0 \<le> b" "b < max_iso"
  shows "toISOString a < toISOString b \<longleftrightarrow> a < b"
  using assms iso_text_mono [of a b] iso_text_mono [of b a]
  by (metis linorder_less_linear order_less_asym)

end
