(* ===== verification/Json_Parse.thy ===== *)
theory Json_Parse
  imports Canonical_Json
begin

text \<open>
  \<open>JSON.parse\<close> of the language, through which the store reads back the payloads it has written. The
  value of a number with a fraction, an exponent or a magnitude beyond the safe integers is the
  parameter \<open>num\<close>, a function of its token; escapes of code units above 255 are outside the model,
  as in the other theories on strings.

  The main lemma is the round trip: parsing the canonical text of a value gives the value with the
  keys of its objects sorted.
\<close>

section \<open>Tokens\<close>

definition json_space :: "char \<Rightarrow> bool" where
  "json_space c = (c \<in> set [CHR 0x20, CHR 0x09, CHR 0x0A, CHR 0x0D])"

definition skip_ws :: "string \<Rightarrow> string" where
  "skip_ws s = dropWhile json_space s"

definition hex_digit :: "char \<Rightarrow> bool" where
  "hex_digit c = (is_hex c \<or> in_range CHR ''A'' CHR ''F'' c)"

definition hex_nat :: "char \<Rightarrow> nat" where
  "hex_nat c = hex_value (to_lower c)"

text \<open>One character of a string literal, escaped or not.\<close>

definition json_char :: "string \<Rightarrow> (char \<times> string) option" where
  "json_char s =
     (case s of
        [] \<Rightarrow> None
      | c # cs \<Rightarrow>
          if is_control c then None
          else if c \<noteq> CHR 0x5C then Some (c, cs)
          else
            (case cs of
               [] \<Rightarrow> None
             | d # ds \<Rightarrow>
                 if d = CHR 0x22 \<or> d = CHR 0x5C \<or> d = CHR ''/'' then Some (d, ds)
                 else if d = CHR ''b'' then Some (CHR 0x08, ds)
                 else if d = CHR ''t'' then Some (CHR 0x09, ds)
                 else if d = CHR ''n'' then Some (CHR 0x0A, ds)
                 else if d = CHR ''f'' then Some (CHR 0x0C, ds)
                 else if d = CHR ''r'' then Some (CHR 0x0D, ds)
                 else if d = CHR ''u'' \<and> length ds \<ge> 4 \<and> list_all hex_digit (take 4 ds)
                         \<and> take 2 ds = ''00''
                 then Some (char_of (16 * hex_nat (ds ! 2) + hex_nat (ds ! 3)), drop 4 ds)
                 else None))"

lemma json_char_shorter: "json_char s = Some (c, r) \<Longrightarrow> length r < length s"
  by (auto simp: json_char_def split: list.splits if_splits)

text \<open>The rest of a string literal after its opening quote.\<close>

function json_string :: "string \<Rightarrow> (string \<times> string) option" where
  "json_string s =
     (case s of
        [] \<Rightarrow> None
      | c # cs \<Rightarrow>
          if c = CHR 0x22 then Some ([], cs)
          else
            (case json_char s of
               None \<Rightarrow> None
             | Some (d, r) \<Rightarrow> map_option (\<lambda>(t, q). (d # t, q)) (json_string r)))"
  by pat_completeness auto
termination
  by (relation "measure length") (auto dest: json_char_shorter)

declare json_string.simps [simp del]

text \<open>A number token and what follows it; the flag says that it is a plain integer.\<close>

definition digits_of :: "string \<Rightarrow> string \<times> string" where
  "digits_of s = (takeWhile is_digit s, dropWhile is_digit s)"

definition fraction_part :: "string \<Rightarrow> (string \<times> string) option" where
  "fraction_part s =
     (case s of
        c # cs \<Rightarrow>
          if c = CHR ''.'' then (let (ds, r) = digits_of cs in if ds = [] then None else Some (c # ds, r))
          else Some ([], s)
      | [] \<Rightarrow> Some ([], []))"

definition exponent_part :: "string \<Rightarrow> (string \<times> string) option" where
  "exponent_part s =
     (case s of
        c # cs \<Rightarrow>
          if c = CHR ''e'' \<or> c = CHR ''E'' then
            (let sign = (if cs \<noteq> [] \<and> (hd cs = CHR ''+'' \<or> hd cs = CHR ''-'') then [hd cs] else []);
                 (ds, r) = digits_of (drop (length sign) cs)
             in if ds = [] then None else Some (c # sign @ ds, r))
          else Some ([], s)
      | [] \<Rightarrow> Some ([], []))"

definition json_number :: "(string \<Rightarrow> jsval) \<Rightarrow> string \<Rightarrow> (jsval \<times> string) option" where
  "json_number num s =
     (let minus = (s \<noteq> [] \<and> hd s = CHR ''-'');
          (ds, r) = digits_of (if minus then tl s else s)
      in if ds = [] \<or> (length ds > 1 \<and> hd ds = CHR ''0'') then None
         else
           Option.bind (fraction_part r) (\<lambda>(fs, r').
           Option.bind (exponent_part r') (\<lambda>(es, r'').
           let i = (if minus then - int (read_nat ds) else int (read_nat ds)) in
           Some (if fs = [] \<and> es = [] \<and> is_safe_int i then JNum i
                 else num ((if minus then ''-'' else []) @ ds @ fs @ es), r''))))"

section \<open>Values\<close>

text \<open>A repeated key keeps its place and takes the later value.\<close>

fun put_member :: "(string \<times> jsval) list \<Rightarrow> string \<Rightarrow> jsval \<Rightarrow> (string \<times> jsval) list" where
  "put_member [] k v = [(k, v)]"
| "put_member ((k', v') # kvs) k v = (if k' = k then (k, v) # kvs else (k', v') # put_member kvs k v)"

definition json_literal :: "string \<Rightarrow> (jsval \<times> string) option" where
  "json_literal s =
     (if starts_with s ''null'' then Some (JNull, drop 4 s)
      else if starts_with s ''true'' then Some (JBool True, drop 4 s)
      else if starts_with s ''false'' then Some (JBool False, drop 5 s)
      else None)"

lemma skip_ws_tail: "skip_ws s = c # cs \<Longrightarrow> length cs < length s"
  by (metis Suc_le_eq length_Cons length_dropWhile_le skip_ws_def)

text \<open>
  The recursive descent. The comparisons of lengths hold whenever a value was read; they make the
  recursion well-founded.
\<close>

function (sequential)
  parse_value :: "(string \<Rightarrow> jsval) \<Rightarrow> string \<Rightarrow> (jsval \<times> string) option"
  and parse_elements :: "(string \<Rightarrow> jsval) \<Rightarrow> string \<Rightarrow> (jsval list \<times> string) option"
  and parse_members :: "(string \<Rightarrow> jsval) \<Rightarrow> (string \<times> jsval) list \<Rightarrow> string \<Rightarrow> ((string \<times> jsval) list \<times> string) option"
where
  "parse_value num s =
     (case skip_ws s of
        [] \<Rightarrow> None
      | c # cs \<Rightarrow>
          if c = CHR ''{'' then
            (case skip_ws cs of
               [] \<Rightarrow> None
             | d # ds \<Rightarrow>
                 if d = CHR ''}'' then Some (JObj [], ds)
                 else map_option (\<lambda>(kvs, r). (JObj kvs, r)) (parse_members num [] cs))
          else if c = CHR ''['' then
            (case skip_ws cs of
               [] \<Rightarrow> None
             | d # ds \<Rightarrow>
                 if d = CHR '']'' then Some (JArr [], ds)
                 else map_option (\<lambda>(vs, r). (JArr vs, r)) (parse_elements num cs))
          else if c = CHR 0x22 then map_option (\<lambda>(t, r). (JStr t, r)) (json_string cs)
          else if c = CHR ''-'' \<or> is_digit c then json_number num (c # cs)
          else json_literal (c # cs))"
| "parse_elements num s =
     (case parse_value num s of
        None \<Rightarrow> None
      | Some (v, r) \<Rightarrow>
          if \<not> length r < length s then None
          else
            (case skip_ws r of
               [] \<Rightarrow> None
             | c # cs \<Rightarrow>
                 if c = CHR '']'' then Some ([v], cs)
                 else if c = CHR '','' then map_option (\<lambda>(vs, q). (v # vs, q)) (parse_elements num cs)
                 else None))"
| "parse_members num kvs s =
     (case skip_ws s of
        [] \<Rightarrow> None
      | c # cs \<Rightarrow>
          if c \<noteq> CHR 0x22 then None
          else
            (case json_string cs of
               None \<Rightarrow> None
             | Some (k, r) \<Rightarrow>
                 (case skip_ws r of
                    [] \<Rightarrow> None
                  | d # ds \<Rightarrow>
                      if d \<noteq> CHR '':'' \<or> \<not> length ds < length s then None
                      else
                        (case parse_value num ds of
                           None \<Rightarrow> None
                         | Some (v, q) \<Rightarrow>
                             if \<not> length q < length s then None
                             else
                               (case skip_ws q of
                                  [] \<Rightarrow> None
                                | e # es \<Rightarrow>
                                    if e = CHR ''}'' then Some (put_member kvs k v, es)
                                    else if e = CHR '','' then parse_members num (put_member kvs k v) es
                                    else None)))))"
  by pat_completeness auto

termination
  by (relation "measure (\<lambda>x. case x of Inl (_, s) \<Rightarrow> 2 * length s
        | Inr (Inl (_, s)) \<Rightarrow> 2 * length s + 1 | Inr (Inr (_, _, s)) \<Rightarrow> 2 * length s + 1)")
     (auto dest!: skip_ws_tail)

declare parse_value.simps [simp del] parse_elements.simps [simp del] parse_members.simps [simp del]

definition json_parse :: "(string \<Rightarrow> jsval) \<Rightarrow> string \<Rightarrow> jsval option" where
  "json_parse num s =
     (case parse_value num s of
        None \<Rightarrow> None
      | Some (v, r) \<Rightarrow> if skip_ws r = [] then Some v else None)"

section \<open>Reading canonical text\<close>

lemma hex_char_facts: "d < 16 \<Longrightarrow> hex_digit (hex_char d) \<and> hex_nat (hex_char d) = d"
proof -
  assume "d < 16"
  moreover have "\<forall>d \<in> set [0..<16]. hex_digit (hex_char d) \<and> hex_nat (hex_char d) = d" by code_simp
  ultimately show ?thesis by simp
qed

lemma control_code: "is_control c \<longleftrightarrow> (of_char c :: nat) < 32"
proof -
  have "(of_char (CHR 0x00) :: nat) = 0" "(of_char (CHR 0x1F) :: nat) = 31" by (simp_all add: of_char_def)
  then show ?thesis by (auto simp: is_control_def in_range_def less_eq_char_def)
qed

lemma specials_plain: "\<not> is_control (CHR 0x5C)" "\<not> is_control (CHR 0x22)"
  by code_simp+

lemma json_char_escape: "json_char (escape_char c @ x) = Some (c, x)"
proof -
  consider (special) "c \<in> {CHR 0x22, CHR 0x5C, CHR 0x08, CHR 0x09, CHR 0x0A, CHR 0x0C, CHR 0x0D}"
    | (control) "c \<notin> {CHR 0x22, CHR 0x5C, CHR 0x08, CHR 0x09, CHR 0x0A, CHR 0x0C, CHR 0x0D}" "is_control c"
    | (plain) "c \<notin> {CHR 0x22, CHR 0x5C, CHR 0x08, CHR 0x09, CHR 0x0A, CHR 0x0C, CHR 0x0D}" "\<not> is_control c"
    by blast
  then show ?thesis
  proof cases
    case special
    then show ?thesis by (auto simp: escape_char_cases json_char_def specials_plain)
  next
    case control
    have n: "(of_char c :: nat) < 32" using control(2) by (simp add: control_code)
    let ?h = "hex_char (of_char c div 16)" and ?l = "hex_char (of_char c mod 16)"
    have layout: "escape_char c = [CHR 0x5C, CHR ''u'', CHR ''0'', CHR ''0'', ?h, ?l]"
      using control by (simp add: escape_char_cases Let_def)
    have h: "hex_digit ?h" "hex_nat ?h = of_char c div 16" "hex_digit ?l" "hex_nat ?l = of_char c mod 16"
      using n hex_char_facts [of "of_char c div 16"] hex_char_facts [of "of_char c mod 16"] by simp_all
    have "hex_digit CHR ''0''" by code_simp
    then show ?thesis unfolding layout by (simp add: json_char_def specials_plain h)
  next
    case plain
    then show ?thesis by (simp add: escape_char_cases json_char_def)
  qed
qed

lemma json_string_escaped: "json_string (concat (map escape_char t) @ CHR 0x22 # x) = Some (t, x)"
proof (induction t)
  case Nil
  then show ?case by (subst json_string.simps) simp
next
  case (Cons c t)
  let ?rest = "concat (map escape_char t) @ CHR 0x22 # x"
  obtain d ds where d: "escape_char c = d # ds" "d \<noteq> CHR 0x22" using escape_char_head by blast
  have "json_char (d # ds @ ?rest) = Some (c, ?rest)" using json_char_escape [of c ?rest] d(1) by simp
  with d Cons.IH show ?case by (subst json_string.simps) simp
qed

lemma json_string_quoted: "json_string (tl (json_quote t) @ x) = Some (t, x)"
  using json_string_escaped [of t x] by (simp add: json_quote_def)

section \<open>Numbers\<close>

lemma show_nat_no_zero: "hd (show_nat n) = CHR ''0'' \<Longrightarrow> length (show_nat n) \<le> 1"
proof (induction n rule: show_nat.induct)
  case (1 n)
  show ?case
  proof (cases "n < 10")
    case True
    then show ?thesis by (subst show_nat.simps) simp
  next
    case False
    have zero: "m = 0" if "hd (show_nat m) = CHR ''0''" "length (show_nat m) \<le> 1" for m
    proof -
      have "show_nat m = [CHR ''0'']" using that show_nat_not_Nil [of m] by (cases "show_nat m") auto
      then have "read_nat (show_nat m) = 0" by (simp add: read_nat_def digit_value_def of_char_def)
      then show ?thesis by (simp add: read_show_nat)
    qed
    have "show_nat n = show_nat (n div 10) @ [digit_char (n mod 10)]"
      using False by (subst show_nat.simps) simp
    with 1 False show ?thesis using zero [of "n div 10"] show_nat_not_Nil [of "n div 10"] by auto
  qed
qed

lemma digits_of_show: "delim x \<Longrightarrow> digits_of (show_nat n @ x) = (show_nat n, x)"
  using show_nat_digits [of n] delim_not_digit [of x]
  by (simp add: digits_of_def list_all_iff takeWhile_append2 dropWhile_append2)
     (metis append_Nil takeWhile_dropWhile_id)

lemma no_fraction: "delim x \<Longrightarrow> fraction_part x = Some ([], x) \<and> exponent_part x = Some ([], x)"
  by (cases x) (auto simp: fraction_part_def exponent_part_def)

lemma json_number_show:
  assumes "delim x" and "is_safe_int i"
  shows "json_number num (show_int i @ x) = Some (JNum i, x)"
proof -
  have zero: "\<not> (1 < length (show_nat n) \<and> hd (show_nat n) = CHR ''0'')" for n
    using show_nat_no_zero [of n] by auto
  obtain c r where first: "show_nat (nat i) = c # r" "is_digit c" using show_nat_head by blast
  then have "hd (show_nat (nat i) @ x) \<noteq> CHR ''-''" using minus_not_digit by auto
  with assms show ?thesis
    using digits_of_show [OF assms(1)] no_fraction [OF assms(1)] zero show_nat_not_Nil
    by (cases "i < 0") (simp_all add: json_number_def show_int_def read_show_nat)
qed

section \<open>Round trip\<close>

definition reads_back :: "(string \<Rightarrow> jsval) \<Rightarrow> jsval \<Rightarrow> bool" where
  "reads_back num v =
     (\<forall>s x. canonical_json v = Inr s \<longrightarrow> delim x \<longrightarrow> parse_value num (s @ x) = Some (key_normal v, x))"

lemma space_leads: "json_space c \<Longrightarrow> leads c = 7"
proof -
  have "leads (CHR 0x20) = 7" "leads (CHR 0x09) = 7" "leads (CHR 0x0A) = 7" "leads (CHR 0x0D) = 7"
    by code_simp+
  then show "json_space c \<Longrightarrow> leads c = 7" by (auto simp: json_space_def)
qed

lemma no_space: "canonical_json v = Inr s \<Longrightarrow> skip_ws (s @ x) = s @ x"
  using canonical_json_leads [of v s] shape_le [of v] space_leads
  by (fastforce simp: skip_ws_def)

lemma delim_no_space: "delim (c # x) \<Longrightarrow> skip_ws (c # x) = c # x"
  by (auto simp: skip_ws_def json_space_def)

lemma canonical_not_empty: "canonical_json v = Inr s \<Longrightarrow> 0 < length s"
  using canonical_json_leads by fastforce

lemma elements_read:
  assumes "vs \<noteq> []" and "list_all2 (\<lambda>v s. canonical_json v = Inr s) vs ss" and "\<forall>v \<in> set vs. reads_back num v"
  shows "parse_elements num (join_with '','' ss @ CHR '']'' # x) = Some (map key_normal vs, x)"
  using assms
proof (induction vs arbitrary: ss)
  case (Cons v vs)
  obtain s ss' where ss: "ss = s # ss'" "canonical_json v = Inr s"
    "list_all2 (\<lambda>v s. canonical_json v = Inr s) vs ss'"
    using Cons.prems(2) by (auto simp: list_all2_Cons1)
  define tail where "tail = (if ss' = [] then CHR '']'' # x else CHR '','' # join_with '','' ss' @ CHR '']'' # x)"
  have layout: "join_with '','' ss @ CHR '']'' # x = s @ tail" by (simp add: ss(1) join_with_Cons tail_def)
  have "delim tail" by (simp add: tail_def)
  then have read: "parse_value num (s @ tail) = Some (key_normal v, tail)"
    using Cons.prems(3) ss(2) by (simp add: reads_back_def)
  have vs: "vs = [] \<longleftrightarrow> ss' = []" using ss(3) by (auto dest: list_all2_lengthD)
  show ?case
  proof (cases "vs = []")
    case True
    then show ?thesis
      unfolding layout using read vs canonical_not_empty [OF ss(2)]
      by (subst parse_elements.simps) (simp add: tail_def delim_no_space)
  next
    case False
    then have "parse_elements num (join_with '','' ss' @ CHR '']'' # x) = Some (map key_normal vs, x)"
      using Cons.IH [OF _ ss(3)] Cons.prems(3) by simp
    then show ?thesis
      unfolding layout using read vs False canonical_not_empty [OF ss(2)]
      by (subst parse_elements.simps) (simp add: tail_def delim_no_space)
  qed
qed simp

lemma put_member_new: "k \<notin> fst ` set kvs \<Longrightarrow> put_member kvs k v = kvs @ [(k, v)]"
  by (induction kvs) auto

lemma members_read:
  assumes "kws \<noteq> []" and "list_all2 (\<lambda>kv s. member_text kv = Inr s) kws ss"
    and "\<forall>kv \<in> set kws. reads_back num (snd kv)" and "distinct (map fst kvs @ map fst kws)"
  shows "parse_members num kvs (join_with '','' ss @ CHR ''}'' # x) = Some (kvs @ map member_normal kws, x)"
  using assms
proof (induction kws arbitrary: kvs ss)
  case (Cons kw kws)
  obtain s ss' where ss: "ss = s # ss'" "member_text kw = Inr s"
    "list_all2 (\<lambda>kv s. member_text kv = Inr s) kws ss'"
    using Cons.prems(2) by (auto simp: list_all2_Cons1)
  obtain t where t: "canonical_json (snd kw) = Inr t" "s = json_quote (fst kw) @ '':'' @ t"
    using ss(2) by (auto simp: member_text_def rbind_Inr_iff)
  define tail where "tail = (if ss' = [] then CHR ''}'' # x else CHR '','' # join_with '','' ss' @ CHR ''}'' # x)"
  have layout: "join_with '','' ss @ CHR ''}'' # x = CHR 0x22 # tl (json_quote (fst kw)) @ CHR '':'' # t @ tail"
    by (simp add: ss(1) t(2) join_with_Cons tail_def json_quote_def)
  have "delim tail" by (simp add: tail_def)
  then have read: "parse_value num (t @ tail) = Some (key_normal (snd kw), tail)"
    using Cons.prems(3) t(1) by (simp add: reads_back_def)
  have new: "put_member kvs (fst kw) v = kvs @ [(fst kw, v)]" for v
    using Cons.prems(4) by (intro put_member_new) auto
  have quote: "skip_ws (CHR 0x22 # y) = CHR 0x22 # y" "skip_ws (CHR '':'' # y) = CHR '':'' # y" for y
    by (simp_all add: skip_ws_def json_space_def)
  have kws: "kws = [] \<longleftrightarrow> ss' = []" using ss(3) by (auto dest: list_all2_lengthD)
  show ?case
  proof (cases "kws = []")
    case True
    then show ?thesis
      unfolding layout using read kws
      by (subst parse_members.simps)
         (simp add: quote json_string_quoted new tail_def delim_no_space member_normal_def)
  next
    case False
    have "parse_members num (kvs @ [(fst kw, key_normal (snd kw))]) (join_with '','' ss' @ CHR ''}'' # x)
        = Some (kvs @ map member_normal (kw # kws), x)"
      using Cons.IH [OF False ss(3), of "kvs @ [(fst kw, key_normal (snd kw))]"] Cons.prems(3,4)
      by (simp add: member_normal_def)
    then show ?thesis
      unfolding layout using read kws False
      by (subst parse_members.simps)
         (simp add: quote json_string_quoted new tail_def delim_no_space)
  qed
qed simp

lemma parse_object:
  assumes "parse_members num [] cs = Some (kvs, r)" and "cs = CHR 0x22 # ds"
  shows "parse_value num (CHR ''{'' # cs) = Some (JObj kvs, r)"
  using assms by (subst parse_value.simps) (simp add: skip_ws_def json_space_def)

lemma parse_array:
  assumes "parse_elements num cs = Some (vs, r)" and "skip_ws cs = d # ds" and "d \<noteq> CHR '']''"
  shows "parse_value num (CHR ''['' # cs) = Some (JArr vs, r)"
  using assms by (subst parse_value.simps) (simp add: skip_ws_def json_space_def)

lemma parse_empty:
  "parse_value num (''[]'' @ x) = Some (JArr [], x)" "parse_value num (''{}'' @ x) = Some (JObj [], x)"
  by (subst parse_value.simps, simp add: skip_ws_def json_space_def)+

lemma canonical_reads_back: "js_wf v \<Longrightarrow> reads_back num v"
proof (induction v rule: canonical_json.induct)
  case (6 vs)
  show ?case
    unfolding reads_back_def
  proof (intro allI impI)
    fix s x
    assume "canonical_json (JArr vs) = Inr s" and "delim x"
    then obtain ss where ss: "list_all2 (\<lambda>v s. canonical_json v = Inr s) vs ss" "s = ''['' @ join_with '','' ss @ '']''"
      by (auto simp: rbind_Inr_iff traverse_Inr_iff)
    show "parse_value num (s @ x) = Some (key_normal (JArr vs), x)"
    proof (cases vs)
      case Nil
      with ss parse_empty show ?thesis by simp
    next
      case (Cons v vs')
      then obtain t ts where t: "ss = t # ts" "canonical_json v = Inr t" using ss(1) by (auto simp: list_all2_Cons1)
      obtain d ds where d: "t = d # ds" "d \<noteq> CHR '']''" using canonical_json_nonempty [OF t(2)] by blast
      have "skip_ws (join_with '','' ss @ CHR '']'' # x) = join_with '','' ss @ CHR '']'' # x"
        using no_space [OF t(2)] by (simp add: t(1) join_with_Cons)
      moreover have "join_with '','' ss @ CHR '']'' # x = d # (ds @ (if ts = [] then [] else '','' @ join_with '','' ts) @ CHR '']'' # x)"
        by (simp add: t(1) join_with_Cons d)
      ultimately show ?thesis
        using parse_array [OF elements_read [OF _ ss(1)]] 6 Cons d(2) by (simp add: ss(2))
    qed
  qed
next
  case (7 kvs)
  show ?case
    unfolding reads_back_def
  proof (intro allI impI)
    fix s x
    assume "canonical_json (JObj kvs) = Inr s" and "delim x"
    then obtain ss where ss: "list_all2 (\<lambda>kv s. member_text kv = Inr s) (sort_key fst kvs) ss"
      "s = ''{'' @ join_with '','' ss @ ''}''"
      unfolding canonical_json_JObj by (auto simp: rbind_Inr_iff traverse_Inr_iff)
    have members: "\<forall>kv \<in> set (sort_key fst kvs). reads_back num (snd kv)" using 7 by auto
    have distinct: "distinct (map fst (sort_key fst kvs))"
      using "7.prems" by (simp add: distinct_map)
    show "parse_value num (s @ x) = Some (key_normal (JObj kvs), x)"
    proof (cases "sort_key fst kvs")
      case Nil
      with ss parse_empty show ?thesis by simp
    next
      case (Cons kv kvs')
      then obtain t ts where t: "ss = t # ts" "member_text kv = Inr t" using ss(1) by (auto simp: list_all2_Cons1)
      then obtain ds where "t = CHR 0x22 # ds" by (auto simp: member_text_def rbind_Inr_iff json_quote_def)
      then have "\<exists>es. join_with '','' ss @ CHR ''}'' # x = CHR 0x22 # es" by (simp add: t(1) join_with_Cons)
      then obtain es where es: "join_with '','' ss @ CHR ''}'' # x = CHR 0x22 # es" ..
      have "parse_members num [] (join_with '','' ss @ CHR ''}'' # x) = Some (map member_normal (sort_key fst kvs), x)"
        using members_read [OF _ ss(1) members, of "[]" x] Cons distinct by simp
      then show ?thesis using parse_object [OF _ es] by (simp only: key_normal_JObj ss(2)) simp
    qed
  qed
next
  case (3 t)
  have "parse_value num (json_quote t @ x) = Some (JStr t, x)" for x
    using json_string_quoted [of t x]
    by (subst parse_value.simps) (simp add: json_quote_def skip_ws_def json_space_def)
  then show ?case by (simp add: reads_back_def)
next
  case (4 i)
  show ?case
    unfolding reads_back_def
  proof (intro allI impI)
    fix s x
    assume c: "canonical_json (JNum i) = Inr s" and d: "delim x"
    then have s: "s = show_int i" "is_safe_int i" by (auto split: if_splits)
    obtain e es where e: "s = e # es" "leads e = 6" using canonical_json_leads [OF c] by auto
    have kinds: "e \<noteq> CHR ''{''" "e \<noteq> CHR ''[''" "e \<noteq> CHR 0x22" "e = CHR ''-'' \<or> is_digit e"
      using e(2) by (auto simp: leads_def split: if_splits)
    have "json_number num (s @ x) = Some (JNum i, x)" using json_number_show [OF d s(2)] by (simp add: s(1))
    then show "parse_value num (s @ x) = Some (key_normal (JNum i), x)"
      using no_space [OF c, of x] kinds by (subst parse_value.simps) (simp add: e(1))
  qed
next
  case (2 b)
  have lead: "\<not> is_digit CHR ''t''" "\<not> is_digit CHR ''f''" by code_simp+
  show ?case
    by (auto simp: reads_back_def parse_value.simps [of num "_ # _"] skip_ws_def json_space_def lead json_literal_def starts_with_def)
next
  case 1
  have lead: "\<not> is_digit CHR ''n''" by code_simp
  show ?case
    by (simp add: reads_back_def parse_value.simps [of num "_ # _"] skip_ws_def json_space_def lead json_literal_def starts_with_def)
qed (simp_all add: reads_back_def fail_def)

lemma json_parse_canonical:
  assumes "js_wf v" and "canonical_json v = Inr s"
  shows "json_parse num s = Some (key_normal v)"
  using canonical_reads_back [OF assms(1), of num] assms(2)
  by (fastforce simp: reads_back_def delim_def json_parse_def skip_ws_def)

text \<open>A key of a parsed object.\<close>

lemma map_of_sort_key: "distinct (map fst kvs) \<Longrightarrow> map_of (sort_key fst kvs) = map_of kvs"
  by (rule iffD2 [OF map_of_inject_set]) (auto simp: distinct_map)

lemma map_of_members: "map_of (map member_normal kvs) k = map_option key_normal (map_of kvs k)"
  by (induction kvs) (auto simp: member_normal_def)

lemma get_prop_parsed:
  assumes "distinct (map fst kvs)"
  shows "get_prop (key_normal (JObj kvs)) k = (case map_of kvs k of Some v \<Rightarrow> key_normal v | None \<Rightarrow> JUndef)"
  unfolding key_normal_JObj
  by (simp add: get_prop_def map_of_members map_of_sort_key [OF assms] split: option.split)

end
