(* ===== verification/State_Tables.thy ===== *)
theory State_Tables
  imports Transition_Authority Attempt_Workspace Js_Date Json_Parse
begin

text \<open>
  The tables of the state database as far as lifecycle transitions read or write them: the rows of
  \<open>orchestrator/src/state/migrations.ts\<close>, the constraints, unique indexes, foreign keys and update
  triggers SQLite checks on the rows that are written, and the statements of
  \<open>orchestrator/src/state/store.ts\<close> that write them.

  A table is the list of its rows in insertion order; columns no modelled statement reads are left
  out. A \<open>NULL\<close> column is \<open>None\<close>. The flags SQLite stores as 0 and 1 are booleans and the
  enumerated columns have the types of the state contract, whose values are the ones the \<open>CHECK\<close>
  constraints of the tables admit.
\<close>

section \<open>Errors\<close>

datatype state_error_code =
    TransitionIllegal | OwnerMismatch | IdempotencyConflict | StateConflict | ResumeIncompatible
  | StateCorrupt

text \<open>
  What an operation throws: a \<open>TypeError\<close>, the \<open>RangeError\<close> of an invalid date, the \<open>SyntaxError\<close>
  of \<open>JSON.parse\<close>, a coded \<open>StateStoreError\<close>, or a constraint error of
  SQLite. The flag of the latter says that the message is the one of a legal-edge trigger.
\<close>

datatype store_error = TypeErr | RangeErr | SyntaxErr | StateErr state_error_code | Sql_Constraint bool

definition ensure_that :: "bool \<Rightarrow> store_error \<Rightarrow> (store_error, unit) result" where
  "ensure_that b e = (if b then Inr () else Inl e)"

lemma ensure_that_ok [simp]: "ensure_that b e = Inr x \<longleftrightarrow> b"
  by (simp add: ensure_that_def)

section \<open>Rows\<close>

text \<open>The columns the three lifecycle tables share; \<open>row_id\<close> is the primary key of each.\<close>

record snapshot_row =
  row_id :: string
  row_state :: lifecycle_state
  row_version :: int

record run_row = snapshot_row +
  run_repository :: string
  run_delivery_ref :: string
  run_current_oid :: string
  run_promotion_sequence :: int

record ticket_row = snapshot_row +
  tk_run :: string
  tk_ticket_id :: string
  tk_contract_digest :: string

record attempt_row = snapshot_row +
  at_ticket :: string
  at_run :: string
  at_ticket_id :: string
  at_number :: int
  at_contract_digest :: string
  at_owner_digest :: string
  at_baseline_oid :: string
  at_resource_version :: string

record context_row =
  ctx_id :: string
  ctx_digest :: string
  ctx_attempt :: string
  ctx_role :: string

record phase_row =
  ph_id :: string
  ph_attempt :: string
  ph_context :: string
  ph_phase :: string
  ph_role :: string

record evidence_row =
  ev_id :: string
  ev_attempt :: "string option"
  ev_phase :: "string option"
  ev_context :: string
  ev_producer :: service
  ev_scope :: string
  ev_schema :: string
  ev_digest :: string
  ev_payload :: "string option"
  ev_external :: "(string \<times> string \<times> int) option"
  ev_key :: string
  ev_created :: string

record transition_row =
  tx_id :: string
  tx_run :: "string option"
  tx_ticket :: "string option"
  tx_attempt :: "string option"
  tx_sequence :: int
  tx_from :: lifecycle_state
  tx_to :: lifecycle_state
  tx_owner :: service
  tx_owner_digest :: string
  tx_input_digest :: string
  tx_key :: string
  tx_created :: string

record evidence_ref_row =
  er_transition :: string
  er_ordinal :: nat
  er_purpose :: string
  er_evidence :: string

record ownership_row =
  ow_id :: string
  ow_attempt :: string
  ow_generation :: int
  ow_token_digest :: string
  ow_context_digest :: string
  ow_context_json :: string
  ow_recovered_from :: "string option"
  ow_heartbeat :: string
  ow_expires :: string
  ow_state :: lease_state
  ow_version :: int
  ow_created :: string

record claim_row =
  cl_id :: string
  cl_attempt :: string
  cl_slot :: resource_kind
  cl_kind :: resource_kind
  cl_identity :: string
  cl_identity_digest :: string
  cl_allocation :: string
  cl_ownership :: string
  cl_generation :: int
  cl_state :: resource_state
  cl_version :: int
  cl_release_proof :: "string option"
  cl_quarantine_proof :: "string option"
  cl_created :: string

text \<open>An ownership operation with its immutable input and its sealed result.\<close>

record operation_row =
  op_id :: string
  op_ownership :: string
  op_attempt :: string
  op_kind :: string
  op_key :: string
  op_input_digest :: string
  op_input_json :: string
  op_result_digest :: string
  op_result_json :: string
  op_created :: string

text \<open>A launched process, its observations in order and its terminal receipt.\<close>

record launch_row =
  ln_id :: string
  ln_receipt :: string
  ln_repository :: string
  ln_attempt :: string
  ln_ownership :: string
  ln_generation :: int
  ln_ownership_digest :: string
  ln_phase :: string
  ln_context :: string
  ln_context_digest :: string
  ln_spawn_digest :: string
  ln_pid :: int
  ln_pgid :: int
  ln_platform :: string
  ln_boot :: string
  ln_start :: string
  ln_argv_digest :: string
  ln_environment_digest :: string
  ln_stdout :: string
  ln_stderr :: string
  ln_output_limit :: int
  ln_tail_limit :: int
  ln_group_version :: int
  ln_stdout_version :: int
  ln_stderr_version :: int
  ln_evidence :: string
  ln_created :: string

record observation_row =
  ob_id :: string
  ob_launch :: string
  ob_attempt :: string
  ob_sequence :: int
  ob_kind :: string
  ob_evidence :: string
  ob_schema :: string
  ob_payload_digest :: string
  ob_created :: string

record terminal_row =
  tm_receipt :: string
  tm_launch :: string
  tm_attempt :: string
  tm_outcome :: string
  tm_exit_code :: "int option"
  tm_signal :: "string option"
  tm_timed_out :: bool
  tm_group_dead :: bool
  tm_descendants_dead :: bool
  tm_observation_count :: int
  tm_result_digest :: string
  tm_created :: string

record salvage_row =
  sv_id :: string
  sv_attempt :: string
  sv_disposition :: string
  sv_artifact_path :: "string option"
  sv_artifact_digest :: "string option"
  sv_artifact_size :: "int option"
  sv_evidence :: string
  sv_created :: string

text \<open>The released v1 aggregates \<open>attempt_resources\<close> and \<open>leases\<close>.\<close>

record v1_resource_row =
  v1r_attempt :: string
  v1r_state :: resource_state

record v1_lease_row =
  v1l_attempt :: string
  v1l_state :: lease_state

record process_receipt_row =
  pr_id :: string
  pr_phase :: string
  pr_context :: string
  pr_launch :: string
  pr_exit :: "string option"

record review_row =
  rv_id :: string
  rv_attempt :: string
  rv_context :: string
  rv_verdict :: string
  rv_verdict_evidence :: string
  rv_findings_evidence :: string

record remediation_row =
  rm_id :: string
  rm_attempt :: string
  rm_context :: string
  rm_findings_evidence :: string
  rm_output_evidence :: string

record gate_row =
  gt_id :: string
  gt_attempt :: string
  gt_context :: string
  gt_status :: gate_status
  gt_required :: bool
  gt_evidence :: string

record attribution_row =
  ca_id :: string
  ca_attempt :: string
  ca_evidence :: string

record commit_intent_row =
  ci_attribution :: "string option"
  ci_attempt :: string
  ci_commit_oid :: "string option"
  ci_finalized :: bool

record cleanup_row =
  cu_id :: string
  cu_attempt :: string
  cu_sequence :: int
  cu_context :: string
  cu_outcome :: string
  cu_group_dead :: bool
  cu_resources_absent :: bool
  cu_lease_release_eligible :: bool
  cu_observed_oid :: string
  cu_evidence :: string
  cu_digest :: string

record decision_row =
  od_id :: string
  od_attempt :: "string option"
  od_accepted :: bool

record promotion_row =
  pi_id :: string
  pi_attempt :: string
  pi_decision :: string
  pi_state :: promotion_state
  pi_observation_evidence :: "string option"
  pi_finalization_evidence :: "string option"

record delivery_intent_row =
  di_id :: string
  di_run :: string
  di_oid :: string

record remote_observation_row =
  ro_id :: string
  ro_intent :: string
  ro_sequence :: int
  ro_operation :: string
  ro_outcome :: string
  ro_oid :: "string option"
  ro_evidence :: string

record pr_observation_row =
  po_id :: string
  po_intent :: string
  po_sequence :: int
  po_provider :: string
  po_base :: string
  po_head :: string
  po_identity :: string
  po_head_oid :: string
  po_evidence :: string

record delivery_record_row =
  dr_id :: string
  dr_intent :: string
  dr_from :: string
  dr_remote :: "string option"
  dr_pr :: "string option"
  dr_decision_evidence :: string
  dr_cleanup_evidence :: string
  dr_oid :: string
  dr_decision :: string
  dr_output_digest :: string

section \<open>The database\<close>

record state_db =
  db_runs :: "run_row list"
  db_tickets :: "ticket_row list"
  db_attempts :: "attempt_row list"
  db_transitions :: "transition_row list"
  db_refs :: "evidence_ref_row list"
  db_evidence :: "evidence_row list"
  db_contexts :: "context_row list"
  db_phases :: "phase_row list"
  db_ownerships :: "ownership_row list"
  db_claims :: "claim_row list"
  db_v1_resources :: "v1_resource_row list"
  db_v1_leases :: "v1_lease_row list"
  db_receipts :: "process_receipt_row list"
  db_reviews :: "review_row list"
  db_remediations :: "remediation_row list"
  db_gates :: "gate_row list"
  db_attributions :: "attribution_row list"
  db_commit_intents :: "commit_intent_row list"
  db_cleanups :: "cleanup_row list"
  db_decisions :: "decision_row list"
  db_promotions :: "promotion_row list"
  db_delivery_intents :: "delivery_intent_row list"
  db_remote_observations :: "remote_observation_row list"
  db_pr_observations :: "pr_observation_row list"
  db_delivery_records :: "delivery_record_row list"
  db_operations :: "operation_row list"
  db_launches :: "launch_row list"
  db_observations :: "observation_row list"
  db_terminals :: "terminal_row list"
  db_salvages :: "salvage_row list"

text \<open>
  What a store operation takes from outside: SHA-256 with its prefix, SQLite's \<open>json_extract\<close>, the
  selected location and the object format of its repository, one reading of the clock in
  milliseconds, the parts of \<open>Date.parse\<close> and \<open>JSON.parse\<close> that are parameters of their models,
  base64 decoding and encoding, Git's \<open>rev-parse --verify\<close> (\<open>None\<close> when it fails) and the exit status of
  \<open>rev-parse\<close> and \<open>show-ref\<close> (\<open>None\<close> without one), the bytes of a salvage artifact after the checks
  of its file, and the random identifiers it draws, indexed by the number of rows the table has.
\<close>

record store_env =
  env_sha256 :: "string \<Rightarrow> string"
  env_json_extract :: "string \<Rightarrow> string \<Rightarrow> jsval"
  env_cwd :: string
  env_location :: StateLocation
  env_object_format :: string
  env_clock :: int
  env_date_parse :: "string \<Rightarrow> int option"
  env_json_number :: "string \<Rightarrow> jsval"
  env_base64 :: "string \<Rightarrow> string"
  env_base64_encode :: "string \<Rightarrow> string"
  env_rev_parse :: "string \<Rightarrow> string option"
  env_rev_parse_status :: "string \<Rightarrow> int option"
  env_show_ref_status :: "string \<Rightarrow> int option"
  env_artifact :: "string \<Rightarrow> salvage_row \<Rightarrow> (store_error, string) result"
  env_transition_id :: "nat \<Rightarrow> string"
  env_evidence_id :: "nat \<Rightarrow> string"

text \<open>\<open>new Date().toISOString()\<close>, \<open>Date.parse(text)\<close> and \<open>JSON.parse(text)\<close>.\<close>

definition env_now :: "store_env \<Rightarrow> string" where
  "env_now env = toISOString (env_clock env)"

definition date_ms :: "store_env \<Rightarrow> string \<Rightarrow> int option" where
  "date_ms env text = date_parse (env_date_parse env) text"

definition parse_json :: "store_env \<Rightarrow> string \<Rightarrow> jsval option" where
  "parse_json env text = json_parse (env_json_number env) text"

text \<open>The store's own \<open>canonicalJson\<close> throws a \<open>TypeError\<close>.\<close>

definition canonical_text :: "jsval \<Rightarrow> (store_error, string) result" where
  "canonical_text v = (case canonical_json v of Inl _ \<Rightarrow> Inl TypeErr | Inr t \<Rightarrow> Inr t)"

section \<open>Transactions\<close>

text \<open>
  \<open>#immediate\<close>: the callback's writes are kept when it returns and rolled back when it throws, and
  SQLite's constraint errors become coded errors. Locking and nesting are not modelled.
\<close>

definition translate_error :: "store_error \<Rightarrow> store_error" where
  "translate_error e =
     (case e of
        Sql_Constraint illegal_edge \<Rightarrow> StateErr (if illegal_edge then TransitionIllegal else StateConflict)
      | _ \<Rightarrow> e)"

definition immediate ::
  "(state_db \<Rightarrow> (store_error, state_db \<times> 'a) result) \<Rightarrow> state_db \<Rightarrow> state_db \<times> (store_error, 'a) result" where
  "immediate callback db =
     (case callback db of
        Inl e \<Rightarrow> (db, Inl (translate_error e))
      | Inr (db', x) \<Rightarrow> (db', Inr x))"

lemma immediate_Inr_iff: "immediate f db = (db', Inr x) \<longleftrightarrow> f db = Inr (db', x)"
  by (auto simp: immediate_def split: sum.splits)

lemma immediate_Inl: "immediate f db = (db', Inl e) \<Longrightarrow> db' = db"
  by (auto simp: immediate_def split: sum.splits prod.splits)

section \<open>Lifecycle rows\<close>

definition find_row :: "'a snapshot_row_scheme list \<Rightarrow> string \<Rightarrow> 'a snapshot_row_scheme option" where
  "find_row rows i = find (\<lambda>r. row_id r = i) rows"

definition snapshot_of :: "'a snapshot_row_scheme \<Rightarrow> lifecycle_state \<times> int" where
  "snapshot_of r = (row_state r, row_version r)"

text \<open>
  \<open>UPDATE ... SET state = ?, state_version = state_version + 1 WHERE ...\<close>: the legal-edge trigger
  fires on every row the condition selects; the identity columns and the version step satisfy the
  other two triggers. The count is \<open>changes\<close>.
\<close>

definition advance_row :: "lifecycle_state \<Rightarrow> 'a snapshot_row_scheme \<Rightarrow> 'a snapshot_row_scheme" where
  "advance_row t r = r\<lparr>row_state := t, row_version := row_version r + 1\<rparr>"

definition update_where ::
  "(lifecycle_state \<Rightarrow> lifecycle_state \<Rightarrow> bool) \<Rightarrow> lifecycle_state \<Rightarrow> ('a snapshot_row_scheme \<Rightarrow> bool)
    \<Rightarrow> 'a snapshot_row_scheme list \<Rightarrow> (store_error, 'a snapshot_row_scheme list \<times> nat) result" where
  "update_where legal t P rows =
     (if \<exists>r \<in> set rows. P r \<and> \<not> legal (row_state r) t then Inl (Sql_Constraint True)
      else Inr (map (\<lambda>r. if P r then advance_row t r else r) rows, length (filter P rows)))"

definition entity_snapshot :: "TransitionEntityKind \<Rightarrow> string \<Rightarrow> state_db \<Rightarrow> (lifecycle_state \<times> int) option" where
  "entity_snapshot kind i db =
     (case kind of
        RunEntity \<Rightarrow> map_option snapshot_of (find_row (db_runs db) i)
      | TicketEntity \<Rightarrow> map_option snapshot_of (find_row (db_tickets db) i)
      | AttemptEntity \<Rightarrow> map_option snapshot_of (find_row (db_attempts db) i))"

text \<open>The compare-and-set of a committed transition.\<close>

definition cas_entity ::
  "TransitionEntityKind \<Rightarrow> string \<Rightarrow> lifecycle_state \<Rightarrow> lifecycle_state \<Rightarrow> int \<Rightarrow> state_db
    \<Rightarrow> (store_error, state_db \<times> nat) result" where
  "cas_entity kind i f t v db =
     (case kind of
        RunEntity \<Rightarrow>
          rbind (update_where runs_legal_edge t (\<lambda>r. row_id r = i \<and> row_state r = f \<and> row_version r = v) (db_runs db))
            (\<lambda>(rows, n). Inr (db\<lparr>db_runs := rows\<rparr>, n))
      | TicketEntity \<Rightarrow>
          rbind (update_where run_tickets_legal_edge t (\<lambda>r. row_id r = i \<and> row_state r = f \<and> row_version r = v) (db_tickets db))
            (\<lambda>(rows, n). Inr (db\<lparr>db_tickets := rows\<rparr>, n))
      | AttemptEntity \<Rightarrow>
          rbind (update_where attempts_legal_edge t (\<lambda>r. row_id r = i \<and> row_state r = f \<and> row_version r = v) (db_attempts db))
            (\<lambda>(rows, n). Inr (db\<lparr>db_attempts := rows\<rparr>, n)))"

section \<open>Constraint checks of the written tables\<close>

text \<open>\<open>UTC\<close>: at least 20 characters and a final \<open>Z\<close>.\<close>

definition utc_text :: "string \<Rightarrow> bool" where
  "utc_text s = (length s \<ge> 20 \<and> ends_with s ''Z'')"

definition tx_entity :: "TransitionEntityKind \<Rightarrow> transition_row \<Rightarrow> string option" where
  "tx_entity kind t = (case kind of RunEntity \<Rightarrow> tx_run t | TicketEntity \<Rightarrow> tx_ticket t | AttemptEntity \<Rightarrow> tx_attempt t)"

definition scope_count :: "transition_row \<Rightarrow> nat" where
  "scope_count t = length (filter (\<lambda>x. x \<noteq> None) [tx_run t, tx_ticket t, tx_attempt t])"

definition transition_checks :: "transition_row \<Rightarrow> bool" where
  "transition_checks t =
     (tx_id t \<noteq> '''' \<and> tx_sequence t > 0
      \<and> lifecycle_state_name (tx_from t) \<noteq> '''' \<and> lifecycle_state_name (tx_to t) \<noteq> ''''
      \<and> service_name (tx_owner t) \<noteq> '''' \<and> is_digest (tx_owner_digest t) \<and> is_digest (tx_input_digest t)
      \<and> tx_key t \<noteq> '''' \<and> utc_text (tx_created t) \<and> scope_count t = 1
      \<and> lifecycle_state_name (tx_from t) \<noteq> lifecycle_state_name (tx_to t))"

text \<open>Primary key, the sequence and idempotency indexes of the three scopes.\<close>

definition transition_clash :: "transition_row \<Rightarrow> transition_row \<Rightarrow> bool" where
  "transition_clash t u =
     (tx_id t = tx_id u
      \<or> (\<exists>kind \<in> {RunEntity, TicketEntity, AttemptEntity}.
           tx_entity kind t \<noteq> None \<and> tx_entity kind t = tx_entity kind u
           \<and> (tx_sequence t = tx_sequence u \<or> tx_key t = tx_key u)))"

definition transition_references :: "state_db \<Rightarrow> transition_row \<Rightarrow> bool" where
  "transition_references db t =
     ((case tx_run t of None \<Rightarrow> True | Some i \<Rightarrow> find_row (db_runs db) i \<noteq> None)
      \<and> (case tx_ticket t of None \<Rightarrow> True | Some i \<Rightarrow> find_row (db_tickets db) i \<noteq> None)
      \<and> (case tx_attempt t of None \<Rightarrow> True | Some i \<Rightarrow> find_row (db_attempts db) i \<noteq> None))"

definition insert_transition :: "transition_row \<Rightarrow> state_db \<Rightarrow> (store_error, state_db) result" where
  "insert_transition t db =
     (if transition_checks t \<and> \<not> (\<exists>u \<in> set (db_transitions db). transition_clash t u)
         \<and> transition_references db t
      then Inr (db\<lparr>db_transitions := db_transitions db @ [t]\<rparr>)
      else Inl (Sql_Constraint False))"

definition insert_ref :: "state_db \<Rightarrow> evidence_ref_row \<Rightarrow> (store_error, state_db) result" where
  "insert_ref db r =
     (if er_transition r \<noteq> '''' \<and> er_purpose r \<noteq> '''' \<and> er_evidence r \<noteq> ''''
         \<and> \<not> (\<exists>q \<in> set (db_refs db). er_transition q = er_transition r
               \<and> (er_ordinal q = er_ordinal r \<or> (er_purpose q = er_purpose r \<and> er_evidence q = er_evidence r)))
         \<and> (\<exists>t \<in> set (db_transitions db). tx_id t = er_transition r)
         \<and> (\<exists>e \<in> set (db_evidence db). ev_id e = er_evidence r)
      then Inr (db\<lparr>db_refs := db_refs db @ [r]\<rparr>)
      else Inl (Sql_Constraint False))"

fun insert_refs :: "state_db \<Rightarrow> evidence_ref_row list \<Rightarrow> (store_error, state_db) result" where
  "insert_refs db [] = Inr db"
| "insert_refs db (r # rs) = rbind (insert_ref db r) (\<lambda>db'. insert_refs db' rs)"

definition evidence_checks :: "evidence_row \<Rightarrow> bool" where
  "evidence_checks e =
     (ev_id e \<noteq> '''' \<and> ev_context e \<noteq> '''' \<and> service_name (ev_producer e) \<noteq> '''' \<and> ev_scope e \<noteq> ''''
      \<and> ev_schema e \<noteq> '''' \<and> is_digest (ev_digest e) \<and> ev_key e \<noteq> '''' \<and> utc_text (ev_created e)
      \<and> (ev_payload e = None \<longleftrightarrow> ev_external e \<noteq> None))"

definition evidence_clash :: "evidence_row \<Rightarrow> evidence_row \<Rightarrow> bool" where
  "evidence_clash e g =
     (ev_id e = ev_id g
      \<or> ev_producer e = ev_producer g \<and> ev_scope e = ev_scope g \<and> (ev_key e = ev_key g \<or> ev_digest e = ev_digest g))"

text \<open>The foreign keys, single and composite; a key with a \<open>NULL\<close> column is not checked.\<close>

definition evidence_references :: "state_db \<Rightarrow> evidence_row \<Rightarrow> bool" where
  "evidence_references db e =
     ((\<exists>c \<in> set (db_contexts db). ctx_id c = ev_context e
         \<and> (case ev_attempt e of None \<Rightarrow> True | Some a \<Rightarrow> ctx_attempt c = a))
      \<and> (case ev_attempt e of None \<Rightarrow> True | Some a \<Rightarrow> find_row (db_attempts db) a \<noteq> None)
      \<and> (case ev_phase e of None \<Rightarrow> True | Some p \<Rightarrow>
           (\<exists>x \<in> set (db_phases db). ph_id x = p \<and> ph_context x = ev_context e
              \<and> (case ev_attempt e of None \<Rightarrow> True | Some a \<Rightarrow> ph_attempt x = a))))"

definition insert_evidence :: "evidence_row \<Rightarrow> state_db \<Rightarrow> (store_error, state_db) result" where
  "insert_evidence e db =
     (if evidence_checks e \<and> \<not> (\<exists>g \<in> set (db_evidence db). evidence_clash e g) \<and> evidence_references db e
      then Inr (db\<lparr>db_evidence := db_evidence db @ [e]\<rparr>)
      else Inl (Sql_Constraint False))"

section \<open>History queries\<close>

text \<open>The rows of one entity, oldest first.\<close>

definition history :: "TransitionEntityKind \<Rightarrow> string \<Rightarrow> state_db \<Rightarrow> transition_row list" where
  "history kind i db = filter (\<lambda>t. tx_entity kind t = Some i) (db_transitions db)"

text \<open>\<open>COALESCE(MAX(entity_sequence), 0) + 1\<close>.\<close>

definition next_sequence :: "TransitionEntityKind \<Rightarrow> string \<Rightarrow> state_db \<Rightarrow> int" where
  "next_sequence kind i db = foldr max (map tx_sequence (history kind i db)) 0 + 1"

definition transition_by_key :: "TransitionEntityKind \<Rightarrow> string \<Rightarrow> string \<Rightarrow> state_db \<Rightarrow> transition_row option" where
  "transition_by_key kind i key db = find (\<lambda>t. tx_entity kind t = Some i \<and> tx_key t = key) (db_transitions db)"

definition refs_of :: "string \<Rightarrow> state_db \<Rightarrow> evidence_ref_row list" where
  "refs_of transition db = sort_key er_ordinal (filter (\<lambda>r. er_transition r = transition) (db_refs db))"

end
