(* ===== verification/State_Guards.thy ===== *)
theory State_Guards
  imports State_Tables
begin

text \<open>
  What \<open>StateStore\<close> checks before it commits a transition (\<open>orchestrator/src/state/store.ts\<close>):
  resolution of the evidence, the owner of the transition and the guard of the edge, each guard the
  query of the code over the tables. A query by primary key takes the first row, an inner join is an
  existence condition on the joined rows, and \<open>requireCommandEvidence\<close> demands that the evidence
  the guard rests on is pinned by the transition.
\<close>

definition illegal :: store_error where
  "illegal = StateErr TransitionIllegal"

text \<open>\<open>#requireTransitionGuard\<close>: the row, or an illegal transition.\<close>

definition requireTransitionGuard :: "'a option \<Rightarrow> (store_error, 'a) result" where
  "requireTransitionGuard row = (case row of None \<Rightarrow> Inl illegal | Some r \<Rightarrow> Inr r)"

lemma requireTransitionGuard_iff [simp]: "requireTransitionGuard row = Inr r \<longleftrightarrow> row = Some r"
  by (auto simp: requireTransitionGuard_def split: option.split)

section \<open>Evidence\<close>

type_synonym evidence_list = "(string \<times> string) list"

text \<open>The lineage query: a context that is the context of a phase execution.\<close>

definition evidence_lineage :: "state_db \<Rightarrow> string \<Rightarrow> (string \<times> string) option" where
  "evidence_lineage db ctx =
     (case find (\<lambda>c. ctx_id c = ctx) (db_contexts db) of
        None \<Rightarrow> None
      | Some c \<Rightarrow> map_option (\<lambda>x. (ctx_attempt c, ph_id x)) (find (\<lambda>x. ph_context x = ctx) (db_phases db)))"

text \<open>Every column of the row but its id and its creation time.\<close>

definition same_semantics :: "evidence_row \<Rightarrow> evidence_row \<Rightarrow> bool" where
  "same_semantics e g = (e\<lparr>ev_id := ev_id g, ev_created := ev_created g\<rparr> = g)"

definition inline_row ::
  "store_env \<Rightarrow> state_db \<Rightarrow> InlineTransitionEvidence \<Rightarrow> string \<times> string \<Rightarrow> string \<Rightarrow> evidence_row" where
  "inline_row env db input lineage payload =
     \<lparr>ev_id = env_evidence_id env (length (db_evidence db)),
      ev_attempt = Some (fst lineage),
      ev_phase = Some (snd lineage),
      ev_context = ie_contextId input,
      ev_producer = ie_producerService input,
      ev_scope = ie_scope input,
      ev_schema = ie_schemaVersion input,
      ev_digest = env_sha256 env payload,
      ev_payload = Some payload,
      ev_external = None,
      ev_key = ie_idempotencyKey input,
      ev_created = env_now env\<rparr>"

definition resolveTransitionEvidence ::
  "store_env \<Rightarrow> service \<Rightarrow> state_db \<Rightarrow> TransitionEvidenceReference
    \<Rightarrow> (store_error, state_db \<times> (string \<times> string)) result" where
  "resolveTransitionEvidence env owner db reference =
     (case reference of
        ExistingEvidence purpose i \<Rightarrow> Inr (db, (purpose, i))
      | InlineEvidence purpose input \<Rightarrow>
          if ie_producerService input \<noteq> owner then Inl (StateErr OwnerMismatch)
          else
            case evidence_lineage db (ie_contextId input) of
              None \<Rightarrow> Inl (StateErr ResumeIncompatible)
            | Some lineage \<Rightarrow>
                rbind (canonical_text (ie_payload input)) (\<lambda>payload.
                if \<not> starts_with payload ''{'' then Inl TypeErr
                else
                  let row = inline_row env db input lineage payload in
                  case find (\<lambda>e. ev_producer e = ie_producerService input \<and> ev_scope e = ie_scope input
                                \<and> ev_key e = ie_idempotencyKey input) (db_evidence db) of
                    Some existing \<Rightarrow>
                      if same_semantics existing row then Inr (db, (purpose, ev_id existing))
                      else Inl (StateErr IdempotencyConflict)
                  | None \<Rightarrow> rbind (insert_evidence row db) (\<lambda>db'. Inr (db', (purpose, ev_id row)))))"

text \<open>\<open>#requireCommandEvidence\<close>; a \<open>NULL\<close> id is never pinned.\<close>

definition requireCommandEvidence :: "evidence_list \<Rightarrow> string option list \<Rightarrow> (store_error, unit) result" where
  "requireCommandEvidence evidence ids =
     ensure_that (\<forall>i \<in> set ids. case i of None \<Rightarrow> False | Some e \<Rightarrow> e \<in> snd ` set evidence) illegal"

lemma requireCommandEvidence_iff [simp]:
  "requireCommandEvidence evidence ids = Inr u \<longleftrightarrow> (\<forall>i \<in> set ids. \<exists>e \<in> set evidence. i = Some (snd e))"
  by (simp add: requireCommandEvidence_def) (intro ball_cong refl, force split: option.split)

definition requireExactInlineEvidence ::
  "store_env \<Rightarrow> state_db \<Rightarrow> string \<Rightarrow> service \<Rightarrow> string \<Rightarrow> string \<Rightarrow> jsval \<Rightarrow> (store_error, unit) result" where
  "requireExactInlineEvidence env db i producer scope schema payload =
     rbind (requireTransitionGuard (find (\<lambda>e. ev_id e = i) (db_evidence db))) (\<lambda>e.
     rbind (canonical_text payload) (\<lambda>text.
     ensure_that (ev_producer e = producer \<and> ev_scope e = scope \<and> ev_schema e = schema
        \<and> ev_payload e = Some text \<and> ev_digest e = env_sha256 env text) illegal))"

text \<open>\<open>#validateTransitionEvidence\<close>: the evidence belongs to the lineage of the entity.\<close>

definition evidence_attempt :: "state_db \<Rightarrow> string \<Rightarrow> attempt_row option" where
  "evidence_attempt db i =
     (case find (\<lambda>e. ev_id e = i) (db_evidence db) of
        None \<Rightarrow> None
      | Some e \<Rightarrow>
          (case find (\<lambda>c. ctx_id c = ev_context e) (db_contexts db) of
             None \<Rightarrow> None
           | Some c \<Rightarrow> find_row (db_attempts db) (ctx_attempt c)))"

definition validateTransitionEvidence :: "state_db \<Rightarrow> transition_row \<Rightarrow> string \<times> string \<Rightarrow> (store_error, unit) result" where
  "validateTransitionEvidence db t reference =
     (case evidence_attempt db (snd reference) of
        None \<Rightarrow> Inl (StateErr StateConflict)
      | Some a \<Rightarrow>
          ensure_that (\<not> ((tx_attempt t \<noteq> None \<and> tx_attempt t \<noteq> Some (row_id a))
                      \<or> (tx_ticket t \<noteq> None \<and> tx_ticket t \<noteq> Some (at_ticket a))
                      \<or> (tx_run t \<noteq> None \<and> tx_run t \<noteq> Some (at_run a))))
            (StateErr ResumeIncompatible))"

section \<open>Owner\<close>

definition entity_of_attempt :: "TransitionEntityKind \<Rightarrow> attempt_row \<Rightarrow> string" where
  "entity_of_attempt kind a =
     (case kind of RunEntity \<Rightarrow> at_run a | TicketEntity \<Rightarrow> at_ticket a | AttemptEntity \<Rightarrow> row_id a)"

text \<open>The attempt of the context with a digest.\<close>

definition context_owner :: "state_db \<Rightarrow> string \<Rightarrow> attempt_row option" where
  "context_owner db digest =
     (case find (\<lambda>c. ctx_digest c = digest) (db_contexts db) of
        None \<Rightarrow> None
      | Some c \<Rightarrow> find_row (db_attempts db) (ctx_attempt c))"

definition allocated_attempt :: "TransitionGuard \<Rightarrow> string option" where
  "allocated_attempt guard =
     (case guard of RunInitialAttempt a \<Rightarrow> Some a | TicketAttemptAllocation a _ \<Rightarrow> Some a | _ \<Rightarrow> None)"

definition validateTransitionOwner :: "state_db \<Rightarrow> TransitionCommit \<Rightarrow> (store_error, unit) result" where
  "validateTransitionOwner db command =
     (case allocated_attempt (tc_guard command) of
        Some i \<Rightarrow>
          (case find_row (db_attempts db) i of
             None \<Rightarrow> Inl (StateErr OwnerMismatch)
           | Some a \<Rightarrow>
               ensure_that ((if tc_entityKind command = RunEntity then at_run a = tc_entityId command
                         else at_ticket a = tc_entityId command)
                        \<and> at_owner_digest a = tc_ownerContextDigest command)
                 (StateErr OwnerMismatch))
      | None \<Rightarrow>
          (case context_owner db (tc_ownerContextDigest command) of
             None \<Rightarrow> Inl (StateErr OwnerMismatch)
           | Some a \<Rightarrow>
               ensure_that (entity_of_attempt (tc_entityKind command) a = tc_entityId command)
                 (StateErr OwnerMismatch)))"

section \<open>Terminal ownership of an attempt\<close>

datatype terminal_state = TerminalReleased | TerminalQuarantined

fun terminal_lease :: "terminal_state \<Rightarrow> lease_state" where
  "terminal_lease TerminalReleased = LReleased"
| "terminal_lease TerminalQuarantined = LQuarantined"

fun terminal_resource :: "terminal_state \<Rightarrow> resource_state" where
  "terminal_resource TerminalReleased = RReleased"
| "terminal_resource TerminalQuarantined = RQuarantined"

fun terminal_proof :: "terminal_state \<Rightarrow> claim_row \<Rightarrow> string option" where
  "terminal_proof TerminalReleased c = cl_release_proof c"
| "terminal_proof TerminalQuarantined c = cl_quarantine_proof c"

text \<open>\<open>#attemptOwnershipPlan\<close>: the plan of the attempt's persisted lineage.\<close>

definition attemptOwnershipPlan :: "store_env \<Rightarrow> state_db \<Rightarrow> string \<Rightarrow> (store_error, AttemptWorkspacePlan) result" where
  "attemptOwnershipPlan env db i =
     (case find_row (db_attempts db) i of
        None \<Rightarrow> Inl (StateErr OwnerMismatch)
      | Some a \<Rightarrow>
          (case (find_row (db_tickets db) (at_ticket a), find_row (db_runs db) (at_run a)) of
             (Some _, Some r) \<Rightarrow>
               if run_repository r \<noteq> sl_repositoryId (env_location env) then Inl (StateErr OwnerMismatch)
               else
                 (case deriveAttemptWorkspacePlan (env_sha256 env) (env_cwd env) (env_location env)
                    \<lparr>ol_repositoryId = run_repository r, ol_runId = at_run a, ol_ticketInstanceId = at_ticket a,
                     ol_ticketId = at_ticket_id a, ol_attemptId = row_id a, ol_attemptNumber = at_number a,
                     ol_contractDigest = at_contract_digest a,
                     ol_resourceIdentityVersion = at_resource_version a,
                     ol_deliveryBaselineOid = at_baseline_oid a, ol_deliveryRef = run_delivery_ref r\<rparr> of
                    Inl _ \<Rightarrow> Inl TypeErr
                  | Inr plan \<Rightarrow> Inr plan)
           | _ \<Rightarrow> Inl (StateErr OwnerMismatch)))"

definition current_ownership :: "state_db \<Rightarrow> string \<Rightarrow> ownership_row option" where
  "current_ownership db i =
     (case sort_key (\<lambda>o'. - ow_generation o') (filter (\<lambda>o'. ow_attempt o' = i) (db_ownerships db)) of
        [] \<Rightarrow> None
      | o' # _ \<Rightarrow> Some o')"

definition current_claims :: "state_db \<Rightarrow> string \<Rightarrow> claim_row list" where
  "current_claims db i =
     sort_key (\<lambda>c. resource_kind_text (cl_slot c)) (filter (\<lambda>c. cl_attempt c = i) (db_claims db))"

definition claim_terminal :: "terminal_state \<Rightarrow> ownership_row \<Rightarrow> claim_row \<Rightarrow> bool" where
  "claim_terminal s o' c =
     (cl_ownership c = ow_id o' \<and> cl_generation c = ow_generation o' \<and> cl_state c = terminal_resource s
      \<and> terminal_proof s c \<noteq> None)"

text \<open>The check against the v2 ownership tables; the proof digest all claims share is the result.\<close>

definition validate_v2_ownership ::
  "store_env \<Rightarrow> state_db \<Rightarrow> string \<Rightarrow> terminal_state \<Rightarrow> (store_error, string) result" where
  "validate_v2_ownership env db i s =
     rbind (attemptOwnershipPlan env db i) (\<lambda>plan.
     let claims = current_claims db i in
     case current_ownership db i of
       None \<Rightarrow> Inl illegal
     | Some o' \<Rightarrow>
         if ow_state o' \<noteq> terminal_lease s \<or> length claims \<noteq> length (wp_resources plan)
            \<or> \<not> list_all (claim_terminal s o') claims
            \<or> length (remdups (map (terminal_proof s) claims)) \<noteq> 1
         then Inl illegal
         else (case map (terminal_proof s) claims of
                 Some proof # _ \<Rightarrow> Inr proof
               | _ \<Rightarrow> Inl illegal))"

definition validateTerminalAttemptOwnership ::
  "store_env \<Rightarrow> state_db \<Rightarrow> string \<Rightarrow> string \<Rightarrow> terminal_state \<Rightarrow> (store_error, cleanup_row) result" where
  "validateTerminalAttemptOwnership env db i cleanupId s =
     rbind (requireTransitionGuard
       (if find_row (db_attempts db) i = None then None
        else find (\<lambda>c. cu_id c = cleanupId \<and> cu_attempt c = i) (db_cleanups db))) (\<lambda>cleanup.
     if \<not> (cu_group_dead cleanup \<and> cu_resources_absent cleanup \<and> cu_lease_release_eligible cleanup)
     then Inl illegal
     else if current_ownership db i \<noteq> None \<or> current_claims db i \<noteq> [] then
       rbind (validate_v2_ownership env db i s) (\<lambda>proof.
       if cu_id cleanup \<noteq> ''cleanup-record-'' @ drop 7 proof then Inl illegal else Inr cleanup)
     else if (\<exists>r \<in> set (db_v1_resources db). v1r_attempt r = i \<and> v1r_state r \<notin> {RReleased, RQuarantined})
             \<or> (\<exists>l \<in> set (db_v1_leases db). v1l_attempt l = i \<and> v1l_state l \<notin> {LReleased, LQuarantined})
     then Inl illegal
     else Inr cleanup)"

definition validateCleanAttempt where
  "validateCleanAttempt env db i cleanupId = validateTerminalAttemptOwnership env db i cleanupId TerminalReleased"

definition validateQuarantinedAttempt where
  "validateQuarantinedAttempt env db i cleanupId = validateTerminalAttemptOwnership env db i cleanupId TerminalQuarantined"

section \<open>Guards\<close>

definition context_has_digest :: "state_db \<Rightarrow> string \<Rightarrow> string \<Rightarrow> bool" where
  "context_has_digest db ctx digest = (\<exists>c \<in> set (db_contexts db). ctx_id c = ctx \<and> ctx_digest c = digest)"

definition ticket_allocation_guard :: "state_db \<Rightarrow> string \<Rightarrow> string \<Rightarrow> bool \<Rightarrow> (store_error, unit) result" where
  "ticket_allocation_guard db ticket i retry =
     rbind (requireTransitionGuard (find (\<lambda>a. row_id a = i \<and> at_ticket a = ticket) (db_attempts db))) (\<lambda>a.
     ensure_that (row_state a = Planned \<and> (if retry then at_number a > 1 else at_number a = 1)) illegal)"

definition live_lease_guard ::
  "store_env \<Rightarrow> state_db \<Rightarrow> string \<Rightarrow> string \<Rightarrow> string \<Rightarrow> (store_error, unit) result" where
  "live_lease_guard env db i digest ownership =
     rbind (requireTransitionGuard (find (\<lambda>o'. ow_id o' = ownership \<and> ow_attempt o' = i \<and> ow_state o' = LLive
              \<and> ow_recovered_from o' = None \<and> ow_context_digest o' = digest \<and> ow_expires o' > env_now env)
              (db_ownerships db))) (\<lambda>_.
     let kinds = remdups (map cl_kind (filter (\<lambda>c. cl_attempt c = i \<and> cl_ownership c = ownership
                   \<and> cl_state c \<in> {RReserved, RAllocated, RActive}) (db_claims db)))
     in ensure_that (length kinds = length RESOURCE_KINDS \<and> set RESOURCE_KINDS \<subseteq> set kinds) illegal)"

definition exited_process_guard ::
  "state_db \<Rightarrow> string \<Rightarrow> string \<Rightarrow> evidence_list \<Rightarrow> string \<Rightarrow> (store_error, unit) result" where
  "exited_process_guard db i digest evidence receipt =
     rbind (requireTransitionGuard (find (\<lambda>p. pr_id p = receipt \<and> pr_exit p \<noteq> None
              \<and> (\<exists>x \<in> set (db_phases db). ph_id x = pr_phase p \<and> ph_attempt x = i)
              \<and> context_has_digest db (pr_context p) digest) (db_receipts db))) (\<lambda>p.
     requireCommandEvidence evidence [Some (pr_launch p), pr_exit p])"

definition phase_context_guard ::
  "state_db \<Rightarrow> string \<Rightarrow> string \<Rightarrow> string \<Rightarrow> string \<Rightarrow> (store_error, unit) result" where
  "phase_context_guard db i digest ctx role =
     ensure_that (\<exists>c \<in> set (db_contexts db).
       ctx_id c = ctx \<and> ctx_attempt c = i \<and> ctx_digest c = digest \<and> ctx_role c = role) illegal"

definition review_guard ::
  "state_db \<Rightarrow> string \<Rightarrow> string \<Rightarrow> evidence_list \<Rightarrow> string \<Rightarrow> string \<Rightarrow> (store_error, unit) result" where
  "review_guard db i digest evidence review verdict =
     rbind (requireTransitionGuard (find (\<lambda>r. rv_id r = review \<and> rv_attempt r = i
              \<and> context_has_digest db (rv_context r) digest) (db_reviews db))) (\<lambda>r.
     if rv_verdict r \<noteq> verdict then Inl illegal
     else requireCommandEvidence evidence [Some (rv_verdict_evidence r), Some (rv_findings_evidence r)])"

definition remediation_guard ::
  "state_db \<Rightarrow> string \<Rightarrow> string \<Rightarrow> evidence_list \<Rightarrow> string \<Rightarrow> (store_error, unit) result" where
  "remediation_guard db i digest evidence remediation =
     rbind (requireTransitionGuard (find (\<lambda>r. rm_id r = remediation \<and> rm_attempt r = i
              \<and> context_has_digest db (rm_context r) digest) (db_remediations db))) (\<lambda>r.
     requireCommandEvidence evidence [Some (rm_findings_evidence r), Some (rm_output_evidence r)])"

text \<open>The gate rows of an attempt with the digest of the context each was evaluated in.\<close>

definition gate_selection :: "state_db \<Rightarrow> string \<Rightarrow> (gate_row \<times> string) list" where
  "gate_selection db i =
     concat (map (\<lambda>g. map (\<lambda>c. (g, ctx_digest c)) (filter (\<lambda>c. ctx_id c = gt_context g) (db_contexts db)))
       (sort_key gt_id (filter (\<lambda>g. gt_attempt g = i) (db_gates db))))"

definition unpassed_required :: "gate_row \<Rightarrow> bool" where
  "unpassed_required g = (gt_required g \<and> gt_status g \<noteq> Passed)"

definition gates_guard ::
  "state_db \<Rightarrow> string \<Rightarrow> string \<Rightarrow> lifecycle_state \<Rightarrow> evidence_list \<Rightarrow> string list \<Rightarrow> (store_error, unit) result" where
  "gates_guard db i digest t evidence ids =
     (if ids = [] \<or> \<not> no_dups ids then Inl TypeErr
      else
        let rows = gate_selection db i in
        if map (\<lambda>r. gt_id (fst r)) rows \<noteq> sort ids \<or> (\<exists>r \<in> set rows. snd r \<noteq> digest) then Inl illegal
        else if t = CleanupPending \<and> \<not> (\<exists>r \<in> set rows. unpassed_required (fst r)) then Inl illegal
        else if t \<noteq> CleanupPending \<and> (\<exists>r \<in> set rows. unpassed_required (fst r)) then Inl illegal
        else requireCommandEvidence evidence (map (\<lambda>r. Some (gt_evidence (fst r))) rows))"

definition cleanup_begin_guard ::
  "state_db \<Rightarrow> string \<Rightarrow> evidence_list \<Rightarrow> string option \<Rightarrow> (store_error, unit) result" where
  "cleanup_begin_guard db i evidence attribution =
     (case attribution of
        Some a \<Rightarrow>
          rbind (requireTransitionGuard (find (\<lambda>c. ca_id c = a \<and> ca_attempt c = i
                   \<and> (\<exists>n \<in> set (db_commit_intents db). ci_attribution n = Some (ca_id c)
                        \<and> ci_attempt n = ca_attempt c \<and> ci_finalized n)) (db_attributions db))) (\<lambda>c.
          requireCommandEvidence evidence [Some (ca_evidence c)])
      | None \<Rightarrow> ensure_that (\<exists>e \<in> set evidence. fst e = ''failure'') illegal)"

definition cleanup_done_guard ::
  "store_env \<Rightarrow> state_db \<Rightarrow> string \<Rightarrow> string \<Rightarrow> evidence_list \<Rightarrow> string \<Rightarrow> cleanup_outcome \<Rightarrow> (store_error, unit) result" where
  "cleanup_done_guard env db i digest evidence cleanupId out =
     rbind (case out of OutcomeFailedClean \<Rightarrow> validateCleanAttempt env db i cleanupId
                      | OutcomeQuarantined \<Rightarrow> validateQuarantinedAttempt env db i cleanupId) (\<lambda>cleanup.
     if cu_outcome cleanup \<noteq> cleanup_outcome_name out then Inl illegal
     else if map_option ctx_digest (find (\<lambda>c. ctx_id c = cu_context cleanup) (db_contexts db)) \<noteq> Some digest
     then Inl (StateErr OwnerMismatch)
     else requireCommandEvidence evidence [Some (cu_evidence cleanup)])"

text \<open>The promotion of an accepted decision of an attempt, in a given state.\<close>

definition accepted_promotion ::
  "state_db \<Rightarrow> string \<Rightarrow> string \<Rightarrow> string \<Rightarrow> promotion_state \<Rightarrow> promotion_row option" where
  "accepted_promotion db i decision promotion s =
     find (\<lambda>p. pi_id p = promotion \<and> pi_decision p = decision \<and> pi_state p = s
             \<and> (\<exists>d \<in> set (db_decisions db). od_id d = decision \<and> od_attempt d = Some i \<and> od_accepted d))
       (db_promotions db)"

definition oracle_promotion_guard ::
  "state_db \<Rightarrow> string \<Rightarrow> evidence_list \<Rightarrow> string \<Rightarrow> string \<Rightarrow> (store_error, unit) result" where
  "oracle_promotion_guard db i evidence decision promotion =
     rbind (requireTransitionGuard (accepted_promotion db i decision promotion RefObservedCandidate)) (\<lambda>p.
     requireCommandEvidence evidence [pi_observation_evidence p])"

definition verified_promotion_guard ::
  "store_env \<Rightarrow> state_db \<Rightarrow> string \<Rightarrow> evidence_list \<Rightarrow> string \<Rightarrow> string \<Rightarrow> string \<Rightarrow> (store_error, unit) result" where
  "verified_promotion_guard env db i evidence decision promotion cleanupId =
     rbind (validateCleanAttempt env db i cleanupId) (\<lambda>cleanup.
     rbind (requireTransitionGuard (accepted_promotion db i decision promotion Finalized)) (\<lambda>p.
     requireCommandEvidence evidence [Some (cu_evidence cleanup), pi_finalization_evidence p]))"

text \<open>The evidence of the attempt's latest transition, when that one entered cleanup.\<close>

definition is_latest :: "TransitionEntityKind \<Rightarrow> string \<Rightarrow> state_db \<Rightarrow> transition_row \<Rightarrow> bool" where
  "is_latest kind i db t = (\<forall>u \<in> set (history kind i db). tx_sequence u \<le> tx_sequence t)"

definition cleanup_transition_evidence :: "state_db \<Rightarrow> string \<Rightarrow> string list" where
  "cleanup_transition_evidence db i =
     concat (map (\<lambda>t. map er_evidence (filter (\<lambda>r. er_transition r = tx_id t) (db_refs db)))
       (filter (\<lambda>t. tx_to t = CleanupPending \<and> is_latest AttemptEntity i db t) (history AttemptEntity i db)))"

text \<open>Shared by the cleanup guards of tickets and runs; \<open>P\<close> selects the attempt in the entity.\<close>

definition attempt_cleanup_guard ::
  "state_db \<Rightarrow> (attempt_row \<Rightarrow> bool) \<Rightarrow> evidence_list \<Rightarrow> string \<Rightarrow> (store_error, unit) result" where
  "attempt_cleanup_guard db P evidence i =
     rbind (requireTransitionGuard (find (\<lambda>a. row_id a = i \<and> P a \<and> row_state a = CleanupPending) (db_attempts db))) (\<lambda>_.
     ensure_that (\<exists>e \<in> set (cleanup_transition_evidence db i). e \<in> snd ` set evidence) illegal)"

definition ticket_failure_guard ::
  "store_env \<Rightarrow> state_db \<Rightarrow> string \<Rightarrow> evidence_list \<Rightarrow> string \<Rightarrow> string \<Rightarrow> bool \<Rightarrow> (store_error, unit) result" where
  "ticket_failure_guard env db ticket evidence i cleanupId quarantined =
     rbind (requireTransitionGuard (find (\<lambda>a. row_id a = i \<and> at_ticket a = ticket) (db_attempts db))) (\<lambda>a.
     if row_state a \<noteq> (if quarantined then Quarantined else FailedClean) then Inl illegal
     else
       rbind (if quarantined then validateQuarantinedAttempt env db i cleanupId
              else validateCleanAttempt env db i cleanupId) (\<lambda>cleanup.
       requireCommandEvidence evidence [Some (cu_evidence cleanup)]))"

definition ticket_finalization_guard ::
  "store_env \<Rightarrow> state_db \<Rightarrow> string \<Rightarrow> evidence_list \<Rightarrow> string \<Rightarrow> string \<Rightarrow> string \<Rightarrow> string \<Rightarrow> (store_error, unit) result" where
  "ticket_finalization_guard env db ticket evidence i cleanupId decision promotion =
     rbind (validateCleanAttempt env db i cleanupId) (\<lambda>cleanup.
     rbind (requireTransitionGuard
       (if \<exists>a \<in> set (db_attempts db). row_id a = i \<and> at_ticket a = ticket \<and> row_state a = Verified
        then find (\<lambda>p. pi_attempt p = i \<and> pi_decision p = decision \<and> pi_id p = promotion \<and> pi_state p = Finalized
               \<and> (\<exists>d \<in> set (db_decisions db). od_id d = decision \<and> od_attempt d = Some i \<and> od_accepted d))
             (db_promotions db)
        else None)) (\<lambda>p.
     requireCommandEvidence evidence [Some (cu_evidence cleanup), pi_finalization_evidence p]))"

text \<open>The cleanup record of some attempt of the run.\<close>

definition run_cleanup_record :: "state_db \<Rightarrow> string \<Rightarrow> string \<Rightarrow> cleanup_row option" where
  "run_cleanup_record db run cleanupId =
     find (\<lambda>c. cu_id c = cleanupId \<and> (\<exists>a \<in> set (db_attempts db). row_id a = cu_attempt c \<and> at_run a = run))
       (db_cleanups db)"

definition run_cleanup_complete_guard ::
  "store_env \<Rightarrow> state_db \<Rightarrow> string \<Rightarrow> evidence_list \<Rightarrow> string \<Rightarrow> (store_error, unit) result" where
  "run_cleanup_complete_guard env db run evidence cleanupId =
     rbind (requireTransitionGuard (run_cleanup_record db run cleanupId)) (\<lambda>cleanup.
     rbind (validateCleanAttempt env db (cu_attempt cleanup) cleanupId) (\<lambda>_.
     requireCommandEvidence evidence [Some (cu_evidence cleanup)]))"

definition run_failure_guard ::
  "state_db \<Rightarrow> string \<Rightarrow> evidence_list \<Rightarrow> string \<Rightarrow> (store_error, unit) result" where
  "run_failure_guard db run evidence cleanupId =
     rbind (requireTransitionGuard (run_cleanup_record db run cleanupId)) (\<lambda>cleanup.
     if \<not> (cu_group_dead cleanup \<and> cu_resources_absent cleanup) then Inl illegal
     else requireCommandEvidence evidence [Some (cu_evidence cleanup)])"

text \<open>The finalization evidence of the run's tickets, by ticket.\<close>

definition ready_ticket_evidence :: "state_db \<Rightarrow> string \<Rightarrow> (string \<times> string) list" where
  "ready_ticket_evidence db run =
     concat (map (\<lambda>k. concat (map (\<lambda>t. map (\<lambda>r. (row_id k, er_evidence r))
                                      (filter (\<lambda>r. er_transition r = tx_id t) (db_refs db)))
        (filter (\<lambda>t. tx_to t = ReadyForDelivery \<and> is_latest TicketEntity (row_id k) db t)
           (history TicketEntity (row_id k) db))))
       (filter (\<lambda>k. tk_run k = run) (db_tickets db)))"

definition run_ready_guard :: "store_env \<Rightarrow> state_db \<Rightarrow> string \<Rightarrow> evidence_list \<Rightarrow> (store_error, unit) result" where
  "run_ready_guard env db run evidence =
     rbind (requireTransitionGuard (find_row (db_runs db) run)) (\<lambda>r.
     let tickets = filter (\<lambda>k. tk_run k = run) (db_tickets db) in
     if tickets = [] \<or> (\<exists>k \<in> set tickets. row_state k \<noteq> ReadyForDelivery) then Inl illegal
     else if length (remdups (map fst (ready_ticket_evidence db run))) \<noteq> length tickets then Inl illegal
     else
       rbind (requireCommandEvidence evidence (map (\<lambda>e. Some (snd e)) (ready_ticket_evidence db run))) (\<lambda>_.
       case env_rev_parse env (run_delivery_ref r) of
         None \<Rightarrow> Inl illegal
       | Some observed \<Rightarrow> ensure_that (observed = run_current_oid r) illegal))"

end
