(* ===== verification/State_Commit.thy ===== *)
theory State_Commit
  imports State_Guards
begin

text \<open>
  The commit of a lifecycle transition: \<open>commitAuthorizedTransition\<close> of
  \<open>orchestrator/src/state/store.ts\<close> with the guard of run delivery, the dispatch over the guards, the
  idempotent replay, the insertion of the history row with its evidence references and the
  compare-and-set of the entity.
\<close>

section \<open>The guard of run delivery\<close>

record delivery_join =
  dj_record :: delivery_record_row
  dj_intent :: delivery_intent_row
  dj_run :: run_row
  dj_evidence :: evidence_row
  dj_cleanup :: cleanup_row
  dj_remote :: "remote_observation_row option"
  dj_pr :: "pr_observation_row option"

text \<open>Evidence of a producer whose attempt belongs to the run.\<close>

definition run_evidence :: "state_db \<Rightarrow> string \<Rightarrow> service \<Rightarrow> string \<Rightarrow> evidence_row option" where
  "run_evidence db run producer i =
     find (\<lambda>e. ev_id e = i \<and> ev_producer e = producer
             \<and> (\<exists>a \<in> set (db_attempts db). Some (row_id a) = ev_attempt e \<and> at_run a = run)) (db_evidence db)"

definition delivery_evidence :: "state_db \<Rightarrow> string \<Rightarrow> bool" where
  "delivery_evidence db i = (\<exists>e \<in> set (db_evidence db). ev_id e = i \<and> ev_producer e = DeliveryService)"

definition payload_field :: "store_env \<Rightarrow> evidence_row \<Rightarrow> string \<Rightarrow> jsval" where
  "payload_field env e path = (case ev_payload e of None \<Rightarrow> JNull | Some t \<Rightarrow> env_json_extract env t path)"

definition latest_remote :: "state_db \<Rightarrow> remote_observation_row \<Rightarrow> bool" where
  "latest_remote db r =
     (\<forall>u \<in> set (db_remote_observations db). ro_intent u = ro_intent r \<longrightarrow> ro_sequence u \<le> ro_sequence r)"

definition latest_pr :: "state_db \<Rightarrow> pr_observation_row \<Rightarrow> bool" where
  "latest_pr db p =
     (\<forall>u \<in> set (db_pr_observations db). po_intent u = po_intent p \<longrightarrow> po_sequence u \<le> po_sequence p)"

definition delivery_row :: "store_env \<Rightarrow> state_db \<Rightarrow> string \<Rightarrow> string \<Rightarrow> string \<Rightarrow> delivery_join option" where
  "delivery_row env db run i decision =
     Option.bind (find (\<lambda>d. dr_id d = i \<and> dr_decision d = decision) (db_delivery_records db)) (\<lambda>d.
     Option.bind (find (\<lambda>n. di_id n = dr_intent d \<and> di_run n = run) (db_delivery_intents db)) (\<lambda>n.
     Option.bind (find_row (db_runs db) run) (\<lambda>r.
     Option.bind (run_evidence db run DeliveryService (dr_decision_evidence d)) (\<lambda>de.
     Option.bind (run_evidence db run CleanupService (dr_cleanup_evidence d)) (\<lambda>ce.
     Option.bind (find (\<lambda>c. payload_field env de ''$.cleanup_record_id'' = JStr (cu_id c)
                     \<and> cu_evidence c = ev_id ce \<and> Some (cu_attempt c) = ev_attempt ce
                     \<and> cu_group_dead c \<and> cu_resources_absent c \<and> cu_lease_release_eligible c)
                   (db_cleanups db)) (\<lambda>c.
     let remote = find (\<lambda>u. Some (ro_id u) = dr_remote d \<and> ro_intent u = di_id n) (db_remote_observations db);
         pr = find (\<lambda>u. Some (po_id u) = dr_pr d \<and> po_intent u = di_id n) (db_pr_observations db)
     in if (case remote of None \<Rightarrow> True | Some u \<Rightarrow> delivery_evidence db (ro_evidence u) \<and> latest_remote db u)
           \<and> (case pr of None \<Rightarrow> True | Some u \<Rightarrow> delivery_evidence db (po_evidence u) \<and> latest_pr db u)
        then Some \<lparr>dj_record = d, dj_intent = n, dj_run = r, dj_evidence = de, dj_cleanup = c,
                   dj_remote = remote, dj_pr = pr\<rparr>
        else None))))))"

definition js_nullable :: "string option \<Rightarrow> jsval" where
  "js_nullable x = (case x of None \<Rightarrow> JNull | Some s \<Rightarrow> JStr s)"

definition remote_observation_js :: "string \<Rightarrow> remote_observation_row \<Rightarrow> jsval" where
  "remote_observation_js intent u =
     JObj [(''delivery_intent_id'', JStr intent), (''remote_observation_id'', JStr (ro_id u)),
           (''sequence'', JNum (ro_sequence u)), (''operation'', JStr (ro_operation u)),
           (''outcome'', JStr (ro_outcome u)), (''observed_remote_oid'', js_nullable (ro_oid u))]"

definition pr_observation_js :: "string \<Rightarrow> pr_observation_row \<Rightarrow> jsval" where
  "pr_observation_js intent u =
     JObj [(''delivery_intent_id'', JStr intent), (''pr_observation_id'', JStr (po_id u)),
           (''sequence'', JNum (po_sequence u)), (''provider_repository_id'', JStr (po_provider u)),
           (''base_branch'', JStr (po_base u)), (''head_branch'', JStr (po_head u)),
           (''pr_identity'', JStr (po_identity u)), (''observed_head_oid'', JStr (po_head_oid u))]"

definition decision_payload_js :: "store_env \<Rightarrow> delivery_join \<Rightarrow> jsval" where
  "decision_payload_js env j =
     (let d = dj_record j; extract = payload_field env (dj_evidence j) in
      JObj [(''delivery_intent_id'', JStr (dr_intent d)), (''delivery_record_id'', JStr (dr_id d)),
            (''terminal_from_state'', JStr (dr_from d)), (''remote_observation_id'', js_nullable (dr_remote d)),
            (''pr_observation_id'', js_nullable (dr_pr d)), (''cleanup_record_id'', JStr (cu_id (dj_cleanup j))),
            (''delivery_oid'', JStr (dr_oid d)), (''decision'', JStr (dr_decision d)),
            (''run_id'', extract ''$.run_id''), (''expected_run_version'', extract ''$.expected_run_version''),
            (''transition_idempotency_key'', extract ''$.transition_idempotency_key'')])"

definition delivery_oids_agree :: "delivery_join \<Rightarrow> string \<Rightarrow> bool" where
  "delivery_oids_agree j decision =
     (let oid = dr_oid (dj_record j) in
      oid = di_oid (dj_intent j) \<and> oid = run_current_oid (dj_run j)
      \<and> (decision = ''delivered'' \<longrightarrow>
           map_option ro_operation (dj_remote j) = Some ''ls-remote''
           \<and> Option.bind (dj_remote j) ro_oid = Some oid
           \<and> map_option po_head_oid (dj_pr j) = Some oid))"

definition delivery_guard ::
  "store_env \<Rightarrow> state_db \<Rightarrow> string \<Rightarrow> evidence_list \<Rightarrow> string \<Rightarrow> string \<Rightarrow> (store_error, unit) result" where
  "delivery_guard env db run evidence i decision =
     rbind (requireTransitionGuard (delivery_row env db run i decision)) (\<lambda>j.
     let d = dj_record j; intent = dr_intent d;
         required = [Some (dr_decision_evidence d), Some (dr_cleanup_evidence d)]
           @ (case dj_remote j of None \<Rightarrow> [] | Some u \<Rightarrow> [Some (ro_evidence u)])
           @ (case dj_pr j of None \<Rightarrow> [] | Some u \<Rightarrow> [Some (po_evidence u)])
     in
     rbind (requireCommandEvidence evidence required) (\<lambda>_.
     rbind (case dj_remote j of
              None \<Rightarrow> Inr ()
            | Some u \<Rightarrow> requireExactInlineEvidence env db (ro_evidence u) DeliveryService intent
                ''rickgent.delivery-remote-observation.v1'' (remote_observation_js intent u)) (\<lambda>_.
     rbind (case dj_pr j of
              None \<Rightarrow> Inr ()
            | Some u \<Rightarrow> requireExactInlineEvidence env db (po_evidence u) DeliveryService intent
                ''rickgent.delivery-pr-observation.v1'' (pr_observation_js intent u)) (\<lambda>_.
     rbind (requireExactInlineEvidence env db (dr_decision_evidence d) DeliveryService intent
              ''rickgent.delivery-decision.v1'' (decision_payload_js env j)) (\<lambda>_.
     rbind (canonical_text (decision_payload_js env j)) (\<lambda>text.
     if dr_output_digest d \<noteq> env_sha256 env text then Inl illegal
     else ensure_that (delivery_oids_agree j decision) illegal))))))"

section \<open>The guard of a transition\<close>

definition validateTransitionGuard ::
  "store_env \<Rightarrow> state_db \<Rightarrow> TransitionCommit \<Rightarrow> evidence_list \<Rightarrow> (store_error, unit) result" where
  "validateTransitionGuard env db command evidence =
     (let i = tc_entityId command; digest = tc_ownerContextDigest command in
      case tc_guard command of
        RunInitialAttempt a \<Rightarrow>
          ensure_that (\<exists>r \<in> set (db_attempts db).
            row_id r = a \<and> at_run r = i \<and> at_number r = 1 \<and> row_state r = Planned) illegal
      | TicketAttemptAllocation a retry \<Rightarrow> ticket_allocation_guard db i a retry
      | LiveLease ownership \<Rightarrow> live_lease_guard env db i digest ownership
      | ExitedProcess receipt \<Rightarrow> exited_process_guard db i digest evidence receipt
      | PhaseContext ctx role \<Rightarrow> phase_context_guard db i digest ctx role
      | ReviewVerdict review verdict \<Rightarrow> review_guard db i digest evidence review verdict
      | RemediationDone remediation \<Rightarrow> remediation_guard db i digest evidence remediation
      | GatesSelected ids \<Rightarrow> gates_guard db i digest (tc_toState command) evidence ids
      | CleanupBegin attribution \<Rightarrow> cleanup_begin_guard db i evidence attribution
      | CleanupDone cleanup out \<Rightarrow> cleanup_done_guard env db i digest evidence cleanup out
      | OraclePromotion decision promotion \<Rightarrow> oracle_promotion_guard db i evidence decision promotion
      | VerifiedPromotion decision promotion cleanup \<Rightarrow>
          verified_promotion_guard env db i evidence decision promotion cleanup
      | TicketAttemptCleanup a \<Rightarrow> attempt_cleanup_guard db (\<lambda>r. at_ticket r = i) evidence a
      | TicketFailure a cleanup quarantined \<Rightarrow> ticket_failure_guard env db i evidence a cleanup quarantined
      | TicketFinalization a cleanup decision promotion \<Rightarrow>
          ticket_finalization_guard env db i evidence a cleanup decision promotion
      | RunCleanupBegin a \<Rightarrow> attempt_cleanup_guard db (\<lambda>r. at_run r = i) evidence a
      | RunCleanupComplete cleanup \<Rightarrow> run_cleanup_complete_guard env db i evidence cleanup
      | RunFailure cleanup \<Rightarrow> run_failure_guard db i evidence cleanup
      | RunReady \<Rightarrow> run_ready_guard env db i evidence
      | DeliveryDone record_id decision \<Rightarrow> delivery_guard env db i evidence record_id decision)"

section \<open>Commit\<close>

record TransitionResult =
  rs_transitionId :: string
  rs_entityKind :: TransitionEntityKind
  rs_entityId :: string
  rs_entitySequence :: int
  rs_fromState :: lifecycle_state
  rs_toState :: lifecycle_state
  rs_ownerService :: service
  rs_inputDigest :: string
  rs_stateVersion :: int
  rs_evidence :: evidence_list
  rs_state :: "lifecycle_state \<times> int"

definition transitionResult ::
  "TransitionCommit \<Rightarrow> transition_row \<Rightarrow> int \<Rightarrow> string \<Rightarrow> evidence_list \<Rightarrow> TransitionResult" where
  "transitionResult command t version inputDigest evidence =
     \<lparr>rs_transitionId = tx_id t, rs_entityKind = tc_entityKind command, rs_entityId = tc_entityId command,
      rs_entitySequence = tx_sequence t, rs_fromState = tc_fromState command, rs_toState = tc_toState command,
      rs_ownerService = tc_ownerService command, rs_inputDigest = inputDigest, rs_stateVersion = version,
      rs_evidence = evidence, rs_state = (tc_toState command, version)\<rparr>"

definition input_js :: "TransitionCommit \<Rightarrow> evidence_list \<Rightarrow> jsval" where
  "input_js command evidence =
     JObj [(''entity_kind'', JStr (entity_kind_name (tc_entityKind command))),
           (''entity_id'', JStr (tc_entityId command)),
           (''expected_version'', JNum (tc_expectedVersion command)),
           (''from_state'', JStr (lifecycle_state_name (tc_fromState command))),
           (''to_state'', JStr (lifecycle_state_name (tc_toState command))),
           (''owner_service'', JStr (service_name (tc_ownerService command))),
           (''owner_context_digest'', JStr (tc_ownerContextDigest command)),
           (''guard'', guard_js (tc_guard command)),
           (''evidence'', JArr (map (\<lambda>e. JObj [(''purpose'', JStr (fst e)), (''evidence_id'', JStr (snd e))]) evidence))]"

text \<open>The checks of the command before the database is read.\<close>

definition check_command :: "TransitionCommit \<Rightarrow> (store_error, unit) result" where
  "check_command command =
     (if \<not> is_safe_int (tc_expectedVersion command) \<or> tc_expectedVersion command < 0 then Inl TypeErr
      else if \<not> is_digest (tc_ownerContextDigest command) then Inl TypeErr
      else if tc_idempotencyKey command = '''' \<or> tc_idempotencyKey command \<noteq> trim (tc_idempotencyKey command)
      then Inl TypeErr
      else
        case find_edge (entity_catalog (tc_entityKind command)) (tc_fromState command) (tc_toState command) of
          None \<Rightarrow> Inl illegal
        | Some e \<Rightarrow>
            if de_owner e \<noteq> tc_ownerService command then Inl (StateErr OwnerMismatch)
            else if tc_evidence command = [] then Inl TypeErr
            else Inr ())"

definition check_reference :: "string \<times> string \<Rightarrow> (store_error, unit) result" where
  "check_reference r =
     ensure_that (\<not> (fst r = '''' \<or> fst r \<noteq> trim (fst r) \<or> snd r = '''')) TypeErr"

text \<open>The pinned evidence and the digest of the whole immutable input.\<close>

definition resolve_input ::
  "store_env \<Rightarrow> TransitionCommit \<Rightarrow> state_db \<Rightarrow> (store_error, state_db \<times> evidence_list \<times> string) result" where
  "resolve_input env command db =
     rbind (check_command command) (\<lambda>_.
     rbind (traverse_state (resolveTransitionEvidence env (tc_ownerService command)) db (tc_evidence command))
       (\<lambda>(db', evidence).
     rbind (check_all check_reference evidence) (\<lambda>_.
     rbind (canonical_text (input_js command evidence)) (\<lambda>payload.
     Inr (db', evidence, env_sha256 env payload)))))"

text \<open>Whether the transition recorded under the key is the one the command asks for.\<close>

definition replay_matches ::
  "TransitionCommit \<Rightarrow> transition_row \<Rightarrow> evidence_ref_row list \<Rightarrow> evidence_list \<Rightarrow> string \<Rightarrow> bool" where
  "replay_matches command t refs evidence inputDigest =
     (tx_from t = tc_fromState command \<and> tx_to t = tc_toState command \<and> tx_owner t = tc_ownerService command
      \<and> tx_owner_digest t = tc_ownerContextDigest command \<and> tx_input_digest t = inputDigest
      \<and> map (\<lambda>r. (er_purpose r, er_evidence r)) refs = evidence)"

definition new_transition ::
  "store_env \<Rightarrow> state_db \<Rightarrow> TransitionCommit \<Rightarrow> string \<Rightarrow> transition_row" where
  "new_transition env db command inputDigest =
     (let kind = tc_entityKind command; i = tc_entityId command in
      \<lparr>tx_id = env_transition_id env (length (db_transitions db)),
       tx_run = (if kind = RunEntity then Some i else None),
       tx_ticket = (if kind = TicketEntity then Some i else None),
       tx_attempt = (if kind = AttemptEntity then Some i else None),
       tx_sequence = next_sequence kind i db,
       tx_from = tc_fromState command,
       tx_to = tc_toState command,
       tx_owner = tc_ownerService command,
       tx_owner_digest = tc_ownerContextDigest command,
       tx_input_digest = inputDigest,
       tx_key = tc_idempotencyKey command,
       tx_created = env_now env\<rparr>)"

definition new_refs :: "string \<Rightarrow> evidence_list \<Rightarrow> evidence_ref_row list" where
  "new_refs transition evidence =
     map (\<lambda>(n, e). \<lparr>er_transition = transition, er_ordinal = n, er_purpose = fst e, er_evidence = snd e\<rparr>)
       (enumerate 0 evidence)"

text \<open>The writes of a new transition.\<close>

definition write_transition ::
  "TransitionCommit \<Rightarrow> transition_row \<Rightarrow> evidence_list \<Rightarrow> state_db \<Rightarrow> (store_error, state_db) result" where
  "write_transition command t evidence db =
     rbind (insert_transition t db) (\<lambda>db1.
     rbind (insert_refs db1 (new_refs (tx_id t) evidence)) (\<lambda>db2.
     rbind (cas_entity (tc_entityKind command) (tc_entityId command) (tc_fromState command) (tc_toState command)
              (tc_expectedVersion command) db2) (\<lambda>(db3, changes).
     if changes \<noteq> 1 then Inl (StateErr StateConflict) else Inr db3)))"

definition commit_new ::
  "store_env \<Rightarrow> TransitionCommit \<Rightarrow> evidence_list \<Rightarrow> string \<Rightarrow> state_db
    \<Rightarrow> (store_error, state_db \<times> TransitionResult) result" where
  "commit_new env command evidence inputDigest db =
     (case entity_snapshot (tc_entityKind command) (tc_entityId command) db of
        None \<Rightarrow> Inl (StateErr ResumeIncompatible)
      | Some (state, version) \<Rightarrow>
          if state \<noteq> tc_fromState command then Inl illegal
          else if version \<noteq> tc_expectedVersion command then Inl (StateErr StateConflict)
          else
            rbind (validateTransitionOwner db command) (\<lambda>_.
            rbind (validateTransitionGuard env db command evidence) (\<lambda>_.
            let t = new_transition env db command inputDigest in
            rbind (check_all (validateTransitionEvidence db t) evidence) (\<lambda>_.
            rbind (write_transition command t evidence db) (\<lambda>db'.
            Inr (db', transitionResult command t (tc_expectedVersion command + 1) inputDigest evidence))))))"

definition commitTransitionInCurrentTransaction ::
  "store_env \<Rightarrow> TransitionCommit \<Rightarrow> state_db \<Rightarrow> (store_error, state_db \<times> TransitionResult) result" where
  "commitTransitionInCurrentTransaction env command db =
     rbind (resolve_input env command db) (\<lambda>(db', evidence, inputDigest).
     case transition_by_key (tc_entityKind command) (tc_entityId command) (tc_idempotencyKey command) db' of
       Some t \<Rightarrow>
         if \<not> replay_matches command t (refs_of (tx_id t) db') evidence inputDigest
         then Inl (StateErr IdempotencyConflict)
         else if entity_snapshot (tc_entityKind command) (tc_entityId command) db' = None
         then Inl (StateErr StateCorrupt)
         else Inr (db', transitionResult command t (tc_expectedVersion command + 1) inputDigest evidence)
     | None \<Rightarrow> commit_new env command evidence inputDigest db')"

definition commitAuthorizedTransition ::
  "store_env \<Rightarrow> TransitionCommit \<Rightarrow> state_db \<Rightarrow> state_db \<times> (store_error, TransitionResult) result" where
  "commitAuthorizedTransition env command db =
     immediate (commitTransitionInCurrentTransaction env command) db"

end
