(* ===== verification/State_Lifecycle.thy ===== *)
theory State_Lifecycle
  imports State_Commit
begin

text \<open>
  The other operations of \<open>orchestrator/src/state/store.ts\<close> that change runs, tickets and attempts:
  the activations and state advances of the attempt runner, which write history rows of their own
  and pass no transition guard, the recovery of an orphaned planned attempt, the quarantine of
  resource claims, the run update of a finalized promotion and the rows an allocation inserts. All
  lifecycle operations together are the step relation of the database, and its reachable states keep
  the invariant of the history: the rows of an attempt form an unbroken chain of legal edges from
  \<open>planned\<close> to its current state, numbered from one, and its version counts them.
\<close>

section \<open>Direct transitions\<close>

definition zero_digest :: string where
  "zero_digest = ''sha256:'' @ replicate 64 CHR ''0''"

definition direct_row ::
  "store_env \<Rightarrow> state_db \<Rightarrow> TransitionEntityKind \<Rightarrow> string \<Rightarrow> lifecycle_state \<Rightarrow> lifecycle_state
    \<Rightarrow> service \<Rightarrow> string \<Rightarrow> string \<Rightarrow> string \<Rightarrow> transition_row" where
  "direct_row env db kind i f t owner ownerDigest inputDigest key =
     \<lparr>tx_id = env_transition_id env (length (db_transitions db)),
      tx_run = (if kind = RunEntity then Some i else None),
      tx_ticket = (if kind = TicketEntity then Some i else None),
      tx_attempt = (if kind = AttemptEntity then Some i else None),
      tx_sequence = next_sequence kind i db,
      tx_from = f, tx_to = t, tx_owner = owner, tx_owner_digest = ownerDigest,
      tx_input_digest = inputDigest, tx_key = key, tx_created = env_now env\<rparr>"

text \<open>\<open>UPDATE ... SET state = ? ... WHERE id = ?\<close>\<close>

definition set_run_state :: "string \<Rightarrow> lifecycle_state \<Rightarrow> state_db \<Rightarrow> (store_error, state_db) result" where
  "set_run_state i t db =
     rbind (update_where runs_legal_edge t (\<lambda>r. row_id r = i) (db_runs db))
       (\<lambda>(rows, _). Inr (db\<lparr>db_runs := rows\<rparr>))"

definition set_ticket_state :: "string \<Rightarrow> lifecycle_state \<Rightarrow> state_db \<Rightarrow> (store_error, state_db) result" where
  "set_ticket_state i t db =
     rbind (update_where run_tickets_legal_edge t (\<lambda>r. row_id r = i) (db_tickets db))
       (\<lambda>(rows, _). Inr (db\<lparr>db_tickets := rows\<rparr>))"

definition set_attempt_state :: "string \<Rightarrow> lifecycle_state \<Rightarrow> state_db \<Rightarrow> (store_error, state_db) result" where
  "set_attempt_state i t db =
     rbind (update_where attempts_legal_edge t (\<lambda>r. row_id r = i) (db_attempts db))
       (\<lambda>(rows, _). Inr (db\<lparr>db_attempts := rows\<rparr>))"

text \<open>The ticket follows its attempt into cleanup when it is active; no history row is written.\<close>

definition ticket_of_attempt :: "state_db \<Rightarrow> string \<Rightarrow> string option" where
  "ticket_of_attempt db i = map_option at_ticket (find_row (db_attempts db) i)"

definition cleanup_active_ticket :: "string option \<Rightarrow> state_db \<Rightarrow> (store_error, state_db) result" where
  "cleanup_active_ticket ticket db =
     rbind (update_where run_tickets_legal_edge CleanupPending (\<lambda>r. Some (row_id r) = ticket \<and> row_state r = Active)
              (db_tickets db))
       (\<lambda>(rows, _). Inr (db\<lparr>db_tickets := rows\<rparr>))"

definition insert_direct ::
  "store_env \<Rightarrow> TransitionEntityKind \<Rightarrow> string \<Rightarrow> lifecycle_state \<Rightarrow> lifecycle_state \<Rightarrow> service \<Rightarrow> string
    \<Rightarrow> jsval \<Rightarrow> string \<Rightarrow> state_db \<Rightarrow> (store_error, state_db \<times> string) result" where
  "insert_direct env kind i f t owner ownerDigest input key db =
     rbind (canonical_text input) (\<lambda>text.
     let row = direct_row env db kind i f t owner ownerDigest (env_sha256 env text) key in
     rbind (insert_transition row db) (\<lambda>db'. Inr (db', tx_id row)))"

section \<open>Activation\<close>

definition activateRunForRunner ::
  "store_env \<Rightarrow> string \<Rightarrow> string \<Rightarrow> string \<Rightarrow> state_db \<Rightarrow> state_db \<times> (store_error, unit) result" where
  "activateRunForRunner env run attempt key = immediate (\<lambda>db.
     case find_row (db_runs db) run of
       None \<Rightarrow> Inl (StateErr ResumeIncompatible)
     | Some r \<Rightarrow>
         if row_state r = Active then Inr (db, ())
         else if row_state r \<noteq> Planned then Inl illegal
         else if transition_by_key RunEntity run key db \<noteq> None then Inr (db, ())
         else
           rbind (insert_direct env RunEntity run Planned Active RunAllocationService
                    (env_sha256 env (''activate-run:'' @ run @ '':'' @ attempt))
                    (JObj [(''run_id'', JStr run), (''attempt_id'', JStr attempt), (''idempotency_key'', JStr key)])
                    key db) (\<lambda>(db1, _).
           rbind (set_run_state run Active db1) (\<lambda>db2. Inr (db2, ()))))"

definition activateTicketForRunner ::
  "store_env \<Rightarrow> string \<Rightarrow> string \<Rightarrow> string \<Rightarrow> state_db \<Rightarrow> state_db \<times> (store_error, unit) result" where
  "activateTicketForRunner env ticket attempt key = immediate (\<lambda>db.
     case find_row (db_tickets db) ticket of
       None \<Rightarrow> Inl (StateErr ResumeIncompatible)
     | Some r \<Rightarrow>
         if row_state r = Active then Inr (db, ())
         else if row_state r \<noteq> Planned then Inl illegal
         else if transition_by_key TicketEntity ticket key db \<noteq> None then Inr (db, ())
         else
           rbind (insert_direct env TicketEntity ticket Planned Active RunAllocationService
                    (env_sha256 env (''activate-ticket:'' @ ticket @ '':'' @ attempt))
                    (JObj [(''ticket_instance_id'', JStr ticket), (''attempt_id'', JStr attempt),
                           (''idempotency_key'', JStr key)]) key db) (\<lambda>(db1, _).
           rbind (set_ticket_state ticket Active db1) (\<lambda>db2. Inr (db2, ()))))"

section \<open>Advances of an attempt\<close>

definition pre_cleanup_states :: "lifecycle_state list" where
  "pre_cleanup_states =
     [Planned, Implementing, ImplementationCaptured, Reviewing, Remediating, RemediationCaptured,
      VerificationQueued, Verifying, Converging]"

definition edge_input_js :: "string \<Rightarrow> string \<Rightarrow> lifecycle_state \<Rightarrow> lifecycle_state \<Rightarrow> jsval" where
  "edge_input_js i key f t =
     JObj [(''attempt_id'', JStr i), (''idempotency_key'', JStr key),
           (''from_state'', JStr (lifecycle_state_name f)), (''to_state'', JStr (lifecycle_state_name t))]"

definition advanceAttemptToCleanupPending ::
  "store_env \<Rightarrow> string \<Rightarrow> string \<Rightarrow> state_db \<Rightarrow> state_db \<times> (store_error, unit) result" where
  "advanceAttemptToCleanupPending env i key = immediate (\<lambda>db.
     case find_row (db_attempts db) i of
       None \<Rightarrow> Inl (StateErr ResumeIncompatible)
     | Some a \<Rightarrow>
         if row_state a \<notin> set pre_cleanup_states then Inl illegal
         else
           case transition_by_key AttemptEntity i key db of
             Some t \<Rightarrow> if tx_to t \<noteq> CleanupPending then Inl (StateErr IdempotencyConflict) else Inr (db, ())
           | None \<Rightarrow>
               rbind (insert_direct env AttemptEntity i (row_state a) CleanupPending AttemptLifecycleService
                        zero_digest (edge_input_js i key (row_state a) CleanupPending) key db) (\<lambda>(db1, _).
               rbind (set_attempt_state i CleanupPending db1) (\<lambda>db2.
               rbind (cleanup_active_ticket (ticket_of_attempt db2 i) db2) (\<lambda>db3. Inr (db3, ())))))"

definition advanceTicketToCleanupPending :: "string \<Rightarrow> state_db \<Rightarrow> state_db \<times> (store_error, unit) result" where
  "advanceTicketToCleanupPending i = immediate (\<lambda>db.
     rbind (cleanup_active_ticket (ticket_of_attempt db i) db) (\<lambda>db'. Inr (db', ())))"

text \<open>The lifecycle order the replay test uses; \<open>finalized\<close> is no state of the catalogs.\<close>

definition STATE_ORDER :: "lifecycle_state list" where
  "STATE_ORDER =
     [Planned, Implementing, ImplementationCaptured, Reviewing, VerificationQueued, Verifying, Converging,
      CleanupPending, OtherState ''finalized'']"

definition past_target :: "lifecycle_state \<Rightarrow> lifecycle_state \<Rightarrow> bool" where
  "past_target current target =
     (case (index_of STATE_ORDER current, index_of STATE_ORDER target) of
        (Some a, Some b) \<Rightarrow> a > b
      | _ \<Rightarrow> False)"

definition advanceAttemptState ::
  "store_env \<Rightarrow> string \<Rightarrow> lifecycle_state \<Rightarrow> lifecycle_state \<Rightarrow> string \<Rightarrow> state_db
    \<Rightarrow> state_db \<times> (store_error, unit) result" where
  "advanceAttemptState env i f t key = immediate (\<lambda>db.
     case find_row (db_attempts db) i of
       None \<Rightarrow> Inl (StateErr ResumeIncompatible)
     | Some a \<Rightarrow>
         if row_state a \<noteq> f \<and> row_state a \<noteq> t then
           (if past_target (row_state a) t then Inr (db, ()) else Inl illegal)
         else if row_state a = t then Inr (db, ())
         else
           case transition_by_key AttemptEntity i key db of
             Some u \<Rightarrow> if tx_to u \<noteq> t then Inl (StateErr IdempotencyConflict) else Inr (db, ())
           | None \<Rightarrow>
               rbind (insert_direct env AttemptEntity i (row_state a) t AttemptLifecycleService zero_digest
                        (edge_input_js i key (row_state a) t) key db) (\<lambda>(db1, _).
               rbind (set_attempt_state i t db1) (\<lambda>db2. Inr (db2, ()))))"

section \<open>Recovery of an orphaned planned attempt\<close>

definition RecoveryService :: service where
  "RecoveryService = OtherService ''RecoveryService''"

definition has_side_effects :: "state_db \<Rightarrow> string \<Rightarrow> bool" where
  "has_side_effects db i =
     ((\<exists>c \<in> set (db_contexts db). ctx_attempt c = i)
      \<or> (\<exists>o' \<in> set (db_ownerships db). ow_attempt o' = i)
      \<or> (\<exists>p \<in> set (db_receipts db). \<exists>x \<in> set (db_phases db). ph_id x = pr_phase p \<and> ph_attempt x = i))"

definition cleanup_metadata_js :: "attempt_row \<Rightarrow> jsval" where
  "cleanup_metadata_js a =
     JObj [(''attempt_id'', JStr (row_id a)), (''attempt_number'', JNum (at_number a)),
           (''cleanup_reason'', JStr ''response_lost_retry_allocation''),
           (''no_side_effects_confirmed'', JBool True),
           (''context_count'', JNum 0), (''lease_count'', JNum 0), (''receipt_count'', JNum 0)]"

definition recover_orphan ::
  "store_env \<Rightarrow> attempt_row \<Rightarrow> string \<Rightarrow> state_db \<Rightarrow> (store_error, state_db \<times> string) result" where
  "recover_orphan env a key db =
     (let i = row_id a in
      rbind (canonical_text (cleanup_metadata_js a)) (\<lambda>metadata.
      rbind (insert_direct env AttemptEntity i Planned CleanupPending RecoveryService zero_digest
               (JObj [(''attempt_id'', JStr i), (''idempotency_key'', JStr key), (''from_state'', JStr ''planned''),
                      (''to_state'', JStr ''cleanup_pending''),
                      (''cleanup_reason'', JStr ''response_lost_retry_allocation'')])
               (key @ ''#cleanup_pending'') db) (\<lambda>(db1, _).
      rbind (set_attempt_state i CleanupPending db1) (\<lambda>db2.
      rbind (cleanup_active_ticket (Some (at_ticket a)) db2) (\<lambda>db3.
      rbind (insert_direct env AttemptEntity i CleanupPending FailedClean RecoveryService zero_digest
               (JObj [(''attempt_id'', JStr i), (''idempotency_key'', JStr key),
                      (''from_state'', JStr ''cleanup_pending''), (''to_state'', JStr ''failed_clean''),
                      (''cleanupMetadata'', JStr metadata)])
               (key @ ''#failed_clean'') db3) (\<lambda>(db4, transition).
      rbind (set_attempt_state i FailedClean db4) (\<lambda>db5. Inr (db5, transition))))))))"

definition recoverOrphanedPlannedAttempt ::
  "store_env \<Rightarrow> string \<Rightarrow> string \<Rightarrow> state_db \<Rightarrow> state_db \<times> (store_error, string) result" where
  "recoverOrphanedPlannedAttempt env i key = immediate (\<lambda>db.
     case find_row (db_attempts db) i of
       None \<Rightarrow> Inl (StateErr ResumeIncompatible)
     | Some a \<Rightarrow>
         let recorded = transition_by_key AttemptEntity i (key @ ''#failed_clean'') db in
         if row_state a = FailedClean then
           (case recorded of
              Some t \<Rightarrow> if tx_to t = FailedClean then Inr (db, tx_id t) else Inl illegal
            | None \<Rightarrow> Inl illegal)
         else if row_state a \<noteq> Planned then Inl illegal
         else if has_side_effects db i then Inl illegal
         else
           case recorded of
             Some t \<Rightarrow> Inr (db, tx_id t)
           | None \<Rightarrow> recover_orphan env a key db)"

section \<open>The run update of a finalized promotion\<close>

text \<open>\<open>UPDATE runs SET current_delivery_oid = ?, promotion_sequence = ?, ...\<close>: the delivery chain of an
  active run moves by compare-and-set; its lifecycle state stays.\<close>

definition advance_delivery_chain ::
  "string \<Rightarrow> string \<Rightarrow> string \<Rightarrow> int \<Rightarrow> int \<Rightarrow> state_db \<Rightarrow> (store_error, state_db) result" where
  "advance_delivery_chain run candidate expected_old promotion_sequence version db =
     (let P = (\<lambda>r. row_id r = run \<and> row_state r = Active \<and> run_current_oid r = expected_old
                 \<and> run_promotion_sequence r = promotion_sequence - 1 \<and> row_version r = version)
      in if length (filter P (db_runs db)) \<noteq> 1 then Inl (StateErr StateConflict)
         else Inr (db\<lparr>db_runs := map (\<lambda>r. if P r then r\<lparr>run_current_oid := candidate,
                run_promotion_sequence := promotion_sequence, row_version := row_version r + 1\<rparr> else r) (db_runs db)\<rparr>))"

section \<open>Allocation\<close>

text \<open>
  The rows an allocation inserts: new ids, \<open>planned\<close>, version zero, with the foreign keys among these
  tables. The plan order and the contracts of a run's tickets and the states of the run and the ticket,
  which the allocation also checks, are left out: the model admits more allocations than the code, and
  what holds in every reachable database of the model holds in those of the code.
\<close>

definition insert_run :: "run_row \<Rightarrow> state_db \<Rightarrow> (store_error, state_db) result" where
  "insert_run r db =
     (if row_id r \<noteq> '''' \<and> row_state r = Planned \<and> row_version r = 0 \<and> find_row (db_runs db) (row_id r) = None
         \<and> run_delivery_ref r = ''refs/rickgent/runs/'' @ row_id r @ ''/delivery''
      then Inr (db\<lparr>db_runs := db_runs db @ [r]\<rparr>)
      else Inl (Sql_Constraint False))"

definition insert_ticket :: "ticket_row \<Rightarrow> state_db \<Rightarrow> (store_error, state_db) result" where
  "insert_ticket k db =
     (if row_id k \<noteq> '''' \<and> row_state k = Planned \<and> row_version k = 0 \<and> find_row (db_tickets db) (row_id k) = None
         \<and> find_row (db_runs db) (tk_run k) \<noteq> None
         \<and> \<not> (\<exists>u \<in> set (db_tickets db). tk_run u = tk_run k \<and> tk_ticket_id u = tk_ticket_id k)
      then Inr (db\<lparr>db_tickets := db_tickets db @ [k]\<rparr>)
      else Inl (Sql_Constraint False))"

definition insert_attempt :: "attempt_row \<Rightarrow> state_db \<Rightarrow> (store_error, state_db) result" where
  "insert_attempt a db =
     (if row_id a \<noteq> '''' \<and> row_state a = Planned \<and> row_version a = 0 \<and> at_number a > 0
         \<and> find_row (db_attempts db) (row_id a) = None
         \<and> (\<exists>k \<in> set (db_tickets db). row_id k = at_ticket a \<and> tk_run k = at_run a
               \<and> tk_ticket_id k = at_ticket_id a \<and> tk_contract_digest k = at_contract_digest a)
         \<and> \<not> (\<exists>b \<in> set (db_attempts db). at_ticket b = at_ticket a \<and> at_number b = at_number a)
      then Inr (db\<lparr>db_attempts := db_attempts db @ [a]\<rparr>)
      else Inl (Sql_Constraint False))"

end
