(* ===== verification/State_Invariants.thy ===== *)
theory State_Invariants
  imports State_Lifecycle
begin

text \<open>
  The history invariant of the state database. \<open>table_ok\<close> relates a lifecycle table to the history
  rows; its lemmas say how it survives the three things operations do (append a history row together
  with the state change it records, append a new entity, change a row silently), and the lemmas
  about the operations reduce each of them to these.
\<close>

section \<open>Chains\<close>

fun chain :: "lifecycle_state \<Rightarrow> transition_row list \<Rightarrow> lifecycle_state \<Rightarrow> bool" where
  "chain s [] t = (s = t)"
| "chain s (r # rs) t = (tx_from r = s \<and> chain (tx_to r) rs t)"

lemma chain_append: "chain s (h @ [r]) t \<longleftrightarrow> chain s h (tx_from r) \<and> tx_to r = t"
  by (induction h arbitrary: s) auto

definition numbered :: "transition_row list \<Rightarrow> bool" where
  "numbered h = (map tx_sequence h = map int [1..<Suc (length h)])"

lemma numbered_snoc: "numbered (h @ [r]) \<longleftrightarrow> numbered h \<and> tx_sequence r = int (length h) + 1"
  by (auto simp: numbered_def)

lemma foldr_max_upt: "foldr max (map int [1..<Suc n]) (0::int) = int n"
proof -
  have "foldr max (map int [1..<Suc n]) k = max k (int n)" if "k \<ge> 0" for k
    using that by (induction n arbitrary: k) (auto simp: max_def)
  then show ?thesis by simp
qed

lemma next_sequence_numbered: "numbered (history kind i db) \<Longrightarrow> next_sequence kind i db = int (length (history kind i db)) + 1"
  using foldr_max_upt by (simp add: numbered_def next_sequence_def del: upt_Suc)

section \<open>A table against the history\<close>

definition rows_of :: "TransitionEntityKind \<Rightarrow> string \<Rightarrow> transition_row list \<Rightarrow> transition_row list" where
  "rows_of kind i ts = filter (\<lambda>t. tx_entity kind t = Some i) ts"

lemma history_rows_of: "history kind i db = rows_of kind i (db_transitions db)"
  by (simp add: history_def rows_of_def)

lemma rows_of_snoc:
  "rows_of kind i (ts @ [t]) = (if tx_entity kind t = Some i then rows_of kind i ts @ [t] else rows_of kind i ts)"
  by (simp add: rows_of_def)

text \<open>
  \<open>exact\<close>: the version counts the history rows (otherwise it is at least their number);
  \<open>chained\<close>: the history leads from \<open>planned\<close> to the current state.
\<close>

definition tracked ::
  "bool \<Rightarrow> bool \<Rightarrow> (lifecycle_state \<Rightarrow> lifecycle_state \<Rightarrow> bool) \<Rightarrow> transition_row list
    \<Rightarrow> 'a snapshot_row_scheme \<Rightarrow> bool" where
  "tracked exact chained legal h r =
     (numbered h \<and> (\<forall>t \<in> set h. legal (tx_from t) (tx_to t))
      \<and> (chained \<longrightarrow> chain Planned h (row_state r))
      \<and> (if exact then row_version r = int (length h) else int (length h) \<le> row_version r))"

definition table_ok ::
  "bool \<Rightarrow> bool \<Rightarrow> (lifecycle_state \<Rightarrow> lifecycle_state \<Rightarrow> bool) \<Rightarrow> TransitionEntityKind
    \<Rightarrow> transition_row list \<Rightarrow> 'a snapshot_row_scheme list \<Rightarrow> bool" where
  "table_ok exact chained legal kind ts rows =
     (distinct (map row_id rows)
      \<and> (\<forall>r \<in> set rows. tracked exact chained legal (rows_of kind (row_id r) ts) r)
      \<and> (\<forall>t \<in> set ts. \<forall>i. tx_entity kind t = Some i \<longrightarrow> i \<in> row_id ` set rows))"

lemma row_id_advance [simp]: "row_id (advance_row t r) = row_id r"
  by (simp add: advance_row_def)

lemma find_row_Some: "find_row rows i = Some r \<Longrightarrow> r \<in> set rows \<and> row_id r = i"
  by (auto simp: find_row_def dest: find_Some_in)

lemma find_row_None_iff: "find_row rows i = None \<longleftrightarrow> i \<notin> row_id ` set rows"
  by (auto simp: find_row_def find_None_iff)

lemma table_ok_other_kind:
  assumes "table_ok exact chained legal kind ts rows" and "tx_entity kind t = None"
  shows "table_ok exact chained legal kind (ts @ [t]) rows"
  using assms by (simp add: table_ok_def rows_of_snoc)

lemma table_ok_new_row:
  assumes "table_ok exact chained legal kind ts rows"
    and "find_row rows (row_id r) = None" "row_state r = Planned" "row_version r = 0"
  shows "table_ok exact chained legal kind ts (rows @ [r])"
proof -
  have new: "row_id r \<notin> row_id ` set rows" using assms(2) by (simp add: find_row_None_iff)
  then have "rows_of kind (row_id r) ts = []"
    using assms(1) by (auto simp: table_ok_def rows_of_def filter_empty_conv)
  with assms new show ?thesis by (auto simp: table_ok_def tracked_def numbered_def)
qed

lemma same_row:
  "distinct (map row_id rows) \<Longrightarrow> x \<in> set rows \<Longrightarrow> r \<in> set rows \<Longrightarrow> row_id x = row_id r \<Longrightarrow> x = r"
  by (auto simp: distinct_map dest: inj_onD)

lemma table_ok_move:
  assumes ok: "table_ok exact chained legal kind ts rows"
    and row: "find_row rows i = Some r"
    and t: "tx_entity kind t = Some i" "tx_from t = row_state r"
      "tx_sequence t = int (length (rows_of kind i ts)) + 1" "legal (tx_from t) (tx_to t)"
  shows "table_ok exact chained legal kind (ts @ [t])
           (map (\<lambda>x. if row_id x = i then advance_row (tx_to t) x else x) rows)"
proof -
  let ?step = "\<lambda>x. if row_id x = i then advance_row (tx_to t) x else x"
  have ids: "map row_id (map ?step rows) = map row_id rows" by simp
  have r: "r \<in> set rows" "row_id r = i" using find_row_Some [OF row] by auto
  have dist: "distinct (map row_id rows)"
    and tracked: "\<And>x. x \<in> set rows \<Longrightarrow> tracked exact chained legal (rows_of kind (row_id x) ts) x"
    and closed: "\<And>u j. u \<in> set ts \<Longrightarrow> tx_entity kind u = Some j \<Longrightarrow> j \<in> row_id ` set rows"
    using ok by (auto simp: table_ok_def)
  have moved: "tracked exact chained legal (rows_of kind (row_id x) (ts @ [t])) (?step x)" if x: "x \<in> set rows" for x
  proof (cases "row_id x = i")
    case True
    then have "x = r" using same_row [OF dist x r(1)] r(2) by simp
    with tracked [OF x] True t show ?thesis
      by (auto simp: tracked_def rows_of_snoc numbered_snoc chain_append advance_row_def split: if_splits)
  next
    case False
    with tracked [OF x] t(1) show ?thesis by (simp add: rows_of_snoc)
  qed
  have "tracked exact chained legal (rows_of kind (row_id (?step x)) (ts @ [t])) (?step x)"
    if "x \<in> set rows" for x by (cases "row_id x = i") (use moved [OF that] in simp_all)
  then have each: "\<forall>y \<in> set (map ?step rows).
      tracked exact chained legal (rows_of kind (row_id y) (ts @ [t])) y"
    by (simp only: set_map ball_simps) blast
  have image: "row_id ` set (map ?step rows) = row_id ` set rows"
    unfolding set_map [symmetric] ids ..
  have "\<forall>u \<in> set (ts @ [t]). \<forall>j. tx_entity kind u = Some j \<longrightarrow> j \<in> row_id ` set rows"
    using closed t(1) r by auto
  then show ?thesis
    unfolding table_ok_def ids image using dist each by blast
qed

text \<open>A silent change that keeps the ids, raises versions and keeps the states where they matter.\<close>

lemma table_ok_silent:
  assumes "table_ok False chained legal kind ts rows"
    and "\<And>r. r \<in> set rows \<Longrightarrow> row_id (f r) = row_id r \<and> row_version r \<le> row_version (f r)
            \<and> (chained \<longrightarrow> row_state (f r) = row_state r)"
  shows "table_ok False chained legal kind ts (map f rows)"
proof -
  have "map row_id (map f rows) = map row_id rows"
    using assms(2) by (auto simp: map_eq_conv)
  moreover have "row_id ` set (map f rows) = row_id ` set rows"
    using assms(2) by (force simp: image_iff)
  moreover have "tracked False chained legal (rows_of kind (row_id (f r)) ts) (f r)" if "r \<in> set rows" for r
    using assms(1) assms(2) [OF that] that by (fastforce simp: table_ok_def tracked_def)
  ultimately show ?thesis using assms(1) by (simp only: table_ok_def) simp
qed

section \<open>The invariant\<close>

definition refs_ok :: "state_db \<Rightarrow> bool" where
  "refs_ok db =
     (\<forall>r \<in> set (db_refs db). er_transition r \<in> tx_id ` set (db_transitions db)
        \<and> er_evidence r \<in> ev_id ` set (db_evidence db))"

abbreviation attempts_ok :: "transition_row list \<Rightarrow> attempt_row list \<Rightarrow> bool" where
  "attempts_ok \<equiv> table_ok True True attempts_legal_edge AttemptEntity"

abbreviation runs_ok :: "transition_row list \<Rightarrow> run_row list \<Rightarrow> bool" where
  "runs_ok \<equiv> table_ok False True runs_legal_edge RunEntity"

abbreviation tickets_ok :: "transition_row list \<Rightarrow> ticket_row list \<Rightarrow> bool" where
  "tickets_ok \<equiv> table_ok False False run_tickets_legal_edge TicketEntity"

definition lifecycle_inv :: "state_db \<Rightarrow> bool" where
  "lifecycle_inv db =
     (attempts_ok (db_transitions db) (db_attempts db) \<and> runs_ok (db_transitions db) (db_runs db)
      \<and> tickets_ok (db_transitions db) (db_tickets db) \<and> refs_ok db)"

section \<open>What the statements do\<close>

lemma insert_transition_cases:
  assumes "insert_transition t db = Inr db'"
  shows "db' = db\<lparr>db_transitions := db_transitions db @ [t]\<rparr> \<and> transition_checks t
    \<and> (\<forall>u \<in> set (db_transitions db). \<not> transition_clash t u) \<and> transition_references db t"
  using assms by (auto simp: insert_transition_def split: if_split_asm)

lemma insert_refs_cases:
  assumes "insert_refs db rs = Inr db'"
  shows "db' = db\<lparr>db_refs := db_refs db @ rs\<rparr>
    \<and> (\<forall>r \<in> set rs. er_transition r \<in> tx_id ` set (db_transitions db) \<and> er_evidence r \<in> ev_id ` set (db_evidence db))"
  using assms
proof (induction rs arbitrary: db)
  case (Cons r rs)
  then obtain db1 where step: "insert_ref db r = Inr db1" "insert_refs db1 rs = Inr db'"
    by (auto simp: rbind_Inr_iff)
  then have "db1 = db\<lparr>db_refs := db_refs db @ [r]\<rparr>" "er_transition r \<in> tx_id ` set (db_transitions db)"
    "er_evidence r \<in> ev_id ` set (db_evidence db)"
    by (force simp: insert_ref_def split: if_split_asm)+
  with Cons.IH [OF step(2)] show ?case by simp
qed simp

lemma update_where_cases:
  assumes "update_where legal t P rows = Inr (rows', n)"
  shows "rows' = map (\<lambda>r. if P r then advance_row t r else r) rows \<and> n = length (filter P rows)
    \<and> (\<forall>r \<in> set rows. P r \<longrightarrow> legal (row_state r) t)"
  using assms by (auto simp: update_where_def split: if_split_asm)

lemma by_id_only:
  assumes "distinct (map row_id rows)" "find_row rows i = Some r" "P r"
  shows "map (\<lambda>x. if row_id x = i \<and> P x then f x else x) rows = map (\<lambda>x. if row_id x = i then f x else x) rows"
  using find_row_Some [OF assms(2)] same_row [OF assms(1)] assms(3) by (intro map_cong refl) metis

end
