(* ===== verification/State_Steps.thy ===== *)
theory State_Steps
  imports State_Invariants "HOL-Library.Sublist"
begin

text \<open>
  The lifecycle operations as one step relation, and the abstract machine they refine. The machine
  has a rule for each thing a store operation can do to the lifecycle tables: move one entity along
  a legal edge and record it in the history with its evidence, move a ticket silently into
  cleanup, advance the delivery chain of a run, insert a planned entity, and extend the append-only
  tables. Every operation is a sequence of such effects (\<open>step_effects\<close>), so whatever the effects
  keep holds in every reachable state.
\<close>

section \<open>Effects\<close>

definition move_row :: "string \<Rightarrow> lifecycle_state \<Rightarrow> 'a snapshot_row_scheme list \<Rightarrow> 'a snapshot_row_scheme list" where
  "move_row i t rows = map (\<lambda>x. if row_id x = i then advance_row t x else x) rows"

text \<open>The history row \<open>t\<close> of an entity, fresh, in sequence and with its references.\<close>

definition recorded ::
  "TransitionEntityKind \<Rightarrow> string \<Rightarrow> transition_row \<Rightarrow> evidence_ref_row list \<Rightarrow> state_db \<Rightarrow> bool" where
  "recorded kind i t rs db =
     ((\<forall>k. tx_entity k t = (if k = kind then Some i else None))
      \<and> tx_sequence t = next_sequence kind i db
      \<and> tx_id t \<notin> tx_id ` set (db_transitions db)
      \<and> transition_by_key kind i (tx_key t) db = None
      \<and> (\<forall>r \<in> set rs. er_transition r = tx_id t \<and> er_evidence r \<in> ev_id ` set (db_evidence db)))"

definition chain_advance :: "('a snapshot_row_scheme \<Rightarrow> 'a snapshot_row_scheme) \<Rightarrow> bool" where
  "chain_advance f = (\<forall>r. row_id (f r) = row_id r \<and> row_state (f r) = row_state r \<and> row_version r \<le> row_version (f r))"

text \<open>The other tables: only the append-only ones evidence is resolved in matter.\<close>

definition other_tables :: "state_db \<Rightarrow> state_db \<Rightarrow> bool" where
  "other_tables db db' =
     (db_runs db' = db_runs db \<and> db_tickets db' = db_tickets db \<and> db_attempts db' = db_attempts db
      \<and> db_transitions db' = db_transitions db \<and> db_refs db' = db_refs db
      \<and> prefix (db_evidence db) (db_evidence db') \<and> prefix (db_contexts db) (db_contexts db')
      \<and> prefix (db_phases db) (db_phases db'))"

text \<open>The database with a history row and its references.\<close>

abbreviation with_transition :: "transition_row \<Rightarrow> evidence_ref_row list \<Rightarrow> state_db \<Rightarrow> state_db" where
  "with_transition t rs db \<equiv> db\<lparr>db_transitions := db_transitions db @ [t], db_refs := db_refs db @ rs\<rparr>"

inductive effect :: "state_db \<Rightarrow> state_db \<Rightarrow> bool" where
  run_moves: "find_row (db_runs db) i = Some r \<Longrightarrow> recorded RunEntity i t rs db \<Longrightarrow> tx_from t = row_state r
    \<Longrightarrow> runs_legal_edge (tx_from t) (tx_to t)
    \<Longrightarrow> effect db (with_transition t rs db\<lparr>db_runs := move_row i (tx_to t) (db_runs db)\<rparr>)"
| ticket_moves: "find_row (db_tickets db) i = Some k \<Longrightarrow> recorded TicketEntity i t rs db \<Longrightarrow> tx_from t = row_state k
    \<Longrightarrow> run_tickets_legal_edge (tx_from t) (tx_to t)
    \<Longrightarrow> effect db (with_transition t rs db\<lparr>db_tickets := move_row i (tx_to t) (db_tickets db)\<rparr>)"
| attempt_moves: "find_row (db_attempts db) i = Some a \<Longrightarrow> recorded AttemptEntity i t rs db \<Longrightarrow> tx_from t = row_state a
    \<Longrightarrow> attempts_legal_edge (tx_from t) (tx_to t)
    \<Longrightarrow> effect db (with_transition t rs db\<lparr>db_attempts := move_row i (tx_to t) (db_attempts db)\<rparr>)"
| ticket_silent: "(\<And>k. P k \<Longrightarrow> row_state k = Active)
    \<Longrightarrow> effect db (db\<lparr>db_tickets := map (\<lambda>k. if P k then advance_row CleanupPending k else k) (db_tickets db)\<rparr>)"
| run_advances: "chain_advance f \<Longrightarrow> effect db (db\<lparr>db_runs := map f (db_runs db)\<rparr>)"
| run_planned: "find_row (db_runs db) (row_id r) = None \<Longrightarrow> row_state r = Planned \<Longrightarrow> row_version r = 0
    \<Longrightarrow> effect db (db\<lparr>db_runs := db_runs db @ [r]\<rparr>)"
| ticket_planned: "find_row (db_tickets db) (row_id k) = None \<Longrightarrow> row_state k = Planned \<Longrightarrow> row_version k = 0
    \<Longrightarrow> effect db (db\<lparr>db_tickets := db_tickets db @ [k]\<rparr>)"
| attempt_planned: "find_row (db_attempts db) (row_id a) = None \<Longrightarrow> row_state a = Planned \<Longrightarrow> row_version a = 0
    \<Longrightarrow> effect db (db\<lparr>db_attempts := db_attempts db @ [a]\<rparr>)"
| others: "other_tables db db' \<Longrightarrow> effect db db'"

inductive_cases effect_cases: "effect db db'"

section \<open>Effects keep the invariant\<close>

lemma recorded_entities:
  "recorded kind i t rs db \<Longrightarrow> tx_entity kind t = Some i"
  "recorded kind i t rs db \<Longrightarrow> k \<noteq> kind \<Longrightarrow> tx_entity k t = None"
  by (auto simp: recorded_def)

lemma recorded_move:
  assumes ok: "table_ok exact chained legal kind (db_transitions db) rows"
    and row: "find_row rows i = Some r"
    and rec: "recorded kind i t rs db" "tx_from t = row_state r" "legal (tx_from t) (tx_to t)"
  shows "table_ok exact chained legal kind (db_transitions db @ [t]) (move_row i (tx_to t) rows)"
proof -
  have "numbered (rows_of kind i (db_transitions db))"
    using ok find_row_Some [OF row] by (auto simp: table_ok_def tracked_def)
  then have "tx_sequence t = int (length (rows_of kind i (db_transitions db))) + 1"
    using rec(1) next_sequence_numbered [of kind i db] by (simp add: recorded_def history_rows_of)
  then show ?thesis
    unfolding move_row_def using table_ok_move [OF ok row recorded_entities(1) [OF rec(1)] rec(2) _ rec(3)] by blast
qed

lemma refs_ok_recorded:
  assumes "refs_ok db" "recorded kind i t rs db"
  shows "\<forall>r \<in> set (db_refs db @ rs). er_transition r \<in> tx_id ` set (db_transitions db @ [t])
           \<and> er_evidence r \<in> ev_id ` set (db_evidence db)"
  using assms by (auto simp: refs_ok_def recorded_def)

lemma effect_keeps_inv:
  assumes "effect db db'" "lifecycle_inv db"
  shows "lifecycle_inv db'"
  using assms
proof (induction rule: effect.induct)
  case (run_moves db i r t rs)
  then show ?case
    using recorded_move [where legal = runs_legal_edge, OF _ run_moves.hyps] refs_ok_recorded [OF _ run_moves.hyps(2)]
      recorded_entities(2) [OF run_moves.hyps(2)]
    by (simp add: lifecycle_inv_def table_ok_other_kind) (simp add: refs_ok_def)
next
  case (ticket_moves db i k t rs)
  then show ?case
    using recorded_move [where legal = run_tickets_legal_edge, OF _ ticket_moves.hyps] refs_ok_recorded [OF _ ticket_moves.hyps(2)]
      recorded_entities(2) [OF ticket_moves.hyps(2)]
    by (simp add: lifecycle_inv_def table_ok_other_kind) (simp add: refs_ok_def)
next
  case (attempt_moves db i a t rs)
  then show ?case
    using recorded_move [where legal = attempts_legal_edge, OF _ attempt_moves.hyps] refs_ok_recorded [OF _ attempt_moves.hyps(2)]
      recorded_entities(2) [OF attempt_moves.hyps(2)]
    by (simp add: lifecycle_inv_def table_ok_other_kind) (simp add: refs_ok_def)
next
  case (ticket_silent P db)
  then show ?case
    by (auto simp: lifecycle_inv_def refs_ok_def advance_row_def intro!: table_ok_silent)
next
  case (run_advances f db)
  then show ?case
    by (auto simp: lifecycle_inv_def refs_ok_def chain_advance_def intro!: table_ok_silent)
next
  case (run_planned db r)
  then show ?case by (simp add: lifecycle_inv_def refs_ok_def table_ok_new_row)
next
  case (ticket_planned db k)
  then show ?case by (simp add: lifecycle_inv_def refs_ok_def table_ok_new_row)
next
  case (attempt_planned db a)
  then show ?case by (simp add: lifecycle_inv_def refs_ok_def table_ok_new_row)
next
  case (others db db')
  then show ?case
    using image_mono [OF set_mono_prefix, of "db_evidence db" "db_evidence db'" ev_id]
    by (auto simp: lifecycle_inv_def refs_ok_def other_tables_def)
qed

lemma effects_keep_inv: "effect\<^sup>*\<^sup>* db db' \<Longrightarrow> lifecycle_inv db \<Longrightarrow> lifecycle_inv db'"
  by (induction rule: rtranclp_induct) (auto intro: effect_keeps_inv)

section \<open>Effects only add\<close>

definition grows :: "state_db \<Rightarrow> state_db \<Rightarrow> bool" where
  "grows db db' =
     (prefix (db_transitions db) (db_transitions db') \<and> prefix (db_refs db) (db_refs db')
      \<and> prefix (db_evidence db) (db_evidence db') \<and> prefix (db_contexts db) (db_contexts db')
      \<and> prefix (db_phases db) (db_phases db'))"

lemma grows_refl [simp]: "grows db db"
  by (simp add: grows_def)

lemma grows_trans: "grows a b \<Longrightarrow> grows b c \<Longrightarrow> grows a c"
  unfolding grows_def by (meson prefix_order.trans)

lemma effect_grows: "effect db db' \<Longrightarrow> grows db db'"
  by (induction rule: effect.induct) (simp_all add: grows_def other_tables_def)

lemma effects_grow: "effect\<^sup>*\<^sup>* db db' \<Longrightarrow> grows db db'"
  by (induction rule: rtranclp_induct) (auto intro: grows_trans effect_grows)

lemma find_append: "find P (xs @ ys) = (case find P xs of None \<Rightarrow> find P ys | Some x \<Rightarrow> Some x)"
  by (induction xs) auto

lemma find_prefix: "prefix xs ys \<Longrightarrow> find P xs = Some x \<Longrightarrow> find P ys = Some x"
  by (auto simp: prefix_def find_append)

lemma find_row_map:
  "(\<And>r. row_id (f r) = row_id r) \<Longrightarrow> find_row (map f rows) i = map_option f (find_row rows i)"
  by (induction rows) (auto simp: find_row_def)

lemma find_row_append:
  "find_row (rows @ new) i = (case find_row rows i of None \<Rightarrow> find_row new i | Some r \<Rightarrow> Some r)"
  by (induction rows) (auto simp: find_row_def)

lemma find_move_row: "find_row (move_row i t rows) j = map_option (\<lambda>x. if j = i then advance_row t x else x) (find_row rows j)"
  unfolding move_row_def by (subst find_row_map) (auto simp: map_option_case dest: find_row_Some split: option.split)

lemma snapshot_advance: "snapshot_of (advance_row t r) = (t, row_version r + 1)"
  by (simp add: snapshot_of_def advance_row_def)

text \<open>An entity never disappears, its version never decreases, and a version has one state.\<close>

definition later :: "lifecycle_state \<times> int \<Rightarrow> lifecycle_state \<times> int \<Rightarrow> bool" where
  "later a b = (a = b \<or> snd a < snd b \<or> (snd a \<le> snd b \<and> fst a = fst b))"

lemma later_refl [simp]: "later a a"
  by (simp add: later_def)

lemma later_trans: "later a b \<Longrightarrow> later b c \<Longrightarrow> later a c"
  by (auto simp: later_def)

definition rows_later :: "'a snapshot_row_scheme list \<Rightarrow> 'a snapshot_row_scheme list \<Rightarrow> bool" where
  "rows_later rows rows' =
     (\<forall>i r. find_row rows i = Some r \<longrightarrow> (\<exists>r'. find_row rows' i = Some r' \<and> later (snapshot_of r) (snapshot_of r')))"

lemma rows_laterD:
  assumes "rows_later rows rows'" "map_option snapshot_of (find_row rows i) = Some x"
  shows "\<exists>y. map_option snapshot_of (find_row rows' i) = Some y \<and> later x y"
proof -
  obtain r where "find_row rows i = Some r" "x = snapshot_of r" using assms(2) by auto
  with assms(1) obtain r' where "find_row rows' i = Some r'" "later x (snapshot_of r')"
    by (auto simp: rows_later_def)
  then show ?thesis by simp
qed

lemma rows_later_refl [simp]: "rows_later rows rows"
  by (simp add: rows_later_def)

lemma rows_later_append [simp]: "rows_later rows (rows @ new)"
  by (simp add: rows_later_def find_row_append)

lemma rows_later_map:
  assumes "\<And>r. row_id (f r) = row_id r" "\<And>r. later (snapshot_of r) (snapshot_of (f r))"
  shows "rows_later rows (map f rows)"
  by (simp add: rows_later_def find_row_map assms)

lemma later_advance: "later (snapshot_of r) (snapshot_of (advance_row t r))"
  by (simp add: later_def snapshot_of_def advance_row_def)

lemma rows_later_move [simp]: "rows_later rows (move_row i t rows)"
  unfolding move_row_def by (rule rows_later_map) (simp_all add: later_advance)

lemma effect_rows_later:
  "effect db db' \<Longrightarrow> rows_later (db_runs db) (db_runs db') \<and> rows_later (db_tickets db) (db_tickets db')
     \<and> rows_later (db_attempts db) (db_attempts db')"
proof (induction rule: effect.induct)
  case (ticket_silent P db)
  show ?case by (auto intro!: rows_later_map simp: later_advance)
next
  case (run_advances f db)
  then show ?case by (auto intro!: rows_later_map simp: chain_advance_def later_def snapshot_of_def)
qed (simp_all add: other_tables_def)

lemma effect_snapshot:
  assumes "effect db db'" "entity_snapshot k j db = Some x"
  shows "\<exists>y. entity_snapshot k j db' = Some y \<and> later x y"
  using effect_rows_later [OF assms(1)] assms(2)
  by (cases k) (simp_all only: entity_snapshot_def TransitionEntityKind.case, (blast intro: rows_laterD)+)

lemma effects_snapshot:
  "effect\<^sup>*\<^sup>* db db' \<Longrightarrow> entity_snapshot k j db = Some x
     \<Longrightarrow> \<exists>y. entity_snapshot k j db' = Some y \<and> later x y"
proof (induction rule: rtranclp_induct)
  case (step b c)
  then show ?case by (meson effect_snapshot later_trans)
qed simp

text \<open>The references of a recorded transition are final.\<close>

lemma recorded_refs:
  "recorded kind j t rs db \<Longrightarrow> i \<in> tx_id ` set (db_transitions db) \<Longrightarrow> filter (\<lambda>r. er_transition r = i) rs = []"
  by (auto simp: recorded_def filter_empty_conv)

lemma effect_refs_of: "effect db db' \<Longrightarrow> i \<in> tx_id ` set (db_transitions db) \<Longrightarrow> refs_of i db' = refs_of i db"
  by (induction rule: effect.induct) (simp_all add: refs_of_def other_tables_def recorded_refs)

lemma effects_refs_of:
  "effect\<^sup>*\<^sup>* db db' \<Longrightarrow> i \<in> tx_id ` set (db_transitions db) \<Longrightarrow> refs_of i db' = refs_of i db"
proof (induction rule: rtranclp_induct)
  case (step b c)
  then have "i \<in> tx_id ` set (db_transitions b)"
    using effects_grow [OF step(1)] by (auto simp: grows_def dest: set_mono_prefix)
  with step show ?case using effect_refs_of by metis
qed simp

section \<open>Operations are effects\<close>

text \<open>Resolution of evidence extends the evidence table and nothing else.\<close>

lemma resolve_evidence_other:
  "resolveTransitionEvidence env owner db reference = Inr (db', e) \<Longrightarrow> other_tables db db'"
  by (auto simp: resolveTransitionEvidence_def rbind_Inr_iff insert_evidence_def other_tables_def Let_def
      split: TransitionEvidenceReference.splits if_splits option.splits)

lemma other_tables_refl [simp]: "other_tables db db"
  by (simp add: other_tables_def)

lemma other_tables_trans: "other_tables a b \<Longrightarrow> other_tables b c \<Longrightarrow> other_tables a c"
  by (auto simp: other_tables_def intro: prefix_order.trans)

lemma traverse_state_keeps:
  assumes "traverse_state f s xs = Inr (t, ys)"
    and "\<And>s x t y. f s x = Inr (t, y) \<Longrightarrow> R s t" "\<And>s. R s s" "\<And>a b c. R a b \<Longrightarrow> R b c \<Longrightarrow> R a c"
  shows "R s t"
  using assms(1)
proof (induction xs arbitrary: s ys)
  case Nil
  then show ?case using assms(3) by simp
next
  case (Cons x xs)
  then obtain u y zs where "f s x = Inr (u, y)" "traverse_state f u xs = Inr (t, zs)"
    by (auto simp: traverse_state_Cons)
  with Cons.IH assms(2,4) show ?case by blast
qed

lemma resolve_input_other: "resolve_input env c db = Inr (db', evidence, digest) \<Longrightarrow> other_tables db db'"
  by (auto simp: resolve_input_def rbind_Inr_iff
      elim!: traverse_state_keeps intro: resolve_evidence_other other_tables_trans)

lemma lifecycle_inv_distinct:
  assumes "lifecycle_inv db"
  shows "distinct (map row_id (db_runs db))" "distinct (map row_id (db_tickets db))" "distinct (map row_id (db_attempts db))"
  using assms by (simp_all add: lifecycle_inv_def table_ok_def)

text \<open>The inserted history row is a recorded one.\<close>

lemma transition_by_key_fresh:
  assumes "\<forall>u \<in> set (db_transitions db). \<not> transition_clash t u" "tx_entity kind t = Some i"
  shows "transition_by_key kind i (tx_key t) db = None"
  using assms by (cases kind) (force simp: transition_by_key_def find_None_iff transition_clash_def)+

lemma inserted_recorded:
  assumes "insert_transition t db = Inr db'"
    and "\<And>k. tx_entity k t = (if k = kind then Some i else None)" "tx_sequence t = next_sequence kind i db"
  shows "recorded kind i t [] db"
  using insert_transition_cases [OF assms(1)] assms(2,3) transition_by_key_fresh [of db t kind i]
  by (auto simp: recorded_def transition_clash_def)

lemma recorded_with_refs:
  "recorded kind i t [] db \<Longrightarrow> (\<And>r. r \<in> set rs \<Longrightarrow> er_transition r = tx_id t \<and> er_evidence r \<in> ev_id ` set (db_evidence db))
     \<Longrightarrow> recorded kind i t rs db"
  by (simp add: recorded_def)

lemma tx_entity_new: "tx_entity k (new_transition env db c d) = (if k = tc_entityKind c then Some (tc_entityId c) else None)"
  by (cases k; cases "tc_entityKind c") (simp_all add: tx_entity_def new_transition_def Let_def)

lemma tx_entity_direct: "tx_entity k (direct_row env db kind i f t owner od d key) = (if k = kind then Some i else None)"
  by (cases k; cases kind) (simp_all add: tx_entity_def direct_row_def)

lemma cas_moves:
  assumes "distinct (map row_id rows)" "find_row rows i = Some r" "row_state r = f" "row_version r = v"
    and "update_where legal t (\<lambda>r. row_id r = i \<and> row_state r = f \<and> row_version r = v) rows = Inr (rows', n)"
  shows "rows' = move_row i t rows \<and> legal f t"
proof -
  have "r \<in> set rows" "row_id r = i" using find_row_Some [OF assms(2)] by auto
  moreover have "rows' = move_row i t rows"
    using update_where_cases [OF assms(5)]
      by_id_only [OF assms(1,2), where P = "\<lambda>r. row_state r = f \<and> row_version r = v" and f = "advance_row t"] assms(3,4)
    by (simp add: move_row_def)
  ultimately show ?thesis using update_where_cases [OF assms(5)] assms(3,4) by auto
qed

section \<open>A new commit\<close>

lemma new_transition_fields [simp]:
  "tx_from (new_transition env db c d) = tc_fromState c" "tx_to (new_transition env db c d) = tc_toState c"
  "tx_key (new_transition env db c d) = tc_idempotencyKey c" "tx_owner (new_transition env db c d) = tc_ownerService c"
  "tx_owner_digest (new_transition env db c d) = tc_ownerContextDigest c"
  "tx_input_digest (new_transition env db c d) = d"
  "tx_sequence (new_transition env db c d) = next_sequence (tc_entityKind c) (tc_entityId c) db"
  by (simp_all add: new_transition_def Let_def)

lemma new_refs_fields:
  "r \<in> set (new_refs i evidence) \<Longrightarrow> er_transition r = i \<and> (er_purpose r, er_evidence r) \<in> set evidence"
  by (auto simp: new_refs_def in_set_enumerate_eq) (metis nth_mem)

lemma write_transition_facts:
  assumes "write_transition c t evidence db = Inr db'"
    and "\<And>k. tx_entity k t = (if k = tc_entityKind c then Some (tc_entityId c) else None)"
    and "tx_sequence t = next_sequence (tc_entityKind c) (tc_entityId c) db"
  shows "recorded (tc_entityKind c) (tc_entityId c) t (new_refs (tx_id t) evidence) db"
    and "cas_entity (tc_entityKind c) (tc_entityId c) (tc_fromState c) (tc_toState c) (tc_expectedVersion c)
           (with_transition t (new_refs (tx_id t) evidence) db) = Inr (db', 1)"
proof -
  obtain db1 db2 n where steps: "insert_transition t db = Inr db1" "insert_refs db1 (new_refs (tx_id t) evidence) = Inr db2"
    "cas_entity (tc_entityKind c) (tc_entityId c) (tc_fromState c) (tc_toState c) (tc_expectedVersion c) db2 = Inr (db', n)"
    "n = 1"
    using assms(1) by (auto simp: write_transition_def rbind_Inr_iff split: if_splits)
  have db1: "db1 = db\<lparr>db_transitions := db_transitions db @ [t]\<rparr>"
    using insert_transition_cases [OF steps(1)] by blast
  have refs: "er_evidence r \<in> ev_id ` set (db_evidence db)" if "r \<in> set (new_refs (tx_id t) evidence)" for r
    using insert_refs_cases [OF steps(2)] that by (simp add: db1)
  show "recorded (tc_entityKind c) (tc_entityId c) t (new_refs (tx_id t) evidence) db"
    using recorded_with_refs [OF inserted_recorded [OF steps(1) assms(2,3)]] refs new_refs_fields by blast
  have "db2 = with_transition t (new_refs (tx_id t) evidence) db"
    using insert_refs_cases [OF steps(2)] by (simp add: db1)
  with steps(3,4) show "cas_entity (tc_entityKind c) (tc_entityId c) (tc_fromState c) (tc_toState c) (tc_expectedVersion c)
      (with_transition t (new_refs (tx_id t) evidence) db) = Inr (db', 1)" by simp
qed

lemma commit_new_facts:
  assumes "commit_new env c evidence d db = Inr (db', r)"
  shows "entity_snapshot (tc_entityKind c) (tc_entityId c) db = Some (tc_fromState c, tc_expectedVersion c)"
    and "validateTransitionOwner db c = Inr ()" "validateTransitionGuard env db c evidence = Inr ()"
    and "write_transition c (new_transition env db c d) evidence db = Inr db'"
    and "r = transitionResult c (new_transition env db c d) (tc_expectedVersion c + 1) d evidence"
  using assms by (auto simp: commit_new_def rbind_Inr_iff Let_def split: option.splits if_splits)

lemma commit_new_writes:
  assumes "commit_new env c evidence d db = Inr (db', r)"
  defines "t \<equiv> new_transition env db c d"
  shows "recorded (tc_entityKind c) (tc_entityId c) t (new_refs (tx_id t) evidence) db"
    and "cas_entity (tc_entityKind c) (tc_entityId c) (tc_fromState c) (tc_toState c) (tc_expectedVersion c)
           (with_transition t (new_refs (tx_id t) evidence) db) = Inr (db', 1)"
  unfolding t_def using write_transition_facts [OF commit_new_facts(4) [OF assms(1)] tx_entity_new] by simp_all

lemma commit_new_effect:
  assumes "commit_new env c evidence d db = Inr (db', r)" and inv: "lifecycle_inv db"
  shows "effect db db'"
proof -
  let ?t = "new_transition env db c d" and ?i = "tc_entityId c"
  let ?db = "with_transition ?t (new_refs (tx_id ?t) evidence) db"
  note snapshot = commit_new_facts(1) [OF assms(1)]
  note rec = commit_new_writes(1) [OF assms(1)] and cas = commit_new_writes(2) [OF assms(1)]
  note distinct = lifecycle_inv_distinct [OF inv]
  show ?thesis
  proof (cases "tc_entityKind c")
    case RunEntity
    then obtain a where a: "find_row (db_runs db) ?i = Some a" "row_state a = tc_fromState c"
      "row_version a = tc_expectedVersion c"
      using snapshot by (auto simp: entity_snapshot_def snapshot_of_def)
    moreover obtain rows where "update_where runs_legal_edge (tc_toState c)
        (\<lambda>r. row_id r = ?i \<and> row_state r = tc_fromState c \<and> row_version r = tc_expectedVersion c) (db_runs db) = Inr (rows, 1)"
      "db' = ?db\<lparr>db_runs := rows\<rparr>"
      using cas RunEntity by (auto simp: cas_entity_def rbind_Inr_iff)
    ultimately show ?thesis
      using cas_moves [OF distinct(1) a] effect.run_moves [OF a(1), of ?t] rec RunEntity by fastforce
  next
    case TicketEntity
    then obtain a where a: "find_row (db_tickets db) ?i = Some a" "row_state a = tc_fromState c"
      "row_version a = tc_expectedVersion c"
      using snapshot by (auto simp: entity_snapshot_def snapshot_of_def)
    moreover obtain rows where "update_where run_tickets_legal_edge (tc_toState c)
        (\<lambda>r. row_id r = ?i \<and> row_state r = tc_fromState c \<and> row_version r = tc_expectedVersion c) (db_tickets db) = Inr (rows, 1)"
      "db' = ?db\<lparr>db_tickets := rows\<rparr>"
      using cas TicketEntity by (auto simp: cas_entity_def rbind_Inr_iff)
    ultimately show ?thesis
      using cas_moves [OF distinct(2) a] effect.ticket_moves [OF a(1), of ?t] rec TicketEntity by fastforce
  next
    case AttemptEntity
    then obtain a where a: "find_row (db_attempts db) ?i = Some a" "row_state a = tc_fromState c"
      "row_version a = tc_expectedVersion c"
      using snapshot by (auto simp: entity_snapshot_def snapshot_of_def)
    moreover obtain rows where "update_where attempts_legal_edge (tc_toState c)
        (\<lambda>r. row_id r = ?i \<and> row_state r = tc_fromState c \<and> row_version r = tc_expectedVersion c) (db_attempts db) = Inr (rows, 1)"
      "db' = ?db\<lparr>db_attempts := rows\<rparr>"
      using cas AttemptEntity by (auto simp: cas_entity_def rbind_Inr_iff)
    ultimately show ?thesis
      using cas_moves [OF distinct(3) a] effect.attempt_moves [OF a(1), of ?t] rec AttemptEntity by fastforce
  qed
qed

lemma commit_cases:
  assumes "commitTransitionInCurrentTransaction env c db = Inr (db', r)"
  obtains (replay) mid evidence d t where "resolve_input env c db = Inr (mid, evidence, d)"
      "transition_by_key (tc_entityKind c) (tc_entityId c) (tc_idempotencyKey c) mid = Some t"
      "replay_matches c t (refs_of (tx_id t) mid) evidence d" "db' = mid"
      "r = transitionResult c t (tc_expectedVersion c + 1) d evidence"
  | (new) mid evidence d where "resolve_input env c db = Inr (mid, evidence, d)"
      "transition_by_key (tc_entityKind c) (tc_entityId c) (tc_idempotencyKey c) mid = None"
      "commit_new env c evidence d mid = Inr (db', r)"
proof -
  obtain mid evidence d where input: "resolve_input env c db = Inr (mid, evidence, d)"
    using assms by (auto simp: commitTransitionInCurrentTransaction_def rbind_Inr_iff)
  show thesis
  proof (cases "transition_by_key (tc_entityKind c) (tc_entityId c) (tc_idempotencyKey c) mid")
    case None
    with assms input show thesis
      by (intro new) (auto simp: commitTransitionInCurrentTransaction_def)
  next
    case (Some t)
    with assms input show thesis
      by (intro replay) (auto simp: commitTransitionInCurrentTransaction_def split: if_splits)
  qed
qed

lemma commit_effects:
  assumes "commitTransitionInCurrentTransaction env c db = Inr (db', r)" "lifecycle_inv db"
  shows "effect\<^sup>*\<^sup>* db db'"
  using assms(1)
proof (cases rule: commit_cases)
  case replay
  then show ?thesis using resolve_input_other effect.others by blast
next
  case (new mid evidence d)
  then have "effect db mid" using resolve_input_other effect.others by blast
  moreover from this have "effect mid db'" using commit_new_effect [OF new(3)] effect_keeps_inv assms(2) by blast
  ultimately show ?thesis by (meson converse_rtranclp_into_rtranclp r_into_rtranclp)
qed

section \<open>The operations of the runner\<close>

lemma direct_row_fields [simp]:
  "tx_from (direct_row env db kind i f t owner od d key) = f" "tx_to (direct_row env db kind i f t owner od d key) = t"
  "tx_key (direct_row env db kind i f t owner od d key) = key"
  "tx_sequence (direct_row env db kind i f t owner od d key) = next_sequence kind i db"
  by (simp_all add: direct_row_def)

lemma insert_direct_cases:
  assumes "insert_direct env kind i f t owner od input key db = Inr (db1, x)"
  obtains u where "tx_from u = f" "tx_to u = t" "tx_key u = key" "x = tx_id u" "recorded kind i u [] db"
    "db1 = with_transition u [] db"
proof -
  obtain d where ins: "insert_transition (direct_row env db kind i f t owner od d key) db = Inr db1"
    "x = tx_id (direct_row env db kind i f t owner od d key)"
    using assms by (auto simp: insert_direct_def rbind_Inr_iff Let_def)
  then have "db1 = db\<lparr>db_transitions := db_transitions db @ [direct_row env db kind i f t owner od d key]\<rparr>"
    using insert_transition_cases by blast
  with ins inserted_recorded [OF ins(1) tx_entity_direct] show thesis
    by (intro that [of "direct_row env db kind i f t owner od d key"]) simp_all
qed

lemma set_state_moves:
  assumes "update_where legal t (\<lambda>r. row_id r = i) rows = Inr (rows', n)" "find_row rows i = Some r"
  shows "rows' = move_row i t rows \<and> legal (row_state r) t"
  using update_where_cases [OF assms(1)] find_row_Some [OF assms(2)] by (auto simp: move_row_def)

lemma direct_attempt_effect:
  assumes "insert_direct env AttemptEntity i f t owner od input key db = Inr (db1, x)"
    and "set_attempt_state i t db1 = Inr db2" and "find_row (db_attempts db) i = Some a" "row_state a = f"
  obtains u where "tx_from u = f" "tx_to u = t" "tx_key u = key" "x = tx_id u" "recorded AttemptEntity i u [] db"
    "db2 = with_transition u [] db\<lparr>db_attempts := move_row i t (db_attempts db)\<rparr>" "effect db db2"
proof -
  obtain u where u: "tx_from u = f" "tx_to u = t" "tx_key u = key" "x = tx_id u" "recorded AttemptEntity i u [] db"
    "db1 = with_transition u [] db"
    by (rule insert_direct_cases [OF assms(1)])
  then obtain rows n where rows: "update_where attempts_legal_edge t (\<lambda>r. row_id r = i) (db_attempts db) = Inr (rows, n)"
    "db2 = db1\<lparr>db_attempts := rows\<rparr>"
    using assms(2) by (auto simp: set_attempt_state_def rbind_Inr_iff)
  then have moved: "rows = move_row i t (db_attempts db)" "attempts_legal_edge f t"
    using set_state_moves [OF rows(1) assms(3)] assms(4) by auto
  show thesis
    using that [OF u(1-5)] rows(2) moved u effect.attempt_moves [OF assms(3) u(5)] assms(4) by simp
qed

lemma cleanup_active_ticket_effect: "cleanup_active_ticket ticket db = Inr db' \<Longrightarrow> effect db db'"
  by (auto simp: cleanup_active_ticket_def rbind_Inr_iff intro!: effect.ticket_silent dest!: update_where_cases)

lemma immediate_cases:
  assumes "immediate f db = (db', r)"
  obtains e where "r = Inl e" "db' = db" | x where "r = Inr x" "f db = Inr (db', x)"
  using assms by (auto simp: immediate_def split: sum.splits prod.splits)

lemma activate_run_effects:
  assumes "activateRunForRunner env run attempt key db = (db', r)"
  shows "effect\<^sup>*\<^sup>* db db'"
  using assms unfolding activateRunForRunner_def
proof (cases rule: immediate_cases)
  case (2 x)
  show ?thesis
  proof (cases "db' = db")
    case False
    then obtain a db1 y rows n where steps: "find_row (db_runs db) run = Some a" "row_state a = Planned"
      "insert_direct env RunEntity run Planned Active RunAllocationService
         (env_sha256 env (''activate-run:'' @ run @ '':'' @ attempt))
         (JObj [(''run_id'', JStr run), (''attempt_id'', JStr attempt), (''idempotency_key'', JStr key)]) key db = Inr (db1, y)"
      "update_where runs_legal_edge Active (\<lambda>r. row_id r = run) (db_runs db1) = Inr (rows, n)" "db' = db1\<lparr>db_runs := rows\<rparr>"
      using 2(2) by (auto simp: rbind_Inr_iff set_run_state_def split: option.splits if_splits)
    obtain u where u: "tx_from u = Planned" "tx_to u = Active" "recorded RunEntity run u [] db" "db1 = with_transition u [] db"
      by (rule insert_direct_cases [OF steps(3)])
    with steps(4) have upd: "update_where runs_legal_edge Active (\<lambda>r. row_id r = run) (db_runs db) = Inr (rows, n)" by simp
    then show ?thesis
      using set_state_moves [OF upd steps(1)] u steps effect.run_moves [OF steps(1) u(3)]
      by (simp add: r_into_rtranclp)
  qed simp
qed simp

lemma activate_ticket_effects:
  assumes "activateTicketForRunner env ticket attempt key db = (db', r)"
  shows "effect\<^sup>*\<^sup>* db db'"
  using assms unfolding activateTicketForRunner_def
proof (cases rule: immediate_cases)
  case (2 x)
  show ?thesis
  proof (cases "db' = db")
    case False
    then obtain a db1 y rows n where steps: "find_row (db_tickets db) ticket = Some a" "row_state a = Planned"
      "insert_direct env TicketEntity ticket Planned Active RunAllocationService
         (env_sha256 env (''activate-ticket:'' @ ticket @ '':'' @ attempt))
         (JObj [(''ticket_instance_id'', JStr ticket), (''attempt_id'', JStr attempt),
                (''idempotency_key'', JStr key)]) key db = Inr (db1, y)"
      "update_where run_tickets_legal_edge Active (\<lambda>r. row_id r = ticket) (db_tickets db1) = Inr (rows, n)"
      "db' = db1\<lparr>db_tickets := rows\<rparr>"
      using 2(2) by (auto simp: rbind_Inr_iff set_ticket_state_def split: option.splits if_splits)
    obtain u where u: "tx_from u = Planned" "tx_to u = Active" "recorded TicketEntity ticket u [] db" "db1 = with_transition u [] db"
      by (rule insert_direct_cases [OF steps(3)])
    with steps(4) have upd: "update_where run_tickets_legal_edge Active (\<lambda>r. row_id r = ticket) (db_tickets db) = Inr (rows, n)" by simp
    then show ?thesis
      using set_state_moves [OF upd steps(1)] u steps effect.ticket_moves [OF steps(1) u(3)]
      by (simp add: r_into_rtranclp)
  qed simp
qed simp

lemma effects_two: "effect a b \<Longrightarrow> effect b c \<Longrightarrow> effect\<^sup>*\<^sup>* a c"
  by (meson converse_rtranclp_into_rtranclp r_into_rtranclp)

text \<open>What a successful call that changes the attempt does; the other successful calls change nothing.\<close>

lemma advance_cleanup_cases:
  assumes "advanceAttemptToCleanupPending env i key db = (db', Inr x)"
  obtains (replay) a t where "find_row (db_attempts db) i = Some a" "row_state a \<in> set pre_cleanup_states"
      "transition_by_key AttemptEntity i key db = Some t" "tx_to t = CleanupPending" "db' = db"
  | (moved) a db1 db2 y where "find_row (db_attempts db) i = Some a" "row_state a \<in> set pre_cleanup_states"
      "insert_direct env AttemptEntity i (row_state a) CleanupPending AttemptLifecycleService
         zero_digest (edge_input_js i key (row_state a) CleanupPending) key db = Inr (db1, y)"
      "set_attempt_state i CleanupPending db1 = Inr db2"
      "cleanup_active_ticket (ticket_of_attempt db2 i) db2 = Inr db'"
proof -
  obtain a where a: "find_row (db_attempts db) i = Some a" "row_state a \<in> set pre_cleanup_states"
    using assms by (auto simp: advanceAttemptToCleanupPending_def immediate_Inr_iff split: option.splits if_splits)
  show thesis
  proof (cases "transition_by_key AttemptEntity i key db")
    case None
    with a assms show thesis
      by (auto simp: advanceAttemptToCleanupPending_def immediate_Inr_iff rbind_Inr_iff intro: moved)
  next
    case (Some t)
    with a assms show thesis
      by (intro replay) (auto simp: advanceAttemptToCleanupPending_def immediate_Inr_iff split: if_splits)
  qed
qed

lemma advance_cleanup_effects:
  assumes "advanceAttemptToCleanupPending env i key db = (db', r)"
  shows "effect\<^sup>*\<^sup>* db db'"
proof (cases r)
  case (Inl e)
  have "db' = db" using assms unfolding Inl advanceAttemptToCleanupPending_def by (rule immediate_Inl)
  then show ?thesis by simp
next
  case (Inr x)
  with assms have "advanceAttemptToCleanupPending env i key db = (db', Inr x)" by simp
  then show ?thesis
  proof (cases rule: advance_cleanup_cases)
    case (moved a db1 db2 y)
    have "effect db db2" by (rule direct_attempt_effect [OF moved(3,4,1) refl])
    then show ?thesis using cleanup_active_ticket_effect [OF moved(5)] by (rule effects_two)
  qed simp
qed

lemma advance_ticket_effects:
  assumes "advanceTicketToCleanupPending i db = (db', r)"
  shows "effect\<^sup>*\<^sup>* db db'"
  using assms unfolding advanceTicketToCleanupPending_def
  by (cases rule: immediate_cases) (auto simp: rbind_Inr_iff intro: cleanup_active_ticket_effect)

lemma advance_state_effects:
  assumes "advanceAttemptState env i f t key db = (db', r)"
  shows "effect\<^sup>*\<^sup>* db db'"
  using assms unfolding advanceAttemptState_def
proof (cases rule: immediate_cases)
  case (2 x)
  show ?thesis
  proof (cases "db' = db")
    case False
    then obtain a db1 y where steps: "find_row (db_attempts db) i = Some a" "row_state a = f"
      "insert_direct env AttemptEntity i f t AttemptLifecycleService zero_digest
         (edge_input_js i key f t) key db = Inr (db1, y)" "set_attempt_state i t db1 = Inr db'"
      using 2(2) by (auto simp: rbind_Inr_iff split: option.splits if_splits)
    have "effect db db'" by (rule direct_attempt_effect [OF steps(3,4,1,2)])
    then show ?thesis by (rule r_into_rtranclp)
  qed simp
qed simp

section \<open>Recovery\<close>

lemma cleanup_active_ticket_frame:
  "cleanup_active_ticket ticket db = Inr db' \<Longrightarrow> \<exists>rows. db' = db\<lparr>db_tickets := rows\<rparr>"
  by (auto simp: cleanup_active_ticket_def rbind_Inr_iff)

lemma find_row_moved:
  "find_row rows i = Some a \<Longrightarrow> find_row (move_row i t rows) i = Some (advance_row t a)"
  by (simp add: find_move_row)

text \<open>The two history rows of a recovery and the database it leaves.\<close>

lemma recover_orphan_cases:
  assumes "recover_orphan env a key db = Inr (db', x)" "find_row (db_attempts db) (row_id a) = Some a" "row_state a = Planned"
  obtains u v db2 db3 where
    "tx_from u = Planned" "tx_to u = CleanupPending" "recorded AttemptEntity (row_id a) u [] db"
    "db2 = with_transition u [] db\<lparr>db_attempts := move_row (row_id a) CleanupPending (db_attempts db)\<rparr>"
    "effect db db2" "cleanup_active_ticket (Some (at_ticket a)) db2 = Inr db3"
    "tx_from v = CleanupPending" "tx_to v = FailedClean" "tx_key v = key @ ''#failed_clean''" "x = tx_id v"
    "recorded AttemptEntity (row_id a) v [] db3"
    "db' = with_transition v [] db3\<lparr>db_attempts := move_row (row_id a) FailedClean (db_attempts db3)\<rparr>"
    "effect db3 db'"
proof -
  obtain y z in1 in2 db1 db2 db3 db4 where steps:
    "insert_direct env AttemptEntity (row_id a) Planned CleanupPending RecoveryService zero_digest in1
       (key @ ''#cleanup_pending'') db = Inr (db1, y)"
    "set_attempt_state (row_id a) CleanupPending db1 = Inr db2"
    "cleanup_active_ticket (Some (at_ticket a)) db2 = Inr db3"
    "insert_direct env AttemptEntity (row_id a) CleanupPending FailedClean RecoveryService zero_digest in2
       (key @ ''#failed_clean'') db3 = Inr (db4, z)"
    "set_attempt_state (row_id a) FailedClean db4 = Inr db'" "x = z"
    using assms(1) by (auto simp: recover_orphan_def rbind_Inr_iff Let_def)
  obtain u where u: "tx_from u = Planned" "tx_to u = CleanupPending" "recorded AttemptEntity (row_id a) u [] db"
    "db2 = with_transition u [] db\<lparr>db_attempts := move_row (row_id a) CleanupPending (db_attempts db)\<rparr>" "effect db db2"
    by (rule direct_attempt_effect [OF steps(1,2) assms(2,3)])
  have "find_row (db_attempts db3) (row_id a) = Some (advance_row CleanupPending a)"
    using cleanup_active_ticket_frame [OF steps(3)] u(4) find_row_moved [OF assms(2)] by auto
  moreover have "row_state (advance_row CleanupPending a) = CleanupPending" by (simp add: advance_row_def)
  ultimately obtain v where "tx_from v = CleanupPending" "tx_to v = FailedClean" "tx_key v = key @ ''#failed_clean''"
    "z = tx_id v" "recorded AttemptEntity (row_id a) v [] db3"
    "db' = with_transition v [] db3\<lparr>db_attempts := move_row (row_id a) FailedClean (db_attempts db3)\<rparr>" "effect db3 db'"
    by (rule direct_attempt_effect [OF steps(4,5)])
  with u steps(3,6) that show thesis by blast
qed

lemma recover_effects:
  assumes "recoverOrphanedPlannedAttempt env i key db = (db', r)"
  shows "effect\<^sup>*\<^sup>* db db'"
  using assms unfolding recoverOrphanedPlannedAttempt_def
proof (cases rule: immediate_cases)
  case (2 x)
  show ?thesis
  proof (cases "db' = db")
    case False
    then obtain a where a: "find_row (db_attempts db) i = Some a" "row_state a = Planned" "recover_orphan env a key db = Inr (db', x)"
      using 2(2) by (auto simp: Let_def split: option.splits if_splits)
    then have "find_row (db_attempts db) (row_id a) = Some a" using find_row_Some by metis
    then show ?thesis
      by (rule recover_orphan_cases [OF a(3) _ a(2)])
        (meson cleanup_active_ticket_effect effects_two rtranclp.rtrancl_into_rtrancl)
  qed simp
qed simp

section \<open>Reachable databases\<close>

text \<open>
  One step of the store: any operation that writes a lifecycle table, in any environment, or an
  operation on the other tables, which can only extend the append-only ones.
\<close>

inductive lifecycle_step :: "state_db \<Rightarrow> state_db \<Rightarrow> bool" where
  step_commit: "minted c \<Longrightarrow> commitTransitionInCurrentTransaction env c db = Inr (db', r) \<Longrightarrow> lifecycle_step db db'"
| step_run: "activateRunForRunner env i a key db = (db', ru) \<Longrightarrow> lifecycle_step db db'"
| step_ticket: "activateTicketForRunner env i a key db = (db', ru) \<Longrightarrow> lifecycle_step db db'"
| step_cleanup: "advanceAttemptToCleanupPending env i key db = (db', ru) \<Longrightarrow> lifecycle_step db db'"
| step_ticket_cleanup: "advanceTicketToCleanupPending i db = (db', ru) \<Longrightarrow> lifecycle_step db db'"
| step_advance: "advanceAttemptState env i f t key db = (db', ru) \<Longrightarrow> lifecycle_step db db'"
| step_recover: "recoverOrphanedPlannedAttempt env i key db = (db', rs) \<Longrightarrow> lifecycle_step db db'"
| step_delivery_chain: "advance_delivery_chain i oid old n v db = Inr db' \<Longrightarrow> lifecycle_step db db'"
| step_new_run: "insert_run run db = Inr db' \<Longrightarrow> lifecycle_step db db'"
| step_new_ticket: "insert_ticket ticket db = Inr db' \<Longrightarrow> lifecycle_step db db'"
| step_new_attempt: "insert_attempt attempt db = Inr db' \<Longrightarrow> lifecycle_step db db'"
| step_other: "other_tables db db' \<Longrightarrow> lifecycle_step db db'"

inductive_cases lifecycle_stepE: "lifecycle_step db db'"

definition empty_db :: state_db where
  "empty_db =
     \<lparr>db_runs = [], db_tickets = [], db_attempts = [], db_transitions = [], db_refs = [], db_evidence = [],
      db_contexts = [], db_phases = [], db_ownerships = [], db_claims = [], db_v1_resources = [], db_v1_leases = [],
      db_receipts = [], db_reviews = [], db_remediations = [], db_gates = [], db_attributions = [],
      db_commit_intents = [], db_cleanups = [], db_decisions = [], db_promotions = [], db_delivery_intents = [],
      db_remote_observations = [], db_pr_observations = [], db_delivery_records = [],
      db_operations = [], db_launches = [], db_observations = [], db_terminals = [], db_salvages = []\<rparr>"

definition reachable_db :: "state_db \<Rightarrow> bool" where
  "reachable_db db = lifecycle_step\<^sup>*\<^sup>* empty_db db"

lemma delivery_chain_effect: "advance_delivery_chain i oid old n v db = Inr db' \<Longrightarrow> effect db db'"
  by (auto simp: advance_delivery_chain_def Let_def chain_advance_def intro!: effect.run_advances split: if_splits)

lemma insert_effects:
  "insert_run r db = Inr db' \<Longrightarrow> effect db db'"
  "insert_ticket k db = Inr db' \<Longrightarrow> effect db db'"
  "insert_attempt a db = Inr db' \<Longrightarrow> effect db db'"
  by (auto simp: insert_run_def insert_ticket_def insert_attempt_def
      intro: effect.run_planned effect.ticket_planned effect.attempt_planned split: if_splits)

lemma step_effects:
  assumes "lifecycle_step db db'" "lifecycle_inv db"
  shows "effect\<^sup>*\<^sup>* db db'"
  using assms(1)
proof (cases rule: lifecycle_step.cases)
  case (step_commit c env r)
  then show ?thesis using commit_effects assms(2) by blast
qed (blast intro: activate_run_effects activate_ticket_effects advance_cleanup_effects advance_ticket_effects
    advance_state_effects recover_effects delivery_chain_effect insert_effects effect.others)+

lemma steps_effects:
  "lifecycle_step\<^sup>*\<^sup>* db db' \<Longrightarrow> lifecycle_inv db \<Longrightarrow> effect\<^sup>*\<^sup>* db db'"
proof (induction rule: rtranclp_induct)
  case (step b c)
  then have "effect\<^sup>*\<^sup>* db b" "lifecycle_inv b" using effects_keep_inv by blast+
  with step_effects [OF step(2)] show ?case by (meson rtranclp_trans)
qed simp

lemma empty_inv: "lifecycle_inv empty_db"
  by (simp add: lifecycle_inv_def table_ok_def refs_ok_def empty_db_def)

lemma reachable_inv: "reachable_db db \<Longrightarrow> lifecycle_inv db"
  using steps_effects effects_keep_inv empty_inv unfolding reachable_db_def by blast

end
