(* ===== verification/State_Properties.thy ===== *)
theory State_Properties
  imports State_Steps
begin

text \<open>
  What the lifecycle operations of the state store promise: the history of every reachable database,
  the effect of one commit, its idempotent replay at any later time, the exclusion of lost updates,
  the records a guarded edge rests on, and the replays of the runner's own operations.
\<close>

section \<open>Evidence resolves the same way in every later database\<close>

lemma lineage_later:
  assumes "evidence_lineage db ctx = Some l" "grows db db'"
  shows "evidence_lineage db' ctx = Some l"
proof -
  obtain c x where found: "find (\<lambda>c. ctx_id c = ctx) (db_contexts db) = Some c"
    "find (\<lambda>x. ph_context x = ctx) (db_phases db) = Some x" and l: "l = (ctx_attempt c, ph_id x)"
    using assms(1) by (auto simp: evidence_lineage_def split: option.splits)
  have "prefix (db_contexts db) (db_contexts db')" "prefix (db_phases db) (db_phases db')"
    using assms(2) by (simp_all add: grows_def)
  from find_prefix [OF this(1) found(1)] find_prefix [OF this(2) found(2)] show ?thesis
    by (simp add: evidence_lineage_def l)
qed

lemma same_semantics_row:
  "same_semantics g (inline_row env db input l payload)
    \<longleftrightarrow> g\<lparr>ev_id := '''', ev_created := ''''\<rparr> = (inline_row env db input l payload)\<lparr>ev_id := '''', ev_created := ''''\<rparr>"
  by (cases g) (auto simp: same_semantics_def inline_row_def)

lemma inline_row_env:
  "env_sha256 env' = env_sha256 env \<Longrightarrow>
   (inline_row env' db' input l payload)\<lparr>ev_id := '''', ev_created := ''''\<rparr>
     = (inline_row env db input l payload)\<lparr>ev_id := '''', ev_created := ''''\<rparr>"
  by (simp add: inline_row_def)

lemma resolve_evidence_again:
  assumes "resolveTransitionEvidence env owner db reference = Inr (mid, e)" "grows mid db'"
    and sha: "env_sha256 env' = env_sha256 env"
  shows "resolveTransitionEvidence env' owner db' reference = Inr (db', e)"
proof (cases reference)
  case (ExistingEvidence purpose i)
  then show ?thesis using assms(1) by (simp add: resolveTransitionEvidence_def)
next
  case (InlineEvidence purpose input)
  let ?found = "find (\<lambda>g. ev_producer g = ie_producerService input \<and> ev_scope g = ie_scope input
                      \<and> ev_key g = ie_idempotencyKey input)"
  from assms(1) InlineEvidence obtain l payload where owner: "ie_producerService input = owner"
    and l: "evidence_lineage db (ie_contextId input) = Some l"
    and payload: "canonical_text (ie_payload input) = Inr payload" "starts_with payload ''{''"
    by (auto simp: resolveTransitionEvidence_def rbind_Inr_iff split: if_splits option.splits)
  have "\<exists>g. ?found (db_evidence mid) = Some g \<and> same_semantics g (inline_row env db input l payload) \<and> e = (purpose, ev_id g)"
  proof (cases "?found (db_evidence db)")
    case None
    then show ?thesis
      using assms(1) InlineEvidence owner l payload
      by (auto simp: resolveTransitionEvidence_def rbind_Inr_iff insert_evidence_def find_append Let_def
          inline_row_def same_semantics_def split: if_splits)
  next
    case (Some g)
    then show ?thesis
      using assms(1) InlineEvidence owner l payload
      by (auto simp: resolveTransitionEvidence_def rbind_Inr_iff Let_def split: if_splits)
  qed
  then obtain g where g: "?found (db_evidence mid) = Some g" "same_semantics g (inline_row env db input l payload)"
    "e = (purpose, ev_id g)" by blast
  have "?found (db_evidence db') = Some g"
    using assms(2) by (intro find_prefix [OF _ g(1)]) (simp add: grows_def)
  moreover have "same_semantics g (inline_row env' db' input l payload)"
    using g(2) by (simp only: same_semantics_row inline_row_env [OF sha, of db' input l payload db])
  moreover have "evidence_lineage db' (ie_contextId input) = Some l"
    using resolve_evidence_other [OF assms(1)] assms(2) lineage_later [OF l]
    by (meson effect.others effect_grows grows_trans)
  ultimately show ?thesis
    using InlineEvidence owner payload g(3) by (simp add: resolveTransitionEvidence_def Let_def)
qed

lemma other_tables_grows: "other_tables db db' \<Longrightarrow> grows db db'"
  using effect.others effect_grows by blast

lemma resolve_all_again:
  assumes "traverse_state (resolveTransitionEvidence env owner) db refs = Inr (mid, es)" "grows mid db'"
    and "env_sha256 env' = env_sha256 env"
  shows "traverse_state (resolveTransitionEvidence env' owner) db' refs = Inr (db', es)"
  using assms(1)
proof (induction refs arbitrary: db es)
  case (Cons r refs)
  then obtain s e es' where step: "resolveTransitionEvidence env owner db r = Inr (s, e)"
    "traverse_state (resolveTransitionEvidence env owner) s refs = Inr (mid, es')" "es = e # es'"
    by (auto simp: traverse_state_Cons)
  have "grows s mid"
    using traverse_state_keeps [OF step(2), where R = grows] resolve_evidence_other other_tables_grows grows_trans
    by (metis grows_refl)
  then have "grows s db'" using assms(2) grows_trans by blast
  then show ?case
    using resolve_evidence_again [OF step(1) _ assms(3)] Cons.IH [OF step(2)] step(3) by (auto simp: traverse_state_Cons)
qed simp

lemma resolve_input_again:
  assumes "resolve_input env c db = Inr (mid, es, d)" "grows mid db'" "env_sha256 env' = env_sha256 env"
  shows "resolve_input env' c db' = Inr (db', es, d)"
proof -
  obtain payload where "check_command c = Inr ()"
    "traverse_state (resolveTransitionEvidence env (tc_ownerService c)) db (tc_evidence c) = Inr (mid, es)"
    "check_all check_reference es = Inr ()" "canonical_text (input_js c es) = Inr payload" "d = env_sha256 env payload"
    using assms(1) by (auto simp: resolve_input_def rbind_Inr_iff)
  then show ?thesis
    using resolve_all_again [OF _ assms(2,3)] assms(3) by (simp add: resolve_input_def)
qed

section \<open>A committed command\<close>

lemma cas_entity_frame:
  assumes "cas_entity kind i f t v db = Inr (db', n)"
  shows "db_transitions db' = db_transitions db \<and> db_refs db' = db_refs db \<and> db_evidence db' = db_evidence db
    \<and> db_decisions db' = db_decisions db \<and> db_promotions db' = db_promotions db \<and> db_cleanups db' = db_cleanups db
    \<and> db_gates db' = db_gates db \<and> db_contexts db' = db_contexts db"
  using assms by (cases kind) (auto simp: cas_entity_def rbind_Inr_iff)

lemma new_refs_list: "map (\<lambda>r. (er_purpose r, er_evidence r)) (new_refs i evidence) = evidence"
  by (rule nth_equalityI) (simp_all add: new_refs_def nth_enumerate_eq)

lemma new_refs_sorted: "sort_key er_ordinal (new_refs i evidence) = new_refs i evidence"
proof -
  have "map er_ordinal (new_refs i evidence) = [0..<length evidence]"
    by (rule nth_equalityI) (simp_all add: new_refs_def nth_enumerate_eq)
  then have "sorted (map er_ordinal (new_refs i evidence))" by simp
  then show ?thesis by (rule sort_key_id_if_sorted)
qed

lemma refs_of_recorded:
  assumes "refs_ok db" "recorded kind i t (new_refs (tx_id t) evidence) db"
    and "db_refs db' = db_refs db @ new_refs (tx_id t) evidence"
  shows "refs_of (tx_id t) db' = new_refs (tx_id t) evidence"
proof -
  have "filter (\<lambda>r. er_transition r = tx_id t) (db_refs db) = []"
    using assms(1,2) unfolding refs_ok_def recorded_def filter_empty_conv by (metis (no_types))
  moreover have "filter (\<lambda>r. er_transition r = tx_id t) (new_refs (tx_id t) evidence) = new_refs (tx_id t) evidence"
    using new_refs_fields by (simp add: filter_id_conv)
  ultimately show ?thesis using assms(3) new_refs_sorted by (simp add: refs_of_def)
qed

text \<open>After a commit, new or replayed, its transition is on record with its evidence.\<close>

lemma committed:
  assumes "commitTransitionInCurrentTransaction env c db = Inr (db', r)" "lifecycle_inv db"
  obtains mid evidence d t where "resolve_input env c db = Inr (mid, evidence, d)" "grows mid db'"
    "transition_by_key (tc_entityKind c) (tc_entityId c) (tc_idempotencyKey c) db' = Some t"
    "replay_matches c t (refs_of (tx_id t) db') evidence d"
    "entity_snapshot (tc_entityKind c) (tc_entityId c) db' \<noteq> None"
    "r = transitionResult c t (tc_expectedVersion c + 1) d evidence"
  using assms(1)
proof (cases rule: commit_cases)
  case (replay mid evidence d t)
  then have "entity_snapshot (tc_entityKind c) (tc_entityId c) db' \<noteq> None"
    using assms(1) by (auto simp: commitTransitionInCurrentTransaction_def split: if_splits)
  with replay that show thesis by auto
next
  case (new mid evidence d)
  let ?t = "new_transition env mid c d" and ?kind = "tc_entityKind c" and ?i = "tc_entityId c"
  have eff: "effect db mid" by (rule effect.others [OF resolve_input_other [OF new(1)]])
  then have inv: "lifecycle_inv mid" using effect_keeps_inv assms(2) by blast
  have step: "effect mid db'" by (rule commit_new_effect [OF new(3) inv])
  note rec = commit_new_writes(1) [OF new(3)]
  have frame: "db_transitions db' = db_transitions mid @ [?t]" "db_refs db' = db_refs mid @ new_refs (tx_id ?t) evidence"
    using cas_entity_frame [OF commit_new_writes(2) [OF new(3)]] by simp_all
  have key: "transition_by_key ?kind ?i (tc_idempotencyKey c) db' = Some ?t"
    using new(2) frame(1) tx_entity_new [of ?kind env mid c d]
    by (simp add: transition_by_key_def find_append)
  have refs: "refs_of (tx_id ?t) db' = new_refs (tx_id ?t) evidence"
    using refs_of_recorded [OF _ rec frame(2)] inv by (simp add: lifecycle_inv_def)
  have "replay_matches c ?t (refs_of (tx_id ?t) db') evidence d"
    by (simp add: replay_matches_def refs new_refs_list)
  moreover have "entity_snapshot ?kind ?i db' \<noteq> None"
    using effect_snapshot [OF step commit_new_facts(1) [OF new(3)]] by auto
  ultimately show thesis
    using that [OF new(1) effect_grows [OF step] key] commit_new_facts(5) [OF new(3)] by blast
qed

section \<open>Properties\<close>

text \<open>
  C2. A committed transition can be replayed for ever. Once a command has been committed, committing it
  again in any later database, at another time and with other random identifiers, returns the same
  result and changes nothing: the evidence it carries resolves to the same rows, and the history row
  and its references are final.
\<close>

theorem committed_transition_replays_forever:
  assumes "reachable_db db" and "commitAuthorizedTransition env c db = (db1, Inr r)"
    and "lifecycle_step\<^sup>*\<^sup>* db1 db2" and "env_sha256 env' = env_sha256 env"
  shows "commitAuthorizedTransition env' c db2 = (db2, Inr r)"
proof -
  have inv: "lifecycle_inv db" using assms(1) by (rule reachable_inv)
  have commit: "commitTransitionInCurrentTransaction env c db = Inr (db1, r)"
    using assms(2) by (simp add: commitAuthorizedTransition_def immediate_Inr_iff)
  then obtain mid evidence d t where run: "resolve_input env c db = Inr (mid, evidence, d)" "grows mid db1"
    and t: "transition_by_key (tc_entityKind c) (tc_entityId c) (tc_idempotencyKey c) db1 = Some t"
    and matches: "replay_matches c t (refs_of (tx_id t) db1) evidence d"
    and there: "entity_snapshot (tc_entityKind c) (tc_entityId c) db1 \<noteq> None"
    and r: "r = transitionResult c t (tc_expectedVersion c + 1) d evidence"
    by (rule committed [OF _ inv])
  have later: "effect\<^sup>*\<^sup>* db1 db2"
    using steps_effects [OF assms(3)] effects_keep_inv [OF commit_effects [OF commit inv] inv] by blast
  then have grows: "grows db1 db2" by (rule effects_grow)
  have "resolve_input env' c db2 = Inr (db2, evidence, d)"
    by (rule resolve_input_again [OF run(1) grows_trans [OF run(2) grows] assms(4)])
  moreover have "transition_by_key (tc_entityKind c) (tc_entityId c) (tc_idempotencyKey c) db2 = Some t"
    using t grows unfolding transition_by_key_def by (intro find_prefix [OF _ t [unfolded transition_by_key_def]]) (simp add: grows_def)
  moreover have "refs_of (tx_id t) db2 = refs_of (tx_id t) db1"
    using t by (intro effects_refs_of [OF later]) (auto simp: transition_by_key_def dest: find_Some_in)
  moreover have "entity_snapshot (tc_entityKind c) (tc_entityId c) db2 \<noteq> None"
    using there effects_snapshot [OF later] by fastforce
  ultimately show ?thesis
    using matches r by (simp add: commitAuthorizedTransition_def immediate_def commitTransitionInCurrentTransaction_def)
qed

text \<open>What a new commit does, in terms of the database it started from.\<close>

lemma other_tables_queries:
  assumes "other_tables db mid"
  shows "entity_snapshot kind i mid = entity_snapshot kind i db"
    "transition_by_key kind i key mid = transition_by_key kind i key db"
    "history kind i mid = history kind i db" "db_transitions mid = db_transitions db"
  using assms by (cases kind; simp add: other_tables_def entity_snapshot_def transition_by_key_def history_def)+

lemma new_commit:
  assumes "commitAuthorizedTransition env c db = (db', Inr r)"
    and "transition_by_key (tc_entityKind c) (tc_entityId c) (tc_idempotencyKey c) db = None"
  obtains mid evidence d where "resolve_input env c db = Inr (mid, evidence, d)" "other_tables db mid"
    "commit_new env c evidence d mid = Inr (db', r)"
proof -
  have "commitTransitionInCurrentTransaction env c db = Inr (db', r)"
    using assms(1) by (simp add: commitAuthorizedTransition_def immediate_Inr_iff)
  then show thesis
  proof (cases rule: commit_cases)
    case (replay mid evidence d t)
    then show thesis using assms(2) other_tables_queries(2) [OF resolve_input_other] by (metis option.distinct(1))
  next
    case (new mid evidence d)
    then show thesis using that resolve_input_other by blast
  qed
qed

lemma snapshot_with_transition [simp]: "entity_snapshot k j (with_transition t rs db) = entity_snapshot k j db"
  by (cases k) (simp_all add: entity_snapshot_def)

lemma cas_snapshots:
  assumes "cas_entity kind i f t v db = Inr (db', 1)" "entity_snapshot kind i db = Some (f, v)"
    "lifecycle_inv db0" "db_runs db = db_runs db0" "db_tickets db = db_tickets db0" "db_attempts db = db_attempts db0"
  shows "entity_snapshot k j db' = (if (k, j) = (kind, i) then Some (t, v + 1) else entity_snapshot k j db)"
proof (cases kind)
  case RunEntity
  then obtain a rows where a: "find_row (db_runs db) i = Some a" "row_state a = f" "row_version a = v"
    "update_where runs_legal_edge t (\<lambda>r. row_id r = i \<and> row_state r = f \<and> row_version r = v) (db_runs db) = Inr (rows, 1)"
    and db': "db' = db\<lparr>db_runs := rows\<rparr>"
    using assms(1,2) by (auto simp: cas_entity_def rbind_Inr_iff entity_snapshot_def snapshot_of_def)
  then have "rows = move_row i t (db_runs db)"
    using cas_moves [OF _ a] lifecycle_inv_distinct [OF assms(3)] assms(4) by simp
  with RunEntity a db' show ?thesis
    by (cases k) (auto simp: entity_snapshot_def find_move_row snapshot_advance option.map_ident)
next
  case TicketEntity
  then obtain a rows where a: "find_row (db_tickets db) i = Some a" "row_state a = f" "row_version a = v"
    "update_where run_tickets_legal_edge t (\<lambda>r. row_id r = i \<and> row_state r = f \<and> row_version r = v) (db_tickets db) = Inr (rows, 1)"
    and db': "db' = db\<lparr>db_tickets := rows\<rparr>"
    using assms(1,2) by (auto simp: cas_entity_def rbind_Inr_iff entity_snapshot_def snapshot_of_def)
  then have "rows = move_row i t (db_tickets db)"
    using cas_moves [OF _ a] lifecycle_inv_distinct [OF assms(3)] assms(5) by simp
  with TicketEntity a db' show ?thesis
    by (cases k) (auto simp: entity_snapshot_def find_move_row snapshot_advance option.map_ident)
next
  case AttemptEntity
  then obtain a rows where a: "find_row (db_attempts db) i = Some a" "row_state a = f" "row_version a = v"
    "update_where attempts_legal_edge t (\<lambda>r. row_id r = i \<and> row_state r = f \<and> row_version r = v) (db_attempts db) = Inr (rows, 1)"
    and db': "db' = db\<lparr>db_attempts := rows\<rparr>"
    using assms(1,2) by (auto simp: cas_entity_def rbind_Inr_iff entity_snapshot_def snapshot_of_def)
  then have "rows = move_row i t (db_attempts db)"
    using cas_moves [OF _ a] lifecycle_inv_distinct [OF assms(3)] assms(6) by simp
  with AttemptEntity a db' show ?thesis
    by (cases k) (auto simp: entity_snapshot_def find_move_row snapshot_advance option.map_ident)
qed

lemma numbered_history:
  assumes "lifecycle_inv db" "entity_snapshot kind i db = Some x"
  shows "numbered (history kind i db)"
  using assms
  by (cases kind) (fastforce simp: entity_snapshot_def lifecycle_inv_def table_ok_def tracked_def history_rows_of
      dest: find_row_Some)+

text \<open>
  C10. A new commit moves exactly one entity. It was in the state and at the version the command
  expects, it ends in the target state with the next version, and every other run, ticket and attempt is
  untouched; the edge is declared for its kind and owned by the command's service; one history row is
  appended, numbered next for the entity, and its references are the evidence of the result.
\<close>

theorem commit_moves_exactly_one_entity:
  assumes "reachable_db db" and "commitAuthorizedTransition env c db = (db', Inr r)"
    and "transition_by_key (tc_entityKind c) (tc_entityId c) (tc_idempotencyKey c) db = None"
  shows "entity_snapshot (tc_entityKind c) (tc_entityId c) db = Some (tc_fromState c, tc_expectedVersion c)
    \<and> (\<forall>k j. entity_snapshot k j db' =
         (if (k, j) = (tc_entityKind c, tc_entityId c) then Some (tc_toState c, tc_expectedVersion c + 1)
          else entity_snapshot k j db))
    \<and> map_option de_owner (find_edge (entity_catalog (tc_entityKind c)) (tc_fromState c) (tc_toState c))
        = Some (tc_ownerService c)
    \<and> (\<exists>t. db_transitions db' = db_transitions db @ [t]
         \<and> history (tc_entityKind c) (tc_entityId c) db' = history (tc_entityKind c) (tc_entityId c) db @ [t]
         \<and> (tx_id t, tx_from t, tx_to t) = (rs_transitionId r, tc_fromState c, tc_toState c)
         \<and> tx_sequence t = int (length (history (tc_entityKind c) (tc_entityId c) db)) + 1
         \<and> map (\<lambda>e. (er_purpose e, er_evidence e)) (refs_of (tx_id t) db') = rs_evidence r \<and> rs_evidence r \<noteq> [])"
proof -
  let ?kind = "tc_entityKind c" and ?i = "tc_entityId c"
  have inv: "lifecycle_inv db" using assms(1) by (rule reachable_inv)
  obtain mid evidence d where mid: "resolve_input env c db = Inr (mid, evidence, d)" "other_tables db mid"
    and new: "commit_new env c evidence d mid = Inr (db', r)"
    by (rule new_commit [OF assms(2,3)])
  let ?t = "new_transition env mid c d"
  note rec = commit_new_writes(1) [OF new] and cas = commit_new_writes(2) [OF new]
  have invm: "lifecycle_inv mid" by (rule effect_keeps_inv [OF effect.others [OF mid(2)] inv])
  have from_state: "entity_snapshot ?kind ?i mid = Some (tc_fromState c, tc_expectedVersion c)"
    by (rule commit_new_facts(1) [OF new])
  have snapshots: "entity_snapshot k j db' =
      (if (k, j) = (?kind, ?i) then Some (tc_toState c, tc_expectedVersion c + 1) else entity_snapshot k j db)" for k j
    using cas_snapshots [OF cas _ invm, of k j] from_state other_tables_queries(1) [OF mid(2)] by simp
  have frame: "db_transitions db' = db_transitions db @ [?t]" "db_refs db' = db_refs mid @ new_refs (tx_id ?t) evidence"
    using cas_entity_frame [OF cas] other_tables_queries(4) [OF mid(2)] by simp_all
  have sequence: "tx_sequence ?t = int (length (history ?kind ?i db)) + 1"
    using next_sequence_numbered [OF numbered_history [OF invm from_state]] other_tables_queries(3) [OF mid(2)] by simp
  have hist: "history ?kind ?i db' = history ?kind ?i db @ [?t]"
    using frame(1) by (simp add: history_def tx_entity_new)
  have refs: "map (\<lambda>e. (er_purpose e, er_evidence e)) (refs_of (tx_id ?t) db') = evidence"
    using refs_of_recorded [OF _ rec frame(2)] invm by (simp add: lifecycle_inv_def new_refs_list)
  have checked: "check_command c = Inr ()" and len: "length evidence = length (tc_evidence c)"
    using mid(1) by (auto simp: resolve_input_def rbind_Inr_iff dest: traverse_state_length)
  then have "map_option de_owner (find_edge (entity_catalog ?kind) (tc_fromState c) (tc_toState c)) = Some (tc_ownerService c)"
    "tc_evidence c \<noteq> []"
    by (auto simp: check_command_def illegal_def split: if_splits option.splits)
  moreover have "rs_evidence r = evidence" "rs_transitionId r = tx_id ?t"
    using commit_new_facts(5) [OF new] by (simp_all add: transitionResult_def)
  ultimately show ?thesis
    using from_state other_tables_queries(1) [OF mid(2)] snapshots frame(1) hist sequence refs len by auto
qed

text \<open>
  C3. No update is lost. After a command moved an entity from a version, no other command that expects
  that version or an older one can move the entity again, in any later database: it is refused and changes
  nothing, whatever its edge, unless its own key is already on record.
\<close>

theorem no_update_is_lost:
  assumes "reachable_db db" and "commitAuthorizedTransition env c db = (db1, Inr r)"
    and "transition_by_key (tc_entityKind c) (tc_entityId c) (tc_idempotencyKey c) db = None"
    and "lifecycle_step\<^sup>*\<^sup>* db1 db2"
    and "tc_entityKind c' = tc_entityKind c" "tc_entityId c' = tc_entityId c"
    and "tc_expectedVersion c' \<le> tc_expectedVersion c"
    and "transition_by_key (tc_entityKind c') (tc_entityId c') (tc_idempotencyKey c') db2 = None"
  shows "\<exists>e. commitAuthorizedTransition env' c' db2 = (db2, Inl e)"
proof -
  let ?kind = "tc_entityKind c" and ?i = "tc_entityId c"
  have inv: "lifecycle_inv db" using assms(1) by (rule reachable_inv)
  obtain mid evidence d where mid: "other_tables db mid" and new: "commit_new env c evidence d mid = Inr (db1, r)"
    by (rule new_commit [OF assms(2,3)])
  have invm: "lifecycle_inv mid" by (rule effect_keeps_inv [OF effect.others [OF mid] inv])
  have "entity_snapshot ?kind ?i db1 = Some (tc_toState c, tc_expectedVersion c + 1)"
    using cas_snapshots [OF commit_new_writes(2) [OF new] _ invm, of ?kind ?i] commit_new_facts(1) [OF new] by simp
  moreover have "effect\<^sup>*\<^sup>* db1 db2"
    using steps_effects [OF assms(4)] effect_keeps_inv [OF commit_new_effect [OF new invm] invm] by blast
  ultimately obtain s v where now: "entity_snapshot ?kind ?i db2 = Some (s, v)" "tc_expectedVersion c + 1 \<le> v"
    using effects_snapshot by (fastforce simp: later_def)
  show ?thesis
  proof (cases "commitAuthorizedTransition env' c' db2")
    case (Pair db3 res)
    show ?thesis
    proof (cases res)
      case (Inl e)
      with Pair show ?thesis using immediate_Inl by (auto simp: commitAuthorizedTransition_def)
    next
      case (Inr r')
      with Pair have "commitAuthorizedTransition env' c' db2 = (db3, Inr r')" by simp
      then obtain mid' evidence' d' where "other_tables db2 mid'" "commit_new env' c' evidence' d' mid' = Inr (db3, r')"
        by (rule new_commit [OF _ assms(8)])
      then have "entity_snapshot ?kind ?i db2 = Some (tc_fromState c', tc_expectedVersion c')"
        using commit_new_facts(1) other_tables_queries(1) assms(5,6) by metis
      with now assms(7) show ?thesis by simp
    qed
  qed
qed

section \<open>Histories\<close>

lemma chain_closed:
  assumes "chain s h t" "\<forall>r \<in> set h. legal (tx_from r) (tx_to r)" "\<And>x y. x \<in> S \<Longrightarrow> legal x y \<Longrightarrow> y \<in> S"
    and "s \<in> S \<or> (\<exists>r \<in> set h. tx_to r \<in> S)"
  shows "t \<in> S"
  using assms(1,2,4)
proof (induction h arbitrary: s)
  case (Cons r h)
  then have "tx_to r \<in> S \<or> (\<exists>r \<in> set h. tx_to r \<in> S)" using assms(3) by auto
  with Cons show ?case by auto
qed simp

lemma chain_to_source:
  assumes "chain s h t" "\<forall>r \<in> set h. legal (tx_from r) (tx_to r)" "\<And>x. \<not> legal x t"
  shows "h = []"
  using assms
proof (induction h arbitrary: s)
  case (Cons r h)
  then have "h = []" using Cons.IH [of "tx_to r"] by auto
  with Cons.prems show ?case by auto
qed simp

lemma attempt_history:
  assumes "lifecycle_inv db" "find_row (db_attempts db) i = Some a"
  shows "chain Planned (history AttemptEntity i db) (row_state a)"
    "\<forall>t \<in> set (history AttemptEntity i db). attempts_legal_edge (tx_from t) (tx_to t)"
  using assms find_row_Some [OF assms(2)]
  by (auto simp: lifecycle_inv_def table_ok_def tracked_def history_rows_of)

text \<open>
  C1. The history of every reachable database is complete. The history rows of an attempt are numbered
  from one, every one is a legal edge, they lead without a gap from \<open>planned\<close> to the state the
  attempt is in, and its version is their number. The same holds for a run, whose version is at least
  their number (promotions raise it too), and the rows of a ticket are numbered legal edges, at most as
  many as its version (its silent moves leave no row).
\<close>

theorem reachable_histories:
  assumes "reachable_db db"
  shows "(\<forall>a \<in> set (db_attempts db). let h = history AttemptEntity (row_id a) db in
        map tx_sequence h = map int [1..<Suc (length h)] \<and> chain Planned h (row_state a)
        \<and> (\<forall>t \<in> set h. attempts_legal_edge (tx_from t) (tx_to t)) \<and> row_version a = int (length h))
    \<and> (\<forall>r \<in> set (db_runs db). let h = history RunEntity (row_id r) db in
        map tx_sequence h = map int [1..<Suc (length h)] \<and> chain Planned h (row_state r)
        \<and> (\<forall>t \<in> set h. runs_legal_edge (tx_from t) (tx_to t)) \<and> int (length h) \<le> row_version r)
    \<and> (\<forall>k \<in> set (db_tickets db). let h = history TicketEntity (row_id k) db in
        map tx_sequence h = map int [1..<Suc (length h)]
        \<and> (\<forall>t \<in> set h. run_tickets_legal_edge (tx_from t) (tx_to t)) \<and> int (length h) \<le> row_version k)"
  using reachable_inv [OF assms]
  by (auto simp: lifecycle_inv_def table_ok_def tracked_def numbered_def history_rows_of Let_def)

text \<open>
  C11. Every operation of the store is a run of the abstract history machine: from a reachable database a
  step of the code, whatever its guards admit, is a sequence of recorded legal moves, silent ticket
  moves, chain advances, new planned rows and extensions of the append-only tables.
\<close>

theorem operations_refine_history_machine:
  assumes "reachable_db db" and "lifecycle_step db db'"
  shows "effect\<^sup>*\<^sup>* db db'"
  using assms step_effects reachable_inv by blast

section \<open>What guarded edges rest on\<close>

lemma clean_attempt_facts:
  assumes "validateTerminalAttemptOwnership env db i cleanup s = Inr row"
  shows "row \<in> set (db_cleanups db) \<and> cu_id row = cleanup \<and> cu_attempt row = i \<and> cu_group_dead row
    \<and> cu_resources_absent row \<and> cu_lease_release_eligible row"
  using assms
  by (auto simp: validateTerminalAttemptOwnership_def rbind_Inr_iff dest!: find_Some_in split: if_splits)

lemma cleanup_guard_fits: "guard_fits (CleanupDone x out) e \<Longrightarrow> pe_guard e = GCleanupFailed \<or> pe_guard e = GCleanupQuarantined"
  by (cases out) auto

lemma verified_guard_only: "legalPhaseEdge f Verified = Some e \<Longrightarrow> guard_fits g e \<Longrightarrow> \<exists>d p x. g = VerifiedPromotion d p x"
  by (cases g) (auto simp: table_lookup split: if_splits dest: cleanup_guard_fits)

lemma converging_guard_only: "legalPhaseEdge f Converging = Some e \<Longrightarrow> guard_fits g e \<Longrightarrow> \<exists>ids. g = GatesSelected ids"
  by (cases g) (auto simp: table_lookup split: if_splits dest: cleanup_guard_fits)

lemma verified_guard_facts:
  assumes "verified_promotion_guard env db i evidence decision promotion cleanup = Inr ()"
  shows "\<exists>d \<in> set (db_decisions db). \<exists>p \<in> set (db_promotions db). \<exists>x \<in> set (db_cleanups db).
    od_attempt d = Some i \<and> od_accepted d \<and> pi_decision p = od_id d \<and> pi_state p = Finalized
    \<and> cu_attempt x = i \<and> cu_group_dead x \<and> cu_resources_absent x \<and> cu_lease_release_eligible x
    \<and> cu_evidence x \<in> snd ` set evidence \<and> (\<exists>e \<in> snd ` set evidence. pi_finalization_evidence p = Some e)"
proof -
  obtain x p where x: "validateTerminalAttemptOwnership env db i cleanup TerminalReleased = Inr x"
    and p: "accepted_promotion db i decision promotion Finalized = Some p"
    and e: "\<exists>e \<in> set evidence. cu_evidence x = snd e" "\<exists>e \<in> set evidence. pi_finalization_evidence p = Some (snd e)"
    using assms by (auto simp: verified_promotion_guard_def validateCleanAttempt_def rbind_Inr_iff)
  have "p \<in> set (db_promotions db)" "pi_decision p = decision" "pi_state p = Finalized"
    "\<exists>d \<in> set (db_decisions db). od_id d = decision \<and> od_attempt d = Some i \<and> od_accepted d"
    using p by (auto simp: accepted_promotion_def dest: find_Some_in)
  then show ?thesis using clean_attempt_facts [OF x] e by (auto 0 4)
qed

lemma gates_guard_facts:
  assumes "gates_guard db i digest t evidence ids = Inr ()" "t \<noteq> CleanupPending"
    and "g \<in> set (db_gates db)" "gt_attempt g = i" "x \<in> set (db_contexts db)" "ctx_id x = gt_context g"
  shows "ctx_digest x = digest \<and> (gt_required g \<longrightarrow> gt_status g = Passed) \<and> gt_evidence g \<in> snd ` set evidence"
proof -
  have row: "(g, ctx_digest x) \<in> set (gate_selection db i)"
    using assms(3-6) by (auto simp: gate_selection_def)
  have "(\<forall>r \<in> set (gate_selection db i). snd r = digest \<and> \<not> unpassed_required (fst r))
      \<and> (\<forall>r \<in> set (gate_selection db i). \<exists>e \<in> set evidence. gt_evidence (fst r) = snd e)"
    using assms(1,2) by (auto simp: gates_guard_def Let_def illegal_def split: if_splits)
  with row show ?thesis by (force simp: unpassed_required_def)
qed

text \<open>
  C4. The two edges an attempt cannot pass on its own word. A commit that makes an attempt
  \<open>verified\<close> rests on an accepted decision about this attempt, a finalized promotion of that decision and a
  cleanup record of the attempt that proves group death, absence of its resources and lease
  eligibility, with the cleanup and the finalization evidence pinned by the new history row; a commit to
  \<open>converging\<close> rests on the gate results of the attempt: every required one that resolves to a
  context passed in the owner's context, and its evidence is pinned.
\<close>

theorem guarded_edges_rest_on_records:
  assumes "reachable_db db" and "minted c" and "commitAuthorizedTransition env c db = (db', Inr r)"
    and "transition_by_key (tc_entityKind c) (tc_entityId c) (tc_idempotencyKey c) db = None"
    and "tc_entityKind c = AttemptEntity"
  shows "(tc_toState c = Verified \<longrightarrow>
       (\<exists>d \<in> set (db_decisions db'). \<exists>p \<in> set (db_promotions db'). \<exists>x \<in> set (db_cleanups db').
          od_attempt d = Some (tc_entityId c) \<and> od_accepted d \<and> pi_decision p = od_id d \<and> pi_state p = Finalized
          \<and> cu_attempt x = tc_entityId c \<and> cu_group_dead x \<and> cu_resources_absent x \<and> cu_lease_release_eligible x
          \<and> cu_evidence x \<in> er_evidence ` set (refs_of (rs_transitionId r) db')
          \<and> (\<exists>e \<in> set (refs_of (rs_transitionId r) db'). pi_finalization_evidence p = Some (er_evidence e))))
    \<and> (tc_toState c = Converging \<longrightarrow>
       (\<forall>g \<in> set (db_gates db'). gt_attempt g = tc_entityId c \<longrightarrow>
          (\<forall>x \<in> set (db_contexts db'). ctx_id x = gt_context g \<longrightarrow>
             ctx_digest x = tc_ownerContextDigest c \<and> (gt_required g \<longrightarrow> gt_status g = Passed)
             \<and> gt_evidence g \<in> er_evidence ` set (refs_of (rs_transitionId r) db'))))"
proof -
  let ?i = "tc_entityId c"
  have inv: "lifecycle_inv db" using assms(1) by (rule reachable_inv)
  obtain mid evidence d where mid: "other_tables db mid" and new: "commit_new env c evidence d mid = Inr (db', r)"
    by (rule new_commit [OF assms(3,4)])
  let ?t = "new_transition env mid c d"
  note cas = commit_new_writes(2) [OF new]
  have invm: "lifecycle_inv mid" by (rule effect_keeps_inv [OF effect.others [OF mid] inv])
  have same: "db_decisions db' = db_decisions mid" "db_promotions db' = db_promotions mid"
    "db_cleanups db' = db_cleanups mid" "db_gates db' = db_gates mid" "db_contexts db' = db_contexts mid" "db_refs db' = db_refs mid @ new_refs (tx_id ?t) evidence"
    using cas_entity_frame [OF cas] by simp_all
  have "rs_transitionId r = tx_id ?t" using commit_new_facts(5) [OF new] by (simp add: transitionResult_def)
  then have refs: "map (\<lambda>e. (er_purpose e, er_evidence e)) (refs_of (rs_transitionId r) db') = evidence"
    using refs_of_recorded [OF _ commit_new_writes(1) [OF new] same(6)] invm by (simp add: lifecycle_inv_def new_refs_list)
  then have pinned: "snd ` set evidence = er_evidence ` set (refs_of (rs_transitionId r) db')"
    by (metis (no_types, lifting) image_image list.set_map snd_conv image_cong)
  obtain e where e: "legalPhaseEdge (tc_fromState c) (tc_toState c) = Some e" "guard_fits (tc_guard c) e"
    using attempt_edge_guarded [OF assms(2,5)] by blast
  note guard = commit_new_facts(3) [OF new]
  show ?thesis
  proof (intro conjI impI)
    assume "tc_toState c = Verified"
    with e obtain dec p x where "tc_guard c = VerifiedPromotion dec p x" using verified_guard_only by metis
    with guard have "verified_promotion_guard env mid ?i evidence dec p x = Inr ()"
      by (simp add: validateTransitionGuard_def)
    from verified_guard_facts [OF this, unfolded pinned]
    show "\<exists>d \<in> set (db_decisions db'). \<exists>p \<in> set (db_promotions db'). \<exists>x \<in> set (db_cleanups db').
          od_attempt d = Some ?i \<and> od_accepted d \<and> pi_decision p = od_id d \<and> pi_state p = Finalized
          \<and> cu_attempt x = ?i \<and> cu_group_dead x \<and> cu_resources_absent x \<and> cu_lease_release_eligible x
          \<and> cu_evidence x \<in> er_evidence ` set (refs_of (rs_transitionId r) db')
          \<and> (\<exists>e \<in> set (refs_of (rs_transitionId r) db'). pi_finalization_evidence p = Some (er_evidence e))"
      unfolding same by blast
  next
    assume to: "tc_toState c = Converging"
    with e obtain ids where "tc_guard c = GatesSelected ids" using converging_guard_only by metis
    with guard to have "gates_guard mid ?i (tc_ownerContextDigest c) Converging evidence ids = Inr ()"
      by (simp add: validateTransitionGuard_def)
    from gates_guard_facts [OF this, unfolded pinned]
    show "\<forall>g \<in> set (db_gates db'). gt_attempt g = ?i \<longrightarrow>
          (\<forall>x \<in> set (db_contexts db'). ctx_id x = gt_context g \<longrightarrow>
             ctx_digest x = tc_ownerContextDigest c \<and> (gt_required g \<longrightarrow> gt_status g = Passed)
             \<and> gt_evidence g \<in> er_evidence ` set (refs_of (rs_transitionId r) db'))"
      unfolding same by blast
  qed
qed

section \<open>Replays of the runner's operations\<close>

text \<open>Once an attempt entered cleanup it stays there or beyond.\<close>

definition after_cleanup :: "lifecycle_state set" where
  "after_cleanup = {CleanupPending, OracleEvaluation, FailedClean, Quarantined, Verified}"

lemma after_cleanup_closed: "x \<in> after_cleanup \<Longrightarrow> attempts_legal_edge x y \<Longrightarrow> y \<in> after_cleanup"
  by (auto simp: after_cleanup_def attempts_legal_edge_def)

lemma pre_cleanup_not_after: "s \<in> set pre_cleanup_states \<Longrightarrow> s \<notin> after_cleanup"
  by (auto simp: after_cleanup_def pre_cleanup_states_def)

lemma cleanup_recorded_not_pre:
  assumes "lifecycle_inv db" "find_row (db_attempts db) i = Some a"
    and "t \<in> set (history AttemptEntity i db)" "tx_to t = CleanupPending"
  shows "row_state a \<notin> set pre_cleanup_states"
  using chain_closed [OF attempt_history [OF assms(1,2)], where S = after_cleanup] after_cleanup_closed
    pre_cleanup_not_after assms(3,4) by (fastforce simp: after_cleanup_def)

lemma transition_by_key_history:
  "transition_by_key kind i key db = Some t \<Longrightarrow> t \<in> set (history kind i db) \<and> tx_key t = key"
  by (auto simp: transition_by_key_def history_def dest: find_Some_in)

lemma cleanup_active_ticket_attempts:
  "cleanup_active_ticket ticket db = Inr db' \<Longrightarrow>
     db_attempts db' = db_attempts db \<and> db_transitions db' = db_transitions db"
  using cleanup_active_ticket_frame by fastforce

text \<open>
  C40. Entering cleanup through the runner's own operation is not idempotent: after a successful call the
  attempt is in \<open>cleanup_pending\<close>, and every further call, with the same key as well, is refused as
  an illegal transition. The branch of the code that answers a replay silently is reached in no reachable
  database, because the eligibility of the state is tested before the key.
\<close>

theorem cleanup_boundary_refuses_replay:
  assumes "reachable_db db" and "advanceAttemptToCleanupPending env i key db = (db1, Inr x)"
  shows "transition_by_key AttemptEntity i key db = None
    \<and> map_option row_state (find_row (db_attempts db1) i) = Some CleanupPending
    \<and> advanceAttemptToCleanupPending env' i key' db1 = (db1, Inl illegal)"
  using assms(2)
proof (cases rule: advance_cleanup_cases)
  case (replay a t)
  then show ?thesis
    using cleanup_recorded_not_pre [OF reachable_inv [OF assms(1)] replay(1)] transition_by_key_history by blast
next
  case (moved a d1 d2 y)
  obtain u where u: "tx_key u = key" "recorded AttemptEntity i u [] db"
    "d2 = with_transition u [] db\<lparr>db_attempts := move_row i CleanupPending (db_attempts db)\<rparr>"
    by (rule direct_attempt_effect [OF moved(3,4,1) refl])
  then have "find_row (db_attempts db1) i = Some (advance_row CleanupPending a)"
    using cleanup_active_ticket_attempts [OF moved(5)] find_row_moved [OF moved(1)] by simp
  then show ?thesis
    using u(1,2) by (simp add: recorded_def advance_row_def advanceAttemptToCleanupPending_def
        pre_cleanup_states_def immediate_def translate_error_def illegal_def)
qed

lemma planned_has_no_history:
  assumes "lifecycle_inv db" "find_row (db_attempts db) i = Some a" "row_state a = Planned"
  shows "history AttemptEntity i db = []"
proof (rule chain_to_source [where t = Planned])
  show "chain Planned (history AttemptEntity i db) Planned"
    using attempt_history(1) [OF assms(1,2)] assms(3) by simp
qed (use attempt_history(2) [OF assms(1,2)] in \<open>auto simp: attempts_legal_edge_def\<close>)

lemma recover_failed_clean:
  assumes "find_row (db_attempts db) i = Some a" "row_state a = FailedClean"
    and "transition_by_key AttemptEntity i (key @ ''#failed_clean'') db = Some t" "tx_to t = FailedClean"
  shows "recoverOrphanedPlannedAttempt env i key db = (db, Inr (tx_id t))"
  using assms by (simp add: recoverOrphanedPlannedAttempt_def immediate_def)

text \<open>
  C39. Recovery of an orphaned attempt is idempotent and complete. A successful call leaves the attempt in
  \<open>failed_clean\<close>; when the attempt was planned, its whole history is then the recovery's two rows, the
  second of which has the returned id. Calling again with the same key, in any environment, returns the
  same id and changes nothing.
\<close>

theorem recovery_is_idempotent:
  assumes "reachable_db db" and "recoverOrphanedPlannedAttempt env i key db = (db1, Inr x)"
  shows "map_option row_state (find_row (db_attempts db1) i) = Some FailedClean
    \<and> recoverOrphanedPlannedAttempt env' i key db1 = (db1, Inr x)
    \<and> (map_option row_state (find_row (db_attempts db) i) = Some Planned \<longrightarrow>
         map (\<lambda>t. (tx_from t, tx_to t)) (history AttemptEntity i db1) = [(Planned, CleanupPending), (CleanupPending, FailedClean)]
         \<and> tx_id (last (history AttemptEntity i db1)) = x)"
proof -
  have inv: "lifecycle_inv db" using assms(1) by (rule reachable_inv)
  obtain a where a: "find_row (db_attempts db) i = Some a"
    using assms(2) by (auto simp: recoverOrphanedPlannedAttempt_def immediate_Inr_iff split: option.splits)
  have i: "row_id a = i" using find_row_Some [OF a] by simp
  consider (clean) t where "row_state a = FailedClean" "db1 = db" "x = tx_id t" "tx_to t = FailedClean"
      "transition_by_key AttemptEntity i (key @ ''#failed_clean'') db = Some t"
    | (planned) "row_state a = Planned" "transition_by_key AttemptEntity i (key @ ''#failed_clean'') db \<noteq> None"
    | (orphan) "row_state a = Planned" "recover_orphan env a key db = Inr (db1, x)"
    using assms(2) a by (auto simp: recoverOrphanedPlannedAttempt_def immediate_Inr_iff Let_def split: option.splits if_splits)
  then show ?thesis
  proof cases
    case clean
    then show ?thesis using a recover_failed_clean [OF a clean(1,5,4)] by simp
  next
    case planned
    then show ?thesis using planned_has_no_history [OF inv a] transition_by_key_history by fastforce
  next
    case orphan
    obtain u v d2 d3 where uv: "tx_from u = Planned" "tx_to u = CleanupPending" "recorded AttemptEntity (row_id a) u [] db"
      "d2 = with_transition u [] db\<lparr>db_attempts := move_row (row_id a) CleanupPending (db_attempts db)\<rparr>"
      "cleanup_active_ticket (Some (at_ticket a)) d2 = Inr d3"
      "tx_from v = CleanupPending" "tx_to v = FailedClean" "tx_key v = key @ ''#failed_clean''" "x = tx_id v"
      "recorded AttemptEntity (row_id a) v [] d3"
      "db1 = with_transition v [] d3\<lparr>db_attempts := move_row (row_id a) FailedClean (db_attempts d3)\<rparr>"
      by (rule recover_orphan_cases [OF orphan(2) a [folded i] orphan(1)])
    note d3 = cleanup_active_ticket_attempts [OF uv(5)]
    have row: "find_row (db_attempts db1) i = Some (advance_row FailedClean (advance_row CleanupPending a))"
      using uv(4,11) d3 a i by (simp add: find_move_row)
    have hist: "history AttemptEntity i db1 = [u, v]"
      using planned_has_no_history [OF inv a orphan(1)] uv(4,11) d3 uv(3,10) i by (simp add: history_def recorded_def)
    have key: "transition_by_key AttemptEntity i (key @ ''#failed_clean'') db1 = Some v"
      using uv(8,10,11) i by (simp add: recorded_def transition_by_key_def find_append)
    have failed: "row_state (advance_row FailedClean (advance_row CleanupPending a)) = FailedClean"
      by (simp add: advance_row_def)
    have "recoverOrphanedPlannedAttempt env' i key db1 = (db1, Inr x)"
      using recover_failed_clean [OF row failed key uv(7)] uv(9) by simp
    then show ?thesis using row hist uv by (simp add: advance_row_def)
  qed
qed

end
