(* ===== verification/State_Samples.thy ===== *)
theory State_Samples
  imports State_Properties
begin

text \<open>
  A database on which the properties of the store are applied: one run with one ticket, whose attempt
  was walked to \<open>verifying\<close> and has a verifier context, a phase, one item of evidence and a passed
  gate; then the commit that ends verification.
\<close>

section \<open>A walked attempt\<close>

definition sample_env :: store_env where
  "sample_env =
     \<lparr>env_sha256 = (\<lambda>_. zero_digest), env_json_extract = (\<lambda>_ _. JNull), env_cwd = ''/w'',
      env_location = \<lparr>sl_repositoryId = ''repo'', sl_resourceDirectory = ''/s''\<rparr>,
      env_object_format = ''sha1'', env_clock = 0, env_date_parse = (\<lambda>_. None), env_json_number = JReal,
      env_base64 = (\<lambda>t. t), env_base64_encode = (\<lambda>t. t), env_rev_parse = (\<lambda>_. None), env_rev_parse_status = (\<lambda>_. Some 128),
      env_show_ref_status = (\<lambda>_. Some 1), env_artifact = (\<lambda>_ _. Inl (StateErr StateConflict)),
      env_transition_id = (\<lambda>n. ''t'' @ show_nat n), env_evidence_id = (\<lambda>n. ''e'' @ show_nat n)\<rparr>"

definition sample_run :: run_row where
  "sample_run =
     \<lparr>row_id = ''r'', row_state = Planned, row_version = 0, run_repository = ''repo'',
      run_delivery_ref = ''refs/rickgent/runs/r/delivery'', run_current_oid = ''o'', run_promotion_sequence = 0\<rparr>"

definition sample_ticket :: ticket_row where
  "sample_ticket =
     \<lparr>row_id = ''k'', row_state = Planned, row_version = 0, tk_run = ''r'', tk_ticket_id = ''T'',
      tk_contract_digest = ''c''\<rparr>"

definition sample_attempt :: attempt_row where
  "sample_attempt =
     \<lparr>row_id = ''a'', row_state = Planned, row_version = 0, at_ticket = ''k'', at_run = ''r'', at_ticket_id = ''T'',
      at_number = 1, at_contract_digest = ''c'', at_owner_digest = zero_digest, at_baseline_oid = ''o'',
      at_resource_version = ''v1''\<rparr>"

text \<open>The allocated database: an operation that is refused leaves it as it is.\<close>

definition kept :: "state_db \<Rightarrow> (store_error, state_db) result \<Rightarrow> state_db" where
  "kept db x = (case x of Inl _ \<Rightarrow> db | Inr db' \<Rightarrow> db')"

definition allocated_db :: state_db where
  "allocated_db =
     (let db1 = kept empty_db (insert_run sample_run empty_db);
          db2 = kept db1 (insert_ticket sample_ticket db1)
      in kept db2 (insert_attempt sample_attempt db2))"

definition advance :: "lifecycle_state \<Rightarrow> lifecycle_state \<Rightarrow> string \<Rightarrow> state_db \<Rightarrow> state_db" where
  "advance f t key db = fst (advanceAttemptState sample_env ''a'' f t key db)"

definition walked_db :: state_db where
  "walked_db =
     advance VerificationQueued Verifying ''k5''
      (advance Reviewing VerificationQueued ''k4''
       (advance ImplementationCaptured Reviewing ''k3''
        (advance Implementing ImplementationCaptured ''k2''
         (advance Planned Implementing ''k1'' allocated_db))))"

definition sample_evidence :: evidence_row where
  "sample_evidence =
     \<lparr>ev_id = ''e'', ev_attempt = Some ''a'', ev_phase = Some ''p'', ev_context = ''x'',
      ev_producer = VerificationService, ev_scope = ''gate'', ev_schema = ''s'', ev_digest = zero_digest,
      ev_payload = Some ''{}'', ev_external = None, ev_key = ''g'', ev_created = ''2026-01-01T00:00:00Z''\<rparr>"

definition gated_db :: state_db where
  "gated_db = walked_db
     \<lparr>db_contexts := [\<lparr>ctx_id = ''x'', ctx_digest = zero_digest, ctx_attempt = ''a'', ctx_role = ''verifier''\<rparr>],
      db_phases := [\<lparr>ph_id = ''p'', ph_attempt = ''a'', ph_context = ''x'', ph_phase = ''verify'', ph_role = ''verifier''\<rparr>],
      db_evidence := [sample_evidence],
      db_gates := [\<lparr>gt_id = ''g'', gt_attempt = ''a'', gt_context = ''x'', gt_status = Passed, gt_required = True,
                    gt_evidence = ''e''\<rparr>]\<rparr>"

definition sample_commit :: TransitionCommit where
  "sample_commit =
     completeVerification
       \<lparr>tr_expectedVersion = 5, tr_ownerContextDigest = zero_digest, tr_idempotencyKey = ''c'',
        tr_evidence = [ExistingEvidence ''gate'' ''e''], tr_attemptId = ''a''\<rparr> [''g'']"

lemma allocated_reachable: "reachable_db allocated_db"
proof -
  have kept: "lifecycle_step\<^sup>*\<^sup>* db (kept db x)" if "\<And>db'. x = Inr db' \<Longrightarrow> lifecycle_step db db'" for db x
    using that by (cases x) (auto simp: kept_def)
  show ?thesis
    unfolding reachable_db_def allocated_db_def Let_def
    by (meson kept rtranclp_trans lifecycle_step.step_new_run lifecycle_step.step_new_ticket lifecycle_step.step_new_attempt)
qed

lemma advance_step: "lifecycle_step db (advance f t key db)"
  unfolding advance_def by (rule lifecycle_step.step_advance) (rule prod.collapse [symmetric])

lemma walked_steps: "lifecycle_step\<^sup>*\<^sup>* allocated_db walked_db"
  unfolding walked_db_def by (meson advance_step rtranclp.rtrancl_into_rtrancl rtranclp.rtrancl_refl)

lemma walked_empty: "db_contexts walked_db = [] \<and> db_phases walked_db = [] \<and> db_evidence walked_db = []"
  by code_simp

lemma gated_reachable: "reachable_db gated_db"
proof -
  have "lifecycle_step walked_db gated_db"
    by (rule lifecycle_step.step_other) (simp add: gated_db_def other_tables_def walked_empty)
  then show ?thesis
    using allocated_reachable walked_steps unfolding reachable_db_def by (meson rtranclp.rtrancl_into_rtrancl rtranclp_trans)
qed

lemma sample_minted: "minted sample_commit"
  unfolding sample_commit_def by (rule minted.intros)

lemma sample_key_free: "transition_by_key AttemptEntity ''a'' ''c'' gated_db = None"
  by code_simp

lemma sample_commit_succeeds: "is_ok (snd (commitAuthorizedTransition sample_env sample_commit gated_db))"
  by code_simp

lemma is_ok_snd: "is_ok (snd x) \<Longrightarrow> \<exists>db r. x = (db, Inr r)"
  by (cases x) (auto simp: is_ok_iff)

lemma sample_committed: "\<exists>db r. commitAuthorizedTransition sample_env sample_commit gated_db = (db, Inr r)"
  by (rule is_ok_snd [OF sample_commit_succeeds])

lemma sample_commit_fields [simp]:
  "tc_entityKind sample_commit = AttemptEntity" "tc_entityId sample_commit = ''a''"
  "tc_idempotencyKey sample_commit = ''c''" "tc_expectedVersion sample_commit = 5"
  "tc_fromState sample_commit = Verifying" "tc_toState sample_commit = Converging"
  by (simp_all add: sample_commit_def commit_fields)

section \<open>Witnesses\<close>

lemma commit_moves_exactly_one_entity_witness:
  "\<exists>db r. commitAuthorizedTransition sample_env sample_commit gated_db = (db, Inr r)
     \<and> entity_snapshot AttemptEntity ''a'' db = Some (Converging, 6)
     \<and> entity_snapshot RunEntity ''r'' db = entity_snapshot RunEntity ''r'' gated_db"
proof -
  obtain db r where commit: "commitAuthorizedTransition sample_env sample_commit gated_db = (db, Inr r)"
    using sample_committed by blast
  with commit_moves_exactly_one_entity [OF gated_reachable commit] sample_key_free show ?thesis by auto
qed

text \<open>Another clock, and the attempt has gone on to cleanup.\<close>

lemma committed_transition_replays_forever_witness:
  "\<exists>db r. commitAuthorizedTransition sample_env sample_commit gated_db = (db, Inr r)
     \<and> commitAuthorizedTransition (sample_env\<lparr>env_clock := 60000\<rparr>) sample_commit
         (advance Converging CleanupPending ''k7'' db) = (advance Converging CleanupPending ''k7'' db, Inr r)"
proof -
  obtain db r where commit: "commitAuthorizedTransition sample_env sample_commit gated_db = (db, Inr r)"
    using sample_committed by blast
  with committed_transition_replays_forever [OF gated_reachable commit r_into_rtranclp [of lifecycle_step, OF advance_step]]
  show ?thesis by fastforce
qed

lemma sample_other_key_free:
  "transition_by_key AttemptEntity ''a'' ''z'' (fst (commitAuthorizedTransition sample_env sample_commit gated_db)) = None"
  by code_simp

lemma no_update_is_lost_witness:
  "\<exists>db r e. commitAuthorizedTransition sample_env sample_commit gated_db = (db, Inr r)
     \<and> commitAuthorizedTransition sample_env (sample_commit\<lparr>tc_idempotencyKey := ''z''\<rparr>) db = (db, Inl e)"
proof -
  obtain db r where commit: "commitAuthorizedTransition sample_env sample_commit gated_db = (db, Inr r)"
    using sample_committed by blast
  with no_update_is_lost [OF gated_reachable commit _ rtranclp.rtrancl_refl,
      of "sample_commit\<lparr>tc_idempotencyKey := ''z''\<rparr>" sample_env]
    sample_key_free sample_other_key_free show ?thesis by auto
qed

lemma gated_rows:
  "map (\<lambda>a. (row_id a, row_state a, row_version a)) (db_attempts gated_db) = [(''a'', Verifying, 5)]"
  by code_simp

lemma reachable_histories_witness:
  "chain Planned (history AttemptEntity ''a'' gated_db) Verifying \<and> length (history AttemptEntity ''a'' gated_db) = 5"
proof -
  obtain a where "a \<in> set (db_attempts gated_db)" "row_id a = ''a''" "row_state a = Verifying" "row_version a = 5"
    using gated_rows by (cases "db_attempts gated_db") auto
  with reachable_histories [OF gated_reachable] show ?thesis by (fastforce simp: Let_def)
qed

lemma operations_refine_history_machine_witness:
  "effect\<^sup>*\<^sup>* gated_db (advance Verifying Converging ''k6'' gated_db)"
  by (rule operations_refine_history_machine [OF gated_reachable advance_step])

lemma guarded_edges_rest_on_records_witness:
  "\<exists>db r. commitAuthorizedTransition sample_env sample_commit gated_db = (db, Inr r)
     \<and> (\<forall>g \<in> set (db_gates db). gt_attempt g = ''a'' \<longrightarrow> (\<forall>x \<in> set (db_contexts db). ctx_id x = gt_context g
          \<longrightarrow> gt_required g \<longrightarrow> gt_status g = Passed))"
proof -
  obtain db r where commit: "commitAuthorizedTransition sample_env sample_commit gated_db = (db, Inr r)"
    using sample_committed by blast
  with guarded_edges_rest_on_records [OF gated_reachable sample_minted commit] sample_key_free show ?thesis by simp blast
qed

lemma sample_cleanup: "is_ok (snd (advanceAttemptToCleanupPending sample_env ''a'' ''z'' gated_db))"
  by code_simp

lemma cleanup_boundary_refuses_replay_witness:
  "\<exists>db. advanceAttemptToCleanupPending sample_env ''a'' ''z'' gated_db = (db, Inr ())
     \<and> advanceAttemptToCleanupPending sample_env ''a'' ''z'' db = (db, Inl illegal)"
proof -
  obtain db x where ok: "advanceAttemptToCleanupPending sample_env ''a'' ''z'' gated_db = (db, Inr x)"
    using is_ok_snd [OF sample_cleanup] by blast
  with cleanup_boundary_refuses_replay [OF gated_reachable ok] show ?thesis by auto
qed

lemma sample_recovery: "is_ok (snd (recoverOrphanedPlannedAttempt sample_env ''a'' ''z'' allocated_db))"
  by code_simp

lemma allocated_planned: "map_option row_state (find_row (db_attempts allocated_db) ''a'') = Some Planned"
  by code_simp

lemma recovery_is_idempotent_witness:
  "\<exists>db x. recoverOrphanedPlannedAttempt sample_env ''a'' ''z'' allocated_db = (db, Inr x)
     \<and> recoverOrphanedPlannedAttempt sample_env ''a'' ''z'' db = (db, Inr x)
     \<and> length (history AttemptEntity ''a'' db) = 2"
proof -
  obtain db x where ok: "recoverOrphanedPlannedAttempt sample_env ''a'' ''z'' allocated_db = (db, Inr x)"
    using is_ok_snd [OF sample_recovery] by blast
  from recovery_is_idempotent [OF allocated_reachable this] allocated_planned
  have "recoverOrphanedPlannedAttempt sample_env ''a'' ''z'' db = (db, Inr x)"
    "length (map (\<lambda>t. (tx_from t, tx_to t)) (history AttemptEntity ''a'' db)) = 2" by simp_all
  with ok show ?thesis by simp
qed

end
