(* ===== verification/Lease_Tables.thy ===== *)
theory Lease_Tables
  imports State_Guards
begin

text \<open>
  The ownership aggregate of the state database: the constraints, indexes and triggers that
  migration 002 of \<open>orchestrator/src/state/migrations.ts\<close> puts on the tables
  \<open>attempt_ownership_leases\<close>, \<open>attempt_resource_claims\<close> and \<open>attempt_ownership_operations\<close>, the
  statements of \<open>orchestrator/src/state/store.ts\<close> that write them, and their rows as the objects the
  store seals.

  A statement that would leave a table violating one of its constraints fails. The \<open>json_valid\<close>
  checks of the text columns hold of the canonical texts the store writes and are left out.
\<close>

section \<open>Names\<close>

fun lease_state_text :: "lease_state \<Rightarrow> string" where
  "lease_state_text LReserved = ''reserved''"
| "lease_state_text LLive = ''live''"
| "lease_state_text LCleanupPending = ''cleanup_pending''"
| "lease_state_text LReleased = ''released''"
| "lease_state_text LQuarantined = ''quarantined''"

fun resource_state_text :: "resource_state \<Rightarrow> string" where
  "resource_state_text RReserved = ''reserved''"
| "resource_state_text RAllocated = ''allocated''"
| "resource_state_text RActive = ''active''"
| "resource_state_text RCleanupPending = ''cleanup_pending''"
| "resource_state_text RReleased = ''released''"
| "resource_state_text RQuarantined = ''quarantined''"

definition optional_text :: "string option \<Rightarrow> jsval" where
  "optional_text x = (case x of None \<Rightarrow> JNull | Some s \<Rightarrow> JStr s)"

section \<open>Leases\<close>

definition lease_is_current :: "ownership_row \<Rightarrow> bool" where
  "lease_is_current r = (ow_state r \<in> {LLive, LCleanupPending})"

definition lease_checks :: "ownership_row \<Rightarrow> bool" where
  "lease_checks r =
     (ow_id r \<noteq> '''' \<and> ow_attempt r \<noteq> '''' \<and> ow_generation r > 0
      \<and> is_digest (ow_token_digest r) \<and> is_digest (ow_context_digest r)
      \<and> utc_text (ow_heartbeat r) \<and> utc_text (ow_expires r) \<and> utc_text (ow_created r)
      \<and> ow_state r \<noteq> LReserved \<and> ow_version r \<ge> 0 \<and> ow_expires r > ow_heartbeat r
      \<and> (ow_generation r = 1 \<longleftrightarrow> ow_recovered_from r = None)
      \<and> (ow_state r = LLive \<longrightarrow> ow_recovered_from r = None))"

definition lease_table_ok :: "ownership_row list \<Rightarrow> bool" where
  "lease_table_ok rows =
     (list_all lease_checks rows \<and> distinct (map ow_id rows)
      \<and> distinct (map (\<lambda>r. (ow_attempt r, ow_generation r)) rows)
      \<and> distinct (map ow_context_digest rows)
      \<and> distinct (map ow_attempt (filter lease_is_current rows)))"

text \<open>The trigger \<open>attempt_ownership_leases_legal_edge\<close>.\<close>

definition ownership_legal_edge :: "lease_state \<Rightarrow> lease_state \<Rightarrow> bool" where
  "ownership_legal_edge old new =
     (old = LLive \<and> new \<in> {LCleanupPending, LQuarantined}
      \<or> old = LCleanupPending \<and> new \<in> {LReleased, LQuarantined})"

definition store_leases :: "ownership_row list \<Rightarrow> state_db \<Rightarrow> (store_error, state_db) result" where
  "store_leases rows db =
     (if lease_table_ok rows then Inr (db\<lparr>db_ownerships := rows\<rparr>) else Inl (Sql_Constraint False))"

definition insert_lease :: "ownership_row \<Rightarrow> state_db \<Rightarrow> (store_error, state_db) result" where
  "insert_lease r db =
     (if find_row (db_attempts db) (ow_attempt r) \<noteq> None
         \<and> (case ow_recovered_from r of None \<Rightarrow> True | Some i \<Rightarrow> i \<in> ow_id ` set (db_ownerships db))
      then store_leases (db_ownerships db @ [r]) db
      else Inl (Sql_Constraint False))"

text \<open>An \<open>UPDATE\<close> that advances the version; the second also sets the state, which the trigger checks.\<close>

definition touch_leases ::
  "(ownership_row \<Rightarrow> ownership_row) \<Rightarrow> (ownership_row \<Rightarrow> bool) \<Rightarrow> state_db \<Rightarrow> (store_error, state_db \<times> nat) result" where
  "touch_leases f P db =
     rbind (store_leases (map (\<lambda>r. if P r then (f r)\<lparr>ow_version := ow_version r + 1\<rparr> else r) (db_ownerships db)) db)
       (\<lambda>db'. Inr (db', length (filter P (db_ownerships db))))"

definition move_leases ::
  "lease_state \<Rightarrow> (ownership_row \<Rightarrow> bool) \<Rightarrow> state_db \<Rightarrow> (store_error, state_db \<times> nat) result" where
  "move_leases t P db =
     (if \<exists>r \<in> set (db_ownerships db). P r \<and> \<not> ownership_legal_edge (ow_state r) t then Inl (Sql_Constraint True)
      else touch_leases (\<lambda>r. r\<lparr>ow_state := t\<rparr>) P db)"

section \<open>Claims\<close>

definition claim_is_held :: "claim_row \<Rightarrow> bool" where
  "claim_is_held c = (cl_state c \<in> {RReserved, RAllocated, RActive, RCleanupPending})"

definition optional_digest :: "string option \<Rightarrow> bool" where
  "optional_digest x = (case x of None \<Rightarrow> True | Some d \<Rightarrow> is_digest d)"

definition claim_checks :: "claim_row \<Rightarrow> bool" where
  "claim_checks c =
     (cl_id c \<noteq> '''' \<and> cl_attempt c \<noteq> '''' \<and> cl_identity c \<noteq> '''' \<and> is_digest (cl_identity_digest c)
      \<and> cl_allocation c \<noteq> '''' \<and> cl_ownership c \<noteq> '''' \<and> cl_generation c > 0 \<and> cl_version c \<ge> 0
      \<and> optional_digest (cl_release_proof c) \<and> optional_digest (cl_quarantine_proof c)
      \<and> utc_text (cl_created c) \<and> cl_slot c = cl_kind c
      \<and> (cl_release_proof c \<noteq> None \<longleftrightarrow> cl_state c = RReleased)
      \<and> (cl_quarantine_proof c \<noteq> None \<longleftrightarrow> cl_state c = RQuarantined))"

definition claim_references :: "ownership_row list \<Rightarrow> claim_row \<Rightarrow> bool" where
  "claim_references leases c =
     ((\<exists>r \<in> set leases. ow_id r = cl_allocation c \<and> ow_attempt r = cl_attempt c)
      \<and> (\<exists>r \<in> set leases. ow_id r = cl_ownership c \<and> ow_attempt r = cl_attempt c \<and> ow_generation r = cl_generation c))"

definition claim_table_ok :: "ownership_row list \<Rightarrow> claim_row list \<Rightarrow> bool" where
  "claim_table_ok leases rows =
     (list_all claim_checks rows \<and> list_all (claim_references leases) rows
      \<and> distinct (map cl_id rows)
      \<and> distinct (map (\<lambda>c. (cl_attempt c, cl_slot c)) rows)
      \<and> distinct (map (\<lambda>c. (cl_kind c, cl_identity_digest c)) (filter claim_is_held rows)))"

text \<open>The trigger \<open>attempt_resource_claims_legal_edge\<close>.\<close>

definition claim_legal_edge :: "resource_state \<Rightarrow> resource_state \<Rightarrow> bool" where
  "claim_legal_edge old new =
     (old = RReserved \<and> new \<in> {RAllocated, RCleanupPending, RQuarantined}
      \<or> old = RAllocated \<and> new \<in> {RActive, RCleanupPending, RQuarantined}
      \<or> old = RActive \<and> new \<in> {RCleanupPending, RQuarantined}
      \<or> old = RCleanupPending \<and> new \<in> {RReleased, RQuarantined})"

definition store_claims :: "claim_row list \<Rightarrow> state_db \<Rightarrow> (store_error, state_db) result" where
  "store_claims rows db =
     (if claim_table_ok (db_ownerships db) rows then Inr (db\<lparr>db_claims := rows\<rparr>) else Inl (Sql_Constraint False))"

definition insert_claim :: "state_db \<Rightarrow> claim_row \<Rightarrow> (store_error, state_db) result" where
  "insert_claim db c =
     (if find_row (db_attempts db) (cl_attempt c) \<noteq> None then store_claims (db_claims db @ [c]) db
      else Inl (Sql_Constraint False))"

definition touch_claims ::
  "(claim_row \<Rightarrow> claim_row) \<Rightarrow> (claim_row \<Rightarrow> bool) \<Rightarrow> state_db \<Rightarrow> (store_error, state_db \<times> nat) result" where
  "touch_claims f P db =
     rbind (store_claims (map (\<lambda>c. if P c then (f c)\<lparr>cl_version := cl_version c + 1\<rparr> else c) (db_claims db)) db)
       (\<lambda>db'. Inr (db', length (filter P (db_claims db))))"

definition move_claims ::
  "resource_state \<Rightarrow> (claim_row \<Rightarrow> claim_row) \<Rightarrow> (claim_row \<Rightarrow> bool) \<Rightarrow> state_db
    \<Rightarrow> (store_error, state_db \<times> nat) result" where
  "move_claims t f P db =
     (if \<exists>c \<in> set (db_claims db). P c \<and> \<not> claim_legal_edge (cl_state c) t then Inl (Sql_Constraint True)
      else touch_claims (\<lambda>c. f (c\<lparr>cl_state := t\<rparr>)) P db)"

section \<open>Operations\<close>

definition operation_kinds :: "string list" where
  "operation_kinds =
     [''acquire'', ''heartbeat'', ''advance_resource'', ''begin_cleanup'', ''release_resource'',
      ''quarantine_resource'', ''release'', ''quarantine'', ''stale_recovery'']"

definition operation_checks :: "operation_row \<Rightarrow> bool" where
  "operation_checks o' =
     (op_id o' \<noteq> '''' \<and> op_ownership o' \<noteq> '''' \<and> op_attempt o' \<noteq> '''' \<and> op_kind o' \<in> set operation_kinds
      \<and> op_key o' \<noteq> '''' \<and> is_digest (op_input_digest o') \<and> is_digest (op_result_digest o')
      \<and> utc_text (op_created o'))"

definition insert_operation :: "operation_row \<Rightarrow> state_db \<Rightarrow> (store_error, state_db) result" where
  "insert_operation o' db =
     (if operation_checks o'
         \<and> \<not> (\<exists>q \<in> set (db_operations db). op_id q = op_id o'
               \<or> (op_attempt q = op_attempt o' \<and> op_key q = op_key o'))
         \<and> (\<exists>r \<in> set (db_ownerships db). ow_id r = op_ownership o' \<and> ow_attempt r = op_attempt o')
      then Inr (db\<lparr>db_operations := db_operations db @ [o']\<rparr>)
      else Inl (Sql_Constraint False))"

section \<open>Rows as objects\<close>

definition ownership_js :: "ownership_row \<Rightarrow> jsval" where
  "ownership_js r =
     JObj [(''ownership_id'', JStr (ow_id r)), (''attempt_id'', JStr (ow_attempt r)),
           (''generation'', JNum (ow_generation r)), (''owner_token_digest'', JStr (ow_token_digest r)),
           (''context_digest'', JStr (ow_context_digest r)), (''canonical_context_json'', JStr (ow_context_json r)),
           (''recovered_from_ownership_id'', optional_text (ow_recovered_from r)),
           (''heartbeat_at'', JStr (ow_heartbeat r)), (''expires_at'', JStr (ow_expires r)),
           (''state'', JStr (lease_state_text (ow_state r))), (''state_version'', JNum (ow_version r)),
           (''created_at'', JStr (ow_created r))]"

definition claim_js :: "claim_row \<Rightarrow> jsval" where
  "claim_js c =
     JObj [(''resource_claim_id'', JStr (cl_id c)), (''attempt_id'', JStr (cl_attempt c)),
           (''slot'', JStr (resource_kind_text (cl_slot c))), (''kind'', JStr (resource_kind_text (cl_kind c))),
           (''canonical_identity'', JStr (cl_identity c)), (''identity_digest'', JStr (cl_identity_digest c)),
           (''allocation_ownership_id'', JStr (cl_allocation c)),
           (''current_ownership_id'', JStr (cl_ownership c)), (''owner_generation'', JNum (cl_generation c)),
           (''state'', JStr (resource_state_text (cl_state c))), (''state_version'', JNum (cl_version c)),
           (''release_proof_digest'', optional_text (cl_release_proof c)),
           (''quarantine_proof_digest'', optional_text (cl_quarantine_proof c)),
           (''created_at'', JStr (cl_created c))]"

section \<open>Queries\<close>

definition find_lease :: "state_db \<Rightarrow> string \<Rightarrow> string \<Rightarrow> ownership_row option" where
  "find_lease db ownership i = find (\<lambda>r. ow_id r = ownership \<and> ow_attempt r = i) (db_ownerships db)"

definition find_claim :: "state_db \<Rightarrow> string \<Rightarrow> resource_kind \<Rightarrow> claim_row option" where
  "find_claim db i slot = find (\<lambda>c. cl_attempt c = i \<and> cl_slot c = slot) (db_claims db)"

definition find_operation :: "state_db \<Rightarrow> string \<Rightarrow> string \<Rightarrow> operation_row option" where
  "find_operation db i key = find (\<lambda>o'. op_attempt o' = i \<and> op_key o' = key) (db_operations db)"

end
