(* ===== verification/Lease_Store.thy ===== *)
theory Lease_Store
  imports Lease_Tables
begin

text \<open>
  The ownership operations of \<open>StateStore\<close> (\<open>orchestrator/src/state/store.ts\<close>): the command a lease
  authority mints, its canonical text, the admission of an acquisition, the compare-and-set checks,
  acquisition, heartbeat, resource advance, the begin of cleanup and the recovery of a stale owner,
  each recorded with its sealed result, and the replay of a recorded operation.
\<close>

section \<open>Commands\<close>

datatype ownership_kind =
    OpAcquire | OpAssertCurrent | OpAssertCleanupReady | OpRecordSalvage | OpHeartbeat | OpAdvanceResource
  | OpBeginCleanup | OpRelease | OpQuarantine | OpStaleRecovery

fun ownership_kind_text :: "ownership_kind \<Rightarrow> string" where
  "ownership_kind_text OpAcquire = ''acquire''"
| "ownership_kind_text OpAssertCurrent = ''assert_current''"
| "ownership_kind_text OpAssertCleanupReady = ''assert_cleanup_ready''"
| "ownership_kind_text OpRecordSalvage = ''record_salvage''"
| "ownership_kind_text OpHeartbeat = ''heartbeat''"
| "ownership_kind_text OpAdvanceResource = ''advance_resource''"
| "ownership_kind_text OpBeginCleanup = ''begin_cleanup''"
| "ownership_kind_text OpRelease = ''release''"
| "ownership_kind_text OpQuarantine = ''quarantine''"
| "ownership_kind_text OpStaleRecovery = ''stale_recovery''"

record AttemptResourceClaimPreimage =
  ap_resourceClaimId :: string
  ap_slot :: resource_kind
  ap_expectedState :: resource_state
  ap_expectedVersion :: int

text \<open>An absent field is \<open>None\<close>; the artifact fields can be present and \<open>null\<close>.\<close>

record AttemptOwnershipCommandPayload =
  oc_kind :: ownership_kind
  oc_repositoryId :: string
  oc_attemptId :: string
  oc_idempotencyKey :: string
  oc_ownerTokenDigest :: string
  oc_ttlMs :: int
  oc_ownershipId :: "string option"
  oc_expectedOwnershipState :: "lease_state option"
  oc_expectedOwnershipVersion :: "int option"
  oc_slot :: "resource_kind option"
  oc_expectedResourceState :: "resource_state option"
  oc_expectedResourceVersion :: "int option"
  oc_toResourceState :: "resource_state option"
  oc_cleanupProofDigest :: "string option"
  oc_cleanupResourcePreimages :: "AttemptResourceClaimPreimage list option"
  oc_processReceiptId :: "string option"
  oc_groupDeathEvidenceId :: "string option"
  oc_salvageRecordId :: "string option"
  oc_contextId :: "string option"
  oc_deliveryRef :: "string option"
  oc_deliveryObservedOid :: "string option"
  oc_expectedAttemptRefOid :: "string option"
  oc_salvageDisposition :: "string option"
  oc_salvageArtifactPath :: "string option option"
  oc_salvageArtifactDigest :: "string option option"
  oc_salvageArtifactSize :: "int option option"
  oc_salvageBaselineOid :: "string option"
  oc_salvageAttemptRef :: "string option"
  oc_salvageIndexDigest :: "string option"
  oc_evidenceId :: "string option"
  oc_createdAt :: "string option"
  oc_expiredOwnershipId :: "string option"
  oc_deathEvidenceId :: "string option"

definition preimage_js :: "AttemptResourceClaimPreimage \<Rightarrow> jsval" where
  "preimage_js p =
     JObj [(''resourceClaimId'', JStr (ap_resourceClaimId p)), (''slot'', JStr (resource_kind_text (ap_slot p))),
           (''expectedState'', JStr (resource_state_text (ap_expectedState p))),
           (''expectedVersion'', JNum (ap_expectedVersion p))]"

definition entry :: "string \<Rightarrow> ('a \<Rightarrow> jsval) \<Rightarrow> 'a option \<Rightarrow> (string \<times> jsval) list" where
  "entry key enc x = (case x of None \<Rightarrow> [] | Some v \<Rightarrow> [(key, enc v)])"

definition optional_int :: "int option \<Rightarrow> jsval" where
  "optional_int x = (case x of None \<Rightarrow> JNull | Some i \<Rightarrow> JNum i)"

text \<open>The defined entries of the payload under the schema version.\<close>

definition command_js :: "AttemptOwnershipCommandPayload \<Rightarrow> jsval" where
  "command_js p =
     JObj ([(''schema_version'', JStr ''rickgent.attempt-ownership-operation/v1''),
            (''kind'', JStr (ownership_kind_text (oc_kind p))),
            (''repositoryId'', JStr (oc_repositoryId p)),
            (''attemptId'', JStr (oc_attemptId p)),
            (''idempotencyKey'', JStr (oc_idempotencyKey p)),
            (''ownerTokenDigest'', JStr (oc_ownerTokenDigest p)),
            (''ttlMs'', JNum (oc_ttlMs p))]
       @ entry ''ownershipId'' JStr (oc_ownershipId p)
       @ entry ''expectedOwnershipState'' (\<lambda>s. JStr (lease_state_text s)) (oc_expectedOwnershipState p)
       @ entry ''expectedOwnershipVersion'' JNum (oc_expectedOwnershipVersion p)
       @ entry ''slot'' (\<lambda>k. JStr (resource_kind_text k)) (oc_slot p)
       @ entry ''expectedResourceState'' (\<lambda>s. JStr (resource_state_text s)) (oc_expectedResourceState p)
       @ entry ''expectedResourceVersion'' JNum (oc_expectedResourceVersion p)
       @ entry ''toResourceState'' (\<lambda>s. JStr (resource_state_text s)) (oc_toResourceState p)
       @ entry ''cleanupProofDigest'' JStr (oc_cleanupProofDigest p)
       @ entry ''cleanupResourcePreimages'' (\<lambda>ps. JArr (map preimage_js ps)) (oc_cleanupResourcePreimages p)
       @ entry ''processReceiptId'' JStr (oc_processReceiptId p)
       @ entry ''groupDeathEvidenceId'' JStr (oc_groupDeathEvidenceId p)
       @ entry ''salvageRecordId'' JStr (oc_salvageRecordId p)
       @ entry ''contextId'' JStr (oc_contextId p)
       @ entry ''deliveryRef'' JStr (oc_deliveryRef p)
       @ entry ''deliveryObservedOid'' JStr (oc_deliveryObservedOid p)
       @ entry ''expectedAttemptRefOid'' JStr (oc_expectedAttemptRefOid p)
       @ entry ''salvageDisposition'' JStr (oc_salvageDisposition p)
       @ entry ''salvageArtifactPath'' optional_text (oc_salvageArtifactPath p)
       @ entry ''salvageArtifactDigest'' optional_text (oc_salvageArtifactDigest p)
       @ entry ''salvageArtifactSize'' optional_int (oc_salvageArtifactSize p)
       @ entry ''salvageBaselineOid'' JStr (oc_salvageBaselineOid p)
       @ entry ''salvageAttemptRef'' JStr (oc_salvageAttemptRef p)
       @ entry ''salvageIndexDigest'' JStr (oc_salvageIndexDigest p)
       @ entry ''evidenceId'' JStr (oc_evidenceId p)
       @ entry ''createdAt'' JStr (oc_createdAt p)
       @ entry ''expiredOwnershipId'' JStr (oc_expiredOwnershipId p)
       @ entry ''deathEvidenceId'' JStr (oc_deathEvidenceId p))"

definition canonicalOwnershipCommand ::
  "store_env \<Rightarrow> AttemptOwnershipCommandPayload \<Rightarrow> (store_error, string) result" where
  "canonicalOwnershipCommand env p =
     (if oc_attemptId p = '''' \<or> oc_idempotencyKey p = '''' \<or> oc_idempotencyKey p \<noteq> trim (oc_idempotencyKey p)
      then Inl TypeErr
      else if \<not> is_digest (oc_ownerTokenDigest p) then Inl TypeErr
      else if oc_repositoryId p \<noteq> sl_repositoryId (env_location env) then Inl (StateErr OwnerMismatch)
      else if \<not> is_safe_int (oc_ttlMs p) \<or> oc_ttlMs p < 1000 \<or> oc_ttlMs p > 300000 then Inl TypeErr
      else canonical_text (command_js p))"

section \<open>Time\<close>

text \<open>\<open>new Date(text).getTime() <= Date.now()\<close>, false on an invalid date.\<close>

definition expired :: "store_env \<Rightarrow> string \<Rightarrow> bool" where
  "expired env text = (case date_ms env text of None \<Rightarrow> False | Some t \<Rightarrow> t \<le> env_clock env)"

text \<open>\<open>new Date(x).toISOString()\<close> of a computed instant; a \<open>NaN\<close> is a \<open>RangeError\<close>.\<close>

definition iso_of :: "int option \<Rightarrow> (store_error, string) result" where
  "iso_of x = (case x of None \<Rightarrow> Inl RangeErr | Some t \<Rightarrow> Inr (toISOString t))"

section \<open>Admission\<close>

definition ownership_join :: "store_env \<Rightarrow> state_db \<Rightarrow> string \<Rightarrow> (attempt_row \<times> ticket_row \<times> run_row) option" where
  "ownership_join env db i =
     Option.bind (find_row (db_attempts db) i) (\<lambda>a.
     Option.bind (find_row (db_tickets db) (at_ticket a)) (\<lambda>k.
     Option.bind (find_row (db_runs db) (at_run a)) (\<lambda>r.
     if run_repository r = sl_repositoryId (env_location env) then Some (a, k, r) else None)))"

definition attemptOwnershipAdmission ::
  "store_env \<Rightarrow> state_db \<Rightarrow> string \<Rightarrow> (store_error, AttemptWorkspacePlan) result" where
  "attemptOwnershipAdmission env db i =
     (case ownership_join env db i of
        None \<Rightarrow> Inl (StateErr OwnerMismatch)
      | Some (a, k, r) \<Rightarrow>
          if row_state r \<noteq> Active \<or> row_state k \<noteq> Active \<or> row_state a \<noteq> Planned then Inl illegal
          else if run_current_oid r \<noteq> at_baseline_oid a then Inl illegal
          else attemptOwnershipPlan env db i)"

text \<open>The nonterminal states before cleanup.\<close>

definition continuation_states :: "lifecycle_state list" where
  "continuation_states =
     [Planned, Implementing, ImplementationCaptured, Reviewing, Remediating, RemediationCaptured,
      VerificationQueued, Verifying, Converging]"

definition attemptOwnershipContinuation ::
  "store_env \<Rightarrow> state_db \<Rightarrow> string \<Rightarrow> (store_error, AttemptWorkspacePlan) result" where
  "attemptOwnershipContinuation env db i =
     (case ownership_join env db i of
        None \<Rightarrow> Inl illegal
      | Some (a, k, r) \<Rightarrow>
          if row_state r \<noteq> Active \<or> row_state k \<noteq> Active \<or> row_state a \<notin> set continuation_states then Inl illegal
          else if run_current_oid r \<noteq> at_baseline_oid a then Inl illegal
          else attemptOwnershipPlan env db i)"

section \<open>Identity and context of an ownership generation\<close>

definition ownership_schema :: string where
  "ownership_schema = ''rickgent.attempt-ownership/v1''"

definition resource_js :: "AttemptResourceIdentity \<Rightarrow> jsval" where
  "resource_js r =
     JObj [(''resource_claim_id'', JStr (ri_resourceClaimId r)), (''slot'', JStr (resource_kind_text (ri_slot r))),
           (''kind'', JStr (resource_kind_text (ri_kind r))), (''canonical_identity'', JStr (ri_canonicalIdentity r)),
           (''identity_digest'', JStr (ri_identityDigest r))]"

definition ownership_context_js :: "AttemptWorkspacePlan \<Rightarrow> int \<Rightarrow> string \<Rightarrow> string option \<Rightarrow> jsval" where
  "ownership_context_js plan generation token recovered =
     (let l = wp_lineage plan in
      JObj [(''schema_version'', JStr ownership_schema), (''repository_id'', JStr (ol_repositoryId l)),
            (''run_id'', JStr (ol_runId l)), (''ticket_instance_id'', JStr (ol_ticketInstanceId l)),
            (''ticket_id'', JStr (ol_ticketId l)), (''attempt_id'', JStr (ol_attemptId l)),
            (''attempt_number'', JNum (ol_attemptNumber l)), (''contract_digest'', JStr (ol_contractDigest l)),
            (''resource_identity_version'', JStr (ol_resourceIdentityVersion l)),
            (''delivery_baseline_oid'', JStr (ol_deliveryBaselineOid l)), (''delivery_ref'', JStr (ol_deliveryRef l)),
            (''allocation_digest'', JStr (wp_allocationDigest plan)), (''generation'', JNum generation),
            (''owner_token_digest'', JStr token), (''recovered_from_ownership_id'', optional_text recovered),
            (''resources'', JArr (map resource_js (wp_resources plan)))])"

definition ownershipContext ::
  "store_env \<Rightarrow> AttemptWorkspacePlan \<Rightarrow> int \<Rightarrow> string \<Rightarrow> string option \<Rightarrow> (store_error, string \<times> string) result" where
  "ownershipContext env plan generation token recovered =
     rbind (canonical_text (ownership_context_js plan generation token recovered)) (\<lambda>json.
     Inr (json, env_sha256 env json))"

definition ownershipIdentity :: "store_env \<Rightarrow> string \<Rightarrow> int \<Rightarrow> string \<Rightarrow> (store_error, string) result" where
  "ownershipIdentity env i generation token =
     rbind (canonical_text (JObj [(''schema_version'', JStr ownership_schema), (''attempt_id'', JStr i),
              (''generation'', JNum generation), (''owner_token_digest'', JStr token)])) (\<lambda>t.
     Inr (''ownership-'' @ drop 7 (env_sha256 env t)))"

section \<open>Results\<close>

datatype ownership_purpose = Execution | RecoveryCleanup

fun purpose_text :: "ownership_purpose \<Rightarrow> string" where
  "purpose_text Execution = ''execution''"
| "purpose_text RecoveryCleanup = ''recovery_cleanup''"

definition purpose_of :: "ownership_row \<Rightarrow> ownership_purpose" where
  "purpose_of r = (if ow_recovered_from r = None then Execution else RecoveryCleanup)"

text \<open>The rows of a result are the objects the database or the parsed seal gives.\<close>

record AttemptOwnershipStoreResult =
  sr_replayed :: bool
  sr_purpose :: ownership_purpose
  sr_plan :: AttemptWorkspacePlan
  sr_ownership :: jsval
  sr_resources :: "jsval list"
  sr_currentOwnership :: jsval
  sr_currentResources :: "jsval list"

definition attemptOwnershipResult ::
  "string \<Rightarrow> string \<Rightarrow> ownership_purpose \<Rightarrow> bool \<Rightarrow> AttemptWorkspacePlan \<Rightarrow> state_db
    \<Rightarrow> (store_error, AttemptOwnershipStoreResult) result" where
  "attemptOwnershipResult i ownership purpose replayed plan db =
     (case find_lease db ownership i of
        None \<Rightarrow> Inl (StateErr StateCorrupt)
      | Some r \<Rightarrow>
          let resources = map claim_js (current_claims db i) in
          Inr \<lparr>sr_replayed = replayed, sr_purpose = purpose, sr_plan = plan,
               sr_ownership = ownership_js r, sr_resources = resources,
               sr_currentOwnership = ownership_js r, sr_currentResources = resources\<rparr>)"

definition sealed_js :: "ownership_purpose \<Rightarrow> ownership_row \<Rightarrow> claim_row list \<Rightarrow> jsval" where
  "sealed_js purpose r claims =
     JObj [(''schema_version'', JStr ''rickgent.attempt-ownership-operation-result/v1''),
           (''purpose'', JStr (purpose_text purpose)), (''ownership_id'', JStr (ow_id r)),
           (''ownership'', ownership_js r), (''resources'', JArr (map claim_js claims))]"

definition operation_identity_js :: "string \<Rightarrow> string \<Rightarrow> string \<Rightarrow> jsval" where
  "operation_identity_js i key inputDigest =
     JObj [(''attempt_id'', JStr i), (''idempotency_key'', JStr key), (''input_digest'', JStr inputDigest)]"

definition recordOwnershipOperation ::
  "store_env \<Rightarrow> AttemptOwnershipCommandPayload \<Rightarrow> string \<Rightarrow> ownership_purpose \<Rightarrow> AttemptWorkspacePlan \<Rightarrow> string \<Rightarrow> string
    \<Rightarrow> state_db \<Rightarrow> (store_error, state_db \<times> AttemptOwnershipStoreResult) result" where
  "recordOwnershipOperation env p ownership purpose plan canonicalInput inputDigest db =
     (let i = oc_attemptId p; key = oc_idempotencyKey p in
      case find_lease db ownership i of
        None \<Rightarrow> Inl (StateErr StateCorrupt)
      | Some r \<Rightarrow>
          rbind (canonical_text (sealed_js purpose r (current_claims db i))) (\<lambda>resultJson.
          rbind (canonical_text (operation_identity_js i key inputDigest)) (\<lambda>identity.
          rbind (insert_operation
            \<lparr>op_id = ''ownership-operation-'' @ drop 7 (env_sha256 env identity), op_ownership = ownership,
             op_attempt = i, op_kind = ownership_kind_text (oc_kind p), op_key = key,
             op_input_digest = inputDigest, op_input_json = canonicalInput,
             op_result_digest = env_sha256 env resultJson, op_result_json = resultJson,
             op_created = env_now env\<rparr> db) (\<lambda>db'.
          rbind (attemptOwnershipResult i ownership purpose False plan db') (\<lambda>result. Inr (db', result))))))"

section \<open>Replay\<close>

definition corrupt :: store_error where
  "corrupt = StateErr StateCorrupt"

text \<open>\<open>#parseJsonObject\<close>\<close>

definition parseJsonObject :: "store_env \<Rightarrow> string \<Rightarrow> (store_error, jsval) result" where
  "parseJsonObject env text =
     (case parse_json env text of
        None \<Rightarrow> Inl SyntaxErr
      | Some v \<Rightarrow> if is_plain_object v then Inr v else Inl TypeErr)"

definition sql_value :: "jsval \<Rightarrow> bool" where
  "sql_value v = (case v of JNull \<Rightarrow> True | JStr _ \<Rightarrow> True | JNum _ \<Rightarrow> True | JReal _ \<Rightarrow> True | _ \<Rightarrow> False)"

definition ownershipOperationRow :: "jsval \<Rightarrow> (store_error, jsval) result" where
  "ownershipOperationRow v =
     (case v of
        JObj kvs \<Rightarrow> if list_all (\<lambda>kv. sql_value (snd kv)) kvs then Inr v else Inl corrupt
      | _ \<Rightarrow> Inl corrupt)"

text \<open>\<open>sameValue\<close> on the columns both rows have.\<close>

definition same_columns :: "string list \<Rightarrow> jsval \<Rightarrow> jsval \<Rightarrow> bool" where
  "same_columns columns a b = list_all (\<lambda>k. strict_eq (get_prop a k) (get_prop b k)) columns"

text \<open>\<open>Number(a) < Number(b)\<close> on version columns; other values of the sealed text are not numbers.\<close>

definition js_less :: "jsval \<Rightarrow> jsval \<Rightarrow> bool" where
  "js_less a b = (case (a, b) of (JNum i, JNum j) \<Rightarrow> i < j | _ \<Rightarrow> False)"

definition lease_columns :: "string list" where
  "lease_columns =
     [''ownership_id'', ''attempt_id'', ''generation'', ''owner_token_digest'', ''context_digest'',
      ''canonical_context_json'', ''recovered_from_ownership_id'', ''created_at'']"

definition claim_columns :: "string list" where
  "claim_columns =
     [''resource_claim_id'', ''attempt_id'', ''slot'', ''kind'', ''canonical_identity'',
      ''identity_digest'', ''allocation_ownership_id'', ''created_at'']"

definition planned_claim :: "string \<Rightarrow> AttemptWorkspacePlan \<Rightarrow> jsval \<Rightarrow> bool" where
  "planned_claim i plan resource =
     (case find (\<lambda>r. JStr (ri_resourceClaimId r) = get_prop resource ''resource_claim_id'') (rev (wp_resources plan)) of
        None \<Rightarrow> False
      | Some r \<Rightarrow>
          get_prop resource ''attempt_id'' = JStr i
          \<and> get_prop resource ''slot'' = JStr (resource_kind_text (ri_slot r))
          \<and> get_prop resource ''kind'' = JStr (resource_kind_text (ri_kind r))
          \<and> get_prop resource ''canonical_identity'' = JStr (ri_canonicalIdentity r)
          \<and> get_prop resource ''identity_digest'' = JStr (ri_identityDigest r))"

definition claim_follows :: "claim_row list \<Rightarrow> jsval \<Rightarrow> (store_error, unit) result" where
  "claim_follows claims committed =
     (case find (\<lambda>c. JStr (cl_id c) = get_prop committed ''resource_claim_id'') claims of
        None \<Rightarrow> Inl corrupt
      | Some c \<Rightarrow>
          ensure_that (\<not> js_less (get_prop (claim_js c) ''state_version'') (get_prop committed ''state_version'')
            \<and> same_columns claim_columns (claim_js c) committed) corrupt)"

definition sealed_envelope :: "jsval \<Rightarrow> string \<Rightarrow> (store_error, ownership_purpose \<times> jsval list) result" where
  "sealed_envelope sealed ownership =
     (if get_prop sealed ''schema_version'' \<noteq> JStr ''rickgent.attempt-ownership-operation-result/v1''
         \<or> get_prop sealed ''ownership_id'' \<noteq> JStr ownership
      then Inl corrupt
      else
        case (get_prop sealed ''purpose'', get_prop sealed ''resources'') of
          (JStr s, JArr vs) \<Rightarrow>
            (if s = ''execution'' then Inr (Execution, vs)
             else if s = ''recovery_cleanup'' then Inr (RecoveryCleanup, vs) else Inl corrupt)
        | _ \<Rightarrow> Inl corrupt)"

definition replayAttemptOwnershipResult ::
  "store_env \<Rightarrow> string \<Rightarrow> operation_row \<Rightarrow> state_db \<Rightarrow> (store_error, AttemptOwnershipStoreResult) result" where
  "replayAttemptOwnershipResult env i operation db =
     (let ownership = op_ownership operation in
      if env_sha256 env (op_result_json operation) \<noteq> op_result_digest operation then Inl corrupt
      else
        rbind (parseJsonObject env (op_result_json operation)) (\<lambda>sealed.
        rbind (sealed_envelope sealed ownership) (\<lambda>(purpose, vs).
        rbind (ownershipOperationRow (get_prop sealed ''ownership'')) (\<lambda>committed.
        rbind (traverse ownershipOperationRow vs) (\<lambda>resources.
        rbind (attemptOwnershipPlan env db i) (\<lambda>plan.
        if get_prop committed ''ownership_id'' \<noteq> JStr ownership \<or> get_prop committed ''attempt_id'' \<noteq> JStr i
        then Inl corrupt
        else if length resources \<noteq> length (remdups (map ri_resourceClaimId (wp_resources plan)))
                \<or> \<not> list_all (planned_claim i plan) resources
        then Inl corrupt
        else
          case find_lease db ownership i of
            None \<Rightarrow> Inl corrupt
          | Some r \<Rightarrow>
              if js_less (JNum (ow_version r)) (get_prop committed ''state_version'') then Inl corrupt
              else if \<not> same_columns lease_columns (ownership_js r) committed then Inl corrupt
              else
                rbind (check_all (claim_follows (current_claims db i)) resources) (\<lambda>_.
                Inr \<lparr>sr_replayed = True, sr_purpose = purpose, sr_plan = plan,
                     sr_ownership = committed, sr_resources = resources,
                     sr_currentOwnership = ownership_js r,
                     sr_currentResources = map claim_js (current_claims db i)\<rparr>)))))))"

section \<open>Acquisition\<close>

text \<open>A loop of inserts.\<close>

fun insert_claims :: "state_db \<Rightarrow> claim_row list \<Rightarrow> (store_error, state_db) result" where
  "insert_claims db [] = Inr db"
| "insert_claims db (c # cs) = rbind (insert_claim db c) (\<lambda>db'. insert_claims db' cs)"

definition reserved_claim :: "string \<Rightarrow> string \<Rightarrow> int \<Rightarrow> string \<Rightarrow> AttemptResourceIdentity \<Rightarrow> claim_row" where
  "reserved_claim i ownership generation created r =
     \<lparr>cl_id = ri_resourceClaimId r, cl_attempt = i, cl_slot = ri_slot r, cl_kind = ri_kind r,
      cl_identity = ri_canonicalIdentity r, cl_identity_digest = ri_identityDigest r,
      cl_allocation = ownership, cl_ownership = ownership, cl_generation = generation,
      cl_state = RReserved, cl_version = 0, cl_release_proof = None, cl_quarantine_proof = None,
      cl_created = created\<rparr>"

definition acquireAttemptOwnership ::
  "store_env \<Rightarrow> AttemptOwnershipCommandPayload \<Rightarrow> string \<Rightarrow> string \<Rightarrow> state_db
    \<Rightarrow> (store_error, state_db \<times> AttemptOwnershipStoreResult) result" where
  "acquireAttemptOwnership env p canonicalInput inputDigest db =
     (let i = oc_attemptId p; token = oc_ownerTokenDigest p; generation = 1 in
      rbind (attemptOwnershipAdmission env db i) (\<lambda>plan.
      if \<exists>r \<in> set (db_ownerships db). ow_attempt r = i then Inl (StateErr StateConflict)
      else
        rbind (ownershipIdentity env i generation token) (\<lambda>ownership.
        rbind (ownershipContext env plan generation token None) (\<lambda>(json, digest).
        let heartbeatAt = env_now env in
        rbind (iso_of (map_option (\<lambda>t. t + oc_ttlMs p) (date_ms env heartbeatAt))) (\<lambda>expiresAt.
        rbind (insert_lease
          \<lparr>ow_id = ownership, ow_attempt = i, ow_generation = generation, ow_token_digest = token,
           ow_context_digest = digest, ow_context_json = json, ow_recovered_from = None,
           ow_heartbeat = heartbeatAt, ow_expires = expiresAt, ow_state = LLive, ow_version = 0,
           ow_created = heartbeatAt\<rparr> db) (\<lambda>db1.
        rbind (insert_claims db1 (map (reserved_claim i ownership generation heartbeatAt) (wp_resources plan))) (\<lambda>db2.
        recordOwnershipOperation env p ownership Execution plan canonicalInput inputDigest db2)))))))"

section \<open>The current owner\<close>

definition requireCurrentOwnership ::
  "AttemptOwnershipCommandPayload \<Rightarrow> state_db \<Rightarrow> (store_error, ownership_row) result" where
  "requireCurrentOwnership p db =
     (case oc_ownershipId p of
        None \<Rightarrow> Inl TypeErr
      | Some ownership \<Rightarrow>
          (case find_lease db ownership (oc_attemptId p) of
             None \<Rightarrow> Inl (StateErr OwnerMismatch)
           | Some r \<Rightarrow>
               if ow_token_digest r \<noteq> oc_ownerTokenDigest p then Inl (StateErr OwnerMismatch) else Inr r))"

definition requireOwnershipPreimage ::
  "AttemptOwnershipCommandPayload \<Rightarrow> ownership_row \<Rightarrow> (store_error, unit) result" where
  "requireOwnershipPreimage p r =
     ensure_that (oc_expectedOwnershipState p = Some (ow_state r) \<and> oc_expectedOwnershipVersion p = Some (ow_version r))
       (StateErr StateConflict)"

definition assertCurrentAttemptOwnership ::
  "store_env \<Rightarrow> AttemptOwnershipCommandPayload \<Rightarrow> state_db \<Rightarrow> (store_error, AttemptOwnershipStoreResult) result" where
  "assertCurrentAttemptOwnership env p db =
     (let i = oc_attemptId p in
      rbind (requireCurrentOwnership p db) (\<lambda>r.
      let cleanupPending = (ow_state r = LCleanupPending) in
      if expired env (ow_expires r) then Inl (StateErr OwnerMismatch)
      else if \<not> cleanupPending \<and> (ow_state r \<noteq> LLive \<or> ow_recovered_from r \<noteq> None)
      then Inl (StateErr OwnerMismatch)
      else
        rbind (if cleanupPending then attemptOwnershipPlan env db i
               else attemptOwnershipContinuation env db i) (\<lambda>plan.
        let claims = current_claims db i in
        if length claims \<noteq> length (wp_resources plan)
           \<or> (\<exists>c \<in> set claims. cl_ownership c \<noteq> ow_id r \<or> cl_generation c \<noteq> ow_generation r
                \<or> (if cleanupPending then cl_state c \<noteq> RCleanupPending
                   else cl_state c \<notin> {RReserved, RAllocated, RActive}))
        then Inl (StateErr OwnerMismatch)
        else attemptOwnershipResult i (ow_id r) (purpose_of r) False plan db)))"

section \<open>Heartbeat\<close>

definition heartbeatAttemptOwnership ::
  "store_env \<Rightarrow> AttemptOwnershipCommandPayload \<Rightarrow> string \<Rightarrow> string \<Rightarrow> state_db
    \<Rightarrow> (store_error, state_db \<times> AttemptOwnershipStoreResult) result" where
  "heartbeatAttemptOwnership env p canonicalInput inputDigest db =
     rbind (requireCurrentOwnership p db) (\<lambda>r.
     rbind (requireOwnershipPreimage p r) (\<lambda>_.
     if ow_state r \<noteq> LLive \<or> ow_recovered_from r \<noteq> None then Inl illegal
     else if expired env (ow_expires r) then Inl (StateErr OwnerMismatch)
     else
       let heartbeatMs = map_option (\<lambda>t. max (env_clock env) (t + 1)) (date_ms env (ow_heartbeat r)) in
       rbind (iso_of heartbeatMs) (\<lambda>heartbeatAt.
       rbind (iso_of (map_option (\<lambda>t. t + oc_ttlMs p) heartbeatMs)) (\<lambda>expiresAt.
       rbind (touch_leases (\<lambda>x. x\<lparr>ow_heartbeat := heartbeatAt, ow_expires := expiresAt\<rparr>)
                (\<lambda>x. ow_id x = ow_id r \<and> ow_token_digest x = oc_ownerTokenDigest p \<and> ow_state x = LLive
                   \<and> ow_version x = ow_version r) db) (\<lambda>(db1, changes).
       if changes \<noteq> 1 then Inl (StateErr StateConflict)
       else
         rbind (attemptOwnershipPlan env db1 (oc_attemptId p)) (\<lambda>plan.
         recordOwnershipOperation env p (ow_id r) Execution plan canonicalInput inputDigest db1))))))"

section \<open>Resource advance\<close>

definition advanceAttemptResourceClaim ::
  "store_env \<Rightarrow> AttemptOwnershipCommandPayload \<Rightarrow> string \<Rightarrow> string \<Rightarrow> state_db
    \<Rightarrow> (store_error, state_db \<times> AttemptOwnershipStoreResult) result" where
  "advanceAttemptResourceClaim env p canonicalInput inputDigest db =
     rbind (requireCurrentOwnership p db) (\<lambda>r.
     case (oc_slot p, oc_expectedResourceState p, oc_expectedResourceVersion p, oc_toResourceState p) of
       (Some slot, Some expectedState, Some expectedVersion, Some t) \<Rightarrow>
         (case find_claim db (oc_attemptId p) slot of
            None \<Rightarrow> Inl (StateErr OwnerMismatch)
          | Some c \<Rightarrow>
              if cl_ownership c \<noteq> ow_id r \<or> cl_generation c \<noteq> ow_generation r then Inl (StateErr OwnerMismatch)
              else if cl_state c \<noteq> expectedState \<or> cl_version c \<noteq> expectedVersion then Inl (StateErr StateConflict)
              else if (cl_state c, t) \<notin> {(RReserved, RAllocated), (RAllocated, RActive)} then Inl illegal
              else if t \<in> {RAllocated, RActive}
                      \<and> (ow_state r \<noteq> LLive \<or> ow_recovered_from r \<noteq> None \<or> expired env (ow_expires r))
              then Inl (StateErr OwnerMismatch)
              else
                rbind (move_claims t (\<lambda>x. x\<lparr>cl_release_proof := None, cl_quarantine_proof := None\<rparr>)
                         (\<lambda>x. cl_id x = cl_id c \<and> cl_ownership x = ow_id r \<and> cl_generation x = ow_generation r
                            \<and> cl_state x = cl_state c \<and> cl_version x = expectedVersion) db) (\<lambda>(db1, changes).
                if changes \<noteq> 1 then Inl (StateErr StateConflict)
                else
                  rbind (attemptOwnershipPlan env db1 (oc_attemptId p)) (\<lambda>plan.
                  recordOwnershipOperation env p (ow_id r) (purpose_of r) plan canonicalInput inputDigest db1)))
     | _ \<Rightarrow> Inl TypeErr)"

section \<open>The begin of cleanup\<close>

definition working_claim :: "string \<Rightarrow> string \<Rightarrow> claim_row \<Rightarrow> bool" where
  "working_claim i ownership c =
     (cl_attempt c = i \<and> cl_ownership c = ownership \<and> cl_state c \<in> {RReserved, RAllocated, RActive})"

definition beginAttemptOwnershipCleanup ::
  "store_env \<Rightarrow> AttemptOwnershipCommandPayload \<Rightarrow> string \<Rightarrow> string \<Rightarrow> state_db
    \<Rightarrow> (store_error, state_db \<times> AttemptOwnershipStoreResult) result" where
  "beginAttemptOwnershipCleanup env p canonicalInput inputDigest db =
     rbind (requireCurrentOwnership p db) (\<lambda>r.
     rbind (requireOwnershipPreimage p r) (\<lambda>_.
     if ow_state r \<noteq> LLive then Inl illegal
     else
       rbind (move_claims RCleanupPending (\<lambda>x. x) (working_claim (oc_attemptId p) (ow_id r)) db) (\<lambda>(db1, _).
       rbind (move_leases LCleanupPending
                (\<lambda>x. ow_id x = ow_id r \<and> ow_token_digest x = oc_ownerTokenDigest p \<and> ow_state x = LLive
                   \<and> ow_version x = ow_version r) db1) (\<lambda>(db2, changes).
       if changes \<noteq> 1 then Inl (StateErr StateConflict)
       else
         rbind (attemptOwnershipPlan env db2 (oc_attemptId p)) (\<lambda>plan.
         recordOwnershipOperation env p (ow_id r) (purpose_of r) plan canonicalInput inputDigest db2)))))"

end
