(* ===== verification/Process_Store.thy ===== *)
theory Process_Store
  imports Lease_Tables
begin

text \<open>
  The durable process records of the state store: the launch of a supervised process under a live
  ownership (\<open>#commitProcessLaunch\<close>), which also activates the claims of its process group and its two
  output files, and the terminal receipt that seals the ordered chain of observations
  (\<open>#commitProcessTerminal\<close>), with the tables of migration 003 of
  \<open>orchestrator/src/state/migrations.ts\<close>. Commands are minted by the process supervisor only.

  The table of repositories is not modelled, nor the foreign keys into it.
\<close>

section \<open>Requests\<close>

record ProcessResourceVersions =
  pv_process_group :: int
  pv_stdout :: int
  pv_stderr :: int

record ProcessLaunchCommitRequest =
  pl_launchId :: string
  pl_processReceiptId :: string
  pl_repositoryId :: string
  pl_attemptId :: string
  pl_ownershipId :: string
  pl_ownerGeneration :: int
  pl_ownershipContextDigest :: string
  pl_phaseExecutionId :: string
  pl_contextId :: string
  pl_executionContextDigest :: string
  pl_spawnAuthorizationDigest :: string
  pl_pid :: int
  pl_pgid :: int
  pl_platform :: string
  pl_bootIdentity :: string
  pl_processStartIdentity :: string
  pl_argvDigest :: string
  pl_environmentDigest :: string
  pl_stdoutPath :: string
  pl_stderrPath :: string
  pl_outputLimitBytes :: int
  pl_tailLimitBytes :: int
  pl_launchEvidenceId :: string
  pl_launchEvidencePayload :: jsval
  pl_expectedResourceVersions :: ProcessResourceVersions
  pl_createdAt :: string

record ProcessTerminalObservationRequest =
  po_observationId :: string
  po_sequenceNumber :: int
  po_kind :: string
  po_evidenceId :: string
  po_schemaVersion :: string
  po_payload :: jsval
  po_createdAt :: string

record ProcessTerminalCommitRequest =
  pt_launchId :: string
  pt_processReceiptId :: string
  pt_outcome :: string
  pt_exitCode :: "int option"
  pt_signal :: "string option"
  pt_timedOut :: bool
  pt_groupDead :: bool
  pt_descendantsConfirmedDead :: bool
  pt_observations :: "ProcessTerminalObservationRequest list"
  pt_resultDigest :: string
  pt_createdAt :: string

section \<open>Checks of the requests\<close>

definition process_identity :: "string \<Rightarrow> bool" where
  "process_identity s = (s \<noteq> '''' \<and> s = trim s)"

definition process_timestamp :: "store_env \<Rightarrow> string \<Rightarrow> bool" where
  "process_timestamp env s = (utc_text s \<and> date_ms env s \<noteq> None)"

definition ProcessSupervisor :: service where
  "ProcessSupervisor = OtherService ''ProcessSupervisor''"

text \<open>The argument of \<open>#processEvidenceRow\<close>.\<close>

record process_evidence_input =
  pe_evidenceId :: string
  pe_attemptId :: string
  pe_phaseExecutionId :: string
  pe_contextId :: string
  pe_scope :: string
  pe_schemaVersion :: string
  pe_payloadJson :: string
  pe_idempotencyKey :: string
  pe_createdAt :: string

definition process_evidence_row :: "store_env \<Rightarrow> process_evidence_input \<Rightarrow> evidence_row" where
  "process_evidence_row env x =
     \<lparr>ev_id = pe_evidenceId x, ev_attempt = Some (pe_attemptId x), ev_phase = Some (pe_phaseExecutionId x),
      ev_context = pe_contextId x, ev_producer = ProcessSupervisor, ev_scope = pe_scope x,
      ev_schema = pe_schemaVersion x, ev_digest = env_sha256 env (pe_payloadJson x),
      ev_payload = Some (pe_payloadJson x), ev_external = None, ev_key = pe_idempotencyKey x,
      ev_created = pe_createdAt x\<rparr>"

definition requireExactProcessEvidence :: "evidence_row \<Rightarrow> state_db \<Rightarrow> (store_error, unit) result" where
  "requireExactProcessEvidence expected db =
     ensure_that (find (\<lambda>e. ev_id e = ev_id expected) (db_evidence db) = Some expected)
       (StateErr IdempotencyConflict)"

text \<open>\<open>#validateRecordSemantics("evidence", row)\<close>: the inline payload is canonical and hashed.\<close>

definition validate_evidence_row :: "store_env \<Rightarrow> evidence_row \<Rightarrow> (store_error, unit) result" where
  "validate_evidence_row env e =
     (case ev_payload e of
        Some t \<Rightarrow>
          (case parse_json env t of
             None \<Rightarrow> Inl TypeErr
           | Some v \<Rightarrow>
               rbind (canonical_text v) (\<lambda>t'.
               ensure_that (t' = t \<and> env_sha256 env t = ev_digest e) TypeErr))
      | None \<Rightarrow>
          ensure_that (case ev_external e of Some (_, d, _) \<Rightarrow> d = ev_digest e | None \<Rightarrow> False) TypeErr)"

definition check_launch :: "store_env \<Rightarrow> ProcessLaunchCommitRequest \<Rightarrow> (store_error, unit) result" where
  "check_launch env q =
     (let v = pl_expectedResourceVersions q in
      if \<not> list_all process_identity
             [pl_launchId q, pl_processReceiptId q, pl_repositoryId q, pl_attemptId q, pl_ownershipId q,
              pl_phaseExecutionId q, pl_contextId q, pl_platform q, pl_bootIdentity q,
              pl_processStartIdentity q, pl_stdoutPath q, pl_stderrPath q, pl_launchEvidenceId q]
         \<or> \<not> list_all is_digest
             [pl_ownershipContextDigest q, pl_executionContextDigest q, pl_spawnAuthorizationDigest q,
              pl_argvDigest q, pl_environmentDigest q]
         \<or> \<not> process_timestamp env (pl_createdAt q)
         \<or> \<not> is_safe_int (pl_ownerGeneration q) \<or> pl_ownerGeneration q < 1
         \<or> \<not> is_safe_int (pl_pid q) \<or> pl_pid q < 1 \<or> \<not> is_safe_int (pl_pgid q) \<or> pl_pgid q < 1
         \<or> \<not> is_safe_int (pl_outputLimitBytes q) \<or> pl_outputLimitBytes q < 1
         \<or> \<not> is_safe_int (pl_tailLimitBytes q) \<or> pl_tailLimitBytes q < 1
         \<or> pl_tailLimitBytes q > pl_outputLimitBytes q
         \<or> (\<exists>n \<in> set [pv_process_group v, pv_stdout v, pv_stderr v]. \<not> is_safe_int n \<or> n < 0)
      then Inl TypeErr
      else ensure_that (pl_repositoryId q = sl_repositoryId (env_location env)) (StateErr OwnerMismatch))"

section \<open>Launch rows\<close>

definition launch_row_of :: "ProcessLaunchCommitRequest \<Rightarrow> launch_row" where
  "launch_row_of q =
     \<lparr>ln_id = pl_launchId q, ln_receipt = pl_processReceiptId q, ln_repository = pl_repositoryId q,
      ln_attempt = pl_attemptId q, ln_ownership = pl_ownershipId q, ln_generation = pl_ownerGeneration q,
      ln_ownership_digest = pl_ownershipContextDigest q, ln_phase = pl_phaseExecutionId q,
      ln_context = pl_contextId q, ln_context_digest = pl_executionContextDigest q,
      ln_spawn_digest = pl_spawnAuthorizationDigest q, ln_pid = pl_pid q, ln_pgid = pl_pgid q,
      ln_platform = pl_platform q, ln_boot = pl_bootIdentity q, ln_start = pl_processStartIdentity q,
      ln_argv_digest = pl_argvDigest q, ln_environment_digest = pl_environmentDigest q,
      ln_stdout = pl_stdoutPath q, ln_stderr = pl_stderrPath q,
      ln_output_limit = pl_outputLimitBytes q, ln_tail_limit = pl_tailLimitBytes q,
      ln_group_version = pv_process_group (pl_expectedResourceVersions q),
      ln_stdout_version = pv_stdout (pl_expectedResourceVersions q),
      ln_stderr_version = pv_stderr (pl_expectedResourceVersions q),
      ln_evidence = pl_launchEvidenceId q, ln_created = pl_createdAt q\<rparr>"

text \<open>The identity columns of a launch that its evidence payloads repeat.\<close>

definition lineage_members :: "launch_row \<Rightarrow> (string \<times> jsval) list" where
  "lineage_members l =
     [(''launch_id'', JStr (ln_id l)), (''process_receipt_id'', JStr (ln_receipt l)),
      (''attempt_id'', JStr (ln_attempt l)), (''ownership_id'', JStr (ln_ownership l)),
      (''owner_generation'', JNum (ln_generation l)),
      (''ownership_context_digest'', JStr (ln_ownership_digest l)),
      (''phase_execution_id'', JStr (ln_phase l)), (''context_id'', JStr (ln_context l)),
      (''execution_context_digest'', JStr (ln_context_digest l)),
      (''pid'', JNum (ln_pid l)), (''pgid'', JNum (ln_pgid l)), (''platform'', JStr (ln_platform l)),
      (''boot_identity'', JStr (ln_boot l)), (''process_start_identity'', JStr (ln_start l))]"

definition launch_payload_js :: "launch_row \<Rightarrow> jsval" where
  "launch_payload_js l =
     JObj ((''schema_version'', JStr ''rickgent.process-launch.v1'') # lineage_members l
       @ [(''repository_id'', JStr (ln_repository l)),
          (''spawn_authorization_digest'', JStr (ln_spawn_digest l)),
          (''argv_digest'', JStr (ln_argv_digest l)), (''environment_digest'', JStr (ln_environment_digest l)),
          (''stdout_path'', JStr (ln_stdout l)), (''stderr_path'', JStr (ln_stderr l)),
          (''output_limit_bytes'', JNum (ln_output_limit l)), (''tail_limit_bytes'', JNum (ln_tail_limit l)),
          (''created_at'', JStr (ln_created l))])"

definition launch_checks :: "launch_row \<Rightarrow> bool" where
  "launch_checks l =
     (list_all (\<lambda>s. s \<noteq> '''')
        [ln_id l, ln_receipt l, ln_repository l, ln_attempt l, ln_ownership l, ln_phase l, ln_context l,
         ln_platform l, ln_boot l, ln_start l, ln_stdout l, ln_stderr l, ln_evidence l]
      \<and> list_all is_digest
        [ln_ownership_digest l, ln_context_digest l, ln_spawn_digest l, ln_argv_digest l, ln_environment_digest l]
      \<and> ln_generation l > 0 \<and> ln_pid l > 0 \<and> ln_pgid l > 0 \<and> ln_output_limit l > 0 \<and> ln_tail_limit l > 0
      \<and> ln_tail_limit l \<le> ln_output_limit l \<and> ln_group_version l \<ge> 0 \<and> ln_stdout_version l \<ge> 0
      \<and> ln_stderr_version l \<ge> 0 \<and> utc_text (ln_created l))"

text \<open>The foreign keys and the lineage trigger.\<close>

definition launch_references :: "state_db \<Rightarrow> launch_row \<Rightarrow> bool" where
  "launch_references db l =
     (find_row (db_attempts db) (ln_attempt l) \<noteq> None
      \<and> (\<exists>r \<in> set (db_ownerships db). ow_id r = ln_ownership l \<and> ow_attempt r = ln_attempt l
            \<and> ow_generation r = ln_generation l)
      \<and> (\<exists>x \<in> set (db_phases db). ph_id x = ln_phase l \<and> ph_attempt x = ln_attempt l \<and> ph_context x = ln_context l)
      \<and> (\<exists>c \<in> set (db_contexts db). ctx_id c = ln_context l \<and> ctx_attempt c = ln_attempt l)
      \<and> (\<exists>e \<in> set (db_evidence db). ev_id e = ln_evidence l \<and> ev_attempt e = Some (ln_attempt l)
            \<and> ev_phase e = Some (ln_phase l) \<and> ev_context e = ln_context l
            \<and> ev_producer e = ProcessSupervisor \<and> ev_schema e = ''rickgent.process-launch.v1''))"

definition insert_launch :: "launch_row \<Rightarrow> state_db \<Rightarrow> (store_error, state_db) result" where
  "insert_launch l db =
     (if launch_checks l
         \<and> \<not> (\<exists>k \<in> set (db_launches db). ln_id k = ln_id l \<or> ln_receipt k = ln_receipt l \<or> ln_phase k = ln_phase l)
         \<and> launch_references db l
      then Inr (db\<lparr>db_launches := db_launches db @ [l]\<rparr>)
      else Inl (Sql_Constraint False))"

section \<open>Launch\<close>

text \<open>The lineage of a phase execution: attempt, context, context digest and repository.\<close>

definition phase_lineage :: "state_db \<Rightarrow> string \<Rightarrow> (string \<times> string \<times> string \<times> string) option" where
  "phase_lineage db phase =
     Option.bind (find (\<lambda>x. ph_id x = phase) (db_phases db)) (\<lambda>x.
     Option.bind (find (\<lambda>c. ctx_id c = ph_context x \<and> ctx_attempt c = ph_attempt x) (db_contexts db)) (\<lambda>c.
     Option.bind (find_row (db_attempts db) (ph_attempt x)) (\<lambda>a.
     Option.bind (find_row (db_runs db) (at_run a)) (\<lambda>r.
     Some (ph_attempt x, ph_context x, ctx_digest c, run_repository r)))))"

definition activate_claim ::
  "ProcessLaunchCommitRequest \<Rightarrow> state_db \<Rightarrow> resource_kind \<times> int \<times> string \<Rightarrow> (store_error, state_db) result" where
  "activate_claim q db slot_version_identity =
     (let (slot, version, identity) = slot_version_identity in
      case find_claim db (pl_attemptId q) slot of
        None \<Rightarrow> Inl (StateErr OwnerMismatch)
      | Some c \<Rightarrow>
          if cl_kind c \<noteq> slot \<or> cl_ownership c \<noteq> pl_ownershipId q \<or> cl_generation c \<noteq> pl_ownerGeneration q
             \<or> cl_version c \<noteq> version \<or> cl_identity c \<noteq> identity \<or> cl_state c \<notin> {RReserved, RAllocated}
          then Inl (StateErr OwnerMismatch)
          else
            let exact = (\<lambda>s n x. cl_id x = cl_id c \<and> cl_ownership x = pl_ownershipId q
                           \<and> cl_generation x = pl_ownerGeneration q \<and> cl_state x = s \<and> cl_version x = n) in
            rbind (if cl_state c = RReserved
                   then rbind (move_claims RAllocated (\<lambda>x. x) (exact RReserved version) db) (\<lambda>(db1, changes).
                        if changes \<noteq> 1 then Inl (StateErr StateConflict) else Inr (db1, RAllocated, version + 1))
                   else Inr (db, cl_state c, version)) (\<lambda>(db1, s, n).
            rbind (move_claims RActive (\<lambda>x. x) (exact s n) db1) (\<lambda>(db2, changes).
            if changes \<noteq> 1 then Inl (StateErr StateConflict) else Inr db2)))"

fun activate_claims ::
  "ProcessLaunchCommitRequest \<Rightarrow> state_db \<Rightarrow> (resource_kind \<times> int \<times> string) list \<Rightarrow> (store_error, state_db) result" where
  "activate_claims q db [] = Inr db"
| "activate_claims q db (x # xs) = rbind (activate_claim q db x) (\<lambda>db'. activate_claims q db' xs)"

definition launch_slots :: "ProcessLaunchCommitRequest \<Rightarrow> (resource_kind \<times> int \<times> string) list" where
  "launch_slots q =
     (let v = pl_expectedResourceVersions q in
      [(ProcessGroup, pv_process_group v, ''process-group:'' @ pl_attemptId q),
       (StdoutFile, pv_stdout v, pl_stdoutPath q), (StderrFile, pv_stderr v, pl_stderrPath q)])"

definition unexpired :: "store_env \<Rightarrow> string \<Rightarrow> bool" where
  "unexpired env text = (case date_ms env text of None \<Rightarrow> True | Some t \<Rightarrow> \<not> t \<le> env_clock env)"

definition launch_owner_ok :: "store_env \<Rightarrow> ProcessLaunchCommitRequest \<Rightarrow> state_db \<Rightarrow> bool" where
  "launch_owner_ok env q db =
     (case find_lease db (pl_ownershipId q) (pl_attemptId q) of
        None \<Rightarrow> False
      | Some r \<Rightarrow>
          ow_generation r = pl_ownerGeneration q \<and> ow_state r = LLive \<and> ow_recovered_from r = None
          \<and> ow_context_digest r = pl_ownershipContextDigest q \<and> unexpired env (ow_expires r))"

definition new_launch ::
  "store_env \<Rightarrow> ProcessLaunchCommitRequest \<Rightarrow> evidence_row \<Rightarrow> state_db \<Rightarrow> (store_error, state_db \<times> launch_row) result" where
  "new_launch env q evidence db =
     (if \<not> launch_owner_ok env q db then Inl (StateErr OwnerMismatch)
      else if phase_lineage db (pl_phaseExecutionId q)
                \<noteq> Some (pl_attemptId q, pl_contextId q, pl_executionContextDigest q, pl_repositoryId q)
      then Inl (StateErr OwnerMismatch)
      else
        rbind (activate_claims q db (launch_slots q)) (\<lambda>db1.
        rbind (validate_evidence_row env evidence) (\<lambda>_.
        rbind (insert_evidence evidence db1) (\<lambda>db2.
        rbind (insert_launch (launch_row_of q) db2) (\<lambda>db3. Inr (db3, launch_row_of q))))))"

definition commitProcessLaunch ::
  "store_env \<Rightarrow> ProcessLaunchCommitRequest \<Rightarrow> state_db \<Rightarrow> (store_error, state_db \<times> launch_row) result" where
  "commitProcessLaunch env q db =
     rbind (check_launch env q) (\<lambda>_.
     rbind (canonical_text (pl_launchEvidencePayload q)) (\<lambda>payload.
     rbind (canonical_text (launch_payload_js (launch_row_of q))) (\<lambda>expected.
     if payload \<noteq> expected then Inl TypeErr
     else
       let evidence = process_evidence_row env
             \<lparr>pe_evidenceId = pl_launchEvidenceId q, pe_attemptId = pl_attemptId q,
              pe_phaseExecutionId = pl_phaseExecutionId q, pe_contextId = pl_contextId q,
              pe_scope = ''attempt:'' @ pl_attemptId q @ '':process-launch:'' @ pl_launchId q,
              pe_schemaVersion = ''rickgent.process-launch.v1'', pe_payloadJson = payload,
              pe_idempotencyKey = pl_launchId q, pe_createdAt = pl_createdAt q\<rparr> in
       case find (\<lambda>l. ln_id l = pl_launchId q \<or> ln_receipt l = pl_processReceiptId q
                    \<or> ln_phase l = pl_phaseExecutionId q) (db_launches db) of
         Some l \<Rightarrow>
           if l \<noteq> launch_row_of q then Inl (StateErr IdempotencyConflict)
           else rbind (requireExactProcessEvidence evidence db) (\<lambda>_. Inr (db, l))
       | None \<Rightarrow> new_launch env q evidence db)))"

definition commitAuthorizedProcessLaunch ::
  "store_env \<Rightarrow> ProcessLaunchCommitRequest \<Rightarrow> state_db \<Rightarrow> state_db \<times> (store_error, launch_row) result" where
  "commitAuthorizedProcessLaunch env q db = immediate (commitProcessLaunch env q) db"

section \<open>Terminal receipts\<close>

definition group_death_schema :: string where
  "group_death_schema = ''rickgent.process-group-death.v1''"

text \<open>The proof of a group's death, bound to its launch.\<close>

definition group_death_js :: "launch_row \<Rightarrow> jsval \<Rightarrow> jsval \<Rightarrow> bool \<Rightarrow> string \<Rightarrow> jsval" where
  "group_death_js l basis tracked descendants observedAt =
     JObj ((''schema_version'', JStr group_death_schema) # lineage_members l
       @ [(''group_dead'', JBool True), (''proof_basis'', basis),
          (''tracked_identities_confirmed_dead'', tracked),
          (''descendants_confirmed_dead'', JBool descendants), (''death_observed_at'', JStr observedAt)])"

definition check_group_death ::
  "ProcessTerminalCommitRequest \<Rightarrow> launch_row \<Rightarrow> ProcessTerminalObservationRequest \<Rightarrow> jsval \<Rightarrow> string
    \<Rightarrow> (store_error, unit) result" where
  "check_group_death q l ob parsed payload =
     (let basis = get_prop parsed ''proof_basis''; tracked = get_prop parsed ''tracked_identities_confirmed_dead'' in
      if basis \<notin> {JStr ''sampled_tracked_identities'', JStr ''authoritative_containment''} then Inl TypeErr
      else if as_bool tracked = None then Inl TypeErr
      else if pt_descendantsConfirmedDead q
              \<and> (basis \<noteq> JStr ''authoritative_containment'' \<or> tracked \<noteq> JBool True)
      then Inl TypeErr
      else
        rbind (canonical_text (group_death_js l basis tracked (pt_descendantsConfirmedDead q) (po_createdAt ob)))
          (\<lambda>expected.
        ensure_that (po_schemaVersion ob = group_death_schema \<and> payload = expected) TypeErr))"

definition later_than :: "int option \<Rightarrow> int option \<Rightarrow> bool" where
  "later_than a b = (case (a, b) of (Some s, Some t) \<Rightarrow> s > t | _ \<Rightarrow> False)"

text \<open>One round of the loop over the observations; the state is the index and the identities seen.\<close>

type_synonym observation_acc = "int \<times> string list \<times> string list"

definition check_observation ::
  "store_env \<Rightarrow> ProcessTerminalCommitRequest \<Rightarrow> launch_row \<Rightarrow> observation_acc \<Rightarrow> ProcessTerminalObservationRequest
    \<Rightarrow> (store_error, observation_acc \<times> (observation_row \<times> evidence_row)) result" where
  "check_observation env q l acc ob =
     (let (index, seen, evidence) = acc; observedMs = date_ms env (po_createdAt ob) in
      if \<not> list_all process_identity [po_observationId ob, po_kind ob, po_evidenceId ob, po_schemaVersion ob]
         \<or> \<not> process_timestamp env (po_createdAt ob) \<or> po_sequenceNumber ob \<noteq> index + 1
         \<or> po_observationId ob \<in> set seen \<or> po_evidenceId ob \<in> set evidence
         \<or> later_than (date_ms env (ln_created l)) observedMs
         \<or> later_than observedMs (date_ms env (pt_createdAt q))
      then Inl TypeErr
      else
        rbind (canonical_text (po_payload ob)) (\<lambda>payload.
        case parse_json env payload of
          None \<Rightarrow> Inl SyntaxErr
        | Some parsed \<Rightarrow>
            if \<not> is_plain_object parsed then Inl TypeErr
            else if get_prop parsed ''schema_version'' \<noteq> JStr (po_schemaVersion ob) then Inl TypeErr
            else
              rbind (if po_kind ob = ''group_death'' then check_group_death q l ob parsed payload else Inr ()) (\<lambda>_.
              Inr ((index + 1, seen @ [po_observationId ob], evidence @ [po_evidenceId ob]),
                (\<lparr>ob_id = po_observationId ob, ob_launch = pt_launchId q, ob_attempt = ln_attempt l,
                  ob_sequence = po_sequenceNumber ob, ob_kind = po_kind ob, ob_evidence = po_evidenceId ob,
                  ob_schema = po_schemaVersion ob, ob_payload_digest = env_sha256 env payload,
                  ob_created = po_createdAt ob\<rparr>,
                 process_evidence_row env
                   \<lparr>pe_evidenceId = po_evidenceId ob, pe_attemptId = ln_attempt l,
                    pe_phaseExecutionId = ln_phase l, pe_contextId = ln_context l,
                    pe_scope = ''attempt:'' @ ln_attempt l @ '':process:'' @ pt_launchId q @ '':'' @ po_kind ob,
                    pe_schemaVersion = po_schemaVersion ob, pe_payloadJson = payload,
                    pe_idempotencyKey = po_observationId ob, pe_createdAt = po_createdAt ob\<rparr>)))))"

definition observation_js :: "observation_row \<Rightarrow> jsval" where
  "observation_js o' =
     JObj [(''observation_id'', JStr (ob_id o')), (''sequence'', JNum (ob_sequence o')),
           (''kind'', JStr (ob_kind o')), (''evidence_id'', JStr (ob_evidence o')),
           (''schema_version'', JStr (ob_schema o')), (''payload_digest'', JStr (ob_payload_digest o')),
           (''created_at'', JStr (ob_created o'))]"

definition optional_number :: "int option \<Rightarrow> jsval" where
  "optional_number x = (case x of None \<Rightarrow> JNull | Some i \<Rightarrow> JNum i)"

text \<open>The payload whose digest the receipt carries.\<close>

definition terminal_js :: "terminal_row \<Rightarrow> observation_row list \<Rightarrow> jsval" where
  "terminal_js t observations =
     JObj [(''schema_version'', JStr ''rickgent.process-terminal.v1''), (''launch_id'', JStr (tm_launch t)),
           (''process_receipt_id'', JStr (tm_receipt t)), (''outcome'', JStr (tm_outcome t)),
           (''exit_code'', optional_number (tm_exit_code t)), (''signal'', optional_text (tm_signal t)),
           (''timed_out'', JBool (tm_timed_out t)), (''group_dead'', JBool (tm_group_dead t)),
           (''descendants_confirmed_dead'', JBool (tm_descendants_dead t)),
           (''observation_refs'', JArr (map observation_js observations)),
           (''created_at'', JStr (tm_created t))]"

definition terminal_row_of :: "ProcessTerminalCommitRequest \<Rightarrow> launch_row \<Rightarrow> nat \<Rightarrow> terminal_row" where
  "terminal_row_of q l n =
     \<lparr>tm_receipt = pt_processReceiptId q, tm_launch = pt_launchId q, tm_attempt = ln_attempt l,
      tm_outcome = pt_outcome q, tm_exit_code = pt_exitCode q, tm_signal = pt_signal q,
      tm_timed_out = pt_timedOut q, tm_group_dead = pt_groupDead q,
      tm_descendants_dead = pt_descendantsConfirmedDead q, tm_observation_count = int n,
      tm_result_digest = pt_resultDigest q, tm_created = pt_createdAt q\<rparr>"

section \<open>Tables of observations and receipts\<close>

definition observation_checks :: "observation_row \<Rightarrow> bool" where
  "observation_checks o' =
     (list_all (\<lambda>s. s \<noteq> '''') [ob_id o', ob_launch o', ob_attempt o', ob_kind o', ob_evidence o', ob_schema o']
      \<and> ob_sequence o' > 0 \<and> is_digest (ob_payload_digest o') \<and> utc_text (ob_created o')
      \<and> (ob_kind o' = ''group_death'' \<longrightarrow> ob_schema o' = group_death_schema))"

definition observation_references :: "state_db \<Rightarrow> observation_row \<Rightarrow> bool" where
  "observation_references db o' =
     (\<exists>l \<in> set (db_launches db). ln_id l = ob_launch o' \<and> ln_attempt l = ob_attempt o'
        \<and> (\<exists>e \<in> set (db_evidence db). ev_id e = ob_evidence o' \<and> ev_attempt e = Some (ob_attempt o')
              \<and> ev_phase e = Some (ln_phase l) \<and> ev_context e = ln_context l
              \<and> ev_producer e = ProcessSupervisor \<and> ev_schema e = ob_schema o'
              \<and> ev_digest e = ob_payload_digest o'))"

definition insert_observation :: "observation_row \<Rightarrow> state_db \<Rightarrow> (store_error, state_db) result" where
  "insert_observation o' db =
     (if observation_checks o'
         \<and> \<not> (\<exists>k \<in> set (db_observations db). ob_id k = ob_id o' \<or> ob_evidence k = ob_evidence o'
               \<or> (ob_launch k = ob_launch o' \<and> ob_sequence k = ob_sequence o'))
         \<and> observation_references db o'
      then Inr (db\<lparr>db_observations := db_observations db @ [o']\<rparr>)
      else Inl (Sql_Constraint False))"

definition terminal_checks :: "terminal_row \<Rightarrow> bool" where
  "terminal_checks t =
     (list_all (\<lambda>s. s \<noteq> '''') [tm_receipt t, tm_launch t, tm_attempt t, tm_outcome t]
      \<and> (case tm_exit_code t of None \<Rightarrow> True | Some n \<Rightarrow> n \<ge> 0)
      \<and> (case tm_signal t of None \<Rightarrow> True | Some s \<Rightarrow> s \<noteq> '''')
      \<and> tm_observation_count t > 0 \<and> is_digest (tm_result_digest t) \<and> utc_text (tm_created t)
      \<and> (tm_descendants_dead t \<longrightarrow> tm_group_dead t))"

definition launch_observations :: "state_db \<Rightarrow> string \<Rightarrow> observation_row list" where
  "launch_observations db launch =
     sort_key ob_sequence (filter (\<lambda>o'. ob_launch o' = launch) (db_observations db))"

text \<open>The contiguous-chain and death-claim triggers.\<close>

definition terminal_chain_ok :: "state_db \<Rightarrow> terminal_row \<Rightarrow> bool" where
  "terminal_chain_ok db t =
     (let chain = launch_observations db (tm_launch t) in
      chain \<noteq> [] \<and> int (length chain) = tm_observation_count t
      \<and> ob_sequence (hd chain) = 1 \<and> ob_sequence (last chain) = tm_observation_count t
      \<and> (tm_group_dead t \<longrightarrow> (\<exists>o' \<in> set chain. ob_kind o' = ''group_death'')))"

definition insert_terminal :: "terminal_row \<Rightarrow> state_db \<Rightarrow> (store_error, state_db) result" where
  "insert_terminal t db =
     (if terminal_checks t
         \<and> \<not> (\<exists>k \<in> set (db_terminals db). tm_receipt k = tm_receipt t \<or> tm_launch k = tm_launch t)
         \<and> (\<exists>l \<in> set (db_launches db). ln_receipt l = tm_receipt t \<and> ln_id l = tm_launch t \<and> ln_attempt l = tm_attempt t)
         \<and> terminal_chain_ok db t
      then Inr (db\<lparr>db_terminals := db_terminals db @ [t]\<rparr>)
      else Inl (Sql_Constraint False))"

fun insert_observations ::
  "store_env \<Rightarrow> state_db \<Rightarrow> (observation_row \<times> evidence_row) list \<Rightarrow> (store_error, state_db) result" where
  "insert_observations env db [] = Inr db"
| "insert_observations env db ((o', e) # rest) =
     rbind (validate_evidence_row env e) (\<lambda>_.
     rbind (insert_evidence e db) (\<lambda>db1.
     rbind (insert_observation o' db1) (\<lambda>db2. insert_observations env db2 rest)))"

section \<open>Commit of a terminal receipt\<close>

definition check_terminal :: "store_env \<Rightarrow> ProcessTerminalCommitRequest \<Rightarrow> (store_error, unit) result" where
  "check_terminal env q =
     ensure_that (list_all process_identity [pt_launchId q, pt_processReceiptId q, pt_outcome q]
        \<and> is_digest (pt_resultDigest q) \<and> process_timestamp env (pt_createdAt q)
        \<and> (case pt_exitCode q of None \<Rightarrow> True | Some n \<Rightarrow> is_safe_int n \<and> 0 \<le> n \<and> n \<le> 255)
        \<and> (case pt_signal q of None \<Rightarrow> True | Some s \<Rightarrow> process_identity s)
        \<and> (pt_descendantsConfirmedDead q \<longrightarrow> pt_groupDead q)
        \<and> pt_observations q \<noteq> [])
      TypeErr"

definition store_terminal ::
  "store_env \<Rightarrow> ProcessTerminalCommitRequest \<Rightarrow> terminal_row \<Rightarrow> (observation_row \<times> evidence_row) list \<Rightarrow> state_db
    \<Rightarrow> (store_error, state_db \<times> terminal_row) result" where
  "store_terminal env q t rows db =
     (case find (\<lambda>k. tm_receipt k = pt_processReceiptId q \<or> tm_launch k = pt_launchId q) (db_terminals db) of
        Some k \<Rightarrow>
          if k \<noteq> t then Inl (StateErr IdempotencyConflict)
          else if launch_observations db (pt_launchId q) \<noteq> map fst rows then Inl (StateErr IdempotencyConflict)
          else rbind (check_all (\<lambda>r. requireExactProcessEvidence (snd r) db) rows) (\<lambda>_. Inr (db, k))
      | None \<Rightarrow>
          if launch_observations db (pt_launchId q) \<noteq> [] then Inl (StateErr IdempotencyConflict)
          else
            rbind (insert_observations env db rows) (\<lambda>db1.
            rbind (insert_terminal t db1) (\<lambda>db2. Inr (db2, t))))"

definition commitProcessTerminal ::
  "store_env \<Rightarrow> ProcessTerminalCommitRequest \<Rightarrow> state_db \<Rightarrow> (store_error, state_db \<times> terminal_row) result" where
  "commitProcessTerminal env q db =
     rbind (check_terminal env q) (\<lambda>_.
     case find (\<lambda>l. ln_id l = pt_launchId q \<and> ln_receipt l = pt_processReceiptId q) (db_launches db) of
       None \<Rightarrow> Inl (StateErr OwnerMismatch)
     | Some l \<Rightarrow>
         rbind (traverse_state (check_observation env q l) (0, [], []) (pt_observations q)) (\<lambda>(_, rows).
         let t = terminal_row_of q l (length rows) in
         if (\<exists>r \<in> set rows. ob_kind (fst r) = ''group_death'') \<noteq> pt_groupDead q then Inl TypeErr
         else
           rbind (canonical_text (terminal_js t (map fst rows))) (\<lambda>result.
           if env_sha256 env result \<noteq> pt_resultDigest q then Inl TypeErr
           else store_terminal env q t rows db)))"

definition commitAuthorizedProcessTerminal ::
  "store_env \<Rightarrow> ProcessTerminalCommitRequest \<Rightarrow> state_db \<Rightarrow> state_db \<times> (store_error, terminal_row) result" where
  "commitAuthorizedProcessTerminal env q db = immediate (commitProcessTerminal env q) db"

end
