(* ===== verification/Lease_Recovery.thy ===== *)
theory Lease_Recovery
  imports Lease_Store Process_Store
begin

text \<open>
  The recovery of a stale owner (\<open>#recoverStaleAttemptOwnership\<close> of \<open>orchestrator/src/state/store.ts\<close>):
  an expired generation is fenced off by a new one that may only clean up, once the chain of process
  records proves the old owner's process group dead.
\<close>

section \<open>The death chain\<close>

record death_chain =
  dc_launch :: launch_row
  dc_observation :: observation_row
  dc_evidence :: evidence_row
  dc_terminal :: terminal_row

definition find_death_chain :: "state_db \<Rightarrow> string \<Rightarrow> death_chain option" where
  "find_death_chain db evidence =
     Option.bind (find (\<lambda>o'. ob_evidence o' = evidence \<and> ob_kind o' = ''group_death'') (db_observations db)) (\<lambda>o'.
     Option.bind (find (\<lambda>l. ln_id l = ob_launch o' \<and> ln_attempt l = ob_attempt o') (db_launches db)) (\<lambda>l.
     Option.bind (find (\<lambda>e. ev_id e = ob_evidence o' \<and> ev_attempt e = Some (ob_attempt o')) (db_evidence db)) (\<lambda>e.
     Option.bind (find (\<lambda>t. tm_launch t = ln_id l \<and> tm_receipt t = ln_receipt l \<and> tm_attempt t = ln_attempt l)
                   (db_terminals db)) (\<lambda>t.
     Some \<lparr>dc_launch = l, dc_observation = o', dc_evidence = e, dc_terminal = t\<rparr>))))"

text \<open>What the chain has to prove about the expired owner, given the canonical texts of the payloads.\<close>

definition chain_proves_death ::
  "store_env \<Rightarrow> string \<Rightarrow> ownership_row \<Rightarrow> death_chain \<Rightarrow> observation_row list \<Rightarrow> string \<Rightarrow> string \<Rightarrow> string \<Rightarrow> bool" where
  "chain_proves_death env i old chain observations death expected terminalPayload =
     (let l = dc_launch chain; o' = dc_observation chain; e = dc_evidence chain; t = dc_terminal chain;
          observedAt = date_ms env (ob_created o') in
      death = expected
      \<and> ln_attempt l = i \<and> ln_ownership l = ow_id old \<and> ln_generation l = ow_generation old
      \<and> ln_ownership_digest l = ow_context_digest old
      \<and> ln_repository l = sl_repositoryId (env_location env)
      \<and> ev_attempt e = Some (ln_attempt l) \<and> ev_phase e = Some (ln_phase l) \<and> ev_context e = ln_context l
      \<and> ev_producer e = ProcessSupervisor \<and> ev_schema e = group_death_schema \<and> ob_schema o' = group_death_schema
      \<and> ev_digest e = env_sha256 env death \<and> ob_payload_digest o' = ev_digest e
      \<and> tm_group_dead t \<and> tm_descendants_dead t
      \<and> tm_observation_count t = int (length observations)
      \<and> map ob_sequence observations = map int [1..<length observations + 1]
      \<and> tm_result_digest t = env_sha256 env terminalPayload
      \<and> observedAt \<noteq> None \<and> \<not> later_than (date_ms env (ow_heartbeat old)) observedAt
      \<and> \<not> later_than observedAt (Some (env_clock env)))"

definition require_death_chain ::
  "store_env \<Rightarrow> string \<Rightarrow> ownership_row \<Rightarrow> string \<Rightarrow> state_db \<Rightarrow> (store_error, unit) result" where
  "require_death_chain env i old evidence db =
     (case find_death_chain db evidence of
        None \<Rightarrow> Inl (StateErr OwnerMismatch)
      | Some chain \<Rightarrow>
          (case ev_payload (dc_evidence chain) of
             None \<Rightarrow> Inl (StateErr OwnerMismatch)
           | Some payload \<Rightarrow>
               rbind (parseJsonObject env payload) (\<lambda>death.
               let l = dc_launch chain; observations = launch_observations db (ln_id l) in
               rbind (canonical_text death) (\<lambda>deathText.
               rbind (canonical_text (group_death_js l (JStr ''authoritative_containment'') (JBool True) True
                        (ob_created (dc_observation chain)))) (\<lambda>expected.
               rbind (canonical_text (terminal_js (dc_terminal chain) observations)) (\<lambda>terminalPayload.
               ensure_that (chain_proves_death env i old chain observations deathText expected terminalPayload)
                 (StateErr OwnerMismatch)))))))"

section \<open>Recovery\<close>

definition recovered_lease ::
  "store_env \<Rightarrow> AttemptOwnershipCommandPayload \<Rightarrow> ownership_row \<Rightarrow> string \<Rightarrow> string \<times> string \<Rightarrow> ownership_row" where
  "recovered_lease env p old ownership ctx =
     \<lparr>ow_id = ownership, ow_attempt = oc_attemptId p, ow_generation = ow_generation old + 1,
      ow_token_digest = oc_ownerTokenDigest p, ow_context_digest = snd ctx, ow_context_json = fst ctx,
      ow_recovered_from = Some (ow_id old), ow_heartbeat = env_now env,
      ow_expires = toISOString (env_clock env + oc_ttlMs p),
      ow_state = LCleanupPending, ow_version = 0, ow_created = env_now env\<rparr>"

text \<open>The four statements: the old owner is quarantined, the new one takes its place and its claims.\<close>

definition fence_owner ::
  "string \<Rightarrow> ownership_row \<Rightarrow> ownership_row \<Rightarrow> state_db \<Rightarrow> (store_error, state_db) result" where
  "fence_owner i old new db =
     rbind (move_leases LQuarantined
              (\<lambda>x. ow_id x = ow_id old \<and> ow_state x = ow_state old \<and> ow_version x = ow_version old) db)
       (\<lambda>(db1, changes).
     if changes \<noteq> 1 then Inl (StateErr StateConflict)
     else
       rbind (insert_lease new db1) (\<lambda>db2.
       rbind (move_claims RCleanupPending (\<lambda>x. x\<lparr>cl_ownership := ow_id new, cl_generation := ow_generation new\<rparr>)
                (working_claim i (ow_id old)) db2) (\<lambda>(db3, _).
       rbind (touch_claims (\<lambda>x. x\<lparr>cl_ownership := ow_id new, cl_generation := ow_generation new\<rparr>)
                (\<lambda>x. cl_attempt x = i \<and> cl_ownership x = ow_id old \<and> cl_state x = RCleanupPending) db3) (\<lambda>(db4, _).
       Inr db4))))"

definition recoverStaleAttemptOwnership ::
  "store_env \<Rightarrow> AttemptOwnershipCommandPayload \<Rightarrow> string \<Rightarrow> string \<Rightarrow> state_db
    \<Rightarrow> (store_error, state_db \<times> AttemptOwnershipStoreResult) result" where
  "recoverStaleAttemptOwnership env p canonicalInput inputDigest db =
     (case (oc_expiredOwnershipId p, oc_deathEvidenceId p) of
        (Some expiredId, Some deathEvidence) \<Rightarrow>
          let i = oc_attemptId p in
          rbind (attemptOwnershipPlan env db i) (\<lambda>plan.
          case find_lease db expiredId i of
            None \<Rightarrow> Inl (StateErr OwnerMismatch)
          | Some old \<Rightarrow>
              if \<not> lease_is_current old then Inl (StateErr OwnerMismatch)
              else if later_than (date_ms env (ow_expires old)) (Some (env_clock env)) then Inl (StateErr OwnerMismatch)
              else
                rbind (require_death_chain env i old deathEvidence db) (\<lambda>_.
                let generation = ow_generation old + 1 in
                rbind (ownershipIdentity env i generation (oc_ownerTokenDigest p)) (\<lambda>ownership.
                rbind (ownershipContext env plan generation (oc_ownerTokenDigest p) (Some (ow_id old))) (\<lambda>ctx.
                rbind (fence_owner i old (recovered_lease env p old ownership ctx) db) (\<lambda>db1.
                recordOwnershipOperation env p ownership RecoveryCleanup plan canonicalInput inputDigest db1)))))
      | _ \<Rightarrow> Inl TypeErr)"

section \<open>Quarantine outside the lease authority\<close>

record quarantined_claim =
  qc_resourceClaimId :: string
  qc_slot :: resource_kind
  qc_stateVersion :: int

definition owned_claims :: "string \<Rightarrow> string \<Rightarrow> int \<Rightarrow> resource_state \<Rightarrow> state_db \<Rightarrow> claim_row list" where
  "owned_claims i ownership generation s db =
     filter (\<lambda>c. cl_attempt c = i \<and> cl_ownership c = ownership \<and> cl_generation c = generation \<and> cl_state c = s)
       (db_claims db)"

definition quarantine_claim ::
  "string \<Rightarrow> string \<Rightarrow> int \<Rightarrow> string \<Rightarrow> state_db \<Rightarrow> claim_row
    \<Rightarrow> (store_error, state_db \<times> quarantined_claim) result" where
  "quarantine_claim i ownership generation digest db c =
     rbind (move_claims RQuarantined (\<lambda>x. x\<lparr>cl_quarantine_proof := Some digest\<rparr>)
              (\<lambda>x. cl_id x = cl_id c \<and> cl_attempt x = i \<and> cl_ownership x = ownership \<and> cl_generation x = generation
                 \<and> cl_state x = RCleanupPending \<and> cl_version x = cl_version c) db) (\<lambda>(db', changes).
     if changes \<noteq> 1 then Inl (StateErr StateConflict)
     else Inr (db', \<lparr>qc_resourceClaimId = cl_id c, qc_slot = cl_slot c, qc_stateVersion = cl_version c + 1\<rparr>))"

definition advanceClaimsToQuarantined ::
  "string \<Rightarrow> string \<Rightarrow> int \<Rightarrow> string \<Rightarrow> state_db \<Rightarrow> state_db \<times> (store_error, quarantined_claim list) result" where
  "advanceClaimsToQuarantined i ownership generation digest = immediate (\<lambda>db.
     let claims = owned_claims i ownership generation RCleanupPending db in
     if claims = [] then
       Inr (db, map (\<lambda>c. \<lparr>qc_resourceClaimId = cl_id c, qc_slot = cl_slot c, qc_stateVersion = cl_version c\<rparr>)
                  (owned_claims i ownership generation RQuarantined db))
     else traverse_state (quarantine_claim i ownership generation digest) db claims)"

definition finalizeQuarantineOwnership ::
  "string \<Rightarrow> string \<Rightarrow> int \<Rightarrow> state_db \<Rightarrow> state_db \<times> (store_error, unit) result" where
  "finalizeQuarantineOwnership i ownership generation = immediate (\<lambda>db.
     rbind (move_leases LQuarantined
              (\<lambda>x. ow_attempt x = i \<and> ow_id x = ownership \<and> ow_generation x = generation
                 \<and> ow_state x = LCleanupPending) db) (\<lambda>(db', changes).
     if changes \<noteq> 1 then
       (case find (\<lambda>x. ow_attempt x = i \<and> ow_id x = ownership \<and> ow_generation x = generation) (db_ownerships db') of
          None \<Rightarrow> Inl (StateErr StateConflict)
        | Some x \<Rightarrow> if ow_state x \<noteq> LQuarantined then Inl (StateErr StateConflict) else Inr (db', ()))
     else Inr (db', ())))"

end
