(* ===== verification/Lease_Cleanup.thy ===== *)
theory Lease_Cleanup
  imports Lease_Recovery
begin

text \<open>
  Cleanup under an ownership (\<open>orchestrator/src/state/store.ts\<close>): the proofs a cleanup rests on (its
  complete claim set, the terminal receipt and group death of its process, the salvage record and its
  manifest, the refs of the repository), the recording of salvage, the finalization that releases or
  quarantines the owner and its claims, and the dispatch of \<open>commitAuthorizedAttemptOwnership\<close>.

  Git and the file of a salvage artifact are observed through the environment.
\<close>

section \<open>Proofs of a cleanup\<close>

definition requireCleanupClaims ::
  "store_env \<Rightarrow> string \<Rightarrow> ownership_row \<Rightarrow> state_db \<Rightarrow> (store_error, AttemptWorkspacePlan \<times> claim_row list) result" where
  "requireCleanupClaims env i r db =
     rbind (attemptOwnershipPlan env db i) (\<lambda>plan.
     let claims = current_claims db i in
     if length claims \<noteq> length (wp_resources plan)
        \<or> (\<exists>c \<in> set claims. cl_ownership c \<noteq> ow_id r \<or> cl_generation c \<noteq> ow_generation r
             \<or> cl_state c \<noteq> RCleanupPending)
     then Inl (StateErr OwnerMismatch)
     else Inr (plan, claims))"

definition preimage_matches :: "AttemptResourceClaimPreimage list \<Rightarrow> claim_row \<Rightarrow> bool" where
  "preimage_matches expected c =
     (case find (\<lambda>x. ap_resourceClaimId x = cl_id c) expected of
        None \<Rightarrow> False
      | Some x \<Rightarrow> ap_slot x = cl_slot c \<and> ap_expectedState x = RCleanupPending \<and> ap_expectedVersion x = cl_version c)"

text \<open>\<open>#requireCleanupResourcePreimage\<close>\<close>

definition requireCleanupResourcePreimage ::
  "store_env \<Rightarrow> AttemptOwnershipCommandPayload \<Rightarrow> ownership_row \<Rightarrow> bool \<Rightarrow> state_db \<Rightarrow> (store_error, claim_row list) result" where
  "requireCleanupResourcePreimage env p r requireReceipt db =
     rbind (requireCleanupClaims env (oc_attemptId p) r db) (\<lambda>(plan, claims).
     if \<not> requireReceipt then Inr claims
     else
       case oc_cleanupResourcePreimages p of
         None \<Rightarrow> Inl TypeErr
       | Some expected \<Rightarrow>
           if length expected \<noteq> length (wp_resources plan) \<or> \<not> no_dups (map ap_resourceClaimId expected)
           then Inl TypeErr
           else if \<not> list_all (preimage_matches expected) claims then Inl (StateErr StateConflict)
           else Inr claims)"

text \<open>The recursive query along \<open>recovered_from_ownership_id\<close>; a chain is no longer than the table.\<close>

fun lineage_walk :: "nat \<Rightarrow> state_db \<Rightarrow> string \<Rightarrow> string \<Rightarrow> string list" where
  "lineage_walk 0 db i ownership = []"
| "lineage_walk (Suc n) db i ownership =
     (case find_lease db ownership i of
        None \<Rightarrow> []
      | Some r \<Rightarrow> ownership # (case ow_recovered_from r of None \<Rightarrow> [] | Some old \<Rightarrow> lineage_walk n db i old))"

definition ownership_lineage :: "state_db \<Rightarrow> string \<Rightarrow> string \<Rightarrow> string list" where
  "ownership_lineage db i ownership = lineage_walk (length (db_ownerships db)) db i ownership"

record cleanup_proof =
  cp_launch :: launch_row
  cp_terminal :: terminal_row
  cp_owner :: ownership_row
  cp_observation :: observation_row
  cp_evidence :: evidence_row

definition find_cleanup_proof :: "state_db \<Rightarrow> string \<Rightarrow> string \<Rightarrow> string \<Rightarrow> string \<Rightarrow> cleanup_proof option" where
  "find_cleanup_proof db i ownership receipt evidence =
     Option.bind (find (\<lambda>t. tm_receipt t = receipt \<and> tm_attempt t = i) (db_terminals db)) (\<lambda>t.
     Option.bind (find (\<lambda>l. ln_id l = tm_launch t \<and> ln_receipt l = tm_receipt t \<and> ln_attempt l = tm_attempt t
                     \<and> ln_ownership l \<in> set (ownership_lineage db i ownership)) (db_launches db)) (\<lambda>l.
     Option.bind (find_lease db (ln_ownership l) (ln_attempt l)) (\<lambda>r.
     Option.bind (find (\<lambda>o'. ob_launch o' = ln_id l \<and> ob_evidence o' = evidence \<and> ob_kind o' = ''group_death'')
                   (db_observations db)) (\<lambda>o'.
     Option.bind (find (\<lambda>e. ev_id e = ob_evidence o' \<and> ev_attempt e = Some (ln_attempt l)) (db_evidence db)) (\<lambda>e.
     Some \<lparr>cp_launch = l, cp_terminal = t, cp_owner = r, cp_observation = o', cp_evidence = e\<rparr>)))))"

definition requireCleanupProcessProof ::
  "store_env \<Rightarrow> string \<Rightarrow> string \<Rightarrow> string option \<Rightarrow> string option \<Rightarrow> state_db \<Rightarrow> (store_error, cleanup_proof) result" where
  "requireCleanupProcessProof env i ownership receipt evidence db =
     (case (receipt, evidence) of
        (Some receiptId, Some evidenceId) \<Rightarrow>
          (case find_cleanup_proof db i ownership receiptId evidenceId of
             None \<Rightarrow> Inl (StateErr OwnerMismatch)
           | Some x \<Rightarrow>
               let l = cp_launch x; t = cp_terminal x; o' = cp_observation x; e = cp_evidence x in
               if tm_group_dead t \<and> tm_descendants_dead t
                  \<and> ln_generation l = ow_generation (cp_owner x)
                  \<and> ln_ownership_digest l = ow_context_digest (cp_owner x)
                  \<and> ob_schema o' = group_death_schema
                  \<and> ev_producer e = ProcessSupervisor \<and> ev_schema e = group_death_schema \<and> ev_attempt e = Some i
                  \<and> is_digest (tm_result_digest t)
                  \<and> date_ms env (tm_created t) \<noteq> None \<and> date_ms env (ob_created o') \<noteq> None
                  \<and> ev_created e = ob_created o' \<and> ev_digest e = ob_payload_digest o'
                  \<and> map_option (env_sha256 env) (ev_payload e) = Some (ev_digest e)
               then Inr x
               else Inl (StateErr OwnerMismatch))
      | _ \<Rightarrow> Inl TypeErr)"

section \<open>Salvage\<close>

text \<open>
  \<open>#verifyAuthorizedSalvageArtifact\<close>: the manifest of a captured artifact. The checks of the path, the
  file and its bytes are the environment's; every other failure inside is a conflict.
\<close>

definition verifyAuthorizedSalvageArtifact ::
  "store_env \<Rightarrow> AttemptWorkspacePlan \<Rightarrow> salvage_row \<Rightarrow> (store_error, jsval option) result" where
  "verifyAuthorizedSalvageArtifact env plan s =
     (if sv_disposition s = ''empty'' then
        (if sv_artifact_path s = None \<and> sv_artifact_digest s = None \<and> sv_artifact_size s = None
         then Inr None else Inl (StateErr StateConflict))
      else if sv_disposition s \<noteq> ''captured'' \<or> sv_artifact_path s = None
              \<or> (case sv_artifact_digest s of None \<Rightarrow> True | Some d \<Rightarrow> \<not> is_digest d)
              \<or> (case sv_artifact_size s of None \<Rightarrow> True | Some n \<Rightarrow> \<not> is_safe_int n \<or> n < 0)
      then Inl (StateErr StateConflict)
      else
        rbind (env_artifact env (wp_salvageArchivePath plan) s) (\<lambda>artifactText.
        case parseJsonObject env artifactText of
          Inl _ \<Rightarrow> Inl (StateErr StateConflict)
        | Inr manifest \<Rightarrow>
            if canonical_text manifest = Inr artifactText then Inr (Some manifest)
            else Inl (StateErr StateConflict)))"

definition js_test :: "(string \<Rightarrow> bool) \<Rightarrow> jsval \<Rightarrow> bool" where
  "js_test P v = (case v of JStr s \<Rightarrow> P s | _ \<Rightarrow> False)"

definition index_snapshot_ok :: "store_env \<Rightarrow> jsval \<Rightarrow> jsval \<Rightarrow> bool" where
  "index_snapshot_ok env index indexDigest =
     (get_prop index ''digest'' = indexDigest
      \<and> (case as_safe_int (get_prop index ''size'') of
           None \<Rightarrow> False
         | Some n \<Rightarrow>
             0 \<le> n
             \<and> (case as_string (get_prop index ''content_base64'') of
                  None \<Rightarrow> False
                | Some content \<Rightarrow>
                    let bytes = env_base64 env content in
                    env_base64_encode env bytes = content \<and> int (length bytes) = n
                    \<and> JStr (env_sha256 env bytes) = indexDigest))
      \<and> as_array (get_prop index ''changed_entries'') \<noteq> None)"

definition manifest_binds :: "store_env \<Rightarrow> jsval \<Rightarrow> jsval \<Rightarrow> jsval \<Rightarrow> jsval \<Rightarrow> jsval \<Rightarrow> bool" where
  "manifest_binds env manifest baselineOid attemptRef expectedOid indexDigest =
     (get_prop manifest ''schema_version'' = JStr ''rickgent.salvage-archive.v1''
      \<and> get_prop manifest ''disposition'' = JStr ''captured''
      \<and> get_prop manifest ''baseline_oid'' = baselineOid
      \<and> get_prop manifest ''attempt_ref'' = attemptRef
      \<and> get_prop manifest ''attempt_ref_oid'' = expectedOid
      \<and> is_plain_object (get_prop manifest ''index_snapshot'')
      \<and> (case get_prop manifest ''ref_observations'' of
           JArr refs \<Rightarrow> (\<exists>v \<in> set refs. get_prop v ''ref'' = attemptRef \<and> get_prop v ''oid'' = expectedOid)
         | _ \<Rightarrow> False)
      \<and> index_snapshot_ok env (get_prop manifest ''index_snapshot'') indexDigest)"

definition requireSalvageCompleteness ::
  "store_env \<Rightarrow> jsval \<Rightarrow> jsval \<Rightarrow> jsval \<Rightarrow> jsval \<Rightarrow> jsval \<Rightarrow> jsval option \<Rightarrow> (store_error, unit) result" where
  "requireSalvageCompleteness env disposition baselineOid attemptRef expectedOid indexDigest manifest =
     (if \<not> js_test is_git_oid baselineOid \<or> as_string attemptRef = None \<or> \<not> js_test is_git_oid expectedOid
         \<or> \<not> js_test is_digest indexDigest
      then Inl (StateErr StateConflict)
      else if disposition = JStr ''empty'' then
        ensure_that (manifest = None \<and> expectedOid = baselineOid) (StateErr StateConflict)
      else
        ensure_that (disposition = JStr ''captured''
            \<and> (case manifest of None \<Rightarrow> False
               | Some m \<Rightarrow> manifest_binds env m baselineOid attemptRef expectedOid indexDigest))
          (StateErr StateConflict))"

definition SalvageService :: service where
  "SalvageService = OtherService ''SalvageService''"

definition salvage_schema :: string where
  "salvage_schema = ''rickgent.salvage-record.v2''"

text \<open>The owner a salvage payload names, in the lineage of the cleanup's owner.\<close>

definition salvage_owner :: "state_db \<Rightarrow> string \<Rightarrow> string \<Rightarrow> jsval \<Rightarrow> ownership_row option" where
  "salvage_owner db i ownership payload =
     (case get_prop payload ''ownership_id'' of
        JStr o' \<Rightarrow> if o' \<in> set (ownership_lineage db i ownership) then find_lease db o' i else None
      | _ \<Rightarrow> None)"

definition not_before :: "store_env \<Rightarrow> jsval \<Rightarrow> string \<Rightarrow> bool" where
  "not_before env created bound =
     (case created of JStr c \<Rightarrow> \<not> later_than (date_ms env bound) (date_ms env c) | _ \<Rightarrow> False)"

definition salvage_payload_binds ::
  "store_env \<Rightarrow> string \<Rightarrow> AttemptWorkspacePlan \<Rightarrow> salvage_row \<Rightarrow> ownership_row \<Rightarrow> cleanup_proof \<Rightarrow> string option \<Rightarrow> jsval \<Rightarrow> bool" where
  "salvage_payload_binds env i plan s owner proof expectedOid payload =
     (let t = cp_terminal proof; o' = cp_observation proof; e = cp_evidence proof; get = get_prop payload in
      get ''salvage_record_id'' = JStr (sv_id s) \<and> get ''attempt_id'' = JStr i
      \<and> get ''owner_generation'' = JNum (ow_generation owner)
      \<and> get ''ownership_context_digest'' = JStr (ow_context_digest owner)
      \<and> get ''disposition'' = JStr (sv_disposition s)
      \<and> get ''artifact_path'' = optional_text (sv_artifact_path s)
      \<and> get ''artifact_digest'' = optional_text (sv_artifact_digest s)
      \<and> get ''artifact_size'' = optional_number (sv_artifact_size s)
      \<and> get ''process_receipt_id'' = JStr (tm_receipt t)
      \<and> get ''group_death_evidence_id'' = JStr (ev_id e)
      \<and> get ''process_terminal_result_digest'' = JStr (tm_result_digest t)
      \<and> get ''process_terminal_created_at'' = JStr (tm_created t)
      \<and> get ''group_death_content_digest'' = JStr (ev_digest e)
      \<and> get ''group_death_created_at'' = JStr (ob_created o')
      \<and> get ''baseline_oid'' = JStr (ol_deliveryBaselineOid (wp_lineage plan))
      \<and> get ''attempt_ref'' = JStr (wp_attemptRef plan)
      \<and> js_test is_git_oid (get ''expected_attempt_ref_oid'')
      \<and> (case expectedOid of None \<Rightarrow> True | Some x \<Rightarrow> get ''expected_attempt_ref_oid'' = JStr x)
      \<and> js_test is_digest (get ''index_digest'')
      \<and> not_before env (get ''created_at'') (tm_created t) \<and> not_before env (get ''created_at'') (ob_created o'))"

definition find_salvage :: "state_db \<Rightarrow> string \<Rightarrow> string \<Rightarrow> (salvage_row \<times> evidence_row) option" where
  "find_salvage db i salvage =
     Option.bind (find (\<lambda>s. sv_id s = salvage \<and> sv_attempt s = i) (db_salvages db)) (\<lambda>s.
     Option.bind (find (\<lambda>e. ev_id e = sv_evidence s \<and> ev_attempt e = Some (sv_attempt s)) (db_evidence db)) (\<lambda>e.
     Some (s, e)))"

definition requireAuthorizedSalvageRecord ::
  "store_env \<Rightarrow> string \<Rightarrow> string \<Rightarrow> string option \<Rightarrow> cleanup_proof \<Rightarrow> string option \<Rightarrow> state_db
    \<Rightarrow> (store_error, salvage_row) result" where
  "requireAuthorizedSalvageRecord env i ownership salvageId proof expectedOid db =
     (case salvageId of
        None \<Rightarrow> Inl TypeErr
      | Some salvage \<Rightarrow>
          rbind (attemptOwnershipPlan env db i) (\<lambda>plan.
          case find_salvage db i salvage of
            None \<Rightarrow> Inl illegal
          | Some (s, e) \<Rightarrow>
              if sv_disposition s \<notin> {''captured'', ''empty''} \<or> ev_producer e \<noteq> SalvageService
                 \<or> ev_schema e \<noteq> salvage_schema \<or> map_option (env_sha256 env) (ev_payload e) \<noteq> Some (ev_digest e)
              then Inl illegal
              else
                rbind (parseJsonObject env (the (ev_payload e))) (\<lambda>payload.
                case salvage_owner db i ownership payload of
                  None \<Rightarrow> Inl illegal
                | Some owner \<Rightarrow>
                    if \<not> salvage_payload_binds env i plan s owner proof expectedOid payload then Inl illegal
                    else
                      rbind (verifyAuthorizedSalvageArtifact env plan s) (\<lambda>manifest.
                      rbind (requireSalvageCompleteness env (get_prop payload ''disposition'')
                               (get_prop payload ''baseline_oid'') (get_prop payload ''attempt_ref'')
                               (get_prop payload ''expected_attempt_ref_oid'') (get_prop payload ''index_digest'')
                               manifest) (\<lambda>_. Inr s)))))"

section \<open>Refs of the repository\<close>

definition assertRepositoryOid :: "store_env \<Rightarrow> string \<Rightarrow> (store_error, unit) result" where
  "assertRepositoryOid env oid =
     ensure_that (length oid = (if env_object_format env = ''sha1'' then 40 else 64) \<and> list_all is_hex oid) TypeErr"

text \<open>\<open>git show-ref --verify --quiet\<close>: status 0 when the ref exists, 1 when it does not.\<close>

definition requireAttemptRefAbsent :: "store_env \<Rightarrow> string \<Rightarrow> state_db \<Rightarrow> (store_error, unit) result" where
  "requireAttemptRefAbsent env i db =
     rbind (attemptOwnershipPlan env db i) (\<lambda>plan.
     case env_show_ref_status env (wp_attemptRef plan) of
       Some n \<Rightarrow> if n = 0 then Inl (StateErr StateConflict) else if n = 1 then Inr () else Inl illegal
     | None \<Rightarrow> Inl illegal)"

definition authorized_postimage :: "state_db \<Rightarrow> string \<Rightarrow> string \<Rightarrow> bool" where
  "authorized_postimage db i oid =
     (case find_row (db_attempts db) i of
        None \<Rightarrow> False
      | Some a \<Rightarrow>
          at_baseline_oid a = oid
          \<or> (\<exists>n \<in> set (db_commit_intents db). ci_attempt n = i \<and> ci_finalized n \<and> ci_commit_oid n = Some oid
                \<and> ci_attribution n \<noteq> None))"

definition requireAttemptRefPostimage ::
  "store_env \<Rightarrow> string \<Rightarrow> string option \<Rightarrow> state_db \<Rightarrow> (store_error, unit) result" where
  "requireAttemptRefPostimage env i expectedOid db =
     rbind (attemptOwnershipPlan env db i) (\<lambda>plan.
     case expectedOid of
       None \<Rightarrow> Inl TypeErr
     | Some oid \<Rightarrow>
         rbind (assertRepositoryOid env oid) (\<lambda>_.
         if \<not> authorized_postimage db i oid then Inl (StateErr OwnerMismatch)
         else
           case env_rev_parse env (wp_attemptRef plan) of
             Some observed \<Rightarrow> ensure_that (observed = oid) (StateErr StateConflict)
           | None \<Rightarrow> ensure_that (env_rev_parse_status env (wp_attemptRef plan) = Some 128) illegal))"

section \<open>Readiness of a cleanup\<close>

definition assertAttemptCleanupReady ::
  "store_env \<Rightarrow> AttemptOwnershipCommandPayload \<Rightarrow> state_db \<Rightarrow> (store_error, AttemptOwnershipStoreResult) result" where
  "assertAttemptCleanupReady env p db =
     (let i = oc_attemptId p in
      rbind (requireCurrentOwnership p db) (\<lambda>r.
      rbind (requireOwnershipPreimage p r) (\<lambda>_.
      if ow_state r \<noteq> LCleanupPending \<or> expired env (ow_expires r) then Inl (StateErr OwnerMismatch)
      else
        rbind (requireCleanupResourcePreimage env p r False db) (\<lambda>_.
        rbind (requireCleanupProcessProof env i (ow_id r) (oc_processReceiptId p) (oc_groupDeathEvidenceId p) db) (\<lambda>proof.
        rbind (requireAuthorizedSalvageRecord env i (ow_id r) (oc_salvageRecordId p) proof (oc_expectedAttemptRefOid p) db) (\<lambda>_.
        rbind (requireAttemptRefPostimage env i (oc_expectedAttemptRefOid p) db) (\<lambda>_.
        rbind (attemptOwnershipPlan env db i) (\<lambda>plan.
        attemptOwnershipResult i (ow_id r) (purpose_of r) False plan db))))))))"

section \<open>The recording of salvage\<close>

text \<open>The fields a salvage receipt must carry, in the order of the evidence payload.\<close>

record salvage_receipt =
  rc_record :: string
  rc_context :: string
  rc_disposition :: string
  rc_artifact_path :: "string option"
  rc_artifact_digest :: "string option"
  rc_artifact_size :: "int option"
  rc_process_receipt :: string
  rc_group_death :: string
  rc_baseline :: string
  rc_attempt_ref :: string
  rc_expected_oid :: string
  rc_index_digest :: string
  rc_evidence :: string
  rc_created :: string

definition flat :: "'a option option \<Rightarrow> 'a option" where
  "flat x = (case x of Some (Some v) \<Rightarrow> Some v | _ \<Rightarrow> None)"

definition salvage_receipt_of ::
  "store_env \<Rightarrow> AttemptOwnershipCommandPayload \<Rightarrow> (store_error, salvage_receipt) result" where
  "salvage_receipt_of env p =
     (case (oc_salvageRecordId p, oc_contextId p, oc_evidenceId p, oc_salvageDisposition p, oc_createdAt p,
            oc_processReceiptId p, oc_groupDeathEvidenceId p, oc_salvageBaselineOid p, oc_salvageAttemptRef p,
            oc_expectedAttemptRefOid p, oc_salvageIndexDigest p) of
        (Some salvage, Some ctx, Some evidence, Some disposition, Some created, Some receipt, Some death,
         Some baseline, Some ref, Some oid, Some index) \<Rightarrow>
          let path = flat (oc_salvageArtifactPath p); digest = flat (oc_salvageArtifactDigest p);
              size = flat (oc_salvageArtifactSize p) in
          if \<not> ends_with created ''Z'' \<or> date_ms env created = None then Inl TypeErr
          else if disposition = ''empty'' \<and> (path \<noteq> None \<or> digest \<noteq> None \<or> size \<noteq> None)
                  \<or> disposition = ''captured'' \<and> (path = None \<or> digest = None \<or> size = None)
          then Inl TypeErr
          else Inr \<lparr>rc_record = salvage, rc_context = ctx, rc_disposition = disposition, rc_artifact_path = path,
                    rc_artifact_digest = digest, rc_artifact_size = size, rc_process_receipt = receipt,
                    rc_group_death = death, rc_baseline = baseline, rc_attempt_ref = ref, rc_expected_oid = oid,
                    rc_index_digest = index, rc_evidence = evidence, rc_created = created\<rparr>
      | _ \<Rightarrow> Inl TypeErr)"

text \<open>The evidence payload without its creation time, which a replay does not compare.\<close>

definition salvage_members :: "string \<Rightarrow> ownership_row \<Rightarrow> cleanup_proof \<Rightarrow> salvage_receipt \<Rightarrow> (string \<times> jsval) list" where
  "salvage_members i r proof x =
     [(''schema_version'', JStr salvage_schema), (''salvage_record_id'', JStr (rc_record x)),
      (''attempt_id'', JStr i), (''ownership_id'', JStr (ow_id r)), (''owner_generation'', JNum (ow_generation r)),
      (''ownership_context_digest'', JStr (ow_context_digest r)), (''context_id'', JStr (rc_context x)),
      (''disposition'', JStr (rc_disposition x)), (''artifact_path'', optional_text (rc_artifact_path x)),
      (''artifact_digest'', optional_text (rc_artifact_digest x)),
      (''artifact_size'', optional_number (rc_artifact_size x)),
      (''process_receipt_id'', JStr (rc_process_receipt x)),
      (''group_death_evidence_id'', JStr (rc_group_death x)),
      (''process_terminal_result_digest'', JStr (tm_result_digest (cp_terminal proof))),
      (''process_terminal_created_at'', JStr (tm_created (cp_terminal proof))),
      (''group_death_content_digest'', JStr (ev_digest (cp_evidence proof))),
      (''group_death_created_at'', JStr (ob_created (cp_observation proof))),
      (''baseline_oid'', JStr (rc_baseline x)), (''attempt_ref'', JStr (rc_attempt_ref x)),
      (''expected_attempt_ref_oid'', JStr (rc_expected_oid x)), (''index_digest'', JStr (rc_index_digest x)),
      (''evidence_id'', JStr (rc_evidence x))]"

definition salvage_payload_js :: "string \<Rightarrow> ownership_row \<Rightarrow> cleanup_proof \<Rightarrow> salvage_receipt \<Rightarrow> jsval" where
  "salvage_payload_js i r proof x = JObj (salvage_members i r proof x @ [(''created_at'', JStr (rc_created x))])"

definition salvage_row_of :: "string \<Rightarrow> salvage_receipt \<Rightarrow> salvage_row" where
  "salvage_row_of i x =
     \<lparr>sv_id = rc_record x, sv_attempt = i, sv_disposition = rc_disposition x,
      sv_artifact_path = rc_artifact_path x, sv_artifact_digest = rc_artifact_digest x,
      sv_artifact_size = rc_artifact_size x, sv_evidence = rc_evidence x, sv_created = rc_created x\<rparr>"

definition salvage_evidence_of :: "store_env \<Rightarrow> string \<Rightarrow> salvage_receipt \<Rightarrow> string \<Rightarrow> string \<Rightarrow> evidence_row" where
  "salvage_evidence_of env i x payload key =
     \<lparr>ev_id = rc_evidence x, ev_attempt = Some i, ev_phase = None, ev_context = rc_context x,
      ev_producer = SalvageService, ev_scope = rc_record x, ev_schema = salvage_schema,
      ev_digest = env_sha256 env payload, ev_payload = Some payload, ev_external = None,
      ev_key = key, ev_created = rc_created x\<rparr>"

definition without_created :: "jsval \<Rightarrow> jsval" where
  "without_created v = (case v of JObj kvs \<Rightarrow> JObj (filter (\<lambda>kv. fst kv \<noteq> ''created_at'') kvs) | _ \<Rightarrow> v)"

definition existing_salvage :: "state_db \<Rightarrow> string \<Rightarrow> string \<Rightarrow> string \<Rightarrow> (salvage_row \<times> evidence_row) list" where
  "existing_salvage db i salvage key =
     concat (map (\<lambda>s. map (\<lambda>e. (s, e))
        (filter (\<lambda>e. ev_id e = sv_evidence s \<and> ev_producer e = SalvageService
                   \<and> (sv_id s = salvage \<or> ev_key e = key)) (db_evidence db)))
       (sort_key sv_id (filter (\<lambda>s. sv_attempt s = i) (db_salvages db))))"

definition same_salvage :: "salvage_row \<times> evidence_row \<Rightarrow> salvage_row \<Rightarrow> evidence_row \<Rightarrow> bool" where
  "same_salvage existing s e =
     ((fst existing)\<lparr>sv_created := sv_created s\<rparr> = s
      \<and> (snd existing)\<lparr>ev_attempt := ev_attempt e, ev_digest := ev_digest e, ev_payload := ev_payload e,
                       ev_created := ev_created e\<rparr> = e)"

definition cleanup_context :: "state_db \<Rightarrow> string \<Rightarrow> string \<Rightarrow> bool" where
  "cleanup_context db i ctx =
     (\<exists>c \<in> set (db_contexts db). ctx_id c = ctx \<and> ctx_attempt c = i
        \<and> (\<exists>x \<in> set (db_phases db). ph_context x = ctx \<and> ph_attempt x = i \<and> ph_phase x = ''cleanup''
              \<and> ph_role x = ''cleanup''))"

definition insert_salvage :: "salvage_row \<Rightarrow> state_db \<Rightarrow> (store_error, state_db) result" where
  "insert_salvage s db =
     (if sv_id s \<noteq> '''' \<and> sv_attempt s \<noteq> '''' \<and> sv_disposition s \<noteq> '''' \<and> sv_evidence s \<noteq> ''''
         \<and> utc_text (sv_created s) \<and> optional_digest (sv_artifact_digest s)
         \<and> (case sv_artifact_size s of None \<Rightarrow> True | Some n \<Rightarrow> n \<ge> 0)
         \<and> (sv_artifact_path s = None \<longleftrightarrow> sv_artifact_digest s = None)
         \<and> (sv_artifact_path s = None \<longleftrightarrow> sv_artifact_size s = None) \<and> sv_artifact_path s \<noteq> Some ''''
         \<and> \<not> (\<exists>k \<in> set (db_salvages db). sv_id k = sv_id s
               \<or> (sv_attempt k = sv_attempt s \<and> sv_disposition k = sv_disposition s))
         \<and> find_row (db_attempts db) (sv_attempt s) \<noteq> None
         \<and> (\<exists>e \<in> set (db_evidence db). ev_id e = sv_evidence s \<and> ev_attempt e = Some (sv_attempt s))
      then Inr (db\<lparr>db_salvages := db_salvages db @ [s]\<rparr>)
      else Inl (Sql_Constraint False))"

definition verify_salvage ::
  "store_env \<Rightarrow> AttemptWorkspacePlan \<Rightarrow> salvage_row \<Rightarrow> salvage_receipt \<Rightarrow> (store_error, unit) result" where
  "verify_salvage env plan s x =
     rbind (verifyAuthorizedSalvageArtifact env plan s) (\<lambda>manifest.
     requireSalvageCompleteness env (JStr (rc_disposition x)) (JStr (rc_baseline x)) (JStr (rc_attempt_ref x))
       (JStr (rc_expected_oid x)) (JStr (rc_index_digest x)) manifest)"

definition replay_salvage ::
  "store_env \<Rightarrow> AttemptOwnershipCommandPayload \<Rightarrow> ownership_row \<Rightarrow> AttemptWorkspacePlan \<Rightarrow> cleanup_proof \<Rightarrow> salvage_receipt
    \<Rightarrow> salvage_row \<times> evidence_row \<Rightarrow> state_db \<Rightarrow> (store_error, state_db \<times> AttemptOwnershipStoreResult) result" where
  "replay_salvage env p r plan proof x existing db =
     (let i = oc_attemptId p; s = salvage_row_of i x in
      rbind (canonical_text (salvage_payload_js i r proof x)) (\<lambda>payload.
      let e = salvage_evidence_of env i x payload (oc_idempotencyKey p) in
      case ev_payload (snd existing) of
        None \<Rightarrow> Inl TypeErr
      | Some stored \<Rightarrow>
          rbind (parseJsonObject env stored) (\<lambda>parsed.
          if \<not> same_salvage existing s e then Inl (StateErr IdempotencyConflict)
          else
            rbind (canonical_text (without_created parsed)) (\<lambda>a.
            rbind (canonical_text (without_created (salvage_payload_js i r proof x))) (\<lambda>b.
            if a \<noteq> b then Inl (StateErr IdempotencyConflict)
            else
              rbind (verify_salvage env plan (fst existing) x) (\<lambda>_.
              rbind (attemptOwnershipResult i (ow_id r) (purpose_of r) True plan db) (\<lambda>result.
              Inr (db, result))))))))"

definition insert_new_salvage ::
  "store_env \<Rightarrow> AttemptOwnershipCommandPayload \<Rightarrow> ownership_row \<Rightarrow> AttemptWorkspacePlan \<Rightarrow> cleanup_proof \<Rightarrow> salvage_receipt
    \<Rightarrow> state_db \<Rightarrow> (store_error, state_db \<times> AttemptOwnershipStoreResult) result" where
  "insert_new_salvage env p r plan proof x db =
     (let i = oc_attemptId p; s = salvage_row_of i x in
      rbind (canonical_text (salvage_payload_js i r proof x)) (\<lambda>payload.
      rbind (requireOwnershipPreimage p r) (\<lambda>_.
      if ow_state r \<noteq> LCleanupPending \<or> expired env (ow_expires r) then Inl (StateErr OwnerMismatch)
      else
        rbind (requireCleanupResourcePreimage env p r False db) (\<lambda>_.
        rbind (ensure_that (cleanup_context db i (rc_context x)) illegal) (\<lambda>_.
        rbind (verify_salvage env plan s x) (\<lambda>_.
        rbind (insert_evidence (salvage_evidence_of env i x payload (oc_idempotencyKey p)) db) (\<lambda>db1.
        rbind (insert_salvage s db1) (\<lambda>db2.
        rbind (attemptOwnershipResult i (ow_id r) (purpose_of r) False plan db2) (\<lambda>result.
        Inr (db2, result))))))))))"

definition recordAuthorizedSalvage ::
  "store_env \<Rightarrow> AttemptOwnershipCommandPayload \<Rightarrow> state_db \<Rightarrow> (store_error, state_db \<times> AttemptOwnershipStoreResult) result" where
  "recordAuthorizedSalvage env p db =
     (let i = oc_attemptId p in
      rbind (requireCurrentOwnership p db) (\<lambda>r.
      rbind (attemptOwnershipPlan env db i) (\<lambda>plan.
      rbind (salvage_receipt_of env p) (\<lambda>x.
      rbind (assertRepositoryOid env (rc_baseline x)) (\<lambda>_.
      rbind (assertRepositoryOid env (rc_expected_oid x)) (\<lambda>_.
      if rc_baseline x \<noteq> ol_deliveryBaselineOid (wp_lineage plan) \<or> rc_attempt_ref x \<noteq> wp_attemptRef plan
         \<or> \<not> is_digest (rc_index_digest x)
      then Inl (StateErr OwnerMismatch)
      else
        rbind (requireCleanupProcessProof env i (ow_id r) (Some (rc_process_receipt x)) (Some (rc_group_death x)) db) (\<lambda>proof.
        if later_than (date_ms env (tm_created (cp_terminal proof))) (date_ms env (rc_created x))
           \<or> later_than (date_ms env (ob_created (cp_observation proof))) (date_ms env (rc_created x))
        then Inl (StateErr OwnerMismatch)
        else
          case existing_salvage db i (rc_record x) (oc_idempotencyKey p) of
            [] \<Rightarrow> insert_new_salvage env p r plan proof x db
          | [existing] \<Rightarrow> replay_salvage env p r plan proof x existing db
          | _ \<Rightarrow> Inl (StateErr IdempotencyConflict))))))))"

section \<open>Finalization\<close>

datatype cleanup_terminal = CleanupReleased | CleanupQuarantined

fun cleanup_lease_state :: "cleanup_terminal \<Rightarrow> lease_state" where
  "cleanup_lease_state CleanupReleased = LReleased"
| "cleanup_lease_state CleanupQuarantined = LQuarantined"

fun cleanup_resource_state :: "cleanup_terminal \<Rightarrow> resource_state" where
  "cleanup_resource_state CleanupReleased = RReleased"
| "cleanup_resource_state CleanupQuarantined = RQuarantined"

fun cleanup_outcome_text :: "cleanup_terminal \<Rightarrow> string" where
  "cleanup_outcome_text CleanupReleased = ''failed_clean''"
| "cleanup_outcome_text CleanupQuarantined = ''quarantined''"

fun disposition_text :: "cleanup_terminal \<Rightarrow> string" where
  "disposition_text CleanupReleased = ''removed''"
| "disposition_text CleanupQuarantined = ''quarantined''"

definition cleanup_payload_js :: "string \<Rightarrow> int \<Rightarrow> string \<Rightarrow> cleanup_terminal \<Rightarrow> string \<Rightarrow> string \<Rightarrow> jsval" where
  "cleanup_payload_js i sequence ctx t observed evidence =
     (let d = JStr (disposition_text t) in
      JObj [(''attempt_id'', JStr i), (''sequence'', JNum sequence), (''context_id'', JStr ctx),
            (''outcome'', JStr (cleanup_outcome_text t)), (''group_dead'', JNum 1),
            (''worktree_disposition'', d), (''index_disposition'', d), (''ref_disposition'', d),
            (''context_disposition'', d), (''bundle_disposition'', d),
            (''delivery_ref_observed_oid'', JStr observed), (''resources_absent'', JNum 1),
            (''lease_release_eligible'', JNum 1), (''evidence_id'', JStr evidence)])"

definition insert_cleanup :: "cleanup_row \<Rightarrow> state_db \<Rightarrow> (store_error, state_db) result" where
  "insert_cleanup c db =
     (if cu_id c \<noteq> '''' \<and> cu_attempt c \<noteq> '''' \<and> cu_sequence c > 0 \<and> cu_context c \<noteq> '''' \<and> cu_outcome c \<noteq> ''''
         \<and> is_git_oid (cu_observed_oid c) \<and> cu_evidence c \<noteq> '''' \<and> is_digest (cu_digest c)
         \<and> (cu_lease_release_eligible c \<longrightarrow> cu_group_dead c \<and> cu_resources_absent c)
         \<and> \<not> (\<exists>k \<in> set (db_cleanups db). cu_id k = cu_id c \<or> cu_digest k = cu_digest c
               \<or> (cu_attempt k = cu_attempt c \<and> cu_sequence k = cu_sequence c))
         \<and> find_row (db_attempts db) (cu_attempt c) \<noteq> None
         \<and> (\<exists>x \<in> set (db_contexts db). ctx_id x = cu_context c \<and> ctx_attempt x = cu_attempt c)
         \<and> (\<exists>e \<in> set (db_evidence db). ev_id e = cu_evidence c \<and> ev_attempt e = Some (cu_attempt c))
      then Inr (db\<lparr>db_cleanups := db_cleanups db @ [c]\<rparr>)
      else Inl (Sql_Constraint False))"

definition next_cleanup_sequence :: "state_db \<Rightarrow> string \<Rightarrow> int" where
  "next_cleanup_sequence db i =
     foldr max (map cu_sequence (filter (\<lambda>c. cu_attempt c = i) (db_cleanups db))) 0 + 1"

definition cleanup_evidence_of ::
  "store_env \<Rightarrow> AttemptOwnershipCommandPayload \<Rightarrow> string \<Rightarrow> string \<Rightarrow> string \<Rightarrow> string \<Rightarrow> evidence_row" where
  "cleanup_evidence_of env p ctx record_id evidence payload =
     \<lparr>ev_id = evidence, ev_attempt = Some (oc_attemptId p), ev_phase = None, ev_context = ctx,
      ev_producer = CleanupService, ev_scope = record_id, ev_schema = ''rickgent.cleanup-record.v1'',
      ev_digest = env_sha256 env payload, ev_payload = Some payload, ev_external = None,
      ev_key = oc_idempotencyKey p, ev_created = env_now env\<rparr>"

definition cleanup_row_of ::
  "store_env \<Rightarrow> string \<Rightarrow> int \<Rightarrow> string \<Rightarrow> cleanup_terminal \<Rightarrow> string \<Rightarrow> string \<Rightarrow> string \<Rightarrow> string \<Rightarrow> cleanup_row" where
  "cleanup_row_of env i sequence ctx t observed evidence record_id payload =
     \<lparr>cu_id = record_id, cu_attempt = i, cu_sequence = sequence, cu_context = ctx,
      cu_outcome = cleanup_outcome_text t, cu_group_dead = True, cu_resources_absent = True,
      cu_lease_release_eligible = True, cu_observed_oid = observed, cu_evidence = evidence,
      cu_digest = env_sha256 env payload\<rparr>"

definition recordAuthorizedCleanupFinalization ::
  "store_env \<Rightarrow> AttemptOwnershipCommandPayload \<Rightarrow> cleanup_terminal \<Rightarrow> state_db \<Rightarrow> (store_error, state_db) result" where
  "recordAuthorizedCleanupFinalization env p t db =
     (case (oc_contextId p, oc_cleanupProofDigest p, oc_deliveryObservedOid p) of
        (Some ctx, Some digest, Some observed) \<Rightarrow>
          let i = oc_attemptId p; record_id = ''cleanup-record-'' @ drop 7 digest;
              evidence = ''cleanup-evidence-'' @ drop 7 digest; sequence = next_cleanup_sequence db i in
          rbind (ensure_that (cleanup_context db i ctx) illegal) (\<lambda>_.
          rbind (canonical_text (cleanup_payload_js i sequence ctx t observed evidence)) (\<lambda>payload.
          rbind (insert_evidence (cleanup_evidence_of env p ctx record_id evidence payload) db) (\<lambda>db1.
          insert_cleanup (cleanup_row_of env i sequence ctx t observed evidence record_id payload) db1)))
      | _ \<Rightarrow> Inl TypeErr)"

section \<open>Snapshots of the terminal rows\<close>

definition LeaseAuthority :: service where
  "LeaseAuthority = OtherService ''LeaseAuthority''"

text \<open>Prefix, schema, identity, version and row of each snapshot, leases first.\<close>

definition terminal_snapshots :: "string \<Rightarrow> state_db \<Rightarrow> (string \<times> string \<times> string \<times> int \<times> jsval) list" where
  "terminal_snapshots i db =
     map (\<lambda>r. (''attempt-ownership-lease'', ''rickgent.attempt-ownership-lease-snapshot.v2'', ow_id r, ow_version r, ownership_js r))
       (sort_key ow_generation (filter (\<lambda>r. ow_attempt r = i) (db_ownerships db)))
     @ map (\<lambda>c. (''attempt-resource-claim'', ''rickgent.attempt-resource-claim-snapshot.v2'', cl_id c, cl_version c, claim_js c))
       (current_claims db i)"

definition snapshot_evidence ::
  "store_env \<Rightarrow> string \<Rightarrow> string \<Rightarrow> string \<times> string \<times> string \<times> int \<times> jsval \<Rightarrow> string \<Rightarrow> evidence_row" where
  "snapshot_evidence env i ctx snapshot payload =
     (let (scope_prefix, schema, identity, version, _) = snapshot; digest = env_sha256 env payload;
          scope = scope_prefix @ '':'' @ identity @ '':version:'' @ show_int version in
      \<lparr>ev_id = scope_prefix @ ''-snapshot-'' @ drop 7 digest, ev_attempt = Some i, ev_phase = None,
       ev_context = ctx, ev_producer = LeaseAuthority, ev_scope = scope, ev_schema = schema,
       ev_digest = digest, ev_payload = Some payload, ev_external = None, ev_key = scope,
       ev_created = env_now env\<rparr>)"

definition record_snapshot ::
  "store_env \<Rightarrow> string \<Rightarrow> string \<Rightarrow> state_db \<Rightarrow> string \<times> string \<times> string \<times> int \<times> jsval \<Rightarrow> (store_error, state_db) result" where
  "record_snapshot env i ctx db snapshot =
     (let (_, _, _, _, row) = snapshot in
      rbind (canonical_text row) (\<lambda>payload.
      let e = snapshot_evidence env i ctx snapshot payload in
      case find (\<lambda>x. ev_id x = ev_id e \<or> (ev_producer x = LeaseAuthority \<and> ev_scope x = ev_scope e \<and> ev_key x = ev_scope e))
             (db_evidence db) of
        Some x \<Rightarrow>
          if x\<lparr>ev_created := ev_created e\<rparr> = e then Inr db else Inl (StateErr IdempotencyConflict)
      | None \<Rightarrow> rbind (validate_evidence_row env e) (\<lambda>_. insert_evidence e db)))"

fun record_snapshots ::
  "store_env \<Rightarrow> string \<Rightarrow> string \<Rightarrow> state_db \<Rightarrow> (string \<times> string \<times> string \<times> int \<times> jsval) list
    \<Rightarrow> (store_error, state_db) result" where
  "record_snapshots env i ctx db [] = Inr db"
| "record_snapshots env i ctx db (s # ss) =
     rbind (record_snapshot env i ctx db s) (\<lambda>db'. record_snapshots env i ctx db' ss)"

section \<open>Release and quarantine\<close>

definition requireDeliveryObservation ::
  "store_env \<Rightarrow> AttemptOwnershipCommandPayload \<Rightarrow> AttemptWorkspacePlan \<Rightarrow> state_db \<Rightarrow> (store_error, unit) result" where
  "requireDeliveryObservation env p plan db =
     (let l = wp_lineage plan in
      case (oc_deliveryRef p, oc_deliveryObservedOid p) of
        (Some ref, Some observed) \<Rightarrow>
          if ref \<noteq> ol_deliveryRef l then Inl (StateErr OwnerMismatch)
          else
            rbind (assertRepositoryOid env observed) (\<lambda>_.
            case find_row (db_runs db) (ol_runId l) of
              None \<Rightarrow> Inl (StateErr StateConflict)
            | Some r \<Rightarrow>
                if run_repository r \<noteq> sl_repositoryId (env_location env) \<or> run_delivery_ref r \<noteq> ref
                   \<or> run_current_oid r \<noteq> observed
                then Inl (StateErr StateConflict)
                else
                  case env_rev_parse env ref of
                    None \<Rightarrow> Inl illegal
                  | Some x \<Rightarrow> ensure_that (x = observed) (StateErr StateConflict))
      | _ \<Rightarrow> Inl (StateErr OwnerMismatch))"

definition finalize_claim ::
  "cleanup_terminal \<Rightarrow> string \<Rightarrow> string \<Rightarrow> ownership_row \<Rightarrow> state_db \<Rightarrow> claim_row \<Rightarrow> (store_error, state_db) result" where
  "finalize_claim t digest i r db c =
     rbind (move_claims (cleanup_resource_state t)
              (\<lambda>x. x\<lparr>cl_release_proof := (if t = CleanupReleased then Some digest else None),
                    cl_quarantine_proof := (if t = CleanupQuarantined then Some digest else None)\<rparr>)
              (\<lambda>x. cl_id x = cl_id c \<and> cl_attempt x = i \<and> cl_ownership x = ow_id r \<and> cl_generation x = ow_generation r
                 \<and> cl_state x = RCleanupPending \<and> cl_version x = cl_version c) db) (\<lambda>(db', changes).
     if changes \<noteq> 1 then Inl (StateErr StateConflict) else Inr db')"

fun finalize_claims ::
  "cleanup_terminal \<Rightarrow> string \<Rightarrow> string \<Rightarrow> ownership_row \<Rightarrow> state_db \<Rightarrow> claim_row list \<Rightarrow> (store_error, state_db) result" where
  "finalize_claims t digest i r db [] = Inr db"
| "finalize_claims t digest i r db (c # cs) =
     rbind (finalize_claim t digest i r db c) (\<lambda>db'. finalize_claims t digest i r db' cs)"

definition finalize_owner ::
  "cleanup_terminal \<Rightarrow> AttemptOwnershipCommandPayload \<Rightarrow> ownership_row \<Rightarrow> state_db \<Rightarrow> (store_error, state_db) result" where
  "finalize_owner t p r db =
     rbind (move_leases (cleanup_lease_state t)
              (\<lambda>x. ow_id x = ow_id r \<and> ow_attempt x = oc_attemptId p \<and> ow_token_digest x = oc_ownerTokenDigest p
                 \<and> ow_state x = LCleanupPending \<and> ow_version x = ow_version r) db) (\<lambda>(db', changes).
     if changes \<noteq> 1 then Inl (StateErr StateConflict) else Inr db')"

definition finalizeAttemptOwnershipCleanup ::
  "store_env \<Rightarrow> AttemptOwnershipCommandPayload \<Rightarrow> string \<Rightarrow> string \<Rightarrow> state_db
    \<Rightarrow> (store_error, state_db \<times> AttemptOwnershipStoreResult) result" where
  "finalizeAttemptOwnershipCleanup env p canonicalInput inputDigest db =
     (let i = oc_attemptId p; t = (if oc_kind p = OpRelease then CleanupReleased else CleanupQuarantined) in
      rbind (requireCurrentOwnership p db) (\<lambda>r.
      rbind (requireOwnershipPreimage p r) (\<lambda>_.
      if ow_state r \<noteq> LCleanupPending then Inl illegal
      else if expired env (ow_expires r) then Inl (StateErr OwnerMismatch)
      else
        case oc_cleanupProofDigest p of
          None \<Rightarrow> Inl TypeErr
        | Some digest \<Rightarrow>
            if \<not> is_digest digest then Inl TypeErr
            else
              rbind (requireCleanupResourcePreimage env p r True db) (\<lambda>claims.
              rbind (requireCleanupProcessProof env i (ow_id r) (oc_processReceiptId p) (oc_groupDeathEvidenceId p) db) (\<lambda>proof.
              rbind (requireAuthorizedSalvageRecord env i (ow_id r) (oc_salvageRecordId p) proof None db) (\<lambda>_.
              rbind (attemptOwnershipPlan env db i) (\<lambda>plan.
              rbind (requireDeliveryObservation env p plan db) (\<lambda>_.
              rbind (requireAttemptRefAbsent env i db) (\<lambda>_.
              rbind (recordAuthorizedCleanupFinalization env p t db) (\<lambda>db1.
              rbind (finalize_claims t digest i r db1 claims) (\<lambda>db2.
              rbind (finalize_owner t p r db2) (\<lambda>db3.
              rbind (record_snapshots env i (the (oc_contextId p)) db3 (terminal_snapshots i db3)) (\<lambda>db4.
              recordOwnershipOperation env p (ow_id r) (purpose_of r) plan canonicalInput inputDigest db4)))))))))))))"

section \<open>Dispatch\<close>

definition ownership_operation ::
  "store_env \<Rightarrow> AttemptOwnershipCommandPayload \<Rightarrow> string \<Rightarrow> string \<Rightarrow> state_db
    \<Rightarrow> (store_error, state_db \<times> AttemptOwnershipStoreResult) result" where
  "ownership_operation env p canonicalInput inputDigest db =
     (case oc_kind p of
        OpAcquire \<Rightarrow> acquireAttemptOwnership env p canonicalInput inputDigest db
      | OpHeartbeat \<Rightarrow> heartbeatAttemptOwnership env p canonicalInput inputDigest db
      | OpAdvanceResource \<Rightarrow> advanceAttemptResourceClaim env p canonicalInput inputDigest db
      | OpBeginCleanup \<Rightarrow> beginAttemptOwnershipCleanup env p canonicalInput inputDigest db
      | OpRelease \<Rightarrow> finalizeAttemptOwnershipCleanup env p canonicalInput inputDigest db
      | OpQuarantine \<Rightarrow> finalizeAttemptOwnershipCleanup env p canonicalInput inputDigest db
      | OpStaleRecovery \<Rightarrow> recoverStaleAttemptOwnership env p canonicalInput inputDigest db
      | OpAssertCurrent \<Rightarrow> rbind (assertCurrentAttemptOwnership env p db) (\<lambda>result. Inr (db, result))
      | OpAssertCleanupReady \<Rightarrow> rbind (assertAttemptCleanupReady env p db) (\<lambda>result. Inr (db, result))
      | OpRecordSalvage \<Rightarrow> recordAuthorizedSalvage env p db)"

definition recorded_kind :: "ownership_kind \<Rightarrow> bool" where
  "recorded_kind k = (k \<notin> {OpAssertCurrent, OpAssertCleanupReady, OpRecordSalvage})"

definition commitAttemptOwnership ::
  "store_env \<Rightarrow> AttemptOwnershipCommandPayload \<Rightarrow> state_db \<Rightarrow> (store_error, state_db \<times> AttemptOwnershipStoreResult) result" where
  "commitAttemptOwnership env p db =
     rbind (canonicalOwnershipCommand env p) (\<lambda>canonicalInput.
     let inputDigest = env_sha256 env canonicalInput in
     if \<not> recorded_kind (oc_kind p) then ownership_operation env p canonicalInput inputDigest db
     else
       case find_operation db (oc_attemptId p) (oc_idempotencyKey p) of
         Some o' \<Rightarrow>
           if op_input_digest o' \<noteq> inputDigest \<or> op_input_json o' \<noteq> canonicalInput
           then Inl (StateErr IdempotencyConflict)
           else rbind (replayAttemptOwnershipResult env (oc_attemptId p) o' db) (\<lambda>result. Inr (db, result))
       | None \<Rightarrow> ownership_operation env p canonicalInput inputDigest db)"

definition commitAuthorizedAttemptOwnership ::
  "store_env \<Rightarrow> AttemptOwnershipCommandPayload \<Rightarrow> state_db
    \<Rightarrow> state_db \<times> (store_error, AttemptOwnershipStoreResult) result" where
  "commitAuthorizedAttemptOwnership env p db = immediate (commitAttemptOwnership env p) db"

end
