(* ===== verification/Lease_Ledger.thy ===== *)
theory Lease_Ledger
  imports Lease_Cleanup State_Steps
begin

text \<open>
  The abstract specification of ownership: the ledger of one attempt is the list of its ownership
  generations, oldest first, with its resource claims. \<open>ledger_step\<close> is the protocol a ledger may
  follow, \<open>ledger_ok\<close> and \<open>claims_ok\<close> are its invariant, and \<open>lease_inv\<close> lifts the invariant to the
  database: the constraints of the tables hold and every ledger is well formed.
\<close>

section \<open>Ledgers\<close>

definition leases_of :: "string \<Rightarrow> ownership_row list \<Rightarrow> ownership_row list" where
  "leases_of i rows = filter (\<lambda>r. ow_attempt r = i) rows"

definition claims_of :: "string \<Rightarrow> claim_row list \<Rightarrow> claim_row list" where
  "claims_of i rows = filter (\<lambda>c. cl_attempt c = i) rows"

type_synonym ledger = "ownership_row list \<times> claim_row list"

definition ledger_at :: "string \<Rightarrow> state_db \<Rightarrow> ledger" where
  "ledger_at i db = (leases_of i (db_ownerships db), claims_of i (db_claims db))"

lemma leases_of_append [simp]: "leases_of i (xs @ ys) = leases_of i xs @ leases_of i ys"
  by (simp add: leases_of_def)

lemma claims_of_append [simp]: "claims_of i (xs @ ys) = claims_of i xs @ claims_of i ys"
  by (simp add: claims_of_def)

lemma in_leases_of [simp]: "r \<in> set (leases_of i rows) \<longleftrightarrow> r \<in> set rows \<and> ow_attempt r = i"
  by (simp add: leases_of_def)

lemma in_claims_of [simp]: "c \<in> set (claims_of i rows) \<longleftrightarrow> c \<in> set rows \<and> cl_attempt c = i"
  by (simp add: claims_of_def)

lemma leases_of_empty: "leases_of i rows = [] \<longleftrightarrow> (\<forall>r \<in> set rows. ow_attempt r \<noteq> i)"
  by (auto simp: leases_of_def filter_empty_conv)

section \<open>Rows that follow one another\<close>

text \<open>A later version of the same row: the identity columns are immutable, the version does not decrease.\<close>

definition lease_kept :: "ownership_row \<Rightarrow> ownership_row \<Rightarrow> bool" where
  "lease_kept r s =
     (ow_id s = ow_id r \<and> ow_attempt s = ow_attempt r \<and> ow_generation s = ow_generation r
      \<and> ow_token_digest s = ow_token_digest r \<and> ow_context_digest s = ow_context_digest r
      \<and> ow_context_json s = ow_context_json r \<and> ow_recovered_from s = ow_recovered_from r
      \<and> ow_created s = ow_created r \<and> ow_version r \<le> ow_version s)"

definition claim_kept :: "claim_row \<Rightarrow> claim_row \<Rightarrow> bool" where
  "claim_kept c d =
     (cl_id d = cl_id c \<and> cl_attempt d = cl_attempt c \<and> cl_slot d = cl_slot c \<and> cl_kind d = cl_kind c
      \<and> cl_identity d = cl_identity c \<and> cl_identity_digest d = cl_identity_digest c
      \<and> cl_allocation d = cl_allocation c \<and> cl_created d = cl_created c \<and> cl_version c \<le> cl_version d)"

lemma lease_kept_refl [simp]: "lease_kept r r"
  by (simp add: lease_kept_def)

lemma claim_kept_refl [simp]: "claim_kept c c"
  by (simp add: claim_kept_def)

lemma lease_kept_trans: "lease_kept a b \<Longrightarrow> lease_kept b c \<Longrightarrow> lease_kept a c"
  by (simp add: lease_kept_def)

lemma claim_kept_trans: "claim_kept a b \<Longrightarrow> claim_kept b c \<Longrightarrow> claim_kept a c"
  by (simp add: claim_kept_def)

definition owned_by :: "ownership_row \<Rightarrow> claim_row \<Rightarrow> bool" where
  "owned_by r c = (cl_ownership c = ow_id r \<and> cl_generation c = ow_generation r)"

definition same_owner :: "claim_row \<Rightarrow> claim_row \<Rightarrow> bool" where
  "same_owner c d = (cl_ownership d = cl_ownership c \<and> cl_generation d = cl_generation c)"

definition working :: "claim_row \<Rightarrow> bool" where
  "working c = (cl_state c \<in> {RReserved, RAllocated, RActive})"

section \<open>The protocol of a ledger\<close>

text \<open>
  A claim that advances under a live owner, one that is drawn into cleanup with its owner, one that is
  quarantined in place, one that ends with its owner, and one that a new owner takes over.
\<close>

definition claim_advances :: "claim_row \<Rightarrow> claim_row \<Rightarrow> bool" where
  "claim_advances c d = (d = c \<or> (claim_kept c d \<and> same_owner c d \<and> working c \<and> working d))"

definition claim_cleans :: "claim_row \<Rightarrow> claim_row \<Rightarrow> bool" where
  "claim_cleans c d = (claim_kept c d \<and> same_owner c d \<and> cl_state d = RCleanupPending)"

definition claim_condemned :: "claim_row \<Rightarrow> claim_row \<Rightarrow> bool" where
  "claim_condemned c d =
     (d = c \<or> (claim_kept c d \<and> same_owner c d \<and> cl_state c = RCleanupPending \<and> cl_state d = RQuarantined))"

definition claim_ends :: "cleanup_terminal \<Rightarrow> string \<Rightarrow> claim_row \<Rightarrow> claim_row \<Rightarrow> bool" where
  "claim_ends t digest c d =
     (claim_kept c d \<and> same_owner c d \<and> cl_state c = RCleanupPending \<and> cl_state d = cleanup_resource_state t
      \<and> cl_release_proof d = (if t = CleanupReleased then Some digest else None)
      \<and> cl_quarantine_proof d = (if t = CleanupQuarantined then Some digest else None))"

definition claim_inherited :: "ownership_row \<Rightarrow> claim_row \<Rightarrow> claim_row \<Rightarrow> bool" where
  "claim_inherited new c d =
     (if claim_is_held c then claim_kept c d \<and> owned_by new d \<and> cl_state d = RCleanupPending else d = c)"

inductive ledger_step :: "ledger \<Rightarrow> ledger \<Rightarrow> bool" where
  opened: "ow_generation r = 1 \<Longrightarrow> ow_recovered_from r = None \<Longrightarrow> ow_state r = LLive
     \<Longrightarrow> (\<And>c. c \<in> set cs \<Longrightarrow> owned_by r c \<and> cl_state c = RReserved)
     \<Longrightarrow> ledger_step ([], []) ([r], cs)"
| extended: "lease_kept r r' \<Longrightarrow> ow_state r = LLive \<Longrightarrow> ow_state r' = LLive
     \<Longrightarrow> ledger_step (rs @ [r], cs) (rs @ [r'], cs)"
| advanced: "ow_state r = LLive \<Longrightarrow> ow_recovered_from r = None \<Longrightarrow> list_all2 claim_advances cs ds
     \<Longrightarrow> ledger_step (rs @ [r], cs) (rs @ [r], ds)"
| cleanup_begun: "lease_kept r r' \<Longrightarrow> ow_state r = LLive \<Longrightarrow> ow_state r' = LCleanupPending
     \<Longrightarrow> list_all2 claim_cleans cs ds \<Longrightarrow> ledger_step (rs @ [r], cs) (rs @ [r'], ds)"
| finished: "lease_kept r r' \<Longrightarrow> ow_state r = LCleanupPending \<Longrightarrow> ow_state r' = cleanup_lease_state t
     \<Longrightarrow> list_all2 (claim_ends t digest) cs ds \<Longrightarrow> ledger_step (rs @ [r], cs) (rs @ [r'], ds)"
| fenced: "lease_kept r r' \<Longrightarrow> lease_is_current r \<Longrightarrow> ow_state r' = LQuarantined
     \<Longrightarrow> ow_generation new = ow_generation r + 1 \<Longrightarrow> ow_recovered_from new = Some (ow_id r)
     \<Longrightarrow> ow_state new = LCleanupPending \<Longrightarrow> list_all2 (claim_inherited new) cs ds
     \<Longrightarrow> ledger_step (rs @ [r], cs) (rs @ [r', new], ds)"
| condemned: "list_all2 claim_condemned cs ds \<Longrightarrow> ledger_step (rs, cs) (rs, ds)"
| abandoned: "lease_kept r r' \<Longrightarrow> ow_state r = LCleanupPending \<Longrightarrow> ow_state r' = LQuarantined
     \<Longrightarrow> ledger_step (rs @ [r], cs) (rs @ [r'], cs)"

section \<open>The invariant of a ledger\<close>

text \<open>Generations are numbered from one, each recovered from the one before, which is quarantined.\<close>

definition ledger_ok :: "ownership_row list \<Rightarrow> bool" where
  "ledger_ok rs =
     (map ow_generation rs = map int [1..<length rs + 1]
      \<and> map ow_recovered_from rs = take (length rs) (None # map (\<lambda>r. Some (ow_id r)) rs)
      \<and> (\<forall>r \<in> set (butlast rs). ow_state r = LQuarantined))"

text \<open>A held claim belongs to the newest generation, and its state follows the state of that owner.\<close>

fun owner_admits :: "lease_state \<Rightarrow> resource_state \<Rightarrow> bool" where
  "owner_admits LLive s = (s \<in> {RReserved, RAllocated, RActive})"
| "owner_admits LCleanupPending s = (s \<in> {RCleanupPending, RQuarantined})"
| "owner_admits LReleased s = (s = RReleased)"
| "owner_admits LQuarantined s = (s \<in> {RCleanupPending, RQuarantined})"
| "owner_admits LReserved s = False"

definition claims_ok :: "ownership_row list \<Rightarrow> claim_row list \<Rightarrow> bool" where
  "claims_ok rs cs =
     (\<forall>c \<in> set cs. rs \<noteq> [] \<and> owner_admits (ow_state (last rs)) (cl_state c)
        \<and> (claim_is_held c \<longrightarrow> owned_by (last rs) c))"

definition ledger_inv :: "ledger \<Rightarrow> bool" where
  "ledger_inv l = (ledger_ok (fst l) \<and> claims_ok (fst l) (snd l))"

lemma ledger_ok_replaced:
  assumes "ledger_ok (rs @ [r])" "lease_kept r r'"
  shows "ledger_ok (rs @ [r'])"
  using assms by (auto simp: ledger_ok_def lease_kept_def butlast_append take_Cons')

lemma ledger_ok_grown:
  assumes "ledger_ok (rs @ [r])" "ow_state r = LQuarantined" "ow_generation new = ow_generation r + 1"
    "ow_recovered_from new = Some (ow_id r)"
  shows "ledger_ok (rs @ [r, new])"
proof -
  have "map ow_generation (rs @ [r]) = map int [1..<length (rs @ [r]) + 1]"
    using assms(1) by (simp only: ledger_ok_def)
  then have g: "map ow_generation rs = map int [1..<length rs + 1]" "ow_generation r = int (length rs) + 1"
    by (simp_all add: upt_Suc_append del: upt_Suc)
  have "map ow_recovered_from (rs @ [r]) = take (length rs + 1) (None # map (\<lambda>r. Some (ow_id r)) (rs @ [r]))"
    using assms(1) by (simp add: ledger_ok_def)
  then have c: "map ow_recovered_from rs @ [ow_recovered_from r] = None # map (\<lambda>r. Some (ow_id r)) rs"
    by simp
  have "map ow_recovered_from (rs @ [r, new]) = None # map (\<lambda>r. Some (ow_id r)) rs @ [Some (ow_id r)]"
    using c assms(4) by (metis append.assoc append_Cons append_Nil list.simps(8,9) map_append)
  moreover have "map ow_generation (rs @ [r, new]) = map int [1..<length (rs @ [r, new]) + 1]"
    using g assms(3) by (simp add: upt_Suc_append del: upt_Suc)
  moreover have "\<forall>x \<in> set (butlast (rs @ [r, new])). ow_state x = LQuarantined"
    using assms(1,2) by (auto simp: ledger_ok_def butlast_append)
  ultimately show ?thesis by (simp add: ledger_ok_def)
qed

lemma ledger_ok_current:
  assumes "ledger_ok rs" "r \<in> set rs" "ow_state r \<noteq> LQuarantined"
  shows "\<exists>qs. rs = qs @ [r]"
proof -
  have "rs \<noteq> []" using assms(2) by auto
  then have "rs = butlast rs @ [last rs]" by simp
  moreover have "r = last rs"
    using assms \<open>rs \<noteq> []\<close> unfolding ledger_ok_def by (metis append_butlast_last_id in_set_conv_decomp in_set_butlastD
        butlast_append list.distinct(1) last_snoc rotate1.simps(2) set_rotate1 set_ConsD)
  ultimately show ?thesis by metis
qed

lemma list_all2_pointwise: "list_all2 R xs ys \<Longrightarrow> y \<in> set ys \<Longrightarrow> \<exists>x \<in> set xs. R x y"
  by (induction rule: list_all2_induct) auto

lemma held_working: "working c \<Longrightarrow> claim_is_held c"
  by (auto simp: working_def claim_is_held_def)

lemma ledger_step_inv:
  assumes "ledger_step l l'" "ledger_inv l"
  shows "ledger_inv l'"
  using assms
proof (induction rule: ledger_step.induct)
  case (opened r cs)
  then show ?case by (auto simp: ledger_inv_def ledger_ok_def claims_ok_def)
next
  case (extended r r' rs cs)
  then show ?case
    using ledger_ok_replaced [of rs r r'] by (auto simp: ledger_inv_def claims_ok_def owned_by_def lease_kept_def)
next
  case (advanced r cs ds rs)
  have "owner_admits LLive (cl_state d) \<and> (claim_is_held d \<longrightarrow> owned_by r d)" if d: "d \<in> set ds" for d
  proof -
    obtain c where c: "c \<in> set cs" "claim_advances c d" using list_all2_pointwise [OF advanced.hyps(3) d] by blast
    then have "owner_admits LLive (cl_state c)" "claim_is_held c \<longrightarrow> owned_by r c"
      using advanced.prems advanced.hyps(1) by (auto simp: ledger_inv_def claims_ok_def)
    with c(2) held_working [of c] show ?thesis
      by (auto simp: claim_advances_def same_owner_def owned_by_def working_def)
  qed
  with advanced show ?case by (auto simp: ledger_inv_def claims_ok_def)
next
  case (cleanup_begun r r' cs ds rs)
  have "owned_by r' d \<and> cl_state d = RCleanupPending" if d: "d \<in> set ds" for d
  proof -
    obtain c where c: "c \<in> set cs" "claim_cleans c d" using list_all2_pointwise [OF cleanup_begun.hyps(4) d] by blast
    then have "owner_admits LLive (cl_state c)" "claim_is_held c \<longrightarrow> owned_by r c"
      using cleanup_begun.prems cleanup_begun.hyps(2) by (auto simp: ledger_inv_def claims_ok_def)
    then have "owned_by r c" by (auto simp: claim_is_held_def)
    with c(2) cleanup_begun.hyps(1) show ?thesis
      by (auto simp: claim_cleans_def same_owner_def owned_by_def lease_kept_def)
  qed
  with cleanup_begun show ?case
    using ledger_ok_replaced [of rs r r'] by (auto simp: ledger_inv_def claims_ok_def)
next
  case (finished r r' t digest cs ds rs)
  have "owner_admits (ow_state r') (cl_state d) \<and> \<not> claim_is_held d" if d: "d \<in> set ds" for d
  proof -
    obtain c where "c \<in> set cs" "claim_ends t digest c d" using list_all2_pointwise [OF finished.hyps(4) d] by blast
    with finished.hyps(3) show ?thesis by (cases t) (auto simp: claim_ends_def claim_is_held_def)
  qed
  with finished show ?case
    using ledger_ok_replaced [of rs r r'] by (auto simp: ledger_inv_def claims_ok_def)
next
  case (fenced r r' new cs ds rs)
  have "owner_admits LCleanupPending (cl_state d) \<and> (claim_is_held d \<longrightarrow> owned_by new d)" if d: "d \<in> set ds" for d
  proof -
    obtain c where c: "c \<in> set cs" "claim_inherited new c d" using list_all2_pointwise [OF fenced.hyps(7) d] by blast
    then have "owner_admits (ow_state r) (cl_state c)" using fenced.prems by (auto simp: ledger_inv_def claims_ok_def)
    with c(2) fenced.hyps(2) show ?thesis
      by (auto simp: claim_inherited_def claim_is_held_def lease_is_current_def split: if_splits)
  qed
  moreover have "ledger_ok (rs @ [r', new])"
    using fenced ledger_ok_replaced [of rs r r'] by (auto simp: ledger_inv_def lease_kept_def intro!: ledger_ok_grown)
  ultimately show ?case using fenced.hyps(6) by (auto simp: ledger_inv_def claims_ok_def)
next
  case (condemned cs ds rs)
  have "rs \<noteq> [] \<and> owner_admits (ow_state (last rs)) (cl_state d) \<and> (claim_is_held d \<longrightarrow> owned_by (last rs) d)"
    if d: "d \<in> set ds" for d
  proof -
    obtain c where c: "c \<in> set cs" "claim_condemned c d" using list_all2_pointwise [OF condemned.hyps(1) d] by blast
    then have "rs \<noteq> []" "owner_admits (ow_state (last rs)) (cl_state c)" "claim_is_held c \<longrightarrow> owned_by (last rs) c"
      using condemned.prems by (auto simp: ledger_inv_def claims_ok_def)
    with c(2) show ?thesis
      by (cases "ow_state (last rs)") (auto simp: claim_condemned_def claim_is_held_def)
  qed
  with condemned.prems show ?case by (auto simp: ledger_inv_def claims_ok_def)
next
  case (abandoned r r' rs cs)
  then show ?case
    using ledger_ok_replaced [of rs r r'] by (auto simp: ledger_inv_def claims_ok_def owned_by_def lease_kept_def)
qed

end
