(* ===== verification/Lease_Refinement.thy ===== *)
theory Lease_Refinement
  imports Lease_Ledger
begin

text \<open>
  The ownership operations of the store implement the protocol of a ledger: each changes the ledger of
  one attempt by a \<open>ledger_step\<close> and leaves every other ledger as it is, so the invariant holds in
  every database the operations reach.
\<close>

section \<open>The invariant of the tables\<close>

definition lease_inv :: "state_db \<Rightarrow> bool" where
  "lease_inv db =
     (lease_table_ok (db_ownerships db) \<and> claim_table_ok (db_ownerships db) (db_claims db)
      \<and> (\<forall>i. ledger_inv (ledger_at i db)))"

definition ledger_effect :: "string \<Rightarrow> state_db \<Rightarrow> state_db \<Rightarrow> bool" where
  "ledger_effect i db db' =
     (lease_table_ok (db_ownerships db') \<and> claim_table_ok (db_ownerships db') (db_claims db')
      \<and> (\<forall>j. j \<noteq> i \<longrightarrow> ledger_at j db' = ledger_at j db) \<and> ledger_step (ledger_at i db) (ledger_at i db'))"

lemma ledger_effect_inv: "ledger_effect i db db' \<Longrightarrow> lease_inv db \<Longrightarrow> lease_inv db'"
  unfolding lease_inv_def ledger_effect_def by (metis ledger_step_inv)

section \<open>Updates of one row\<close>

lemma filter_map_keep:
  "(\<And>x. x \<in> set xs \<Longrightarrow> Q (h x) = Q x) \<Longrightarrow> filter Q (map h xs) = map h (filter Q xs)"
  by (induction xs) auto

lemma distinct_map_eq: "distinct (map f xs) \<Longrightarrow> x \<in> set xs \<Longrightarrow> y \<in> set xs \<Longrightarrow> f x = f y \<Longrightarrow> x = y"
  by (meson distinct_map inj_onD)

lemma map_if_absent: "(\<And>x. x \<in> set xs \<Longrightarrow> \<not> P x) \<Longrightarrow> map (\<lambda>x. if P x then g x else x) xs = xs"
  by (induction xs) auto

lemma leases_of_update:
  assumes rows: "distinct (map ow_id rows)" "leases_of i rows = rs @ [r]"
    and P: "\<And>x. P x \<Longrightarrow> ow_id x = ow_id r" "P r" and g: "ow_attempt (g r) = ow_attempt r"
  shows "leases_of i (map (\<lambda>x. if P x then g x else x) rows) = rs @ [g r]"
    and "j \<noteq> i \<Longrightarrow> leases_of j (map (\<lambda>x. if P x then g x else x) rows) = leases_of j rows"
proof -
  let ?h = "\<lambda>x. if P x then g x else x"
  have r: "r \<in> set rows" "ow_attempt r = i" using rows(2) in_leases_of [of r i rows] by simp_all
  have only: "x = r" if "x \<in> set rows" "P x" for x
    using distinct_map_eq [OF rows(1) that(1) r(1)] P(1) [OF that(2)] by simp
  have keep: "leases_of j (map ?h rows) = map ?h (leases_of j rows)" for j
    unfolding leases_of_def by (rule filter_map_keep) (use only g in auto)
  have "distinct (leases_of i rows)"
    using rows(1) unfolding leases_of_def by (intro distinct_filter) (simp add: distinct_map)
  then have "r \<notin> set rs" using rows(2) by simp
  moreover have "set rs \<subseteq> set rows" using rows(2) by (metis Un_iff in_leases_of set_append subsetI)
  ultimately have "map ?h rs = rs" by (intro map_if_absent) (use only in blast)
  then show "leases_of i (map ?h rows) = rs @ [g r]" using keep [of i] rows(2) P(2) by simp
  show "leases_of j (map ?h rows) = leases_of j rows" if "j \<noteq> i"
    unfolding keep by (rule map_if_absent) (use only that r(2) in auto)
qed

lemma claims_of_update:
  assumes "\<And>c. c \<in> set rows \<Longrightarrow> P c \<Longrightarrow> cl_attempt c = i \<and> cl_attempt (g c) = i"
  shows "claims_of i (map (\<lambda>c. if P c then g c else c) rows) = map (\<lambda>c. if P c then g c else c) (claims_of i rows)"
    and "j \<noteq> i \<Longrightarrow> claims_of j (map (\<lambda>c. if P c then g c else c) rows) = claims_of j rows"
proof -
  have keep: "claims_of j (map (\<lambda>c. if P c then g c else c) rows) = map (\<lambda>c. if P c then g c else c) (claims_of j rows)" for j
    unfolding claims_of_def by (rule filter_map_keep) (use assms in auto)
  then show "claims_of i (map (\<lambda>c. if P c then g c else c) rows) = map (\<lambda>c. if P c then g c else c) (claims_of i rows)" .
  show "claims_of j (map (\<lambda>c. if P c then g c else c) rows) = claims_of j rows" if "j \<noteq> i"
    unfolding keep by (rule map_if_absent) (use assms that in auto)
qed

lemma claim_table_ok_leases:
  assumes "claim_table_ok L C"
    and "\<And>r. r \<in> set L \<Longrightarrow> \<exists>s \<in> set L'. ow_id s = ow_id r \<and> ow_attempt s = ow_attempt r \<and> ow_generation s = ow_generation r"
  shows "claim_table_ok L' C"
proof -
  have "claim_references L' c" if c: "claim_references L c" for c
    using c assms(2) unfolding claim_references_def by metis
  with assms(1) show ?thesis by (auto simp: claim_table_ok_def list_all_iff)
qed

section \<open>Statements\<close>

abbreviation bump_lease :: "(ownership_row \<Rightarrow> ownership_row) \<Rightarrow> ownership_row \<Rightarrow> ownership_row" where
  "bump_lease f r \<equiv> (f r)\<lparr>ow_version := ow_version r + 1\<rparr>"

abbreviation bump_claim :: "(claim_row \<Rightarrow> claim_row) \<Rightarrow> claim_row \<Rightarrow> claim_row" where
  "bump_claim f c \<equiv> (f c)\<lparr>cl_version := cl_version c + 1\<rparr>"

lemma touch_leases_Inr:
  "touch_leases f P db = Inr (db', n) \<longleftrightarrow>
     (let rows = map (\<lambda>r. if P r then bump_lease f r else r) (db_ownerships db)
      in lease_table_ok rows \<and> db' = db\<lparr>db_ownerships := rows\<rparr> \<and> n = length (filter P (db_ownerships db)))"
  by (auto simp: touch_leases_def store_leases_def rbind_Inr_iff Let_def)

lemma move_leases_Inr:
  "move_leases t P db = Inr (db', n) \<longleftrightarrow>
     (\<forall>r \<in> set (db_ownerships db). P r \<longrightarrow> ownership_legal_edge (ow_state r) t)
     \<and> touch_leases (\<lambda>r. r\<lparr>ow_state := t\<rparr>) P db = Inr (db', n)"
  by (auto simp: move_leases_def)

lemma touch_claims_Inr:
  "touch_claims f P db = Inr (db', n) \<longleftrightarrow>
     (let rows = map (\<lambda>c. if P c then bump_claim f c else c) (db_claims db)
      in claim_table_ok (db_ownerships db) rows \<and> db' = db\<lparr>db_claims := rows\<rparr> \<and> n = length (filter P (db_claims db)))"
  by (auto simp: touch_claims_def store_claims_def rbind_Inr_iff Let_def)

lemma move_claims_Inr:
  "move_claims t f P db = Inr (db', n) \<longleftrightarrow>
     (\<forall>c \<in> set (db_claims db). P c \<longrightarrow> claim_legal_edge (cl_state c) t)
     \<and> touch_claims (\<lambda>c. f (c\<lparr>cl_state := t\<rparr>)) P db = Inr (db', n)"
  by (auto simp: move_claims_def)

lemma find_leaseD: "find_lease db o' i = Some r \<Longrightarrow> r \<in> set (db_ownerships db) \<and> ow_id r = o' \<and> ow_attempt r = i"
  by (auto simp: find_lease_def dest: find_Some_in)

lemma find_claimD: "find_claim db i k = Some c \<Longrightarrow> c \<in> set (db_claims db) \<and> cl_attempt c = i \<and> cl_slot c = k"
  by (auto simp: find_claim_def dest: find_Some_in)

lemma requireCurrentOwnershipD:
  "requireCurrentOwnership p db = Inr r \<Longrightarrow>
     r \<in> set (db_ownerships db) \<and> ow_attempt r = oc_attemptId p \<and> oc_ownershipId p = Some (ow_id r)
     \<and> ow_token_digest r = oc_ownerTokenDigest p"
  by (auto simp: requireCurrentOwnership_def split: option.splits if_splits dest: find_leaseD)

lemma lease_inv_ids: "lease_inv db \<Longrightarrow> distinct (map ow_id (db_ownerships db))"
  by (simp add: lease_inv_def lease_table_ok_def)

lemma lease_inv_claim_ids: "lease_inv db \<Longrightarrow> distinct (map cl_id (db_claims db))"
  by (simp add: lease_inv_def claim_table_ok_def)

lemma current_is_last:
  assumes "lease_inv db" "r \<in> set (db_ownerships db)" "ow_state r \<noteq> LQuarantined"
  shows "\<exists>rs. leases_of (ow_attempt r) (db_ownerships db) = rs @ [r]"
proof (rule ledger_ok_current)
  show "ledger_ok (leases_of (ow_attempt r) (db_ownerships db))"
    using assms(1) by (auto simp: lease_inv_def ledger_inv_def ledger_at_def)
qed (use assms in simp_all)

text \<open>A record of an operation changes neither table.\<close>

lemma recordOwnershipOperation_Inr:
  assumes "recordOwnershipOperation env p ownership purpose plan input digest db = Inr (db', res)"
  shows "\<exists>o'. db' = db\<lparr>db_operations := db_operations db @ [o']\<rparr>"
  using assms
  by (auto simp: recordOwnershipOperation_def insert_operation_def rbind_Inr_iff Let_def split: option.splits if_splits)

lemma ledger_effect_cong:
  "db_ownerships db'' = db_ownerships db' \<Longrightarrow> db_claims db'' = db_claims db'
     \<Longrightarrow> ledger_effect i db db'' = ledger_effect i db db'"
  by (simp add: ledger_effect_def ledger_at_def)

text \<open>An update of the current lease of an attempt.\<close>

lemma lease_update_effect:
  assumes inv: "lease_inv db" and r: "r \<in> set (db_ownerships db)" "ow_state r \<noteq> LQuarantined"
    and touched: "touch_leases f P db1 = Inr (db', n)" "db_ownerships db1 = db_ownerships db"
      "claim_table_ok (db_ownerships db) (db_claims db1)"
    and P: "\<And>x. P x \<Longrightarrow> ow_id x = ow_id r" "P r"
    and f: "\<And>x. ow_id (f x) = ow_id x \<and> ow_attempt (f x) = ow_attempt x \<and> ow_generation (f x) = ow_generation x"
  obtains rs where "leases_of (ow_attempt r) (db_ownerships db) = rs @ [r]"
    "leases_of (ow_attempt r) (db_ownerships db') = rs @ [bump_lease f r]"
    "\<And>j. j \<noteq> ow_attempt r \<Longrightarrow> leases_of j (db_ownerships db') = leases_of j (db_ownerships db)"
    "lease_table_ok (db_ownerships db')" "claim_table_ok (db_ownerships db') (db_claims db')" "db_claims db' = db_claims db1"
proof -
  obtain rs where rs: "leases_of (ow_attempt r) (db_ownerships db) = rs @ [r]" using current_is_last [OF inv r] by blast
  have rows: "db_ownerships db' = map (\<lambda>x. if P x then bump_lease f x else x) (db_ownerships db)"
    "lease_table_ok (db_ownerships db')" "db_claims db' = db_claims db1"
    using touched(1,2) by (auto simp: touch_leases_Inr Let_def)
  note update = leases_of_update [where g = "bump_lease f" and P = P and r = r, OF lease_inv_ids [OF inv] rs P]
  have "claim_table_ok (db_ownerships db') (db_claims db')"
    unfolding rows(3) using touched(3)
  proof (rule claim_table_ok_leases)
    fix x assume "x \<in> set (db_ownerships db)"
    then have "(if P x then bump_lease f x else x) \<in> set (db_ownerships db')" unfolding rows(1) by simp
    then show "\<exists>y \<in> set (db_ownerships db'). ow_id y = ow_id x \<and> ow_attempt y = ow_attempt x \<and> ow_generation y = ow_generation x"
      by (rule bexI [rotated]) (simp add: f)
  qed
  then show thesis using that rs update rows f by simp
qed

lemma list_all2_mapI: "(\<And>x. x \<in> set xs \<Longrightarrow> R x (h x)) \<Longrightarrow> list_all2 R xs (map h xs)"
  by (simp add: list_all2_map2 list_all2_same)

section \<open>Acquisition\<close>

lemma claim_table_ok_grown: "claim_table_ok L C \<Longrightarrow> claim_table_ok (L @ [r]) C"
  by (erule claim_table_ok_leases) auto

lemma insert_claims_Inr:
  "insert_claims db cs = Inr db' \<Longrightarrow> claim_table_ok (db_ownerships db) (db_claims db)
     \<Longrightarrow> db' = db\<lparr>db_claims := db_claims db @ cs\<rparr> \<and> claim_table_ok (db_ownerships db) (db_claims db @ cs)"
proof (induction cs arbitrary: db)
  case (Cons c cs)
  then obtain db1 where db1: "insert_claim db c = Inr db1" "insert_claims db1 cs = Inr db'"
    by (auto simp: rbind_Inr_iff)
  then have "db1 = db\<lparr>db_claims := db_claims db @ [c]\<rparr>" "claim_table_ok (db_ownerships db) (db_claims db @ [c])"
    by (auto simp: insert_claim_def store_claims_def split: if_splits)
  with Cons.IH [OF db1(2)] show ?case by simp
qed simp

lemma insert_lease_Inr:
  "insert_lease r db = Inr db' \<Longrightarrow>
     db' = db\<lparr>db_ownerships := db_ownerships db @ [r]\<rparr> \<and> lease_table_ok (db_ownerships db @ [r])"
  by (auto simp: insert_lease_def store_leases_def split: if_splits)

lemma acquire_writes:
  assumes "acquireAttemptOwnership env p input digest db = Inr (db', res)"
  shows "\<exists>plan ownership ctx expiresAt db1 db2. attemptOwnershipAdmission env db (oc_attemptId p) = Inr plan
    \<and> (\<forall>r \<in> set (db_ownerships db). ow_attempt r \<noteq> oc_attemptId p)
    \<and> insert_lease \<lparr>ow_id = ownership, ow_attempt = oc_attemptId p, ow_generation = 1, ow_token_digest = oc_ownerTokenDigest p,
           ow_context_digest = snd ctx, ow_context_json = fst ctx, ow_recovered_from = None,
           ow_heartbeat = env_now env, ow_expires = expiresAt, ow_state = LLive, ow_version = 0,
           ow_created = env_now env\<rparr> db = Inr db1
    \<and> insert_claims db1 (map (reserved_claim (oc_attemptId p) ownership 1 (env_now env)) (wp_resources plan)) = Inr db2
    \<and> recordOwnershipOperation env p ownership Execution plan input digest db2 = Inr (db', res)"
proof -
  from assms obtain plan ownership json dg expiresAt db1 db2 where
    "attemptOwnershipAdmission env db (oc_attemptId p) = Inr plan"
    "\<not> (\<exists>r \<in> set (db_ownerships db). ow_attempt r = oc_attemptId p)"
    "insert_lease \<lparr>ow_id = ownership, ow_attempt = oc_attemptId p, ow_generation = 1, ow_token_digest = oc_ownerTokenDigest p,
           ow_context_digest = dg, ow_context_json = json, ow_recovered_from = None,
           ow_heartbeat = env_now env, ow_expires = expiresAt, ow_state = LLive, ow_version = 0,
           ow_created = env_now env\<rparr> db = Inr db1"
    "insert_claims db1 (map (reserved_claim (oc_attemptId p) ownership 1 (env_now env)) (wp_resources plan)) = Inr db2"
    "recordOwnershipOperation env p ownership Execution plan input digest db2 = Inr (db', res)"
    by (auto simp: acquireAttemptOwnership_def Let_def rbind_Inr_iff split: if_splits)
  then show ?thesis by (intro exI [of _ plan] exI [of _ ownership] exI [of _ "(json, dg)"] exI [of _ expiresAt]
      exI [of _ db1] exI [of _ db2]) simp
qed

lemma acquire_effect:
  assumes acquired: "acquireAttemptOwnership env p input digest db = Inr (db', res)" and inv: "lease_inv db"
  shows "ledger_effect (oc_attemptId p) db db'"
proof -
  define i where "i = oc_attemptId p"
  obtain plan ownership ctx expiresAt db1 db2 r where none: "\<forall>r \<in> set (db_ownerships db). ow_attempt r \<noteq> i"
    and r: "r = \<lparr>ow_id = ownership, ow_attempt = i, ow_generation = 1, ow_token_digest = oc_ownerTokenDigest p,
           ow_context_digest = snd ctx, ow_context_json = fst ctx, ow_recovered_from = None,
           ow_heartbeat = env_now env, ow_expires = expiresAt, ow_state = LLive, ow_version = 0,
           ow_created = env_now env\<rparr>"
    and lease: "insert_lease r db = Inr db1"
    and claims: "insert_claims db1 (map (reserved_claim i ownership 1 (env_now env)) (wp_resources plan)) = Inr db2"
    and op: "recordOwnershipOperation env p ownership Execution plan input digest db2 = Inr (db', res)"
    using acquire_writes [OF acquired] unfolding i_def by metis
  let ?cs = "map (reserved_claim i ownership 1 (env_now env)) (wp_resources plan)"
  have db1: "db1 = db\<lparr>db_ownerships := db_ownerships db @ [r]\<rparr>" "lease_table_ok (db_ownerships db @ [r])"
    using insert_lease_Inr [OF lease] by simp_all
  have "claim_table_ok (db_ownerships db1) (db_claims db1)"
    using inv claim_table_ok_grown by (simp add: db1 lease_inv_def)
  then have db2: "db2 = db1\<lparr>db_claims := db_claims db1 @ ?cs\<rparr>" "claim_table_ok (db_ownerships db1) (db_claims db1 @ ?cs)"
    using insert_claims_Inr [OF claims] by simp_all
  have L: "leases_of i (db_ownerships db) = []" using none by (simp add: leases_of_empty)
  have "claims_ok (leases_of i (db_ownerships db)) (claims_of i (db_claims db))"
    using inv by (simp add: lease_inv_def ledger_inv_def ledger_at_def)
  then have "claims_of i (db_claims db) = []" unfolding L claims_ok_def using list.set_sel(1) by blast
  moreover have "claims_of i ?cs = ?cs" "\<And>j. j \<noteq> i \<Longrightarrow> claims_of j ?cs = []"
    by (auto simp: claims_of_def filter_id_conv filter_empty_conv reserved_claim_def)
  ultimately have "ledger_step (ledger_at i db) (ledger_at i db2)" "\<forall>j. j \<noteq> i \<longrightarrow> ledger_at j db2 = ledger_at j db"
    using L by (auto simp: ledger_at_def db1 db2 r leases_of_def owned_by_def reserved_claim_def intro!: ledger_step.opened)
  then have "ledger_effect i db db2" using db1 db2 by (simp add: ledger_effect_def)
  then show ?thesis
    using recordOwnershipOperation_Inr [OF op] ledger_effect_cong [of db' db2] unfolding i_def by auto
qed

section \<open>Heartbeat, advance and the begin of cleanup\<close>

lemma heartbeat_writes:
  assumes "heartbeatAttemptOwnership env p input digest db = Inr (db', res)"
  shows "\<exists>r h e db1 n plan. requireCurrentOwnership p db = Inr r \<and> ow_state r = LLive \<and> ow_recovered_from r = None
    \<and> \<not> expired env (ow_expires r)
    \<and> touch_leases (\<lambda>x. x\<lparr>ow_heartbeat := h, ow_expires := e\<rparr>)
          (\<lambda>x. ow_id x = ow_id r \<and> ow_token_digest x = oc_ownerTokenDigest p \<and> ow_state x = LLive
             \<and> ow_version x = ow_version r) db = Inr (db1, n)
    \<and> recordOwnershipOperation env p (ow_id r) Execution plan input digest db1 = Inr (db', res)"
  using assms by (auto simp: heartbeatAttemptOwnership_def Let_def rbind_Inr_iff split: if_splits)

lemma heartbeat_effect:
  assumes beat: "heartbeatAttemptOwnership env p input digest db = Inr (db', res)" and inv: "lease_inv db"
  shows "ledger_effect (oc_attemptId p) db db'"
proof -
  obtain r h e db1 n plan where cur: "requireCurrentOwnership p db = Inr r" and r: "ow_state r = LLive"
    and touched: "touch_leases (\<lambda>x. x\<lparr>ow_heartbeat := h, ow_expires := e\<rparr>)
          (\<lambda>x. ow_id x = ow_id r \<and> ow_token_digest x = oc_ownerTokenDigest p \<and> ow_state x = LLive
             \<and> ow_version x = ow_version r) db = Inr (db1, n)"
    and op: "recordOwnershipOperation env p (ow_id r) Execution plan input digest db1 = Inr (db', res)"
    using heartbeat_writes [OF beat] by blast
  note r' = requireCurrentOwnershipD [OF cur]
  obtain rs where rs: "leases_of (ow_attempt r) (db_ownerships db) = rs @ [r]"
    "leases_of (ow_attempt r) (db_ownerships db1) = rs @ [bump_lease (\<lambda>x. x\<lparr>ow_heartbeat := h, ow_expires := e\<rparr>) r]"
    "\<And>j. j \<noteq> ow_attempt r \<Longrightarrow> leases_of j (db_ownerships db1) = leases_of j (db_ownerships db)"
    "lease_table_ok (db_ownerships db1)" "claim_table_ok (db_ownerships db1) (db_claims db1)" "db_claims db1 = db_claims db"
    by (rule lease_update_effect [OF inv _ _ touched]) (use r r' inv in \<open>auto simp: lease_inv_def\<close>)
  have "ledger_step (ledger_at (ow_attempt r) db) (ledger_at (ow_attempt r) db1)"
    unfolding ledger_at_def rs(1,2,6) by (rule ledger_step.extended) (simp_all add: r lease_kept_def)
  then have "ledger_effect (ow_attempt r) db db1" using rs by (simp add: ledger_effect_def ledger_at_def)
  then show ?thesis using recordOwnershipOperation_Inr [OF op] ledger_effect_cong [of db' db1] r' by auto
qed

lemma only_claims: "db' = db\<lparr>db_claims := C\<rparr> \<Longrightarrow> db_ownerships db' = db_ownerships db"
  by simp

text \<open>An update of claims of one attempt.\<close>

lemma claims_update_effect:
  assumes touched: "touch_claims f P db = Inr (db', n)"
    and P: "\<And>c. c \<in> set (db_claims db) \<Longrightarrow> P c \<Longrightarrow> cl_attempt c = i" and f: "\<And>c. cl_attempt (f c) = cl_attempt c"
  shows "claims_of i (db_claims db') = map (\<lambda>c. if P c then bump_claim f c else c) (claims_of i (db_claims db))"
    "j \<noteq> i \<Longrightarrow> claims_of j (db_claims db') = claims_of j (db_claims db)"
    "claim_table_ok (db_ownerships db) (db_claims db')" "db' = db\<lparr>db_claims := db_claims db'\<rparr>"
    "n = length (filter P (db_claims db))"
proof -
  have rows: "db' = db\<lparr>db_claims := map (\<lambda>c. if P c then bump_claim f c else c) (db_claims db)\<rparr>"
    "claim_table_ok (db_ownerships db) (map (\<lambda>c. if P c then bump_claim f c else c) (db_claims db))"
    "n = length (filter P (db_claims db))"
    using touched by (auto simp: touch_claims_Inr Let_def)
  note update = claims_of_update [where rows = "db_claims db" and P = P and g = "bump_claim f" and i = i]
  show "claims_of i (db_claims db') = map (\<lambda>c. if P c then bump_claim f c else c) (claims_of i (db_claims db))"
    using update(1) P f rows(1) by simp
  show "claims_of j (db_claims db') = claims_of j (db_claims db)" if "j \<noteq> i"
    using update(2) [OF _ that] P f rows(1) by simp
qed (use touched in \<open>auto simp: touch_claims_Inr Let_def\<close>)

lemma advance_writes:
  assumes "advanceAttemptResourceClaim env p input digest db = Inr (db', res)"
  shows "\<exists>r c t db1 n plan. requireCurrentOwnership p db = Inr r \<and> c \<in> set (db_claims db) \<and> cl_attempt c = oc_attemptId p
    \<and> oc_slot p = Some (cl_slot c) \<and> oc_toResourceState p = Some t
    \<and> cl_ownership c = ow_id r \<and> cl_generation c = ow_generation r
    \<and> (cl_state c, t) \<in> {(RReserved, RAllocated), (RAllocated, RActive)}
    \<and> ow_state r = LLive \<and> ow_recovered_from r = None \<and> \<not> expired env (ow_expires r)
    \<and> move_claims t (\<lambda>x. x\<lparr>cl_release_proof := None, cl_quarantine_proof := None\<rparr>)
          (\<lambda>x. cl_id x = cl_id c \<and> cl_ownership x = ow_id r \<and> cl_generation x = ow_generation r
             \<and> cl_state x = cl_state c \<and> cl_version x = cl_version c) db = Inr (db1, n)
    \<and> recordOwnershipOperation env p (ow_id r) (purpose_of r) plan input digest db1 = Inr (db', res)"
proof -
  obtain r where r: "requireCurrentOwnership p db = Inr r"
    using assms by (auto simp: advanceAttemptResourceClaim_def rbind_Inr_iff)
  obtain slot s v t where o': "oc_slot p = Some slot" "oc_expectedResourceState p = Some s"
    "oc_expectedResourceVersion p = Some v" "oc_toResourceState p = Some t"
    using assms r unfolding advanceAttemptResourceClaim_def
    by (cases "oc_slot p"; cases "oc_expectedResourceState p"; cases "oc_expectedResourceVersion p"; cases "oc_toResourceState p"; simp)
  obtain c where c: "find_claim db (oc_attemptId p) slot = Some c"
    using assms r o' unfolding advanceAttemptResourceClaim_def by (cases "find_claim db (oc_attemptId p) slot"; simp)
  show ?thesis
    using assms find_claimD [OF c] unfolding advanceAttemptResourceClaim_def r rbind_simps o' prod.case option.case c
    by (intro exI [of _ r] exI [of _ c] exI [of _ t]) (simp add: r o' rbind_Inr_iff split: if_splits; fastforce)
qed

lemma advance_effect:
  assumes adv: "advanceAttemptResourceClaim env p input digest db = Inr (db', res)" and inv: "lease_inv db"
  shows "ledger_effect (oc_attemptId p) db db'"
proof -
  obtain r c t db1 n plan where cur: "requireCurrentOwnership p db = Inr r"
    and c: "c \<in> set (db_claims db)" "cl_attempt c = oc_attemptId p"
      "(cl_state c, t) \<in> {(RReserved, RAllocated), (RAllocated, RActive)}"
    and r: "ow_state r = LLive" "ow_recovered_from r = None"
    and moved: "move_claims t (\<lambda>x. x\<lparr>cl_release_proof := None, cl_quarantine_proof := None\<rparr>)
          (\<lambda>x. cl_id x = cl_id c \<and> cl_ownership x = ow_id r \<and> cl_generation x = ow_generation r
             \<and> cl_state x = cl_state c \<and> cl_version x = cl_version c) db = Inr (db1, n)"
    and op: "recordOwnershipOperation env p (ow_id r) (purpose_of r) plan input digest db1 = Inr (db', res)"
    using advance_writes [OF adv] by blast
  let ?i = "oc_attemptId p"
  let ?P = "\<lambda>x. cl_id x = cl_id c \<and> cl_ownership x = ow_id r \<and> cl_generation x = ow_generation r
             \<and> cl_state x = cl_state c \<and> cl_version x = cl_version c"
  note r' = requireCurrentOwnershipD [OF cur]
  have only: "x = c" if "x \<in> set (db_claims db)" "?P x" for x
    using distinct_map_eq [OF lease_inv_claim_ids [OF inv] that(1) c(1)] that(2) by simp
  obtain rs where rs: "leases_of ?i (db_ownerships db) = rs @ [r]"
    using current_is_last [OF inv, of r] r' r by auto
  have touched: "touch_claims (\<lambda>x. x\<lparr>cl_state := t, cl_release_proof := None, cl_quarantine_proof := None\<rparr>) ?P db = Inr (db1, n)"
    using moved by (simp add: move_claims_Inr)
  have new: "claims_of ?i (db_claims db1) = map (\<lambda>x. if ?P x then bump_claim
       (\<lambda>x. x\<lparr>cl_state := t, cl_release_proof := None, cl_quarantine_proof := None\<rparr>) x else x) (claims_of ?i (db_claims db))"
    "\<And>j. j \<noteq> ?i \<Longrightarrow> claims_of j (db_claims db1) = claims_of j (db_claims db)"
    "claim_table_ok (db_ownerships db) (db_claims db1)" "db1 = db\<lparr>db_claims := db_claims db1\<rparr>"
    using claims_update_effect [OF touched, of ?i] only c(2) by auto
  have "list_all2 claim_advances (claims_of ?i (db_claims db)) (claims_of ?i (db_claims db1))"
    unfolding new(1) by (rule list_all2_mapI) (use c(3) in \<open>auto simp: claim_advances_def claim_kept_def same_owner_def working_def\<close>)
  moreover have L: "db_ownerships db1 = db_ownerships db" by (rule only_claims [OF new(4)])
  ultimately have "ledger_step (ledger_at ?i db) (ledger_at ?i db1)"
    using rs ledger_step.advanced [OF r] by (simp add: ledger_at_def)
  with L have "ledger_effect ?i db db1" using new inv by (simp add: ledger_effect_def ledger_at_def lease_inv_def)
  then show ?thesis using recordOwnershipOperation_Inr [OF op] ledger_effect_cong [of db' db1] by auto
qed

lemma begin_writes:
  assumes "beginAttemptOwnershipCleanup env p input digest db = Inr (db', res)"
  shows "\<exists>r db1 db2 m n plan. requireCurrentOwnership p db = Inr r \<and> ow_state r = LLive
    \<and> move_claims RCleanupPending (\<lambda>x. x) (working_claim (oc_attemptId p) (ow_id r)) db = Inr (db1, m)
    \<and> move_leases LCleanupPending (\<lambda>x. ow_id x = ow_id r \<and> ow_token_digest x = oc_ownerTokenDigest p \<and> ow_state x = LLive
          \<and> ow_version x = ow_version r) db1 = Inr (db2, n)
    \<and> recordOwnershipOperation env p (ow_id r) (purpose_of r) plan input digest db2 = Inr (db', res)"
  using assms by (auto simp: beginAttemptOwnershipCleanup_def rbind_Inr_iff split: if_splits)

lemma live_claims:
  assumes inv: "lease_inv db" and rs: "leases_of i (db_ownerships db) = rs @ [r]" and c: "c \<in> set (claims_of i (db_claims db))"
  shows "owner_admits (ow_state r) (cl_state c)" "claim_is_held c \<Longrightarrow> owned_by r c"
proof -
  have "claims_ok (rs @ [r]) (claims_of i (db_claims db))"
    using inv rs unfolding lease_inv_def ledger_inv_def ledger_at_def by (metis fst_conv snd_conv)
  then show "owner_admits (ow_state r) (cl_state c)" "claim_is_held c \<Longrightarrow> owned_by r c"
    using c by (auto simp: claims_ok_def)
qed

lemma begin_effect:
  assumes begun: "beginAttemptOwnershipCleanup env p input digest db = Inr (db', res)" and inv: "lease_inv db"
  shows "ledger_effect (oc_attemptId p) db db'"
proof -
  let ?i = "oc_attemptId p"
  obtain r db1 db2 m n plan where cur: "requireCurrentOwnership p db = Inr r" and live: "ow_state r = LLive"
    and claims: "move_claims RCleanupPending (\<lambda>x. x) (working_claim ?i (ow_id r)) db = Inr (db1, m)"
    and leases: "move_leases LCleanupPending (\<lambda>x. ow_id x = ow_id r \<and> ow_token_digest x = oc_ownerTokenDigest p
          \<and> ow_state x = LLive \<and> ow_version x = ow_version r) db1 = Inr (db2, n)"
    and op: "recordOwnershipOperation env p (ow_id r) (purpose_of r) plan input digest db2 = Inr (db', res)"
    using begin_writes [OF begun] by blast
  note r' = requireCurrentOwnershipD [OF cur]
  have touched: "touch_claims (\<lambda>c. c\<lparr>cl_state := RCleanupPending\<rparr>) (working_claim ?i (ow_id r)) db = Inr (db1, m)"
    using claims by (simp add: move_claims_Inr)
  have new: "claims_of ?i (db_claims db1) = map (\<lambda>c. if working_claim ?i (ow_id r) c
       then bump_claim (\<lambda>c. c\<lparr>cl_state := RCleanupPending\<rparr>) c else c) (claims_of ?i (db_claims db))"
    "\<And>j. j \<noteq> ?i \<Longrightarrow> claims_of j (db_claims db1) = claims_of j (db_claims db)"
    "claim_table_ok (db_ownerships db) (db_claims db1)" "db1 = db\<lparr>db_claims := db_claims db1\<rparr>"
    using claims_update_effect [OF touched, of ?i] by (auto simp: working_claim_def)
  have L: "db_ownerships db1 = db_ownerships db" by (rule only_claims [OF new(4)])
  have moved: "touch_leases (\<lambda>x. x\<lparr>ow_state := LCleanupPending\<rparr>) (\<lambda>x. ow_id x = ow_id r \<and> ow_token_digest x = oc_ownerTokenDigest p
          \<and> ow_state x = LLive \<and> ow_version x = ow_version r) db1 = Inr (db2, n)"
    using leases by (simp add: move_leases_Inr)
  obtain rs where rs: "leases_of (ow_attempt r) (db_ownerships db) = rs @ [r]"
    "leases_of (ow_attempt r) (db_ownerships db2) = rs @ [bump_lease (\<lambda>x. x\<lparr>ow_state := LCleanupPending\<rparr>) r]"
    "\<And>j. j \<noteq> ow_attempt r \<Longrightarrow> leases_of j (db_ownerships db2) = leases_of j (db_ownerships db)"
    "lease_table_ok (db_ownerships db2)" "claim_table_ok (db_ownerships db2) (db_claims db2)" "db_claims db2 = db_claims db1"
    by (rule lease_update_effect [OF inv _ _ moved L new(3)]) (use live r' in auto)
  have "list_all2 claim_cleans (claims_of ?i (db_claims db)) (claims_of ?i (db_claims db1))"
    unfolding new(1)
  proof (rule list_all2_mapI)
    fix c assume c: "c \<in> set (claims_of ?i (db_claims db))"
    then have "cl_state c \<in> {RReserved, RAllocated, RActive}" using live_claims(1) [OF inv, of ?i rs r] rs(1) r' live by simp
    moreover from this have "owned_by r c"
      using live_claims(2) [OF inv, of ?i rs r] rs(1) r' c by (auto simp: claim_is_held_def)
    ultimately show "claim_cleans c (if working_claim ?i (ow_id r) c then bump_claim (\<lambda>c. c\<lparr>cl_state := RCleanupPending\<rparr>) c else c)"
      using c by (auto simp: working_claim_def owned_by_def claim_cleans_def claim_kept_def same_owner_def)
  qed
  then have "ledger_step (ledger_at ?i db) (ledger_at ?i db2)"
    using rs(1,2) r' live unfolding ledger_at_def rs(6) by (auto simp: lease_kept_def intro!: ledger_step.cleanup_begun)
  then have "ledger_effect ?i db db2" using rs new(2) r' by (simp add: ledger_effect_def ledger_at_def)
  then show ?thesis using recordOwnershipOperation_Inr [OF op] ledger_effect_cong [of db' db2] by auto
qed

section \<open>Finalization\<close>

text \<open>One claim named by its id.\<close>

lemma move_one_claim:
  assumes moved: "move_claims t f (\<lambda>x. cl_id x = cl_id c \<and> Q x) db = Inr (db', n)" "n = 1"
    and ids: "distinct (map cl_id (db_claims db))" "c \<in> set (db_claims db)"
  shows "db' = db\<lparr>db_claims := map (\<lambda>x. if cl_id x = cl_id c then bump_claim (\<lambda>x. f (x\<lparr>cl_state := t\<rparr>)) x else x) (db_claims db)\<rparr>"
    "claim_table_ok (db_ownerships db') (db_claims db')" "Q c" "claim_legal_edge (cl_state c) t"
proof -
  have rows: "db' = db\<lparr>db_claims := map (\<lambda>x. if cl_id x = cl_id c \<and> Q x then bump_claim (\<lambda>x. f (x\<lparr>cl_state := t\<rparr>)) x else x) (db_claims db)\<rparr>"
    "claim_table_ok (db_ownerships db') (db_claims db')" "length (filter (\<lambda>x. cl_id x = cl_id c \<and> Q x) (db_claims db)) = 1"
    "\<forall>x \<in> set (db_claims db). cl_id x = cl_id c \<and> Q x \<longrightarrow> claim_legal_edge (cl_state x) t"
    using moved by (auto simp: move_claims_Inr touch_claims_Inr Let_def)
  have only: "x = c" if "x \<in> set (db_claims db)" "cl_id x = cl_id c" for x
    using distinct_map_eq [OF ids(1) that(1) ids(2) that(2)] .
  obtain x where "x \<in> set (db_claims db)" "cl_id x = cl_id c" "Q x"
    using rows(3) by (metis (mono_tags, lifting) filter_False list.size(3) zero_neq_one)
  then show Q: "Q c" using only by blast
  then show "claim_legal_edge (cl_state c) t" using rows(4) ids(2) by simp
  show "claim_table_ok (db_ownerships db') (db_claims db')" by (rule rows(2))
  have "map (\<lambda>x. if cl_id x = cl_id c \<and> Q x then g x else x) (db_claims db)
      = map (\<lambda>x. if cl_id x = cl_id c then g x else x) (db_claims db)" for g
    by (rule map_cong) (use only Q in auto)
  with rows(1) show "db' = db\<lparr>db_claims := map (\<lambda>x. if cl_id x = cl_id c then bump_claim (\<lambda>x. f (x\<lparr>cl_state := t\<rparr>)) x else x) (db_claims db)\<rparr>"
    by simp
qed

abbreviation claim_end :: "cleanup_terminal \<Rightarrow> string \<Rightarrow> claim_row \<Rightarrow> claim_row" where
  "claim_end t digest \<equiv> bump_claim (\<lambda>x. x\<lparr>cl_state := cleanup_resource_state t,
     cl_release_proof := (if t = CleanupReleased then Some digest else None),
     cl_quarantine_proof := (if t = CleanupQuarantined then Some digest else None)\<rparr>)"

lemma finalize_claim_Inr:
  assumes ended: "finalize_claim t digest i r db c = Inr db'"
    and ids: "distinct (map cl_id (db_claims db))" "c \<in> set (db_claims db)"
  shows "db' = db\<lparr>db_claims := map (\<lambda>x. if cl_id x = cl_id c then claim_end t digest x else x) (db_claims db)\<rparr>"
    "claim_table_ok (db_ownerships db') (db_claims db')" "cl_attempt c = i" "cl_state c = RCleanupPending"
proof -
  obtain n where moved: "move_claims (cleanup_resource_state t)
      (\<lambda>x. x\<lparr>cl_release_proof := (if t = CleanupReleased then Some digest else None),
            cl_quarantine_proof := (if t = CleanupQuarantined then Some digest else None)\<rparr>)
      (\<lambda>x. cl_id x = cl_id c \<and> cl_attempt x = i \<and> cl_ownership x = ow_id r \<and> cl_generation x = ow_generation r
         \<and> cl_state x = RCleanupPending \<and> cl_version x = cl_version c) db = Inr (db', n)" "n = 1"
    using ended unfolding finalize_claim_def rbind_Inr_iff by (auto split: if_splits)
  note one = move_one_claim [where c = c, OF moved ids]
  show "db' = db\<lparr>db_claims := map (\<lambda>x. if cl_id x = cl_id c then claim_end t digest x else x) (db_claims db)\<rparr>"
    using one(1) by simp
  show "claim_table_ok (db_ownerships db') (db_claims db')" by (rule one(2))
  show "cl_attempt c = i" "cl_state c = RCleanupPending" using one(3) by simp_all
qed

lemma finalize_claims_Inr:
  assumes "finalize_claims t digest i r db cs = Inr db'" "distinct (map cl_id (db_claims db))"
    "distinct (map cl_id cs)" "set cs \<subseteq> set (db_claims db)" "claim_table_ok (db_ownerships db) (db_claims db)"
  shows "db' = db\<lparr>db_claims := map (\<lambda>x. if cl_id x \<in> cl_id ` set cs then claim_end t digest x else x) (db_claims db)\<rparr>
    \<and> claim_table_ok (db_ownerships db') (db_claims db')"
  using assms
proof (induction cs arbitrary: db)
  case (Cons c cs)
  then obtain db1 where db1: "finalize_claim t digest i r db c = Inr db1" "finalize_claims t digest i r db1 cs = Inr db'"
    by (auto simp: rbind_Inr_iff)
  have one: "db1 = db\<lparr>db_claims := map (\<lambda>x. if cl_id x = cl_id c then claim_end t digest x else x) (db_claims db)\<rparr>"
    "claim_table_ok (db_ownerships db1) (db_claims db1)"
    using finalize_claim_Inr(1,2) [OF db1(1) Cons.prems(2)] Cons.prems(4) by simp_all
  have fresh: "cl_id c \<notin> cl_id ` set cs" using Cons.prems(3) by auto
  have rest: "db' = db1\<lparr>db_claims := map (\<lambda>x. if cl_id x \<in> cl_id ` set cs then claim_end t digest x else x) (db_claims db1)\<rparr>
    \<and> claim_table_ok (db_ownerships db') (db_claims db')"
  proof (rule Cons.IH [OF db1(2)])
    show "distinct (map cl_id (db_claims db1))"
      using Cons.prems(2) by (simp add: one(1) comp_def if_distrib [of cl_id] cong: if_cong)
    show "set cs \<subseteq> set (db_claims db1)"
    proof
      fix x assume x: "x \<in> set cs"
      then have "cl_id x \<noteq> cl_id c" using fresh by (metis imageI)
      moreover have "x \<in> set (db_claims db)" using x Cons.prems(4) by auto
      ultimately show "x \<in> set (db_claims db1)" unfolding one(1) by simp
    qed
  qed (use Cons.prems(3) one(2) in simp_all)
  let ?F = "\<lambda>x. if cl_id x \<in> cl_id ` set cs then claim_end t digest x else x"
  let ?G = "\<lambda>x. if cl_id x = cl_id c then claim_end t digest x else x"
  have "map ?F (map ?G (db_claims db))
      = map (\<lambda>x. if cl_id x \<in> cl_id ` set (c # cs) then claim_end t digest x else x) (db_claims db)"
    unfolding map_map by (rule map_cong) (use fresh in simp_all)
  moreover have "db1\<lparr>db_claims := map ?F (db_claims db1)\<rparr> = db\<lparr>db_claims := map ?F (map ?G (db_claims db))\<rparr>"
    unfolding one(1) by (simp del: map_map)
  ultimately have "db' = db\<lparr>db_claims := map (\<lambda>x. if cl_id x \<in> cl_id ` set (c # cs) then claim_end t digest x else x) (db_claims db)\<rparr>"
    using conjunct1 [OF rest] by (simp only:)
  with rest show ?case by blast
qed simp

text \<open>The other tables an operation writes.\<close>

definition same_ledgers :: "state_db \<Rightarrow> state_db \<Rightarrow> bool" where
  "same_ledgers db db' = (db_ownerships db' = db_ownerships db \<and> db_claims db' = db_claims db)"

lemma insert_evidence_ledgers: "insert_evidence e db = Inr db' \<Longrightarrow> same_ledgers db db'"
  by (auto simp: insert_evidence_def same_ledgers_def split: if_splits)

lemma insert_cleanup_ledgers: "insert_cleanup c db = Inr db' \<Longrightarrow> same_ledgers db db'"
  unfolding insert_cleanup_def by (simp only: same_ledgers_def split: if_split_asm) auto

lemma same_ledgers_trans: "same_ledgers a b \<Longrightarrow> same_ledgers b c \<Longrightarrow> same_ledgers a c"
  by (simp add: same_ledgers_def)

lemma cleanup_finalization_ledgers:
  "recordAuthorizedCleanupFinalization env p t db = Inr db' \<Longrightarrow> same_ledgers db db'"
  unfolding recordAuthorizedCleanupFinalization_def Let_def
  by (cases "oc_contextId p"; cases "oc_cleanupProofDigest p"; cases "oc_deliveryObservedOid p")
    (auto simp: rbind_Inr_iff intro: same_ledgers_trans dest!: insert_evidence_ledgers insert_cleanup_ledgers)

lemma record_snapshots_ledgers: "record_snapshots env i ctx db ss = Inr db' \<Longrightarrow> same_ledgers db db'"
proof (induction ss arbitrary: db)
  case (Cons s ss)
  then obtain db1 where db1: "record_snapshot env i ctx db s = Inr db1" "record_snapshots env i ctx db1 ss = Inr db'"
    by (auto simp: rbind_Inr_iff)
  have "same_ledgers db db1"
    using db1(1) by (cases s)
      (auto simp: record_snapshot_def rbind_Inr_iff Let_def same_ledgers_def dest!: insert_evidence_ledgers
        split: option.splits if_splits)
  with Cons.IH [OF db1(2)] show ?case by (simp add: same_ledgers_def)
qed (simp add: same_ledgers_def)

definition finalize_terminal :: "AttemptOwnershipCommandPayload \<Rightarrow> cleanup_terminal" where
  "finalize_terminal p = (if oc_kind p = OpRelease then CleanupReleased else CleanupQuarantined)"

lemma requireCleanupClaimsD:
  assumes "requireCleanupClaims env i r db = Inr (plan, claims)"
  shows "attemptOwnershipPlan env db i = Inr plan \<and> claims = current_claims db i \<and> length claims = length (wp_resources plan)
    \<and> (\<forall>c \<in> set claims. owned_by r c \<and> cl_state c = RCleanupPending)"
  using assms by (auto simp: requireCleanupClaims_def rbind_Inr_iff Let_def owned_by_def split: if_splits)

lemma requireCleanupResourcePreimageD:
  assumes "requireCleanupResourcePreimage env p r required db = Inr claims"
  shows "\<exists>plan. requireCleanupClaims env (oc_attemptId p) r db = Inr (plan, claims)"
  using assms by (auto simp: requireCleanupResourcePreimage_def rbind_Inr_iff split: option.splits if_splits)

lemma finalize_writes:
  assumes "finalizeAttemptOwnershipCleanup env p input digest db = Inr (db', res)"
  shows "\<exists>r dg claims x s plan db1 db2 db3 db4. requireCurrentOwnership p db = Inr r \<and> ow_state r = LCleanupPending
    \<and> \<not> expired env (ow_expires r) \<and> oc_cleanupProofDigest p = Some dg \<and> is_digest dg
    \<and> requireCleanupResourcePreimage env p r True db = Inr claims
    \<and> requireCleanupProcessProof env (oc_attemptId p) (ow_id r) (oc_processReceiptId p) (oc_groupDeathEvidenceId p) db = Inr x
    \<and> requireAuthorizedSalvageRecord env (oc_attemptId p) (ow_id r) (oc_salvageRecordId p) x None db = Inr s
    \<and> requireDeliveryObservation env p plan db = Inr ()
    \<and> requireAttemptRefAbsent env (oc_attemptId p) db = Inr ()
    \<and> recordAuthorizedCleanupFinalization env p (finalize_terminal p) db = Inr db1
    \<and> finalize_claims (finalize_terminal p) dg (oc_attemptId p) r db1 claims = Inr db2
    \<and> finalize_owner (finalize_terminal p) p r db2 = Inr db3
    \<and> record_snapshots env (oc_attemptId p) (the (oc_contextId p)) db3 (terminal_snapshots (oc_attemptId p) db3) = Inr db4
    \<and> recordOwnershipOperation env p (ow_id r) (purpose_of r) plan input digest db4 = Inr (db', res)"
proof -
  obtain r where r: "requireCurrentOwnership p db = Inr r" "requireOwnershipPreimage p r = Inr ()" "ow_state r = LCleanupPending"
    "\<not> expired env (ow_expires r)"
    using assms by (auto simp: finalizeAttemptOwnershipCleanup_def rbind_Inr_iff Let_def split: if_splits)
  obtain dg where dg: "oc_cleanupProofDigest p = Some dg"
    using assms r unfolding finalizeAttemptOwnershipCleanup_def Let_def by (cases "oc_cleanupProofDigest p") simp_all
  have "is_digest dg"
    using assms r dg unfolding finalizeAttemptOwnershipCleanup_def Let_def by (cases "is_digest dg") simp_all
  then obtain claims x s plan db1 db2 db3 db4 where chain:
    "requireCleanupResourcePreimage env p r True db = Inr claims"
    "requireCleanupProcessProof env (oc_attemptId p) (ow_id r) (oc_processReceiptId p) (oc_groupDeathEvidenceId p) db = Inr x"
    "requireAuthorizedSalvageRecord env (oc_attemptId p) (ow_id r) (oc_salvageRecordId p) x None db = Inr s"
    "requireDeliveryObservation env p plan db = Inr ()"
    "requireAttemptRefAbsent env (oc_attemptId p) db = Inr ()"
    "recordAuthorizedCleanupFinalization env p (finalize_terminal p) db = Inr db1"
    "finalize_claims (finalize_terminal p) dg (oc_attemptId p) r db1 claims = Inr db2"
    "finalize_owner (finalize_terminal p) p r db2 = Inr db3"
    "record_snapshots env (oc_attemptId p) (the (oc_contextId p)) db3 (terminal_snapshots (oc_attemptId p) db3) = Inr db4"
    "recordOwnershipOperation env p (ow_id r) (purpose_of r) plan input digest db4 = Inr (db', res)"
    using assms r(3,4)
    unfolding finalizeAttemptOwnershipCleanup_def Let_def r(1,2) rbind_simps dg option.case finalize_terminal_def [symmetric]
    by (simp only: if_False not_not simp_thms not_True_eq_False rbind_Inr_iff)
      (elim exE conjE, rule that, (assumption | simp)+)
  with r dg \<open>is_digest dg\<close> show ?thesis by (intro exI conjI; (assumption | rule r dg chain | simp))
qed

lemma finalize_effect:
  assumes final: "finalizeAttemptOwnershipCleanup env p input digest db = Inr (db', res)" and inv: "lease_inv db"
  shows "ledger_effect (oc_attemptId p) db db'"
    and "\<exists>rs r dg plan. oc_cleanupProofDigest p = Some dg \<and> attemptOwnershipPlan env db (oc_attemptId p) = Inr plan
      \<and> leases_of (oc_attemptId p) (db_ownerships db') = rs @ [bump_lease (\<lambda>x. x\<lparr>ow_state := cleanup_lease_state (finalize_terminal p)\<rparr>) r]
      \<and> length (claims_of (oc_attemptId p) (db_claims db')) = length (wp_resources plan)
      \<and> (\<forall>d \<in> set (claims_of (oc_attemptId p) (db_claims db')). \<exists>c. owned_by r c \<and> claim_ends (finalize_terminal p) dg c d)"
proof -
  let ?i = "oc_attemptId p" and ?t = "finalize_terminal p"
  obtain r dg claims plan db1 db2 db3 db4 where cur: "requireCurrentOwnership p db = Inr r" and r: "ow_state r = LCleanupPending"
    and pre: "requireCleanupResourcePreimage env p r True db = Inr claims"
    and rec: "recordAuthorizedCleanupFinalization env p ?t db = Inr db1"
    and fc: "finalize_claims ?t dg ?i r db1 claims = Inr db2" and fo: "finalize_owner ?t p r db2 = Inr db3"
    and sn: "record_snapshots env ?i (the (oc_contextId p)) db3 (terminal_snapshots ?i db3) = Inr db4"
    and op: "recordOwnershipOperation env p (ow_id r) (purpose_of r) plan input digest db4 = Inr (db', res)"
    and dg: "oc_cleanupProofDigest p = Some dg"
    using finalize_writes [OF final] by blast
  note r' = requireCurrentOwnershipD [OF cur]
  obtain plan' where "requireCleanupClaims env ?i r db = Inr (plan', claims)" using requireCleanupResourcePreimageD [OF pre] ..
  note claims' = requireCleanupClaimsD [OF this]
  have claims: "claims = current_claims db ?i" "\<forall>c \<in> set claims. owned_by r c \<and> cl_state c = RCleanupPending"
    using claims' by blast+
  have db1: "db_ownerships db1 = db_ownerships db" "db_claims db1 = db_claims db"
    using cleanup_finalization_ledgers [OF rec] by (simp_all add: same_ledgers_def)
  have ids: "distinct (map cl_id claims)"
    using lease_inv_claim_ids [OF inv] unfolding claims(1) current_claims_def
    by (simp add: distinct_map inj_on_def)
  have in_claims: "set claims = {c \<in> set (db_claims db). cl_attempt c = ?i}"
    unfolding claims(1) current_claims_def by simp
  have ended: "db2 = db1\<lparr>db_claims := map (\<lambda>x. if cl_id x \<in> cl_id ` set claims then claim_end ?t dg x else x) (db_claims db1)\<rparr>
      \<and> claim_table_ok (db_ownerships db2) (db_claims db2)"
    by (rule finalize_claims_Inr [OF fc]) (use inv ids in_claims db1 in \<open>auto simp: lease_inv_def claim_table_ok_def\<close>)
  have named: "cl_id x \<in> cl_id ` set claims \<longleftrightarrow> cl_attempt x = ?i" if "x \<in> set (db_claims db)" for x
    using in_claims that distinct_map_eq [OF lease_inv_claim_ids [OF inv] that] by (auto simp: image_iff)
  have "map (\<lambda>x. if cl_id x \<in> cl_id ` set claims then claim_end ?t dg x else x) (db_claims db)
      = map (\<lambda>x. if cl_attempt x = ?i then claim_end ?t dg x else x) (db_claims db)"
    by (rule map_cong) (use named in simp_all)
  then have db2: "db_claims db2 = map (\<lambda>x. if cl_attempt x = ?i then claim_end ?t dg x else x) (db_claims db)"
    using conjunct1 [OF ended] db1(2) by simp
  have L2: "db_ownerships db2 = db_ownerships db" using conjunct1 [OF ended] db1(1) by simp
  then have C2: "claim_table_ok (db_ownerships db) (db_claims db2)" using conjunct2 [OF ended] by (simp only:)
  have moved: "\<exists>n. touch_leases (\<lambda>x. x\<lparr>ow_state := cleanup_lease_state ?t\<rparr>) (\<lambda>x. ow_id x = ow_id r \<and> ow_attempt x = ?i
      \<and> ow_token_digest x = oc_ownerTokenDigest p \<and> ow_state x = LCleanupPending \<and> ow_version x = ow_version r) db2 = Inr (db3, n)"
    using fo by (auto simp: finalize_owner_def rbind_Inr_iff move_leases_Inr split: if_splits)
  then obtain n where moved: "touch_leases (\<lambda>x. x\<lparr>ow_state := cleanup_lease_state ?t\<rparr>) (\<lambda>x. ow_id x = ow_id r \<and> ow_attempt x = ?i
      \<and> ow_token_digest x = oc_ownerTokenDigest p \<and> ow_state x = LCleanupPending \<and> ow_version x = ow_version r) db2 = Inr (db3, n)" ..
  obtain rs where rs: "leases_of (ow_attempt r) (db_ownerships db) = rs @ [r]"
    "leases_of (ow_attempt r) (db_ownerships db3) = rs @ [bump_lease (\<lambda>x. x\<lparr>ow_state := cleanup_lease_state ?t\<rparr>) r]"
    "\<And>j. j \<noteq> ow_attempt r \<Longrightarrow> leases_of j (db_ownerships db3) = leases_of j (db_ownerships db)"
    "lease_table_ok (db_ownerships db3)" "claim_table_ok (db_ownerships db3) (db_claims db3)" "db_claims db3 = db_claims db2"
    by (rule lease_update_effect [OF inv _ _ moved L2 C2]) (use r r' in auto)
  have new: "claims_of ?i (db_claims db3) = map (\<lambda>x. if cl_attempt x = ?i then claim_end ?t dg x else x) (claims_of ?i (db_claims db))"
    "\<And>j. j \<noteq> ?i \<Longrightarrow> claims_of j (db_claims db3) = claims_of j (db_claims db)"
    unfolding rs(6) db2 by (rule claims_of_update; simp)+
  have ends: "list_all2 (claim_ends ?t dg) (claims_of ?i (db_claims db)) (claims_of ?i (db_claims db3))"
    unfolding new(1) by (rule list_all2_mapI)
      (use claims(2) in_claims in \<open>auto simp: claim_ends_def claim_kept_def same_owner_def\<close>)
  then have "ledger_step (ledger_at ?i db) (ledger_at ?i db3)"
    using rs(1,2) r' r unfolding ledger_at_def by (auto simp: lease_kept_def intro!: ledger_step.finished)
  then have "ledger_effect ?i db db3" using rs new(2) r' by (simp add: ledger_effect_def ledger_at_def)
  moreover have same: "db_ownerships db' = db_ownerships db3" "db_claims db' = db_claims db3"
    using recordOwnershipOperation_Inr [OF op] record_snapshots_ledgers [OF sn] by (auto simp: same_ledgers_def)
  ultimately show "ledger_effect ?i db db'" using ledger_effect_cong [of db' db3] by simp
  have ended_by: "\<exists>c. owned_by r c \<and> claim_ends ?t dg c d" if d: "d \<in> set (claims_of ?i (db_claims db3))" for d
  proof -
    obtain c where "c \<in> set (claims_of ?i (db_claims db))" "claim_ends ?t dg c d" using list_all2_pointwise [OF ends d] by blast
    then show ?thesis using claims(2) in_claims by auto
  qed
  have "length claims = length (claims_of ?i (db_claims db))"
    by (simp add: claims(1) current_claims_def claims_of_def)
  moreover have "length claims = length (wp_resources plan')" using claims' by blast
  ultimately have count: "length (claims_of ?i (db_claims db3)) = length (wp_resources plan')"
    using list_all2_lengthD [OF ends] by (simp only:)
  show "\<exists>rs r dg plan. oc_cleanupProofDigest p = Some dg \<and> attemptOwnershipPlan env db ?i = Inr plan
      \<and> leases_of ?i (db_ownerships db') = rs @ [bump_lease (\<lambda>x. x\<lparr>ow_state := cleanup_lease_state ?t\<rparr>) r]
      \<and> length (claims_of ?i (db_claims db')) = length (wp_resources plan)
      \<and> (\<forall>d \<in> set (claims_of ?i (db_claims db')). \<exists>c. owned_by r c \<and> claim_ends ?t dg c d)"
    using dg conjunct1 [OF claims'] rs(2) r' count ended_by
    by (intro exI [of _ rs] exI [of _ r] exI [of _ dg] exI [of _ plan']) (simp add: same)
qed

section \<open>Recovery of a stale owner\<close>

lemma recover_writes:
  assumes "recoverStaleAttemptOwnership env p input digest db = Inr (db', res)"
  shows "\<exists>old evidence plan new db1. oc_expiredOwnershipId p = Some (ow_id old) \<and> oc_deathEvidenceId p = Some evidence
    \<and> find_lease db (ow_id old) (oc_attemptId p) = Some old \<and> lease_is_current old \<and> \<not> later_than (date_ms env (ow_expires old)) (Some (env_clock env))
    \<and> require_death_chain env (oc_attemptId p) old evidence db = Inr ()
    \<and> ow_attempt new = oc_attemptId p \<and> ow_generation new = ow_generation old + 1
    \<and> ow_recovered_from new = Some (ow_id old) \<and> ow_state new = LCleanupPending
    \<and> ow_token_digest new = oc_ownerTokenDigest p
    \<and> fence_owner (oc_attemptId p) old new db = Inr db1
    \<and> recordOwnershipOperation env p (ow_id new) RecoveryCleanup plan input digest db1 = Inr (db', res)"
proof -
  obtain expiredId evidence where o': "oc_expiredOwnershipId p = Some expiredId" "oc_deathEvidenceId p = Some evidence"
    using assms unfolding recoverStaleAttemptOwnership_def
    by (cases "oc_expiredOwnershipId p"; cases "oc_deathEvidenceId p"; simp)
  obtain plan where plan: "attemptOwnershipPlan env db (oc_attemptId p) = Inr plan"
    using assms o' by (auto simp: recoverStaleAttemptOwnership_def rbind_Inr_iff Let_def)
  obtain old where old: "find_lease db expiredId (oc_attemptId p) = Some old"
    using assms o' plan unfolding recoverStaleAttemptOwnership_def by (cases "find_lease db expiredId (oc_attemptId p)"; simp add: Let_def)
  have cur: "lease_is_current old" "\<not> later_than (date_ms env (ow_expires old)) (Some (env_clock env))"
    using assms by (auto simp: recoverStaleAttemptOwnership_def o' plan old Let_def split: if_splits)
  obtain ownership ctx db1 where rest: "require_death_chain env (oc_attemptId p) old evidence db = Inr ()"
    "fence_owner (oc_attemptId p) old (recovered_lease env p old ownership ctx) db = Inr db1"
    "recordOwnershipOperation env p ownership RecoveryCleanup plan input digest db1 = Inr (db', res)"
    using assms cur by (auto simp: recoverStaleAttemptOwnership_def o' plan old Let_def rbind_Inr_iff)
  moreover have "ow_id old = expiredId" using find_leaseD [OF old] by simp
  ultimately show ?thesis
    using o' old cur by (intro exI [of _ old] exI [of _ evidence] exI [of _ plan]
        exI [of _ "recovered_lease env p old ownership ctx"] exI [of _ db1]) (simp add: recovered_lease_def)
qed

lemma fence_writes:
  assumes "fence_owner i old new db = Inr db'"
  shows "\<exists>db1 db2 db3 m k l. move_leases LQuarantined (\<lambda>x. ow_id x = ow_id old \<and> ow_state x = ow_state old
          \<and> ow_version x = ow_version old) db = Inr (db1, m)
    \<and> insert_lease new db1 = Inr db2
    \<and> move_claims RCleanupPending (\<lambda>x. x\<lparr>cl_ownership := ow_id new, cl_generation := ow_generation new\<rparr>)
          (working_claim i (ow_id old)) db2 = Inr (db3, k)
    \<and> touch_claims (\<lambda>x. x\<lparr>cl_ownership := ow_id new, cl_generation := ow_generation new\<rparr>)
          (\<lambda>x. cl_attempt x = i \<and> cl_ownership x = ow_id old \<and> cl_state x = RCleanupPending) db3 = Inr (db', l)"
  using assms by (auto simp: fence_owner_def rbind_Inr_iff split: if_splits)

lemma fence_effect:
  assumes fence: "fence_owner i old new db = Inr db'" and inv: "lease_inv db"
    and old: "old \<in> set (db_ownerships db)" "ow_attempt old = i" "lease_is_current old"
    and new: "ow_attempt new = i" "ow_generation new = ow_generation old + 1" "ow_recovered_from new = Some (ow_id old)"
      "ow_state new = LCleanupPending"
  shows "ledger_effect i db db'"
    and "\<exists>qs. leases_of i (db_ownerships db) = qs @ [old]
      \<and> leases_of i (db_ownerships db') = qs @ [bump_lease (\<lambda>x. x\<lparr>ow_state := LQuarantined\<rparr>) old, new]
      \<and> list_all2 (claim_inherited new) (claims_of i (db_claims db)) (claims_of i (db_claims db'))"
proof -
  obtain db1 db2 db3 m k l where
    ml: "move_leases LQuarantined (\<lambda>x. ow_id x = ow_id old \<and> ow_state x = ow_state old \<and> ow_version x = ow_version old) db = Inr (db1, m)"
    and il: "insert_lease new db1 = Inr db2"
    and mc: "move_claims RCleanupPending (\<lambda>x. x\<lparr>cl_ownership := ow_id new, cl_generation := ow_generation new\<rparr>)
          (working_claim i (ow_id old)) db2 = Inr (db3, k)"
    and tc: "touch_claims (\<lambda>x. x\<lparr>cl_ownership := ow_id new, cl_generation := ow_generation new\<rparr>)
          (\<lambda>x. cl_attempt x = i \<and> cl_ownership x = ow_id old \<and> cl_state x = RCleanupPending) db3 = Inr (db', l)"
    using fence_writes [OF fence] by blast
  have moved: "touch_leases (\<lambda>x. x\<lparr>ow_state := LQuarantined\<rparr>) (\<lambda>x. ow_id x = ow_id old \<and> ow_state x = ow_state old
      \<and> ow_version x = ow_version old) db = Inr (db1, m)" using ml by (simp add: move_leases_Inr)
  have claims0: "claim_table_ok (db_ownerships db) (db_claims db)" using inv by (simp add: lease_inv_def)
  obtain rs where rs: "leases_of (ow_attempt old) (db_ownerships db) = rs @ [old]"
    "leases_of (ow_attempt old) (db_ownerships db1) = rs @ [bump_lease (\<lambda>x. x\<lparr>ow_state := LQuarantined\<rparr>) old]"
    "\<And>j. j \<noteq> ow_attempt old \<Longrightarrow> leases_of j (db_ownerships db1) = leases_of j (db_ownerships db)"
    "lease_table_ok (db_ownerships db1)" "claim_table_ok (db_ownerships db1) (db_claims db1)" "db_claims db1 = db_claims db"
    by (rule lease_update_effect [OF inv _ _ moved refl claims0]) (use old in \<open>auto simp: lease_is_current_def\<close>)
  have db2: "db2 = db1\<lparr>db_ownerships := db_ownerships db1 @ [new]\<rparr>" "lease_table_ok (db_ownerships db1 @ [new])"
    using insert_lease_Inr [OF il] by simp_all
  have ne: "ow_id new \<noteq> ow_id old"
  proof -
    have "bump_lease (\<lambda>x. x\<lparr>ow_state := LQuarantined\<rparr>) old \<in> set (db_ownerships db1)"
      using rs(2) by (metis in_leases_of in_set_conv_decomp)
    from imageI [OF this, of ow_id] have "ow_id old \<in> ow_id ` set (db_ownerships db1)" by simp
    with db2(2) show ?thesis by (auto simp: lease_table_ok_def)
  qed
  have mt: "touch_claims (\<lambda>x. x\<lparr>cl_state := RCleanupPending, cl_ownership := ow_id new, cl_generation := ow_generation new\<rparr>)
      (working_claim i (ow_id old)) db2 = Inr (db3, k)" using mc by (simp add: move_claims_Inr)
  let ?g = "bump_claim (\<lambda>x. x\<lparr>cl_state := RCleanupPending, cl_ownership := ow_id new, cl_generation := ow_generation new\<rparr>)"
  let ?h = "bump_claim (\<lambda>x. x\<lparr>cl_ownership := ow_id new, cl_generation := ow_generation new\<rparr>)"
  let ?Q = "\<lambda>x. cl_attempt x = i \<and> cl_ownership x = ow_id old \<and> cl_state x = RCleanupPending"
  have c3: "claims_of i (db_claims db3) = map (\<lambda>x. if working_claim i (ow_id old) x then ?g x else x) (claims_of i (db_claims db2))"
    "\<And>j. j \<noteq> i \<Longrightarrow> claims_of j (db_claims db3) = claims_of j (db_claims db2)" "db3 = db2\<lparr>db_claims := db_claims db3\<rparr>"
    using claims_update_effect [OF mt, of i] by (auto simp: working_claim_def)
  have c4: "claims_of i (db_claims db') = map (\<lambda>x. if ?Q x then ?h x else x) (claims_of i (db_claims db3))"
    "\<And>j. j \<noteq> i \<Longrightarrow> claims_of j (db_claims db') = claims_of j (db_claims db3)"
    "claim_table_ok (db_ownerships db3) (db_claims db')" "db' = db3\<lparr>db_claims := db_claims db'\<rparr>"
    using claims_update_effect [OF tc, of i] by auto
  have L: "db_ownerships db' = db_ownerships db1 @ [new]" "db_ownerships db3 = db_ownerships db1 @ [new]"
    using only_claims [OF c4(4)] only_claims [OF c3(3)] db2(1) by simp_all
  have C: "claims_of i (db_claims db2) = claims_of i (db_claims db)" "\<And>j. claims_of j (db_claims db2) = claims_of j (db_claims db)"
    using db2(1) rs(6) by simp_all
  have "claim_inherited new c ((\<lambda>x. if ?Q x then ?h x else x) (if working_claim i (ow_id old) c then ?g c else c))"
    if c: "c \<in> set (claims_of i (db_claims db))" for c
  proof -
    have "claim_is_held c \<Longrightarrow> owned_by old c" using live_claims(2) [OF inv rs(1)] c old(2) by simp
    then show ?thesis
      using c ne by (auto simp: claim_inherited_def claim_is_held_def owned_by_def working_claim_def claim_kept_def)
  qed
  then have inherited: "list_all2 (claim_inherited new) (claims_of i (db_claims db)) (claims_of i (db_claims db'))"
    unfolding c4(1) c3(1) C(1) map_map by (intro list_all2_mapI) (simp only: comp_def)
  have new_leases: "leases_of i (db_ownerships db') = rs @ [bump_lease (\<lambda>x. x\<lparr>ow_state := LQuarantined\<rparr>) old, new]"
    using rs(2) old(2) new(1) unfolding L(1) by (simp add: leases_of_def)
  with rs(1) old(2) inherited show "\<exists>qs. leases_of i (db_ownerships db) = qs @ [old]
      \<and> leases_of i (db_ownerships db') = qs @ [bump_lease (\<lambda>x. x\<lparr>ow_state := LQuarantined\<rparr>) old, new]
      \<and> list_all2 (claim_inherited new) (claims_of i (db_claims db)) (claims_of i (db_claims db'))" by blast
  from inherited have "ledger_step (ledger_at i db) (ledger_at i db')"
    using rs(1,2) old new unfolding ledger_at_def L(1) by (auto simp: lease_kept_def leases_of_def intro!: ledger_step.fenced)
  moreover have "ledger_at j db' = ledger_at j db" if "j \<noteq> i" for j
    using that rs(3) c4(2) c3(2) C(2) old(2) new(1) by (simp add: ledger_at_def L(1)) (simp add: leases_of_def)
  ultimately show "ledger_effect i db db'" using c4(3) db2(2) by (simp add: ledger_effect_def L)
qed

lemma recover_effect:
  assumes "recoverStaleAttemptOwnership env p input digest db = Inr (db', res)" "lease_inv db"
  shows "ledger_effect (oc_attemptId p) db db'"
proof -
  obtain old new plan db1 where "find_lease db (ow_id old) (oc_attemptId p) = Some old" "lease_is_current old"
    and new: "ow_attempt new = oc_attemptId p" "ow_generation new = ow_generation old + 1"
      "ow_recovered_from new = Some (ow_id old)" "ow_state new = LCleanupPending"
    and fence: "fence_owner (oc_attemptId p) old new db = Inr db1"
    and op: "recordOwnershipOperation env p (ow_id new) RecoveryCleanup plan input digest db1 = Inr (db', res)"
    using recover_writes [OF assms(1)] by blast
  then have "ledger_effect (oc_attemptId p) db db1"
    using fence_effect(1) [OF fence assms(2) _ _ _ new] find_leaseD by blast
  then show ?thesis using recordOwnershipOperation_Inr [OF op] ledger_effect_cong [of db' db1] by auto
qed

section \<open>Processes and quarantine\<close>

text \<open>Updates that advance claims step by step: a preorder on claims carried through a loop.\<close>

definition claims_step :: "string \<Rightarrow> (claim_row \<Rightarrow> claim_row \<Rightarrow> bool) \<Rightarrow> state_db \<Rightarrow> state_db \<Rightarrow> bool" where
  "claims_step i R db db' =
     (db_ownerships db' = db_ownerships db
      \<and> (claim_table_ok (db_ownerships db) (db_claims db) \<longrightarrow> claim_table_ok (db_ownerships db) (db_claims db'))
      \<and> (\<forall>j. j \<noteq> i \<longrightarrow> claims_of j (db_claims db') = claims_of j (db_claims db))
      \<and> list_all2 R (claims_of i (db_claims db)) (claims_of i (db_claims db')))"

lemma claims_step_refl: "(\<And>c. R c c) \<Longrightarrow> claims_step i R db db"
  by (simp add: claims_step_def list_all2_same)

lemma claims_step_trans:
  assumes "\<And>a b c. R a b \<Longrightarrow> R b c \<Longrightarrow> R a c" "claims_step i R x y" "claims_step i R y z"
  shows "claims_step i R x z"
proof -
  have "list_all2 R (claims_of i (db_claims x)) (claims_of i (db_claims y))"
    "list_all2 R (claims_of i (db_claims y)) (claims_of i (db_claims z))"
    using assms(2,3) by (simp_all add: claims_step_def)
  from list_all2_trans [OF _ this] assms(1) have "list_all2 R (claims_of i (db_claims x)) (claims_of i (db_claims z))"
    by blast
  with assms(2,3) show ?thesis by (simp add: claims_step_def)
qed

lemma claim_advances_trans: "claim_advances a b \<Longrightarrow> claim_advances b c \<Longrightarrow> claim_advances a c"
  unfolding claim_advances_def same_owner_def by (metis claim_kept_trans)

lemma claim_condemned_trans: "claim_condemned a b \<Longrightarrow> claim_condemned b c \<Longrightarrow> claim_condemned a c"
  unfolding claim_condemned_def by (metis resource_state.distinct)

lemma move_claims_step:
  assumes moved: "move_claims t f P db = Inr (db', n)"
    and P: "\<And>c. c \<in> set (db_claims db) \<Longrightarrow> P c \<Longrightarrow> cl_attempt c = i" and f: "\<And>c. cl_attempt (f c) = cl_attempt c"
    and R: "\<And>c. R c c" "\<And>c. P c \<Longrightarrow> claim_legal_edge (cl_state c) t \<Longrightarrow> R c (bump_claim (\<lambda>c. f (c\<lparr>cl_state := t\<rparr>)) c)"
  shows "claims_step i R db db'"
proof -
  have legal: "\<forall>c \<in> set (db_claims db). P c \<longrightarrow> claim_legal_edge (cl_state c) t"
    and touched: "touch_claims (\<lambda>c. f (c\<lparr>cl_state := t\<rparr>)) P db = Inr (db', n)"
    using moved by (simp_all add: move_claims_Inr)
  note new = claims_update_effect [OF touched, of i]
  have eq: "claims_of i (db_claims db') = map (\<lambda>c. if P c then bump_claim (\<lambda>c. f (c\<lparr>cl_state := t\<rparr>)) c else c) (claims_of i (db_claims db))"
    using new(1) P f by simp
  have "list_all2 R (claims_of i (db_claims db)) (claims_of i (db_claims db'))"
    unfolding eq by (rule list_all2_mapI) (use legal R in simp)
  moreover have "db' = db\<lparr>db_claims := db_claims db'\<rparr>" using new(4) P f by simp
  then have "db_ownerships db' = db_ownerships db" by (rule only_claims)
  ultimately show ?thesis using new(2,3) P f by (simp add: claims_step_def)
qed

lemma claims_step_ledgers:
  "same_ledgers a b \<Longrightarrow> claims_step i R db a \<Longrightarrow> claims_step i R db b"
  by (simp add: same_ledgers_def claims_step_def)

lemma claims_step_from:
  assumes "claims_step i R db db'" "\<And>c d. R c d \<Longrightarrow> claim_kept c d" "d \<in> set (db_claims db')"
  shows "\<exists>c \<in> set (db_claims db). cl_id c = cl_id d \<and> cl_attempt c = cl_attempt d"
proof (cases "cl_attempt d = i")
  case True
  then have "d \<in> set (claims_of i (db_claims db'))" using assms(3) by simp
  then obtain c where "c \<in> set (claims_of i (db_claims db))" "R c d"
    using assms(1) list_all2_pointwise [of R "claims_of i (db_claims db)" "claims_of i (db_claims db')" d]
    by (auto simp: claims_step_def)
  with assms(2) [of c d] show ?thesis by (auto simp: claim_kept_def)
next
  case False
  then have "claims_of (cl_attempt d) (db_claims db') = claims_of (cl_attempt d) (db_claims db)"
    using assms(1) by (simp add: claims_step_def)
  then have "d \<in> set (claims_of (cl_attempt d) (db_claims db))"
    using assms(3) in_claims_of [of d "cl_attempt d" "db_claims db'"] by simp
  then show ?thesis by auto
qed

lemma claim_advances_kept: "claim_advances c d \<Longrightarrow> claim_kept c d"
  by (auto simp: claim_advances_def)

lemma claim_advances_refl [simp]: "claim_advances c c"
  by (simp add: claim_advances_def)

lemma claim_condemned_refl [simp]: "claim_condemned c c"
  by (simp add: claim_condemned_def)

lemma activate_claim_writes:
  assumes "activate_claim q db (slot, version, identity) = Inr db'"
  shows "\<exists>c db1 m n k. c \<in> set (db_claims db) \<and> cl_attempt c = pl_attemptId q
    \<and> (db1 = db \<or> move_claims RAllocated (\<lambda>x. x) (\<lambda>x. cl_id x = cl_id c \<and> cl_ownership x = pl_ownershipId q
          \<and> cl_generation x = pl_ownerGeneration q \<and> cl_state x = RReserved \<and> cl_version x = version) db = Inr (db1, m))
    \<and> move_claims RActive (\<lambda>x. x) (\<lambda>x. cl_id x = cl_id c \<and> cl_ownership x = pl_ownershipId q
          \<and> cl_generation x = pl_ownerGeneration q \<and> cl_state x = RAllocated \<and> cl_version x = k) db1 = Inr (db', n)"
proof -
  obtain c where c: "find_claim db (pl_attemptId q) slot = Some c"
    using assms unfolding activate_claim_def Let_def by (cases "find_claim db (pl_attemptId q) slot"; simp)
  show ?thesis
  proof (cases "cl_state c = RReserved")
    case True
    with assms c find_claimD [OF c] show ?thesis
      by (auto simp: activate_claim_def Let_def rbind_Inr_iff split: if_splits)
  next
    case False
    with assms c find_claimD [OF c] show ?thesis
      by (auto simp: activate_claim_def Let_def rbind_Inr_iff split: if_splits)
  qed
qed

lemma activate_claim_step:
  assumes active: "activate_claim q db x = Inr db'" and ok: "claim_table_ok (db_ownerships db) (db_claims db)"
  shows "claims_step (pl_attemptId q) claim_advances db db'"
proof -
  obtain slot version identity where x: "x = (slot, version, identity)" by (cases x) auto
  obtain c db1 m n k where c: "c \<in> set (db_claims db)" "cl_attempt c = pl_attemptId q"
    and first: "db1 = db \<or> move_claims RAllocated (\<lambda>x. x) (\<lambda>x. cl_id x = cl_id c \<and> cl_ownership x = pl_ownershipId q
          \<and> cl_generation x = pl_ownerGeneration q \<and> cl_state x = RReserved \<and> cl_version x = version) db = Inr (db1, m)"
    and second: "move_claims RActive (\<lambda>x. x) (\<lambda>x. cl_id x = cl_id c \<and> cl_ownership x = pl_ownershipId q
          \<and> cl_generation x = pl_ownerGeneration q \<and> cl_state x = RAllocated \<and> cl_version x = k) db1 = Inr (db', n)"
    using activate_claim_writes active unfolding x by blast
  have ids: "distinct (map cl_id (db_claims db))" using ok by (simp add: claim_table_ok_def)
  have only: "cl_attempt d = pl_attemptId q" if "d \<in> set (db_claims db)" "cl_id d = cl_id c" for d
    using distinct_map_eq [OF ids that(1) c(1) that(2)] c(2) by simp
  have one: "claims_step (pl_attemptId q) claim_advances db db1"
    using first
  proof
    assume "db1 = db"
    then show ?thesis by (simp add: claims_step_refl)
  next
    assume "move_claims RAllocated (\<lambda>x. x) (\<lambda>x. cl_id x = cl_id c \<and> cl_ownership x = pl_ownershipId q
          \<and> cl_generation x = pl_ownerGeneration q \<and> cl_state x = RReserved \<and> cl_version x = version) db = Inr (db1, m)"
    then show ?thesis
      by (rule move_claims_step) (use only in \<open>auto simp: claim_advances_def claim_kept_def same_owner_def working_def\<close>)
  qed
  have "claims_step (pl_attemptId q) claim_advances db1 db'"
    using second
  proof (rule move_claims_step)
    fix d assume d: "d \<in> set (db_claims db1)" "cl_id d = cl_id c \<and> cl_ownership d = pl_ownershipId q
          \<and> cl_generation d = pl_ownerGeneration q \<and> cl_state d = RAllocated \<and> cl_version d = k"
    obtain e where "e \<in> set (db_claims db)" "cl_id e = cl_id d" "cl_attempt e = cl_attempt d"
      using claims_step_from [OF one claim_advances_kept d(1)] by blast
    with only d(2) show "cl_attempt d = pl_attemptId q" by simp
  qed (auto simp: claim_advances_def claim_kept_def same_owner_def working_def)
  with one show ?thesis using claims_step_trans claim_advances_trans by blast
qed

lemma activate_claims_step:
  "activate_claims q db xs = Inr db' \<Longrightarrow> claim_table_ok (db_ownerships db) (db_claims db)
     \<Longrightarrow> claims_step (pl_attemptId q) claim_advances db db'"
proof (induction xs arbitrary: db)
  case (Cons x xs)
  then obtain db1 where db1: "activate_claim q db x = Inr db1" "activate_claims q db1 xs = Inr db'"
    by (auto simp: rbind_Inr_iff)
  note one = activate_claim_step [OF db1(1) Cons.prems(2)]
  then have "claim_table_ok (db_ownerships db1) (db_claims db1)" using Cons.prems(2) by (simp add: claims_step_def)
  from one Cons.IH [OF db1(2) this] show ?case using claims_step_trans claim_advances_trans by blast
qed (simp add: claims_step_refl)

lemma insert_launch_ledgers: "insert_launch l db = Inr db' \<Longrightarrow> same_ledgers db db' \<and> db_operations db' = db_operations db"
  by (auto simp: insert_launch_def same_ledgers_def split: if_splits)

lemma insert_evidence_operations: "insert_evidence e db = Inr db' \<Longrightarrow> db_operations db' = db_operations db"
  by (auto simp: insert_evidence_def split: if_splits)

lemma launch_writes:
  assumes "new_launch env q evidence db = Inr (db', l)"
  shows "\<exists>db1. launch_owner_ok env q db \<and> activate_claims q db (launch_slots q) = Inr db1 \<and> same_ledgers db1 db'
    \<and> db_operations db' = db_operations db1 \<and> l = launch_row_of q"
proof -
  from assms have "launch_owner_ok env q db" by (auto simp: new_launch_def split: if_splits)
  moreover from this assms obtain db1 db2 where "activate_claims q db (launch_slots q) = Inr db1"
    "insert_evidence evidence db1 = Inr db2" "insert_launch (launch_row_of q) db2 = Inr db'" "l = launch_row_of q"
    by (auto simp: new_launch_def rbind_Inr_iff split: if_splits)
  ultimately show ?thesis
    using insert_evidence_ledgers insert_evidence_operations insert_launch_ledgers same_ledgers_trans by metis
qed

lemma commitProcessLaunch_cases:
  assumes "commitProcessLaunch env q db = Inr (db', l)"
  shows "db' = db \<or> (\<exists>evidence. new_launch env q evidence db = Inr (db', l))"
  using assms by (auto simp: commitProcessLaunch_def rbind_Inr_iff Let_def split: option.splits if_splits)

lemma launch_owner:
  assumes "launch_owner_ok env q db"
  shows "\<exists>r. r \<in> set (db_ownerships db) \<and> ow_id r = pl_ownershipId q \<and> ow_attempt r = pl_attemptId q
    \<and> ow_generation r = pl_ownerGeneration q \<and> ow_state r = LLive \<and> ow_recovered_from r = None
    \<and> ow_context_digest r = pl_ownershipContextDigest q \<and> unexpired env (ow_expires r)"
  using assms by (auto simp: launch_owner_ok_def split: option.splits dest: find_leaseD)

lemma claims_step_effect:
  assumes "claims_step i R db db'" "lease_inv db"
    and "ledger_step (ledger_at i db) (leases_of i (db_ownerships db), claims_of i (db_claims db'))"
  shows "ledger_effect i db db'"
  using assms by (simp add: ledger_effect_def claims_step_def lease_inv_def ledger_at_def)

lemma new_launch_effect:
  assumes launch: "new_launch env q evidence db = Inr (db', l)" and inv: "lease_inv db"
  shows "ledger_effect (pl_attemptId q) db db'"
proof -
  obtain db1 where owner: "launch_owner_ok env q db" and db1: "activate_claims q db (launch_slots q) = Inr db1" "same_ledgers db1 db'"
    using launch_writes [OF launch] by blast
  obtain r where r: "r \<in> set (db_ownerships db)" "ow_attempt r = pl_attemptId q" "ow_state r = LLive" "ow_recovered_from r = None"
    using launch_owner [OF owner] by blast
  obtain rs where rs: "leases_of (pl_attemptId q) (db_ownerships db) = rs @ [r]"
    using current_is_last [OF inv r(1)] r(2,3) by auto
  have step: "claims_step (pl_attemptId q) claim_advances db db1"
    by (rule activate_claims_step [OF db1(1)]) (use inv in \<open>simp add: lease_inv_def\<close>)
  then have "list_all2 claim_advances (claims_of (pl_attemptId q) (db_claims db)) (claims_of (pl_attemptId q) (db_claims db1))"
    by (simp add: claims_step_def)
  then have "ledger_step (ledger_at (pl_attemptId q) db) (leases_of (pl_attemptId q) (db_ownerships db), claims_of (pl_attemptId q) (db_claims db1))"
    unfolding ledger_at_def rs by (rule ledger_step.advanced [OF r(3,4)])
  with step inv have "ledger_effect (pl_attemptId q) db db1" by (rule claims_step_effect)
  then show ?thesis using db1(2) ledger_effect_cong [of db' db1] by (simp add: same_ledgers_def)
qed

lemma insert_observation_ledgers:
  "insert_observation o' db = Inr db' \<Longrightarrow> same_ledgers db db' \<and> db_operations db' = db_operations db"
  by (auto simp: insert_observation_def same_ledgers_def split: if_splits)

lemma insert_observations_ledgers:
  "insert_observations env db rows = Inr db' \<Longrightarrow> same_ledgers db db' \<and> db_operations db' = db_operations db"
proof (induction rows arbitrary: db)
  case (Cons row rows)
  obtain o' e where row: "row = (o', e)" by (cases row)
  with Cons.prems obtain db1 db2 where "insert_evidence e db = Inr db1" "insert_observation o' db1 = Inr db2"
    "insert_observations env db2 rows = Inr db'" by (auto simp: rbind_Inr_iff)
  with Cons.IH show ?case
    using insert_evidence_ledgers insert_evidence_operations insert_observation_ledgers same_ledgers_trans by metis
qed (simp add: same_ledgers_def)

lemma terminal_ledgers:
  assumes "commitProcessTerminal env q db = Inr (db', t)"
  shows "same_ledgers db db' \<and> db_operations db' = db_operations db"
proof -
  obtain t' rows where "store_terminal env q t' rows db = Inr (db', t)"
    using assms by (auto simp: commitProcessTerminal_def rbind_Inr_iff Let_def split: option.splits if_splits)
  then show ?thesis
  proof (cases "find (\<lambda>k. tm_receipt k = pt_processReceiptId q \<or> tm_launch k = pt_launchId q) (db_terminals db)")
    case None
    with \<open>store_terminal env q t' rows db = Inr (db', t)\<close> obtain db1 where
      "insert_observations env db rows = Inr db1" "insert_terminal t' db1 = Inr db'"
      by (auto simp: store_terminal_def rbind_Inr_iff split: if_splits)
    then show ?thesis
      using insert_observations_ledgers [of env db rows db1] by (auto simp: insert_terminal_def same_ledgers_def split: if_splits)
  next
    case (Some k)
    with \<open>store_terminal env q t' rows db = Inr (db', t)\<close> show ?thesis
      by (auto simp: store_terminal_def rbind_Inr_iff same_ledgers_def split: if_splits)
  qed
qed

lemma quarantine_claim_step:
  assumes "quarantine_claim i ownership generation digest db c = Inr (db', x)"
  shows "claims_step i claim_condemned db db' \<and> db_operations db' = db_operations db"
proof -
  obtain n where moved: "move_claims RQuarantined (\<lambda>x. x\<lparr>cl_quarantine_proof := Some digest\<rparr>)
      (\<lambda>x. cl_id x = cl_id c \<and> cl_attempt x = i \<and> cl_ownership x = ownership \<and> cl_generation x = generation
         \<and> cl_state x = RCleanupPending \<and> cl_version x = cl_version c) db = Inr (db', n)"
    using assms by (auto simp: quarantine_claim_def rbind_Inr_iff split: if_splits)
  from moved have "claims_step i claim_condemned db db'"
    by (rule move_claims_step) (auto simp: claim_condemned_def claim_kept_def same_owner_def)
  with moved show ?thesis by (auto simp: move_claims_Inr touch_claims_Inr Let_def)
qed

lemma advanceClaims_effect:
  assumes adv: "advanceClaimsToQuarantined i ownership generation digest db = (db', Inr xs)" and inv: "lease_inv db"
  shows "ledger_effect i db db' \<and> db_operations db' = db_operations db"
proof -
  have "claims_step i claim_condemned db db' \<and> db_operations db' = db_operations db"
  proof (cases "owned_claims i ownership generation RCleanupPending db = []")
    case True
    with adv show ?thesis by (simp add: advanceClaimsToQuarantined_def immediate_Inr_iff Let_def claims_step_refl)
  next
    case False
    with adv have "traverse_state (quarantine_claim i ownership generation digest) db
        (owned_claims i ownership generation RCleanupPending db) = Inr (db', xs)"
      by (simp add: advanceClaimsToQuarantined_def immediate_Inr_iff Let_def)
    then show ?thesis
      by (rule traverse_state_keeps [where R = "\<lambda>a b. claims_step i claim_condemned a b \<and> db_operations b = db_operations a"])
        (use quarantine_claim_step claims_step_trans claim_condemned_trans claims_step_refl in \<open>metis claim_condemned_refl\<close>)+
  qed
  moreover from this have "ledger_step (ledger_at i db) (leases_of i (db_ownerships db), claims_of i (db_claims db'))"
    unfolding ledger_at_def by (auto simp: claims_step_def intro: ledger_step.condemned)
  ultimately show ?thesis using claims_step_effect inv by blast
qed

lemma finalizeQuarantine_effect:
  assumes final: "finalizeQuarantineOwnership i ownership generation db = (db', Inr u)" and inv: "lease_inv db"
  shows "(db' = db \<or> ledger_effect i db db') \<and> db_operations db' = db_operations db"
proof -
  let ?P = "\<lambda>x. ow_attempt x = i \<and> ow_id x = ownership \<and> ow_generation x = generation \<and> ow_state x = LCleanupPending"
  obtain n where moved: "touch_leases (\<lambda>x. x\<lparr>ow_state := LQuarantined\<rparr>) ?P db = Inr (db', n)"
    using final by (auto simp: finalizeQuarantineOwnership_def immediate_Inr_iff rbind_Inr_iff move_leases_Inr split: if_splits option.splits)
  have ops: "db_operations db' = db_operations db" using moved by (auto simp: touch_leases_Inr Let_def)
  show ?thesis
  proof (cases "\<exists>r \<in> set (db_ownerships db). ?P r")
    case False
    then have "map (\<lambda>r. if ?P r then bump_lease (\<lambda>x. x\<lparr>ow_state := LQuarantined\<rparr>) r else r) (db_ownerships db) = db_ownerships db"
      by (intro map_if_absent) blast
    with moved have "db' = db" by (simp add: touch_leases_Inr Let_def)
    then show ?thesis by simp
  next
    case True
    then obtain r where r: "r \<in> set (db_ownerships db)" "?P r" by blast
    have claims0: "claim_table_ok (db_ownerships db) (db_claims db)" using inv by (simp add: lease_inv_def)
    obtain rs where rs: "leases_of (ow_attempt r) (db_ownerships db) = rs @ [r]"
      "leases_of (ow_attempt r) (db_ownerships db') = rs @ [bump_lease (\<lambda>x. x\<lparr>ow_state := LQuarantined\<rparr>) r]"
      "\<And>j. j \<noteq> ow_attempt r \<Longrightarrow> leases_of j (db_ownerships db') = leases_of j (db_ownerships db)"
      "lease_table_ok (db_ownerships db')" "claim_table_ok (db_ownerships db') (db_claims db')" "db_claims db' = db_claims db"
      by (rule lease_update_effect [OF inv r(1) _ moved refl claims0]) (use r(2) in auto)
    have "ledger_step (ledger_at i db) (ledger_at i db')"
      using rs(1,2,6) r(2) unfolding ledger_at_def by (auto simp: lease_kept_def intro!: ledger_step.abandoned)
    with rs r(2) ops show ?thesis by (simp add: ledger_effect_def ledger_at_def)
  qed
qed

end
