(* ===== verification/Lease_System.thy ===== *)
theory Lease_System
  imports Lease_Refinement
begin

text \<open>
  The store as a whole: the ownership operations beside the lifecycle operations. \<open>store_step\<close> is one
  call of either group, in any environment; the databases it reaches satisfy the invariants of both.
\<close>

section \<open>The other operations keep the ownership tables\<close>

definition keeps_ownership :: "state_db \<Rightarrow> state_db \<Rightarrow> bool" where
  "keeps_ownership db db' =
     (db_ownerships db' = db_ownerships db \<and> db_claims db' = db_claims db \<and> db_operations db' = db_operations db)"

lemma keeps_ownership_refl [simp]: "keeps_ownership db db"
  by (simp add: keeps_ownership_def)

lemma keeps_ownership_trans: "keeps_ownership a b \<Longrightarrow> keeps_ownership b c \<Longrightarrow> keeps_ownership a c"
  by (simp add: keeps_ownership_def)

named_theorems keeps \<open>statements that keep the ownership tables\<close>

lemma insert_transition_keeps [keeps]: "insert_transition t db = Inr db' \<Longrightarrow> keeps_ownership db db'"
  by (auto simp: keeps_ownership_def dest: insert_transition_cases)

lemma insert_refs_keeps [keeps]: "insert_refs db rs = Inr db' \<Longrightarrow> keeps_ownership db db'"
  using insert_refs_cases [of db rs db'] by (auto simp: keeps_ownership_def)

lemma set_state_keeps [keeps]:
  "set_run_state i t db = Inr db' \<Longrightarrow> keeps_ownership db db'"
  "set_ticket_state i t db = Inr db' \<Longrightarrow> keeps_ownership db db'"
  "set_attempt_state i t db = Inr db' \<Longrightarrow> keeps_ownership db db'"
  "cleanup_active_ticket ticket db = Inr db' \<Longrightarrow> keeps_ownership db db'"
  by (auto simp: set_run_state_def set_ticket_state_def set_attempt_state_def cleanup_active_ticket_def
      keeps_ownership_def rbind_Inr_iff)

lemma cas_entity_keeps [keeps]: "cas_entity kind i f t v db = Inr (db', n) \<Longrightarrow> keeps_ownership db db'"
  by (cases kind) (auto simp: cas_entity_def keeps_ownership_def rbind_Inr_iff)

lemma insert_direct_keeps [keeps]: "insert_direct env kind i f t owner od input key db = Inr (db', x) \<Longrightarrow> keeps_ownership db db'"
  by (auto simp: insert_direct_def rbind_Inr_iff Let_def intro: keeps)

lemma resolve_evidence_keeps: "resolveTransitionEvidence env owner db reference = Inr (db', e) \<Longrightarrow> keeps_ownership db db'"
  by (auto simp: resolveTransitionEvidence_def rbind_Inr_iff insert_evidence_def keeps_ownership_def Let_def
      split: TransitionEvidenceReference.splits if_splits option.splits)

lemma resolve_input_keeps: "resolve_input env c db = Inr (db', evidence, d) \<Longrightarrow> keeps_ownership db db'"
  by (auto simp: resolve_input_def rbind_Inr_iff
      elim!: traverse_state_keeps intro: resolve_evidence_keeps keeps_ownership_trans)

lemma write_transition_keeps: "write_transition c t evidence db = Inr db' \<Longrightarrow> keeps_ownership db db'"
  by (auto simp: write_transition_def rbind_Inr_iff split: if_splits intro: keeps_ownership_trans dest!: keeps)

lemma commit_keeps:
  assumes "commitTransitionInCurrentTransaction env c db = Inr (db', r)"
  shows "keeps_ownership db db'"
  using assms
proof (cases rule: commit_cases)
  case (replay mid evidence d t)
  then show ?thesis using resolve_input_keeps by blast
next
  case (new mid evidence d)
  then show ?thesis
    using resolve_input_keeps write_transition_keeps [OF commit_new_facts(4) [OF new(3)]] keeps_ownership_trans by blast
qed

lemma immediate_keeps:
  assumes "immediate f db = (db', r)" "\<And>x. f db = Inr (db', x) \<Longrightarrow> keeps_ownership db db'"
  shows "keeps_ownership db db'"
  using assms(1) by (cases rule: immediate_cases) (auto intro: assms(2))

lemma activate_keeps:
  "activateRunForRunner env i a key db = (db', ru) \<Longrightarrow> keeps_ownership db db'"
  "activateTicketForRunner env i a key db = (db', ru) \<Longrightarrow> keeps_ownership db db'"
  unfolding activateRunForRunner_def activateTicketForRunner_def
  by (erule immediate_keeps; auto simp: rbind_Inr_iff split: option.splits if_splits
      intro: keeps_ownership_trans dest!: keeps)+

lemma advance_keeps:
  "advanceAttemptToCleanupPending env i key db = (db', ru) \<Longrightarrow> keeps_ownership db db'"
  "advanceTicketToCleanupPending i db = (db', ru) \<Longrightarrow> keeps_ownership db db'"
  "advanceAttemptState env i f t key db = (db', ru) \<Longrightarrow> keeps_ownership db db'"
  unfolding advanceAttemptToCleanupPending_def advanceTicketToCleanupPending_def advanceAttemptState_def
  by (erule immediate_keeps; auto simp: rbind_Inr_iff split: option.splits if_splits
      intro: keeps_ownership_trans dest!: keeps)+

lemma recover_keeps: "recoverOrphanedPlannedAttempt env i key db = (db', ru) \<Longrightarrow> keeps_ownership db db'"
  unfolding recoverOrphanedPlannedAttempt_def
  by (erule immediate_keeps) (auto simp: recover_orphan_def rbind_Inr_iff Let_def split: option.splits if_splits
      dest!: keeps, simp add: keeps_ownership_def)

lemma allocation_keeps:
  "advance_delivery_chain i oid old n v db = Inr db' \<Longrightarrow> keeps_ownership db db'"
  "insert_run run db = Inr db' \<Longrightarrow> keeps_ownership db db'"
  "insert_ticket ticket db = Inr db' \<Longrightarrow> keeps_ownership db db'"
  "insert_attempt attempt db = Inr db' \<Longrightarrow> keeps_ownership db db'"
  by (auto simp: advance_delivery_chain_def insert_run_def insert_ticket_def insert_attempt_def keeps_ownership_def Let_def
      split: if_splits)

lemma lifecycle_keeps:
  assumes "lifecycle_step db db'"
  shows "keeps_ownership db db' \<or> other_tables db db'"
  using assms
proof (cases rule: lifecycle_step.cases)
  case (step_commit c env r)
  then show ?thesis using commit_keeps by blast
qed (blast dest: activate_keeps advance_keeps recover_keeps allocation_keeps)+


section \<open>The ownership operations keep the lifecycle tables\<close>

text \<open>What the statements before the recorded operation write.\<close>

definition ownership_write :: "state_db \<Rightarrow> state_db \<Rightarrow> bool" where
  "ownership_write db db' = (other_tables db db' \<and> db_operations db' = db_operations db)"

lemma ownership_write_refl [simp]: "ownership_write db db"
  by (simp add: ownership_write_def)

lemma ownership_write_trans: "ownership_write a b \<Longrightarrow> ownership_write b c \<Longrightarrow> ownership_write a c"
  unfolding ownership_write_def by (metis other_tables_trans)

named_theorems writes \<open>statements of the ownership operations\<close>

lemma insert_lease_write [writes]: "insert_lease r db = Inr db' \<Longrightarrow> ownership_write db db'"
  by (auto simp: insert_lease_def store_leases_def ownership_write_def other_tables_def split: if_splits)

lemma touch_leases_write [writes]: "touch_leases f P db = Inr (db', n) \<Longrightarrow> ownership_write db db'"
  by (auto simp: touch_leases_Inr Let_def ownership_write_def other_tables_def)

lemma touch_claims_write [writes]: "touch_claims f P db = Inr (db', n) \<Longrightarrow> ownership_write db db'"
  by (auto simp: touch_claims_Inr Let_def ownership_write_def other_tables_def)

lemma move_leases_write [writes]: "move_leases t P db = Inr (db', n) \<Longrightarrow> ownership_write db db'"
  unfolding move_leases_Inr by (blast dest: writes)

lemma move_claims_write [writes]: "move_claims t f P db = Inr (db', n) \<Longrightarrow> ownership_write db db'"
  unfolding move_claims_Inr by (blast dest: writes)

lemma insert_claim_write [writes]: "insert_claim db c = Inr db' \<Longrightarrow> ownership_write db db'"
  by (auto simp: insert_claim_def store_claims_def ownership_write_def other_tables_def split: if_splits)

lemma insert_claims_write [writes]: "insert_claims db cs = Inr db' \<Longrightarrow> ownership_write db db'"
  by (induction cs arbitrary: db) (auto simp: rbind_Inr_iff dest!: insert_claim_write intro: ownership_write_trans)

lemma insert_evidence_write [writes]: "insert_evidence e db = Inr db' \<Longrightarrow> ownership_write db db'"
  by (auto simp: insert_evidence_def ownership_write_def other_tables_def split: if_splits)

lemma insert_cleanup_write [writes]: "insert_cleanup c db = Inr db' \<Longrightarrow> ownership_write db db'"
  unfolding insert_cleanup_def by (simp only: ownership_write_def other_tables_def split: if_split_asm) auto

lemma insert_salvage_write [writes]: "insert_salvage c db = Inr db' \<Longrightarrow> ownership_write db db'"
  unfolding insert_salvage_def by (simp only: ownership_write_def other_tables_def split: if_split_asm) auto

lemma insert_launch_write [writes]: "insert_launch l db = Inr db' \<Longrightarrow> ownership_write db db'"
  by (auto simp: insert_launch_def ownership_write_def other_tables_def split: if_splits)

lemma insert_terminal_write [writes]: "insert_terminal l db = Inr db' \<Longrightarrow> ownership_write db db'"
  by (auto simp: insert_terminal_def ownership_write_def other_tables_def split: if_splits)

lemma insert_observation_write [writes]: "insert_observation l db = Inr db' \<Longrightarrow> ownership_write db db'"
  by (auto simp: insert_observation_def ownership_write_def other_tables_def split: if_splits)

lemma insert_observations_write [writes]: "insert_observations env db rows = Inr db' \<Longrightarrow> ownership_write db db'"
proof (induction rows arbitrary: db)
  case (Cons row rows)
  obtain o' e where row: "row = (o', e)" by (cases row)
  with Cons.prems obtain db1 db2 where "insert_evidence e db = Inr db1" "insert_observation o' db1 = Inr db2"
    "insert_observations env db2 rows = Inr db'" by (auto simp: rbind_Inr_iff)
  with Cons.IH show ?case using insert_evidence_write insert_observation_write ownership_write_trans by metis
qed simp

lemma cleanup_finalization_write [writes]:
  "recordAuthorizedCleanupFinalization env p t db = Inr db' \<Longrightarrow> ownership_write db db'"
  unfolding recordAuthorizedCleanupFinalization_def Let_def
  by (cases "oc_contextId p"; cases "oc_cleanupProofDigest p"; cases "oc_deliveryObservedOid p")
    (auto simp: rbind_Inr_iff intro: ownership_write_trans dest!: writes)

lemma record_snapshots_write [writes]: "record_snapshots env i ctx db ss = Inr db' \<Longrightarrow> ownership_write db db'"
proof (induction ss arbitrary: db)
  case (Cons s ss)
  then obtain db1 where "record_snapshot env i ctx db s = Inr db1" "record_snapshots env i ctx db1 ss = Inr db'"
    by (auto simp: rbind_Inr_iff)
  moreover from this have "ownership_write db db1"
    by (auto simp: record_snapshot_def rbind_Inr_iff Let_def split: prod.splits if_splits option.splits dest!: writes)
  ultimately show ?case using Cons.IH ownership_write_trans by blast
qed simp

lemma finalize_claims_write [writes]: "finalize_claims t dg i r db cs = Inr db' \<Longrightarrow> ownership_write db db'"
  by (induction cs arbitrary: db)
    (auto simp: rbind_Inr_iff finalize_claim_def split: if_splits dest!: writes intro: ownership_write_trans)

lemma finalize_owner_write [writes]: "finalize_owner t p r db = Inr db' \<Longrightarrow> ownership_write db db'"
  by (auto simp: finalize_owner_def rbind_Inr_iff split: if_splits dest!: writes)

lemma fence_owner_write [writes]: "fence_owner i old new db = Inr db' \<Longrightarrow> ownership_write db db'"
  by (drule fence_writes) (blast dest: writes intro: ownership_write_trans)

lemma activate_claims_write [writes]: "activate_claims q db cs = Inr db' \<Longrightarrow> ownership_write db db'"
proof (induction cs arbitrary: db)
  case (Cons c cs)
  then obtain db1 where "activate_claim q db c = Inr db1" "activate_claims q db1 cs = Inr db'"
    by (auto simp: rbind_Inr_iff)
  moreover from this have "ownership_write db db1"
    by (auto simp: activate_claim_def rbind_Inr_iff Let_def split: prod.splits if_splits option.splits dest!: writes
        intro: ownership_write_trans)
  ultimately show ?case using Cons.IH ownership_write_trans by blast
qed simp


section \<open>The recorded operation\<close>

definition records :: "AttemptOwnershipCommandPayload \<Rightarrow> string \<Rightarrow> string \<Rightarrow> operation_row \<Rightarrow> bool" where
  "records p input digest o' =
     (op_attempt o' = oc_attemptId p \<and> op_key o' = oc_idempotencyKey p \<and> op_kind o' = ownership_kind_text (oc_kind p)
      \<and> op_input_digest o' = digest \<and> op_input_json o' = input)"

text \<open>The operation is recorded last, with the sealed result of the database it is recorded in.\<close>

lemma recordOwnershipOperation_cases:
  assumes "recordOwnershipOperation env p ownership purpose plan input digest db = Inr (db', res)"
  obtains o' r json where "db' = db\<lparr>db_operations := db_operations db @ [o']\<rparr>" "records p input digest o'"
    "find_lease db ownership (oc_attemptId p) = Some r" "op_ownership o' = ownership"
    "canonical_text (sealed_js purpose r (current_claims db (oc_attemptId p))) = Inr json"
    "op_result_json o' = json" "op_result_digest o' = env_sha256 env json"
    "find_operation db (oc_attemptId p) (oc_idempotencyKey p) = None"
    "res = \<lparr>sr_replayed = False, sr_purpose = purpose, sr_plan = plan, sr_ownership = ownership_js r,
       sr_resources = map claim_js (current_claims db (oc_attemptId p)), sr_currentOwnership = ownership_js r,
       sr_currentResources = map claim_js (current_claims db (oc_attemptId p))\<rparr>"
proof -
  obtain r where r: "find_lease db ownership (oc_attemptId p) = Some r"
    using assms by (cases "find_lease db ownership (oc_attemptId p)") (simp_all add: recordOwnershipOperation_def Let_def)
  obtain json identity o' where "canonical_text (sealed_js purpose r (current_claims db (oc_attemptId p))) = Inr json"
    "o' = \<lparr>op_id = ''ownership-operation-'' @ drop 7 (env_sha256 env identity), op_ownership = ownership,
             op_attempt = oc_attemptId p, op_kind = ownership_kind_text (oc_kind p), op_key = oc_idempotencyKey p,
             op_input_digest = digest, op_input_json = input,
             op_result_digest = env_sha256 env json, op_result_json = json, op_created = env_now env\<rparr>"
    "insert_operation o' db = Inr db'" "attemptOwnershipResult (oc_attemptId p) ownership purpose False plan db' = Inr res"
    using assms unfolding recordOwnershipOperation_def Let_def r option.case
    by (simp only: rbind_Inr_iff) (elim exE conjE, rule that, (assumption | simp)+)
  note op = this
  have written: "db' = db\<lparr>db_operations := db_operations db @ [o']\<rparr>"
    and fresh: "find_operation db (op_attempt o') (op_key o') = None"
    using op(3) by (auto simp: insert_operation_def find_operation_def find_None_iff split: if_splits)
  have "find_lease db' ownership (oc_attemptId p) = Some r" "current_claims db' = current_claims db"
    using r by (simp_all add: written find_lease_def current_claims_def fun_eq_iff)
  then have "res = \<lparr>sr_replayed = False, sr_purpose = purpose, sr_plan = plan, sr_ownership = ownership_js r,
       sr_resources = map claim_js (current_claims db (oc_attemptId p)), sr_currentOwnership = ownership_js r,
       sr_currentResources = map claim_js (current_claims db (oc_attemptId p))\<rparr>"
    using op(4) by (simp add: attemptOwnershipResult_def Let_def)
  then show thesis by (rule that [OF written _ r _ op(1), rotated -1]) (use fresh in \<open>simp_all add: records_def op(2)\<close>)
qed

lemma recordOwnershipOperation_other:
  "recordOwnershipOperation env p ownership purpose plan input digest db = Inr (db', res) \<Longrightarrow> other_tables db db'"
  by (auto simp: other_tables_def dest!: recordOwnershipOperation_Inr)

lemma finalize_recorded:
  assumes "finalizeAttemptOwnershipCleanup env p input digest db = Inr (db', res)"
  shows "\<exists>mid ownership purpose plan. ownership_write db mid
    \<and> recordOwnershipOperation env p ownership purpose plan input digest mid = Inr (db', res)"
proof -
  obtain r dg claims plan db1 db2 db3 db4 where
    "recordAuthorizedCleanupFinalization env p (finalize_terminal p) db = Inr db1"
    "finalize_claims (finalize_terminal p) dg (oc_attemptId p) r db1 claims = Inr db2"
    "finalize_owner (finalize_terminal p) p r db2 = Inr db3"
    "record_snapshots env (oc_attemptId p) (the (oc_contextId p)) db3 (terminal_snapshots (oc_attemptId p) db3) = Inr db4"
    and op: "recordOwnershipOperation env p (ow_id r) (purpose_of r) plan input digest db4 = Inr (db', res)"
    using finalize_writes [OF assms] by blast
  then have "ownership_write db db4" by (blast dest: writes intro: ownership_write_trans)
  with op show ?thesis by blast
qed

lemma recorded_operation:
  assumes "ownership_operation env p input digest db = Inr (db', res)" "recorded_kind (oc_kind p)" "lease_inv db"
  shows "ledger_effect (oc_attemptId p) db db'
    \<and> (\<exists>mid ownership purpose plan. ownership_write db mid
        \<and> recordOwnershipOperation env p ownership purpose plan input digest mid = Inr (db', res))"
proof (cases "oc_kind p")
  case OpAcquire
  with assms have op: "acquireAttemptOwnership env p input digest db = Inr (db', res)" by (simp add: ownership_operation_def)
  show ?thesis
    using acquire_effect [OF op assms(3)] acquire_writes [OF op] by (blast dest: writes intro: ownership_write_trans)
next
  case OpHeartbeat
  with assms have op: "heartbeatAttemptOwnership env p input digest db = Inr (db', res)" by (simp add: ownership_operation_def)
  show ?thesis
    using heartbeat_effect [OF op assms(3)] heartbeat_writes [OF op] by (blast dest: writes intro: ownership_write_trans)
next
  case OpAdvanceResource
  with assms have op: "advanceAttemptResourceClaim env p input digest db = Inr (db', res)" by (simp add: ownership_operation_def)
  show ?thesis
    using advance_effect [OF op assms(3)] advance_writes [OF op] by (blast dest: writes intro: ownership_write_trans)
next
  case OpBeginCleanup
  with assms have op: "beginAttemptOwnershipCleanup env p input digest db = Inr (db', res)" by (simp add: ownership_operation_def)
  show ?thesis
    using begin_effect [OF op assms(3)] begin_writes [OF op] by (blast dest: writes intro: ownership_write_trans)
next
  case OpStaleRecovery
  with assms have op: "recoverStaleAttemptOwnership env p input digest db = Inr (db', res)" by (simp add: ownership_operation_def)
  show ?thesis
    using recover_effect [OF op assms(3)] recover_writes [OF op] by (blast dest: writes intro: ownership_write_trans)
next
  case OpRelease
  with assms have op: "finalizeAttemptOwnershipCleanup env p input digest db = Inr (db', res)" by (simp add: ownership_operation_def)
  show ?thesis using finalize_effect(1) [OF op assms(3)] finalize_recorded [OF op] by blast
next
  case OpQuarantine
  with assms have op: "finalizeAttemptOwnershipCleanup env p input digest db = Inr (db', res)" by (simp add: ownership_operation_def)
  show ?thesis using finalize_effect(1) [OF op assms(3)] finalize_recorded [OF op] by blast
qed (use assms(2) in \<open>simp_all add: recorded_kind_def\<close>)


section \<open>The steps of ownership\<close>

lemma salvage_write:
  assumes "recordAuthorizedSalvage env p db = Inr (db', res)"
  shows "ownership_write db db' \<and> same_ledgers db db'"
proof -
  have new: "ownership_write db db' \<and> same_ledgers db db'" if new: "insert_new_salvage env p r plan proof' x db = Inr (db', res)" for r plan proof' x
  proof -
    obtain e s db1 where e: "insert_evidence e db = Inr db1" and s: "insert_salvage s db1 = Inr db'"
      using new by (auto simp: insert_new_salvage_def rbind_Inr_iff Let_def split: if_splits)
    have "same_ledgers db1 db'"
      using s unfolding insert_salvage_def by (simp only: same_ledgers_def split: if_split_asm) auto
    then show ?thesis
      using e s insert_evidence_ledgers same_ledgers_trans by (blast dest: writes intro: ownership_write_trans)
  qed
  have replay: "ownership_write db db' \<and> same_ledgers db db'"
    if "replay_salvage env p r plan proof' x existing db = Inr (db', res)" for r plan proof' x existing
  proof -
    from that have "db' = db" by (auto simp: replay_salvage_def rbind_Inr_iff Let_def split: option.splits if_splits)
    then show ?thesis by (simp add: same_ledgers_def)
  qed
  obtain r plan x proof' where "(case existing_salvage db (oc_attemptId p) (rc_record x) (oc_idempotencyKey p) of
            [] \<Rightarrow> insert_new_salvage env p r plan proof' x db
          | [existing] \<Rightarrow> replay_salvage env p r plan proof' x existing db
          | _ \<Rightarrow> Inl (StateErr IdempotencyConflict)) = Inr (db', res)"
    using assms by (auto simp: recordAuthorizedSalvage_def rbind_Inr_iff Let_def split: if_splits)
  then show ?thesis by (simp split: list.splits) (blast dest: new replay)+
qed

lemma commitAttemptOwnership_cases:
  assumes "commitAttemptOwnership env p db = Inr (db', res)"
  obtains (unrecorded) "\<not> recorded_kind (oc_kind p)" "ownership_write db db'" "same_ledgers db db'"
  | (replayed) input o' where "canonicalOwnershipCommand env p = Inr input" "recorded_kind (oc_kind p)"
      "find_operation db (oc_attemptId p) (oc_idempotencyKey p) = Some o'"
      "op_input_digest o' = env_sha256 env input" "op_input_json o' = input"
      "replayAttemptOwnershipResult env (oc_attemptId p) o' db = Inr res" "db' = db"
  | (applied) input where "canonicalOwnershipCommand env p = Inr input" "recorded_kind (oc_kind p)"
      "find_operation db (oc_attemptId p) (oc_idempotencyKey p) = None"
      "ownership_operation env p input (env_sha256 env input) db = Inr (db', res)"
proof -
  obtain input where input: "canonicalOwnershipCommand env p = Inr input"
    using assms by (auto simp: commitAttemptOwnership_def rbind_Inr_iff)
  show thesis
  proof (cases "recorded_kind (oc_kind p)")
    case False
    with assms input have op: "ownership_operation env p input (env_sha256 env input) db = Inr (db', res)"
      by (simp add: commitAttemptOwnership_def Let_def)
    have "ownership_write db db' \<and> same_ledgers db db'"
      using op False salvage_write [of env p db db' res]
      by (cases "oc_kind p") (auto simp: ownership_operation_def recorded_kind_def rbind_Inr_iff same_ledgers_def)
    with False show thesis by (intro unrecorded) simp_all
  next
    case True
    show thesis
    proof (cases "find_operation db (oc_attemptId p) (oc_idempotencyKey p)")
      case None
      with True input assms show thesis by (intro applied) (simp_all add: commitAttemptOwnership_def Let_def)
    next
      case (Some o')
      with True input assms show thesis
        by (intro replayed [of input o']) (auto simp: commitAttemptOwnership_def Let_def rbind_Inr_iff split: if_splits)
    qed
  qed
qed

text \<open>A call that commits: an authorized ownership command, a launch, a terminal receipt, a quarantine.\<close>

inductive ownership_step :: "state_db \<Rightarrow> state_db \<Rightarrow> bool" where
  step_ownership: "commitAuthorizedAttemptOwnership env p db = (db', ro) \<Longrightarrow> ownership_step db db'"
| step_launch: "commitAuthorizedProcessLaunch env q db = (db', rl) \<Longrightarrow> ownership_step db db'"
| step_terminal: "commitAuthorizedProcessTerminal env k db = (db', rt) \<Longrightarrow> ownership_step db db'"
| step_claims: "advanceClaimsToQuarantined i ownership generation digest db = (db', rc) \<Longrightarrow> ownership_step db db'"
| step_quarantine: "finalizeQuarantineOwnership i ownership generation db = (db', rq) \<Longrightarrow> ownership_step db db'"

inductive_cases ownership_stepE: "ownership_step db db'"

text \<open>Every call of the store: the operations above and those of the lifecycle.\<close>

definition store_step :: "state_db \<Rightarrow> state_db \<Rightarrow> bool" where
  "store_step db db' =
     (ownership_step db db' \<or> lifecycle_step db db' \<and> (other_tables db db' \<longrightarrow> keeps_ownership db db'))"

definition reachable_store :: "state_db \<Rightarrow> bool" where
  "reachable_store db = store_step\<^sup>*\<^sup>* empty_db db"

text \<open>Each step moves at most one ledger, by a step of the protocol.\<close>

definition ledgers_move :: "state_db \<Rightarrow> state_db \<Rightarrow> bool" where
  "ledgers_move db db' = (same_ledgers db db' \<or> (\<exists>i. ledger_effect i db db'))"

lemma ownership_step_moves:
  assumes "ownership_step db db'" "lease_inv db"
  shows "ledgers_move db db'"
  using assms(1)
proof (cases rule: ownership_step.cases)
  case (step_ownership env p ro)
  then have "db' = db \<or> (\<exists>res. commitAttemptOwnership env p db = Inr (db', res))"
    unfolding commitAuthorizedAttemptOwnership_def by (cases rule: immediate_cases) simp_all
  then show ?thesis
  proof (elim disjE exE)
    fix res assume "commitAttemptOwnership env p db = Inr (db', res)"
    then show ?thesis
      by (cases rule: commitAttemptOwnership_cases)
        (auto simp: ledgers_move_def same_ledgers_def dest: recorded_operation [OF _ _ assms(2)])
  qed (simp add: ledgers_move_def same_ledgers_def)
next
  case (step_launch env q rl)
  then have "db' = db \<or> (\<exists>l. commitProcessLaunch env q db = Inr (db', l))"
    unfolding commitAuthorizedProcessLaunch_def by (cases rule: immediate_cases) simp_all
  then show ?thesis
    by (auto simp: ledgers_move_def same_ledgers_def dest!: commitProcessLaunch_cases dest: new_launch_effect [OF _ assms(2)])
next
  case (step_terminal env k rt)
  then have "db' = db \<or> (\<exists>t. commitProcessTerminal env k db = Inr (db', t))"
    unfolding commitAuthorizedProcessTerminal_def by (cases rule: immediate_cases) simp_all
  then have "same_ledgers db db'" using terminal_ledgers by (auto simp: same_ledgers_def)
  then show ?thesis by (simp add: ledgers_move_def)
next
  case (step_claims i ownership generation digest rc)
  show ?thesis
  proof (cases rc)
    case (Inl e)
    with step_claims have "db' = db" unfolding advanceClaimsToQuarantined_def by (cases rule: immediate_cases) simp_all
    then show ?thesis by (simp add: ledgers_move_def same_ledgers_def)
  next
    case (Inr xs)
    with step_claims have "ledger_effect i db db'" using advanceClaims_effect [OF _ assms(2)] by blast
    then show ?thesis by (auto simp: ledgers_move_def)
  qed
next
  case (step_quarantine i ownership generation rq)
  show ?thesis
  proof (cases rq)
    case (Inl e)
    with step_quarantine have "db' = db" unfolding finalizeQuarantineOwnership_def by (cases rule: immediate_cases) simp_all
    then show ?thesis by (simp add: ledgers_move_def same_ledgers_def)
  next
    case (Inr u)
    with step_quarantine have "db' = db \<or> ledger_effect i db db'" using finalizeQuarantine_effect [OF _ assms(2)] by blast
    then show ?thesis by (auto simp: ledgers_move_def same_ledgers_def)
  qed
qed


section \<open>Reachable stores\<close>

lemma ownership_write_other: "ownership_write db db' \<Longrightarrow> other_tables db db'"
  by (simp add: ownership_write_def)

lemma traverse_quarantine_write:
  "traverse_state (quarantine_claim i ownership generation digest) db cs = Inr (db', xs) \<Longrightarrow> ownership_write db db'"
proof (erule traverse_state_keeps)
  fix a c b x assume "quarantine_claim i ownership generation digest a c = Inr (b, x)"
  then show "ownership_write a b" by (auto simp: quarantine_claim_def rbind_Inr_iff split: if_splits dest: writes)
qed (auto intro: ownership_write_trans)

lemma ownership_step_other:
  assumes "ownership_step db db'" "lease_inv db"
  shows "other_tables db db'"
  using assms(1)
proof (cases rule: ownership_step.cases)
  case (step_ownership env p ro)
  then have "db' = db \<or> (\<exists>res. commitAttemptOwnership env p db = Inr (db', res))"
    unfolding commitAuthorizedAttemptOwnership_def by (cases rule: immediate_cases) simp_all
  then show ?thesis
  proof (elim disjE exE)
    fix res assume "commitAttemptOwnership env p db = Inr (db', res)"
    then show ?thesis
    proof (cases rule: commitAttemptOwnership_cases)
      case (applied input)
      then show ?thesis
        using recorded_operation [OF applied(4,2) assms(2)] recordOwnershipOperation_other ownership_write_other
          other_tables_trans by blast
    qed (simp_all add: ownership_write_def)
  qed simp
next
  case (step_launch env q rl)
  then have "db' = db \<or> (\<exists>l. commitProcessLaunch env q db = Inr (db', l))"
    unfolding commitAuthorizedProcessLaunch_def by (cases rule: immediate_cases) simp_all
  moreover have "other_tables db db'" if "new_launch env q evidence db = Inr (db', l)" for evidence l
    using that by (auto simp: new_launch_def rbind_Inr_iff split: if_splits dest!: writes
        intro: ownership_write_other ownership_write_trans)
  ultimately show ?thesis by (auto dest!: commitProcessLaunch_cases)
next
  case (step_terminal env k rt)
  then have "db' = db \<or> (\<exists>t. commitProcessTerminal env k db = Inr (db', t))"
    unfolding commitAuthorizedProcessTerminal_def by (cases rule: immediate_cases) simp_all
  moreover have "other_tables db db'" if "commitProcessTerminal env k db = Inr (db', t)" for t
    using that by (auto simp: commitProcessTerminal_def store_terminal_def rbind_Inr_iff Let_def
        split: option.splits if_splits dest!: writes intro: ownership_write_other ownership_write_trans)
  ultimately show ?thesis by auto
next
  case (step_claims i ownership generation digest rc)
  from step_claims show ?thesis
    unfolding advanceClaimsToQuarantined_def Let_def
    by (cases rule: immediate_cases)
      (auto split: if_splits dest!: traverse_quarantine_write intro: ownership_write_other)
next
  case (step_quarantine i ownership generation rq)
  from step_quarantine show ?thesis
    unfolding finalizeQuarantineOwnership_def
    by (cases rule: immediate_cases)
      (auto simp: rbind_Inr_iff split: if_splits option.splits dest!: writes intro: ownership_write_other)
qed

lemma keeps_ownership_inv:
  "keeps_ownership db db' \<Longrightarrow> lease_inv db \<Longrightarrow> lease_inv db'"
  by (simp add: keeps_ownership_def lease_inv_def ledger_at_def)

lemma same_ledgers_inv:
  "same_ledgers db db' \<Longrightarrow> lease_inv db \<Longrightarrow> lease_inv db'"
  by (simp add: same_ledgers_def lease_inv_def ledger_at_def)

lemma ledgers_move_inv: "ledgers_move db db' \<Longrightarrow> lease_inv db \<Longrightarrow> lease_inv db'"
  unfolding ledgers_move_def using same_ledgers_inv ledger_effect_inv by blast

lemma store_step_moves: "store_step db db' \<Longrightarrow> lease_inv db \<Longrightarrow> ledgers_move db db'"
  unfolding store_step_def
  using ownership_step_moves lifecycle_keeps by (fastforce simp: ledgers_move_def same_ledgers_def keeps_ownership_def)

lemma store_step_lifecycle: "store_step db db' \<Longrightarrow> lease_inv db \<Longrightarrow> lifecycle_step db db'"
  unfolding store_step_def using ownership_step_other lifecycle_step.step_other by blast

lemma store_step_inv: "store_step db db' \<Longrightarrow> lease_inv db \<Longrightarrow> lease_inv db'"
  using store_step_moves ledgers_move_inv by blast

lemma store_steps_inv: "store_step\<^sup>*\<^sup>* db db' \<Longrightarrow> lease_inv db \<Longrightarrow> lease_inv db'"
  by (induction rule: rtranclp_induct) (auto intro: store_step_inv)

lemma store_steps_lifecycle: "store_step\<^sup>*\<^sup>* db db' \<Longrightarrow> lease_inv db \<Longrightarrow> lifecycle_step\<^sup>*\<^sup>* db db'"
proof (induction rule: rtranclp_induct)
  case (step b c)
  then show ?case using store_steps_inv store_step_lifecycle by (meson rtranclp.rtrancl_into_rtrancl)
qed simp

lemma empty_lease_inv: "lease_inv empty_db"
  by (simp add: lease_inv_def lease_table_ok_def claim_table_ok_def ledger_inv_def ledger_ok_def claims_ok_def
      ledger_at_def leases_of_def claims_of_def empty_db_def)

lemma reachable_lease_inv: "reachable_store db \<Longrightarrow> lease_inv db"
  unfolding reachable_store_def using store_steps_inv empty_lease_inv by blast

lemma reachable_store_db: "reachable_store db \<Longrightarrow> reachable_db db"
  unfolding reachable_store_def reachable_db_def using store_steps_lifecycle empty_lease_inv by blast

end
