(* ===== verification/Lease_Properties.thy ===== *)
theory Lease_Properties
  imports Lease_System
begin

text \<open>
  What the ownership operations of the store promise: the shape of every reachable ledger, the
  protocol each call follows, the work only a live first owner can do, and the silence of an owner
  whose lease has ended.
\<close>

section \<open>Later ledgers\<close>

definition lease_ended :: "ownership_row \<Rightarrow> bool" where
  "lease_ended r = (ow_state r \<in> {LReleased, LQuarantined})"

lemma ledger_step_ended:
  "ledger_step l l' \<Longrightarrow> r \<in> set (fst l) \<Longrightarrow> lease_ended r \<Longrightarrow> r \<in> set (fst l')"
  by (induction rule: ledger_step.induct) (auto simp: lease_ended_def lease_is_current_def)

lemma ledgers_move_cases:
  assumes "ledgers_move db db'"
  shows "ledger_at i db' = ledger_at i db \<or> ledger_step (ledger_at i db) (ledger_at i db')"
proof (cases "same_ledgers db db'")
  case False
  with assms obtain j where "ledger_effect j db db'" by (auto simp: ledgers_move_def)
  then show ?thesis by (cases "i = j") (simp_all add: ledger_effect_def)
qed (simp add: same_ledgers_def ledger_at_def)

lemma ended_kept_step:
  assumes "ledgers_move db db'" "r \<in> set (db_ownerships db)" "lease_ended r"
  shows "r \<in> set (db_ownerships db')"
proof -
  have "r \<in> set (fst (ledger_at (ow_attempt r) db))" using assms(2) by (simp add: ledger_at_def)
  then have "r \<in> set (fst (ledger_at (ow_attempt r) db'))"
    using ledgers_move_cases [OF assms(1)] ledger_step_ended assms(3) by metis
  then show ?thesis by (simp add: ledger_at_def)
qed

lemma ended_kept:
  assumes "store_step\<^sup>*\<^sup>* db db'" "lease_inv db" "r \<in> set (db_ownerships db)" "lease_ended r"
  shows "r \<in> set (db_ownerships db')"
  using assms(1)
proof (induction rule: rtranclp_induct)
  case (step b c)
  then show ?case using store_steps_inv [OF step(1) assms(2)] store_step_moves ended_kept_step assms(4) by blast
qed (rule assms(3))

section \<open>Reachable ledgers\<close>

lemma reachable_ledgers:
  assumes "reachable_store db"
  shows "\<forall>i. let rs = leases_of i (db_ownerships db) in
     map ow_generation rs = map int [1..<length rs + 1]
     \<and> map ow_recovered_from rs = take (length rs) (None # map (\<lambda>r. Some (ow_id r)) rs)
     \<and> (\<forall>r \<in> set (butlast rs). ow_state r = LQuarantined)
     \<and> (\<forall>c \<in> set (db_claims db). cl_attempt c = i \<and> claim_is_held c \<longrightarrow> rs \<noteq> [] \<and> owned_by (last rs) c)"
  using reachable_lease_inv [OF assms]
  by (auto simp: lease_inv_def ledger_inv_def ledger_ok_def claims_ok_def ledger_at_def Let_def)

lemma calls_follow_ledger_protocol:
  assumes "reachable_store db" "store_step db db'"
  shows "\<exists>i. (\<forall>j. j \<noteq> i \<longrightarrow> ledger_at j db' = ledger_at j db)
    \<and> (ledger_at i db' = ledger_at i db \<or> ledger_step (ledger_at i db) (ledger_at i db'))"
  using store_step_moves [OF assms(2) reachable_lease_inv [OF assms(1)]]
  by (auto simp: ledgers_move_def same_ledgers_def ledger_effect_def ledger_at_def)

text \<open>
  C5. The ownership of an attempt follows the ledger protocol. In every database the store can reach, under
  any interleaving of ownership, process and lifecycle calls, the ownership generations of an attempt are
  numbered from 1 without gaps, each but the first names the one before it as the owner it recovered
  from, all but the last are quarantined, and every claim that is still held belongs to the last. And
  every further call, whether it succeeds or fails, changes the leases and claims of at most one
  attempt, by one step of \<open>ledger_step\<close>: opening, extension, advance, cleanup, end, fencing, or
  quarantine in place.
\<close>

theorem ownership_follows_the_ledger_protocol:
  assumes "reachable_store db"
  shows "(\<forall>i. let rs = leases_of i (db_ownerships db) in
     map ow_generation rs = map int [1..<length rs + 1]
     \<and> map ow_recovered_from rs = take (length rs) (None # map (\<lambda>r. Some (ow_id r)) rs)
     \<and> (\<forall>r \<in> set (butlast rs). ow_state r = LQuarantined)
     \<and> (\<forall>c \<in> set (db_claims db). cl_attempt c = i \<and> claim_is_held c \<longrightarrow> rs \<noteq> [] \<and> owned_by (last rs) c))
   \<and> (\<forall>db'. store_step db db' \<longrightarrow> (\<exists>i. (\<forall>j. j \<noteq> i \<longrightarrow> ledger_at j db' = ledger_at j db)
        \<and> (ledger_at i db' = ledger_at i db \<or> ledger_step (ledger_at i db) (ledger_at i db'))))"
  using reachable_ledgers [OF assms] calls_follow_ledger_protocol [OF assms] by blast

section \<open>Ended owners\<close>

definition speaks_as :: "AttemptOwnershipCommandPayload \<Rightarrow> ownership_row \<Rightarrow> bool" where
  "speaks_as p r =
     (oc_attemptId p = ow_attempt r
      \<and> (case oc_kind p of
           OpAcquire \<Rightarrow> True
         | OpStaleRecovery \<Rightarrow> oc_expiredOwnershipId p = Some (ow_id r)
         | _ \<Rightarrow> oc_ownershipId p = Some (ow_id r)))"

lemma same_lease: "lease_inv db \<Longrightarrow> r \<in> set (db_ownerships db) \<Longrightarrow> s \<in> set (db_ownerships db) \<Longrightarrow> ow_id r = ow_id s \<Longrightarrow> r = s"
  using distinct_map_eq [OF lease_inv_ids] by blast

lemma ended_current:
  assumes "requireCurrentOwnership p db = Inr s" "lease_inv db" "r \<in> set (db_ownerships db)" "oc_ownershipId p = Some (ow_id r)"
  shows "s = r"
  using requireCurrentOwnershipD [OF assms(1)] same_lease [OF assms(2)] assms(3,4) by simp

lemma salvage_owner_pending:
  assumes "recordAuthorizedSalvage env p db = Inr (db', res)"
  shows "db' = db \<or> (\<exists>s. requireCurrentOwnership p db = Inr s \<and> ow_state s = LCleanupPending)"
proof -
  have new: "ow_state r = LCleanupPending" if "insert_new_salvage env p r plan proof' x db = Inr (db', res)" for r plan proof' x
    using that by (auto simp: insert_new_salvage_def rbind_Inr_iff Let_def split: if_splits)
  have replay: "db' = db" if "replay_salvage env p r plan proof' x existing db = Inr (db', res)" for r plan proof' x existing
    using that by (auto simp: replay_salvage_def rbind_Inr_iff Let_def split: option.splits if_splits)
  obtain r plan x proof' where "requireCurrentOwnership p db = Inr r"
    "(case existing_salvage db (oc_attemptId p) (rc_record x) (oc_idempotencyKey p) of
            [] \<Rightarrow> insert_new_salvage env p r plan proof' x db
          | [existing] \<Rightarrow> replay_salvage env p r plan proof' x existing db
          | _ \<Rightarrow> Inl (StateErr IdempotencyConflict)) = Inr (db', res)"
    using assms by (auto simp: recordAuthorizedSalvage_def rbind_Inr_iff Let_def split: if_splits)
  then show ?thesis by (simp split: list.splits) (blast dest: new replay)+
qed

text \<open>Every command that writes under an ownership finds it live or in cleanup.\<close>

lemma writer_is_current:
  assumes "ownership_operation env p input digest db = Inr (db', res)" "db' \<noteq> db"
    and "oc_kind p \<notin> {OpAcquire, OpStaleRecovery}"
  shows "\<exists>s. requireCurrentOwnership p db = Inr s \<and> ow_state s \<in> {LLive, LCleanupPending}"
proof (cases "oc_kind p")
  case OpHeartbeat
  with assms(1) show ?thesis
    using heartbeat_writes [of env p input digest db db' res] by (auto simp: ownership_operation_def)
next
  case OpAdvanceResource
  with assms(1) show ?thesis
    using advance_writes [of env p input digest db db' res] by (auto simp: ownership_operation_def)
next
  case OpBeginCleanup
  with assms(1) show ?thesis
    using begin_writes [of env p input digest db db' res] by (auto simp: ownership_operation_def)
next
  case OpRelease
  with assms(1) show ?thesis
    using finalize_writes [of env p input digest db db' res] by (auto simp: ownership_operation_def)
next
  case OpQuarantine
  with assms(1) show ?thesis
    using finalize_writes [of env p input digest db db' res] by (auto simp: ownership_operation_def)
next
  case OpRecordSalvage
  with assms(1,2) show ?thesis
    using salvage_owner_pending [of env p db db' res] by (auto simp: ownership_operation_def)
qed (use assms in \<open>auto simp: ownership_operation_def rbind_Inr_iff\<close>)

lemma ended_owner_refused:
  assumes commit: "commitAttemptOwnership env p db = Inr (db', res)" and inv: "lease_inv db"
    and r: "r \<in> set (db_ownerships db)" "lease_ended r" "speaks_as p r"
  shows "db' = db"
proof (rule ccontr)
  assume moved: "db' \<noteq> db"
  with commit obtain input digest where op: "ownership_operation env p input digest db = Inr (db', res)"
    by (auto simp: commitAttemptOwnership_def rbind_Inr_iff Let_def split: if_splits option.splits)
  consider "oc_kind p = OpAcquire" | "oc_kind p = OpStaleRecovery" | "oc_kind p \<notin> {OpAcquire, OpStaleRecovery}" by blast
  then show False
  proof cases
    case 1
    then show False
      using op acquire_writes [of env p input digest db db' res] r by (auto simp: ownership_operation_def speaks_as_def)
  next
    case 2
    then obtain old where "find_lease db (ow_id r) (oc_attemptId p) = Some old" "lease_is_current old"
      using op recover_writes [of env p input digest db db' res] r(3) by (auto simp: ownership_operation_def speaks_as_def)
    then show False
      using r(2) same_lease [OF inv r(1)] find_leaseD by (metis lease_ended_def lease_is_current_def empty_iff insert_iff lease_state.distinct)
  next
    case 3
    then obtain s where s: "requireCurrentOwnership p db = Inr s" "ow_state s \<in> {LLive, LCleanupPending}"
      using writer_is_current [OF op moved] by blast
    have "oc_ownershipId p = Some (ow_id r)" using r(3) 3 by (cases "oc_kind p") (simp_all add: speaks_as_def)
    then have "s = r" using requireCurrentOwnershipD [OF s(1)] same_lease [OF inv _ r(1)] by simp
    with s(2) r(2) show False by (auto simp: lease_ended_def)
  qed
qed

lemma ended_launch_refused:
  assumes "commitProcessLaunch env q db = Inr (db', l)" "lease_inv db"
    and r: "r \<in> set (db_ownerships db)" "lease_ended r" "pl_ownershipId q = ow_id r"
  shows "db' = db"
proof (rule ccontr)
  assume "db' \<noteq> db"
  then obtain evidence where "new_launch env q evidence db = Inr (db', l)" using commitProcessLaunch_cases [OF assms(1)] by blast
  then obtain s where "s \<in> set (db_ownerships db)" "ow_id s = pl_ownershipId q" "ow_state s = LLive"
    using launch_writes launch_owner by blast
  moreover from this have "s = r" using same_lease [OF assms(2) _ r(1)] r(3) by simp
  ultimately show False using r(2) by (simp add: lease_ended_def)
qed

text \<open>
  C8. An owner that has ended stays ended and silent. Once an ownership row is released or quarantined, it is
  kept unchanged in every later database, and no command that speaks as this owner (under its id, or to
  acquire its attempt again, or to recover from it once more) and no launch of a process under its id
  changes that database, at any time and in any environment.
\<close>

theorem ended_owner_never_writes:
  assumes "reachable_store db" "r \<in> set (db_ownerships db)" "lease_ended r" "store_step\<^sup>*\<^sup>* db db'"
  shows "r \<in> set (db_ownerships db')
    \<and> (\<forall>env p. speaks_as p r \<longrightarrow> fst (commitAuthorizedAttemptOwnership env p db') = db')
    \<and> (\<forall>env q. pl_ownershipId q = ow_id r \<longrightarrow> fst (commitAuthorizedProcessLaunch env q db') = db')"
proof -
  have inv: "lease_inv db'" using store_steps_inv [OF assms(4) reachable_lease_inv [OF assms(1)]] .
  have r: "r \<in> set (db_ownerships db')" using ended_kept [OF assms(4) reachable_lease_inv [OF assms(1)] assms(2,3)] .
  have "fst (commitAuthorizedAttemptOwnership env p db') = db'" if "speaks_as p r" for env p
    using ended_owner_refused [OF _ inv r assms(3) that]
    by (auto simp: commitAuthorizedAttemptOwnership_def immediate_def split: sum.splits)
  moreover have "fst (commitAuthorizedProcessLaunch env q db') = db'" if "pl_ownershipId q = ow_id r" for env q
    using ended_launch_refused [OF _ inv r assms(3) that]
    by (auto simp: commitAuthorizedProcessLaunch_def immediate_def split: sum.splits)
  ultimately show ?thesis using r by blast
qed


section \<open>Work under a live lease\<close>

lemma first_owner:
  assumes "lease_inv db" "r \<in> set (db_ownerships db)" "ow_state r = LLive" "ow_recovered_from r = None"
  shows "leases_of (ow_attempt r) (db_ownerships db) = [r] \<and> ow_generation r = 1"
proof -
  obtain rs where rs: "leases_of (ow_attempt r) (db_ownerships db) = rs @ [r]"
    using current_is_last [OF assms(1,2)] assms(3) by auto
  then have "ledger_ok (rs @ [r])" using assms(1) by (simp add: lease_inv_def ledger_inv_def ledger_at_def) (metis)
  then have "map ow_recovered_from (rs @ [r]) = None # map (\<lambda>r. Some (ow_id r)) rs" "map ow_generation (rs @ [r]) = map int [1..<length rs + 2]"
    by (simp_all add: ledger_ok_def)
  moreover from this have "rs = []" using assms(4) by (cases rs rule: rev_cases) auto
  ultimately show ?thesis using rs by simp
qed

lemma work_needs_first_owner:
  assumes "reachable_store db" and commit: "commitAuthorizedAttemptOwnership env p db = (db', Inr res)" "db' \<noteq> db"
    and kind: "oc_kind p \<in> {OpHeartbeat, OpAdvanceResource}"
  shows "\<exists>r. leases_of (oc_attemptId p) (db_ownerships db) = [r] \<and> oc_ownershipId p = Some (ow_id r)
    \<and> ow_generation r = 1 \<and> ow_state r = LLive \<and> ow_token_digest r = oc_ownerTokenDigest p
    \<and> \<not> expired env (ow_expires r)"
proof -
  have "commitAttemptOwnership env p db = Inr (db', res)"
    using commit(1) by (simp add: commitAuthorizedAttemptOwnership_def immediate_Inr_iff)
  with commit(2) obtain input digest where "ownership_operation env p input digest db = Inr (db', res)"
    by (auto simp: commitAttemptOwnership_def rbind_Inr_iff Let_def split: if_splits option.splits)
  then obtain r where r: "requireCurrentOwnership p db = Inr r" "ow_state r = LLive" "ow_recovered_from r = None"
    "\<not> expired env (ow_expires r)"
    using kind heartbeat_writes [of env p input digest db db' res] advance_writes [of env p input digest db db' res]
    by (auto simp: ownership_operation_def)
  note cur = requireCurrentOwnershipD [OF r(1)]
  then have "leases_of (ow_attempt r) (db_ownerships db) = [r] \<and> ow_generation r = 1"
    using first_owner [OF reachable_lease_inv [OF assms(1)] _ r(2,3)] by blast
  with cur r show ?thesis by auto
qed

lemma launch_needs_first_owner:
  assumes "reachable_store db" and commit: "commitAuthorizedProcessLaunch env q db = (db', Inr l)" "db' \<noteq> db"
  shows "\<exists>r. leases_of (pl_attemptId q) (db_ownerships db) = [r] \<and> ow_id r = pl_ownershipId q
    \<and> ow_generation r = pl_ownerGeneration q \<and> ow_generation r = 1 \<and> ow_state r = LLive
    \<and> ow_context_digest r = pl_ownershipContextDigest q \<and> unexpired env (ow_expires r)
    \<and> db_ownerships db' = db_ownerships db \<and> l = launch_row_of q"
proof -
  have "commitProcessLaunch env q db = Inr (db', l)"
    using commit(1) by (simp add: commitAuthorizedProcessLaunch_def immediate_Inr_iff)
  with commit(2) obtain evidence where launch: "new_launch env q evidence db = Inr (db', l)" using commitProcessLaunch_cases by blast
  then obtain db1 where db1: "launch_owner_ok env q db" "activate_claims q db (launch_slots q) = Inr db1" "same_ledgers db1 db'"
    "l = launch_row_of q" using launch_writes by blast
  obtain r where r: "r \<in> set (db_ownerships db)" "ow_id r = pl_ownershipId q" "ow_attempt r = pl_attemptId q"
    "ow_generation r = pl_ownerGeneration q" "ow_state r = LLive" "ow_recovered_from r = None"
    "ow_context_digest r = pl_ownershipContextDigest q" "unexpired env (ow_expires r)"
    using launch_owner [OF db1(1)] by blast
  have inv: "lease_inv db" using assms(1) by (rule reachable_lease_inv)
  have "claims_step (pl_attemptId q) claim_advances db db1"
    by (rule activate_claims_step [OF db1(2)]) (use inv in \<open>simp add: lease_inv_def\<close>)
  then have "db_ownerships db' = db_ownerships db" using db1(3) by (simp add: claims_step_def same_ledgers_def)
  with first_owner [OF inv r(1,5,6)] r db1(4) show ?thesis by auto
qed

text \<open>
  C9. Work is done by the live first owner only. A heartbeat or an advance of a resource that changes
  the database, and a launch of a process that does, presuppose that the attempt has exactly one
  ownership generation, the first, that it is live and unexpired, and that the command names it (a heartbeat
  or advance by id and token, a launch by id, generation and context digest). So no generation that
  recovered an attempt ever works on it, and a launch leaves the leases as they are.
\<close>

theorem work_needs_the_live_first_owner:
  assumes "reachable_store db"
  shows "(\<forall>env p db' res. commitAuthorizedAttemptOwnership env p db = (db', Inr res) \<and> db' \<noteq> db
        \<and> oc_kind p \<in> {OpHeartbeat, OpAdvanceResource} \<longrightarrow>
      (\<exists>r. leases_of (oc_attemptId p) (db_ownerships db) = [r] \<and> oc_ownershipId p = Some (ow_id r)
         \<and> ow_generation r = 1 \<and> ow_state r = LLive \<and> ow_token_digest r = oc_ownerTokenDigest p
         \<and> \<not> expired env (ow_expires r)))
   \<and> (\<forall>env q db' l. commitAuthorizedProcessLaunch env q db = (db', Inr l) \<and> db' \<noteq> db \<longrightarrow>
      (\<exists>r. leases_of (pl_attemptId q) (db_ownerships db) = [r] \<and> ow_id r = pl_ownershipId q
         \<and> ow_generation r = pl_ownerGeneration q \<and> ow_generation r = 1 \<and> ow_state r = LLive
         \<and> ow_context_digest r = pl_ownershipContextDigest q \<and> unexpired env (ow_expires r)
         \<and> db_ownerships db' = db_ownerships db \<and> l = launch_row_of q))"
  using work_needs_first_owner [OF assms] launch_needs_first_owner [OF assms] by blast

section \<open>Recovery\<close>

text \<open>
  C7. A recovery that changes the database fences exactly the newest owner of the attempt. That owner was
  live or in cleanup, its lease is not in the future (it expired, or its date does not parse), and the
  chain of process records proves its process group dead. It is quarantined and followed by one new
  generation, numbered next, that names it and may only clean up; the older generations are untouched,
  and every held claim passes to the new owner for cleanup while ended claims stay as they are.
\<close>

theorem recovery_fences_the_stale_owner:
  assumes "reachable_store db" and commit: "commitAuthorizedAttemptOwnership env p db = (db', Inr res)" "db' \<noteq> db"
    and kind: "oc_kind p = OpStaleRecovery"
  shows "\<exists>qs old fenced new evidence. leases_of (oc_attemptId p) (db_ownerships db) = qs @ [old]
    \<and> leases_of (oc_attemptId p) (db_ownerships db') = qs @ [fenced, new]
    \<and> oc_expiredOwnershipId p = Some (ow_id old) \<and> lease_is_current old
    \<and> \<not> later_than (date_ms env (ow_expires old)) (Some (env_clock env))
    \<and> oc_deathEvidenceId p = Some evidence \<and> require_death_chain env (oc_attemptId p) old evidence db = Inr ()
    \<and> lease_kept old fenced \<and> ow_state fenced = LQuarantined
    \<and> ow_generation new = ow_generation old + 1 \<and> ow_recovered_from new = Some (ow_id old)
    \<and> ow_state new = LCleanupPending \<and> ow_token_digest new = oc_ownerTokenDigest p
    \<and> list_all2 (claim_inherited new) (claims_of (oc_attemptId p) (db_claims db)) (claims_of (oc_attemptId p) (db_claims db'))"
proof -
  have inv: "lease_inv db" using assms(1) by (rule reachable_lease_inv)
  have "commitAttemptOwnership env p db = Inr (db', res)"
    using commit(1) by (simp add: commitAuthorizedAttemptOwnership_def immediate_Inr_iff)
  with commit(2) kind obtain input digest where "recoverStaleAttemptOwnership env p input digest db = Inr (db', res)"
    by (auto simp: commitAttemptOwnership_def ownership_operation_def rbind_Inr_iff Let_def split: if_splits option.splits)
  then obtain old evidence new plan db1 where old: "oc_expiredOwnershipId p = Some (ow_id old)"
      "find_lease db (ow_id old) (oc_attemptId p) = Some old" "lease_is_current old"
      "\<not> later_than (date_ms env (ow_expires old)) (Some (env_clock env))"
    and death: "oc_deathEvidenceId p = Some evidence" "require_death_chain env (oc_attemptId p) old evidence db = Inr ()"
    and new: "ow_attempt new = oc_attemptId p" "ow_generation new = ow_generation old + 1"
      "ow_recovered_from new = Some (ow_id old)" "ow_state new = LCleanupPending" "ow_token_digest new = oc_ownerTokenDigest p"
    and fence: "fence_owner (oc_attemptId p) old new db = Inr db1"
    and op: "recordOwnershipOperation env p (ow_id new) RecoveryCleanup plan input digest db1 = Inr (db', res)"
    using recover_writes by blast
  note found = find_leaseD [OF old(2)]
  have same: "db_ownerships db' = db_ownerships db1" "db_claims db' = db_claims db1" using recordOwnershipOperation_Inr [OF op] by auto
  obtain qs where "leases_of (oc_attemptId p) (db_ownerships db) = qs @ [old]"
    "leases_of (oc_attemptId p) (db_ownerships db') = qs @ [bump_lease (\<lambda>x. x\<lparr>ow_state := LQuarantined\<rparr>) old, new]"
    "list_all2 (claim_inherited new) (claims_of (oc_attemptId p) (db_claims db)) (claims_of (oc_attemptId p) (db_claims db'))"
    unfolding same using fence_effect(2) [OF fence inv _ _ old(3) new(1-4)] found by blast
  with old new death show ?thesis
    by (intro exI [of _ qs] exI [of _ old] exI [of _ "bump_lease (\<lambda>x. x\<lparr>ow_state := LQuarantined\<rparr>) old"] exI [of _ new]
        exI [of _ evidence]) (simp add: lease_kept_def)
qed

end
