(* ===== verification/Lease_Replay.thy ===== *)
theory Lease_Replay
  imports Lease_Properties
begin

text \<open>
  The idempotent replay of an ownership command. The identity columns of runs, tickets and attempts
  are immutable, so the plan of an attempt is the same in every later database; the identity columns
  of leases and claims are immutable too, and their versions do not decrease. So the sealed result of
  a recorded operation passes the checks of the replay at any later time.
\<close>

section \<open>The lineage of an attempt is immutable\<close>

definition rows_fixed :: "('a snapshot_row_scheme \<Rightarrow> 'b) \<Rightarrow> 'a snapshot_row_scheme list \<Rightarrow> 'a snapshot_row_scheme list \<Rightarrow> bool" where
  "rows_fixed g rows rows' =
     (\<forall>i r. find_row rows i = Some r \<longrightarrow> (\<exists>r'. find_row rows' i = Some r' \<and> g r' = g r))"

lemma rows_fixed_refl [simp]: "rows_fixed g rows rows"
  by (simp add: rows_fixed_def)

lemma rows_fixed_trans: "rows_fixed g a b \<Longrightarrow> rows_fixed g b c \<Longrightarrow> rows_fixed g a c"
  unfolding rows_fixed_def by metis

lemma rows_fixed_map: "(\<And>r. row_id (f r) = row_id r \<and> g (f r) = g r) \<Longrightarrow> rows_fixed g rows (map f rows)"
  by (simp add: rows_fixed_def find_row_map)

lemma rows_fixed_append: "rows_fixed g rows (rows @ new)"
  by (simp add: rows_fixed_def find_row_append)

lemma rows_fixedD: "rows_fixed g rows rows' \<Longrightarrow> find_row rows i = Some r \<Longrightarrow> \<exists>r'. find_row rows' i = Some r' \<and> g r' = g r"
  by (simp add: rows_fixed_def)

definition run_identity :: "run_row \<Rightarrow> string \<times> string" where
  "run_identity r = (run_repository r, run_delivery_ref r)"

definition attempt_identity :: "attempt_row \<Rightarrow> string list \<times> int" where
  "attempt_identity a =
     ([row_id a, at_ticket a, at_run a, at_ticket_id a, at_contract_digest a, at_owner_digest a, at_baseline_oid a,
       at_resource_version a], at_number a)"

definition lineage_kept :: "state_db \<Rightarrow> state_db \<Rightarrow> bool" where
  "lineage_kept db db' =
     (rows_fixed run_identity (db_runs db) (db_runs db') \<and> rows_fixed row_id (db_tickets db) (db_tickets db')
      \<and> rows_fixed attempt_identity (db_attempts db) (db_attempts db'))"

lemma lineage_kept_refl [simp]: "lineage_kept db db"
  by (simp add: lineage_kept_def)

lemma lineage_kept_trans: "lineage_kept a b \<Longrightarrow> lineage_kept b c \<Longrightarrow> lineage_kept a c"
  unfolding lineage_kept_def by (elim conjE, intro conjI; erule (1) rows_fixed_trans)

lemma other_tables_lineage: "other_tables db db' \<Longrightarrow> lineage_kept db db'"
  by (simp add: other_tables_def lineage_kept_def)

lemma advanced_run:
  "run_repository (advance_row t r) = run_repository r" "run_delivery_ref (advance_row t r) = run_delivery_ref r"
  by (simp_all add: advance_row_def)

lemma advanced_attempt:
  "at_ticket (advance_row t a) = at_ticket a" "at_run (advance_row t a) = at_run a"
  "at_ticket_id (advance_row t a) = at_ticket_id a" "at_number (advance_row t a) = at_number a"
  "at_contract_digest (advance_row t a) = at_contract_digest a" "at_owner_digest (advance_row t a) = at_owner_digest a"
  "at_baseline_oid (advance_row t a) = at_baseline_oid a" "at_resource_version (advance_row t a) = at_resource_version a"
  by (simp_all add: advance_row_def)

lemma advance_identity [simp]:
  "run_identity (advance_row t r) = run_identity r" "attempt_identity (advance_row t a) = attempt_identity a"
  by (simp_all only: run_identity_def attempt_identity_def advanced_run advanced_attempt row_id_advance)

named_theorems lineage \<open>statements that keep the lineage of every attempt\<close>

lemma insert_transition_lineage [lineage]: "insert_transition t db = Inr db' \<Longrightarrow> lineage_kept db db'"
  using insert_transition_cases [of t db db'] by (auto simp: lineage_kept_def)

lemma insert_refs_lineage [lineage]: "insert_refs db rs = Inr db' \<Longrightarrow> lineage_kept db db'"
  using insert_refs_cases [of db rs db'] by (auto simp: lineage_kept_def)

lemma update_run_lineage:
  "update_where legal t P (db_runs db) = Inr (rows, n) \<Longrightarrow> lineage_kept db (db\<lparr>db_runs := rows\<rparr>)"
  by (auto simp: lineage_kept_def dest!: update_where_cases intro: rows_fixed_map)

lemma update_ticket_lineage:
  "update_where legal t P (db_tickets db) = Inr (rows, n) \<Longrightarrow> lineage_kept db (db\<lparr>db_tickets := rows\<rparr>)"
  by (auto simp: lineage_kept_def dest!: update_where_cases intro: rows_fixed_map)

lemma update_attempt_lineage:
  "update_where legal t P (db_attempts db) = Inr (rows, n) \<Longrightarrow> lineage_kept db (db\<lparr>db_attempts := rows\<rparr>)"
  by (auto simp: lineage_kept_def dest!: update_where_cases intro: rows_fixed_map)

lemma set_state_lineage [lineage]:
  "set_run_state i t db = Inr db' \<Longrightarrow> lineage_kept db db'"
  "set_ticket_state i t db = Inr db' \<Longrightarrow> lineage_kept db db'"
  "set_attempt_state i t db = Inr db' \<Longrightarrow> lineage_kept db db'"
  "cleanup_active_ticket ticket db = Inr db' \<Longrightarrow> lineage_kept db db'"
  by (auto simp: set_run_state_def set_ticket_state_def set_attempt_state_def cleanup_active_ticket_def rbind_Inr_iff
      intro: update_run_lineage update_ticket_lineage update_attempt_lineage)

lemma cas_entity_lineage [lineage]: "cas_entity kind i f t v db = Inr (db', n) \<Longrightarrow> lineage_kept db db'"
  by (cases kind) (auto simp: cas_entity_def rbind_Inr_iff
      intro: update_run_lineage update_ticket_lineage update_attempt_lineage)

lemma insert_direct_lineage [lineage]: "insert_direct env kind i f t owner od input key db = Inr (db', x) \<Longrightarrow> lineage_kept db db'"
  by (auto simp: insert_direct_def rbind_Inr_iff Let_def intro: lineage)

lemma write_transition_lineage: "write_transition c t evidence db = Inr db' \<Longrightarrow> lineage_kept db db'"
  by (auto simp: write_transition_def rbind_Inr_iff split: if_splits intro: lineage_kept_trans dest!: lineage)

lemma commit_lineage:
  assumes "commitTransitionInCurrentTransaction env c db = Inr (db', r)"
  shows "lineage_kept db db'"
  using assms
proof (cases rule: commit_cases)
  case (replay mid evidence d t)
  then show ?thesis using resolve_input_other other_tables_lineage by blast
next
  case (new mid evidence d)
  then show ?thesis
    using resolve_input_other other_tables_lineage write_transition_lineage [OF commit_new_facts(4) [OF new(3)]]
      lineage_kept_trans by blast
qed

lemma immediate_lineage:
  assumes "immediate f db = (db', r)" "\<And>x. f db = Inr (db', x) \<Longrightarrow> lineage_kept db db'"
  shows "lineage_kept db db'"
  using assms(1) by (cases rule: immediate_cases) (auto intro: assms(2))

lemma activate_lineage:
  "activateRunForRunner env i a key db = (db', ru) \<Longrightarrow> lineage_kept db db'"
  "activateTicketForRunner env i a key db = (db', ru) \<Longrightarrow> lineage_kept db db'"
  unfolding activateRunForRunner_def activateTicketForRunner_def
  by (erule immediate_lineage; auto simp: rbind_Inr_iff split: option.splits if_splits
      intro: lineage_kept_trans dest!: lineage)+

lemma advance_lineage:
  "advanceAttemptToCleanupPending env i key db = (db', ru) \<Longrightarrow> lineage_kept db db'"
  "advanceTicketToCleanupPending i db = (db', ru) \<Longrightarrow> lineage_kept db db'"
  "advanceAttemptState env i f t key db = (db', ru) \<Longrightarrow> lineage_kept db db'"
  unfolding advanceAttemptToCleanupPending_def advanceTicketToCleanupPending_def advanceAttemptState_def
  by (erule immediate_lineage; auto simp: rbind_Inr_iff split: option.splits if_splits
      intro: lineage_kept_trans dest!: lineage)+

lemma recover_lineage: "recoverOrphanedPlannedAttempt env i key db = (db', ru) \<Longrightarrow> lineage_kept db db'"
  unfolding recoverOrphanedPlannedAttempt_def
  by (erule immediate_lineage) (auto simp: recover_orphan_def rbind_Inr_iff Let_def split: option.splits if_splits
      dest!: lineage, blast intro: lineage_kept_trans)

lemma allocation_lineage:
  "advance_delivery_chain i oid old n v db = Inr db' \<Longrightarrow> lineage_kept db db'"
  "insert_run run db = Inr db' \<Longrightarrow> lineage_kept db db'"
  "insert_ticket ticket db = Inr db' \<Longrightarrow> lineage_kept db db'"
  "insert_attempt attempt db = Inr db' \<Longrightarrow> lineage_kept db db'"
  by (auto simp: advance_delivery_chain_def insert_run_def insert_ticket_def insert_attempt_def lineage_kept_def Let_def
      run_identity_def split: if_splits intro!: rows_fixed_map rows_fixed_append)

lemma lifecycle_lineage:
  assumes "lifecycle_step db db'"
  shows "lineage_kept db db'"
  using assms
proof (cases rule: lifecycle_step.cases)
  case (step_commit c env r)
  then show ?thesis using commit_lineage by blast
qed (blast dest: activate_lineage advance_lineage recover_lineage allocation_lineage other_tables_lineage)+

lemma steps_lineage: "lifecycle_step\<^sup>*\<^sup>* db db' \<Longrightarrow> lineage_kept db db'"
  by (induction rule: rtranclp_induct) (auto intro: lineage_kept_trans lifecycle_lineage)

text \<open>The plan of an attempt, in any environment of the same installation.\<close>

definition same_installation :: "store_env \<Rightarrow> store_env \<Rightarrow> bool" where
  "same_installation env env' =
     (env_sha256 env' = env_sha256 env \<and> env_cwd env' = env_cwd env \<and> env_location env' = env_location env)"

lemma plan_kept:
  assumes "attemptOwnershipPlan env db i = Inr plan" "lineage_kept db db'" "same_installation env env'"
  shows "attemptOwnershipPlan env' db' i = Inr plan"
proof -
  obtain a where a: "find_row (db_attempts db) i = Some a"
    using assms(1) by (cases "find_row (db_attempts db) i") (simp_all add: attemptOwnershipPlan_def)
  obtain k r where kr: "find_row (db_tickets db) (at_ticket a) = Some k" "find_row (db_runs db) (at_run a) = Some r"
    using assms(1) a by (auto simp: attemptOwnershipPlan_def split: option.splits)
  obtain a' where a': "find_row (db_attempts db') i = Some a'" "attempt_identity a' = attempt_identity a"
    using assms(2) rows_fixedD [OF _ a] by (auto simp: lineage_kept_def)
  obtain k' where k': "find_row (db_tickets db') (at_ticket a) = Some k'"
    using assms(2) rows_fixedD [OF _ kr(1)] by (force simp: lineage_kept_def)
  obtain r' where r': "find_row (db_runs db') (at_run a) = Some r'" "run_identity r' = run_identity r"
    using assms(2) rows_fixedD [OF _ kr(2)] by (auto simp: lineage_kept_def)
  show ?thesis
    using assms(1,3) a a' kr k' r'
    by (auto simp: attemptOwnershipPlan_def same_installation_def attempt_identity_def run_identity_def split: if_splits)
qed


section \<open>Rows of a later database\<close>

definition ledger_follows :: "ledger \<Rightarrow> ledger \<Rightarrow> bool" where
  "ledger_follows l l' =
     ((\<forall>r \<in> set (fst l). \<exists>s \<in> set (fst l'). lease_kept r s)
      \<and> (fst l \<noteq> [] \<longrightarrow> fst l' \<noteq> [] \<and> list_all2 claim_kept (snd l) (snd l')))"

lemma claims_kept_refl: "list_all2 claim_kept cs cs"
  by (simp add: list_all2_same)

lemma claims_kept_trans: "list_all2 claim_kept a b \<Longrightarrow> list_all2 claim_kept b c \<Longrightarrow> list_all2 claim_kept a c"
  by (rule list_all2_trans [OF claim_kept_trans])

lemma ledger_follows_refl: "ledger_follows l l"
  by (auto simp: ledger_follows_def claims_kept_refl intro: lease_kept_refl)

lemma ledger_follows_trans: "ledger_follows a b \<Longrightarrow> ledger_follows b c \<Longrightarrow> ledger_follows a c"
  unfolding ledger_follows_def by (meson lease_kept_trans claims_kept_trans)

lemma claim_condemned_kept: "claim_condemned c d \<Longrightarrow> claim_kept c d"
  by (auto simp: claim_condemned_def)

lemma claim_inherited_kept: "claim_inherited new c d \<Longrightarrow> claim_kept c d"
  by (auto simp: claim_inherited_def split: if_splits)

lemma claim_cleans_kept: "claim_cleans c d \<Longrightarrow> claim_kept c d"
  by (simp add: claim_cleans_def)

lemma claim_ends_kept: "claim_ends t digest c d \<Longrightarrow> claim_kept c d"
  by (simp add: claim_ends_def)

lemmas claims_kept =
  claim_advances_kept claim_condemned_kept claim_inherited_kept claim_cleans_kept claim_ends_kept

lemma lease_follows:
  assumes "ledger_follows (ledger_at i db) (ledger_at i db')" "r \<in> set (db_ownerships db)" "ow_attempt r = i"
  shows "\<exists>s \<in> set (db_ownerships db'). lease_kept r s"
proof -
  have "r \<in> set (fst (ledger_at i db))" using assms(2,3) by (simp add: ledger_at_def)
  then obtain s where "s \<in> set (fst (ledger_at i db'))" "lease_kept r s"
    using assms(1) unfolding ledger_follows_def by blast
  then show ?thesis by (auto simp: ledger_at_def)
qed

lemma ledger_step_follows: "ledger_step l l' \<Longrightarrow> ledger_follows l l'"
  by (induction rule: ledger_step.induct)
    (auto simp: ledger_follows_def claims_kept_refl elim!: list_all2_mono intro: claims_kept lease_kept_refl)

lemma ledgers_move_follows: "ledgers_move db db' \<Longrightarrow> ledger_follows (ledger_at i db) (ledger_at i db')"
  using ledgers_move_cases [of db db' i] ledger_step_follows ledger_follows_refl by metis

lemma steps_follow:
  "store_step\<^sup>*\<^sup>* db db' \<Longrightarrow> lease_inv db \<Longrightarrow> ledger_follows (ledger_at i db) (ledger_at i db')"
proof (induction rule: rtranclp_induct)
  case (step b c)
  then have "ledger_follows (ledger_at i b) (ledger_at i c)" using store_steps_inv store_step_moves ledgers_move_follows by blast
  with step show ?case using ledger_follows_trans by blast
qed (rule ledger_follows_refl)

section \<open>Operations are append-only\<close>

lemma ownership_step_operations:
  assumes "ownership_step db db'" "lease_inv db"
  shows "prefix (db_operations db) (db_operations db')"
  using assms(1)
proof (cases rule: ownership_step.cases)
  case (step_ownership env p ro)
  then have "db' = db \<or> (\<exists>res. commitAttemptOwnership env p db = Inr (db', res))"
    unfolding commitAuthorizedAttemptOwnership_def by (cases rule: immediate_cases) simp_all
  then show ?thesis
  proof (elim disjE exE)
    fix res assume "commitAttemptOwnership env p db = Inr (db', res)"
    then show ?thesis
    proof (cases rule: commitAttemptOwnership_cases)
      case (applied input)
      then obtain mid ownership purpose plan where "ownership_write db mid"
        "recordOwnershipOperation env p ownership purpose plan input (env_sha256 env input) mid = Inr (db', res)"
        using recorded_operation [OF applied(4,2) assms(2)] by blast
      then show ?thesis by (auto simp: ownership_write_def dest!: recordOwnershipOperation_Inr)
    qed (simp_all add: ownership_write_def)
  qed simp
next
  case (step_launch env q rl)
  then have "db' = db \<or> (\<exists>l. commitProcessLaunch env q db = Inr (db', l))"
    unfolding commitAuthorizedProcessLaunch_def by (cases rule: immediate_cases) simp_all
  moreover have "db_operations db' = db_operations db" if "new_launch env q evidence db = Inr (db', l)" for evidence l
    using launch_writes [OF that] activate_claims_write by (auto simp: ownership_write_def)
  ultimately show ?thesis by (auto dest!: commitProcessLaunch_cases)
next
  case (step_terminal env k rt)
  then have "db' = db \<or> (\<exists>t. commitProcessTerminal env k db = Inr (db', t))"
    unfolding commitAuthorizedProcessTerminal_def by (cases rule: immediate_cases) simp_all
  then show ?thesis using terminal_ledgers by auto
next
  case (step_claims i ownership generation digest rc)
  from step_claims show ?thesis
    unfolding advanceClaimsToQuarantined_def Let_def
    by (cases rule: immediate_cases)
      (auto split: if_splits dest!: traverse_quarantine_write simp: ownership_write_def)
next
  case (step_quarantine i ownership generation rq)
  from step_quarantine show ?thesis
    unfolding finalizeQuarantineOwnership_def
    by (cases rule: immediate_cases)
      (auto simp: rbind_Inr_iff ownership_write_def split: if_splits option.splits dest!: writes)
qed

lemma store_step_operations: "store_step db db' \<Longrightarrow> lease_inv db \<Longrightarrow> prefix (db_operations db) (db_operations db')"
  unfolding store_step_def by (auto simp: keeps_ownership_def ownership_step_operations dest!: lifecycle_keeps)

lemma steps_operations: "store_step\<^sup>*\<^sup>* db db' \<Longrightarrow> lease_inv db \<Longrightarrow> prefix (db_operations db) (db_operations db')"
proof (induction rule: rtranclp_induct)
  case (step b c)
  then show ?case using store_steps_inv store_step_operations by (meson prefix_order.trans)
qed simp

lemma find_operation_later:
  "store_step\<^sup>*\<^sup>* db db' \<Longrightarrow> lease_inv db \<Longrightarrow> find_operation db i key = Some o' \<Longrightarrow> find_operation db' i key = Some o'"
  unfolding find_operation_def by (rule find_prefix [OF steps_operations])


section \<open>The sealed result reads back\<close>

lemma get_prop_normal:
  "distinct (map fst kvs) \<Longrightarrow> get_prop (key_normal (JObj kvs)) k = key_normal (get_prop (JObj kvs) k)"
  by (simp only: get_prop_parsed) (simp add: get_prop_def split: option.split)

lemma row_normal:
  "list_all (\<lambda>kv. sql_value (snd kv)) kvs \<Longrightarrow> ownershipOperationRow (key_normal (JObj kvs)) = Inr (key_normal (JObj kvs))"
proof -
  have "sql_value (key_normal v)" if "sql_value v" for v using that by (cases v) (simp_all add: sql_value_def)
  moreover assume "list_all (\<lambda>kv. sql_value (snd kv)) kvs"
  ultimately show ?thesis
    by (auto simp: key_normal_JObj ownershipOperationRow_def list_all_iff member_normal_def)
qed

lemma optional_text_sql [simp]: "sql_value (optional_text x)" "js_wf (optional_text x)" "key_normal (optional_text x) = optional_text x"
  by (simp_all add: optional_text_def sql_value_def split: option.split)

lemma scalar_sql [simp]: "sql_value (JStr s)" "sql_value (JNum n)"
  by (simp_all add: sql_value_def)

lemma lease_row_normal: "ownershipOperationRow (key_normal (ownership_js r)) = Inr (key_normal (ownership_js r))"
  unfolding ownership_js_def by (rule row_normal) simp

lemma claim_row_normal: "ownershipOperationRow (key_normal (claim_js c)) = Inr (key_normal (claim_js c))"
  unfolding claim_js_def by (rule row_normal) simp

lemma ownership_js_wf: "js_wf (ownership_js r)"
  by (simp add: ownership_js_def)

lemma claim_js_wf: "js_wf (claim_js c)"
  by (simp add: claim_js_def)

lemma sealed_js_wf: "js_wf (sealed_js purpose r cs)"
  by (simp add: sealed_js_def ownership_js_wf claim_js_wf)

lemma lease_prop: "get_prop (key_normal (ownership_js r)) k = key_normal (get_prop (ownership_js r) k)"
  unfolding ownership_js_def by (rule get_prop_normal) simp

lemma claim_prop: "get_prop (key_normal (claim_js c)) k = key_normal (get_prop (claim_js c) k)"
  unfolding claim_js_def by (rule get_prop_normal) simp

lemma sealed_prop: "get_prop (key_normal (sealed_js purpose r cs)) k = key_normal (get_prop (sealed_js purpose r cs) k)"
  unfolding sealed_js_def by (rule get_prop_normal) simp

lemma sealed_members:
  "get_prop (sealed_js purpose r cs) ''schema_version'' = JStr ''rickgent.attempt-ownership-operation-result/v1''"
  "get_prop (sealed_js purpose r cs) ''purpose'' = JStr (purpose_text purpose)"
  "get_prop (sealed_js purpose r cs) ''ownership_id'' = JStr (ow_id r)"
  "get_prop (sealed_js purpose r cs) ''ownership'' = ownership_js r"
  "get_prop (sealed_js purpose r cs) ''resources'' = JArr (map claim_js cs)"
  by (simp_all add: sealed_js_def get_prop_def)

lemma sealed_envelope_reads:
  "sealed_envelope (key_normal (sealed_js purpose r cs)) (ow_id r) = Inr (purpose, map key_normal (map claim_js cs))"
  by (cases purpose) (simp_all add: sealed_envelope_def sealed_prop sealed_members)

lemma lease_members:
  "get_prop (ownership_js r) ''ownership_id'' = JStr (ow_id r)"
  "get_prop (ownership_js r) ''attempt_id'' = JStr (ow_attempt r)"
  "get_prop (ownership_js r) ''generation'' = JNum (ow_generation r)"
  "get_prop (ownership_js r) ''owner_token_digest'' = JStr (ow_token_digest r)"
  "get_prop (ownership_js r) ''context_digest'' = JStr (ow_context_digest r)"
  "get_prop (ownership_js r) ''canonical_context_json'' = JStr (ow_context_json r)"
  "get_prop (ownership_js r) ''recovered_from_ownership_id'' = optional_text (ow_recovered_from r)"
  "get_prop (ownership_js r) ''created_at'' = JStr (ow_created r)"
  "get_prop (ownership_js r) ''state_version'' = JNum (ow_version r)"
  by (simp_all add: ownership_js_def get_prop_def)

lemma claim_members:
  "get_prop (claim_js c) ''resource_claim_id'' = JStr (cl_id c)"
  "get_prop (claim_js c) ''attempt_id'' = JStr (cl_attempt c)"
  "get_prop (claim_js c) ''slot'' = JStr (resource_kind_text (cl_slot c))"
  "get_prop (claim_js c) ''kind'' = JStr (resource_kind_text (cl_kind c))"
  "get_prop (claim_js c) ''canonical_identity'' = JStr (cl_identity c)"
  "get_prop (claim_js c) ''identity_digest'' = JStr (cl_identity_digest c)"
  "get_prop (claim_js c) ''allocation_ownership_id'' = JStr (cl_allocation c)"
  "get_prop (claim_js c) ''created_at'' = JStr (cl_created c)"
  "get_prop (claim_js c) ''state_version'' = JNum (cl_version c)"
  by (simp_all add: claim_js_def get_prop_def)

lemma strict_eq_scalar: "strict_eq (JNum n) (JNum m) \<longleftrightarrow> n = m" "strict_eq (optional_text x) (optional_text x)"
  by (simp_all add: strict_eq_def optional_text_def split: option.split)

lemma lease_kept_columns: "lease_kept r s \<Longrightarrow> same_columns lease_columns (ownership_js s) (key_normal (ownership_js r))"
  by (simp add: same_columns_def lease_columns_def lease_prop lease_members strict_eq_scalar lease_kept_def)

lemma claim_kept_columns: "claim_kept c d \<Longrightarrow> same_columns claim_columns (claim_js d) (key_normal (claim_js c))"
  by (simp add: same_columns_def claim_columns_def claim_prop claim_members strict_eq_scalar claim_kept_def)

section \<open>Claims of the plan\<close>

definition reserves :: "AttemptResourceIdentity \<Rightarrow> claim_row \<Rightarrow> bool" where
  "reserves r c =
     (cl_id c = ri_resourceClaimId r \<and> cl_slot c = ri_slot r \<and> cl_kind c = ri_kind r
      \<and> cl_identity c = ri_canonicalIdentity r \<and> cl_identity_digest c = ri_identityDigest r)"

definition claims_planned :: "store_env \<Rightarrow> state_db \<Rightarrow> string \<Rightarrow> bool" where
  "claims_planned env db i =
     (case attemptOwnershipPlan env db i of
        Inl _ \<Rightarrow> False
      | Inr plan \<Rightarrow> list_all2 reserves (wp_resources plan) (claims_of i (db_claims db)))"

lemma claims_planned_later:
  assumes "claims_planned env db i" "lineage_kept db db'" "same_installation env env'"
    and "list_all2 claim_kept (claims_of i (db_claims db)) (claims_of i (db_claims db'))"
  shows "claims_planned env' db' i"
proof -
  obtain plan where plan: "attemptOwnershipPlan env db i = Inr plan"
    "list_all2 reserves (wp_resources plan) (claims_of i (db_claims db))"
    using assms(1) by (auto simp: claims_planned_def split: sum.splits)
  have "list_all2 reserves (wp_resources plan) (claims_of i (db_claims db'))"
    by (rule list_all2_trans [OF _ plan(2) assms(4)]) (simp add: reserves_def claim_kept_def)
  then show ?thesis using plan_kept [OF plan(1) assms(2,3)] by (simp add: claims_planned_def)
qed

lemma current_claims_of: "current_claims db i = sort_key (\<lambda>c. resource_kind_text (cl_slot c)) (claims_of i (db_claims db))"
  by (simp add: current_claims_def claims_of_def)

lemma planned_claim_found:
  assumes "list_all2 reserves (wp_resources plan) cs" "distinct (map cl_id cs)" "c \<in> set cs" "cl_attempt c = i"
  shows "planned_claim i plan (key_normal (claim_js c))"
proof -
  obtain r where r: "r \<in> set (wp_resources plan)" "reserves r c"
    using list_all2_pointwise [OF assms(1,3)] by blast
  have ids: "map ri_resourceClaimId (wp_resources plan) = map cl_id cs"
    using assms(1) by (auto simp: reserves_def list_all2_conv_all_nth list_eq_iff_nth_eq)
  then have unique: "s = r" if "s \<in> set (wp_resources plan)" "ri_resourceClaimId s = ri_resourceClaimId r" for s
    using distinct_map_eq [of ri_resourceClaimId "wp_resources plan" s r] assms(2) that r(1) by simp
  obtain s where "find (\<lambda>r. JStr (ri_resourceClaimId r) = JStr (cl_id c)) (rev (wp_resources plan)) = Some s"
    using r by (cases "find (\<lambda>r. JStr (ri_resourceClaimId r) = JStr (cl_id c)) (rev (wp_resources plan))")
      (auto simp: find_None_iff reserves_def)
  moreover from this have "s \<in> set (wp_resources plan)" "ri_resourceClaimId s = cl_id c"
    by (auto dest: find_Some_in)
  then have "s = r" using unique r(2) by (simp add: reserves_def)
  ultimately show ?thesis
    using r(2) assms(4) by (simp add: planned_claim_def claim_prop claim_members reserves_def)
qed


section \<open>Replay\<close>

lemma list_all2_from: "list_all2 R xs ys \<Longrightarrow> x \<in> set xs \<Longrightarrow> \<exists>y \<in> set ys. R x y"
  by (induction rule: list_all2_induct) auto

lemma claim_follows_later:
  assumes "list_all2 claim_kept cs (claims_of i (db_claims db))" "distinct (map cl_id (db_claims db))" "c \<in> set cs"
  shows "claim_follows (current_claims db i) (key_normal (claim_js c)) = Inr ()"
proof -
  obtain d where d: "d \<in> set (claims_of i (db_claims db))" "claim_kept c d"
    using list_all2_from [OF assms(1,3)] by blast
  have ds: "set (current_claims db i) = set (claims_of i (db_claims db))" by (simp add: current_claims_of)
  obtain e where e: "find (\<lambda>d. JStr (cl_id d) = JStr (cl_id c)) (current_claims db i) = Some e"
    using d ds by (cases "find (\<lambda>d. JStr (cl_id d) = JStr (cl_id c)) (current_claims db i)")
      (auto simp: find_None_iff claim_kept_def)
  then have "e \<in> set (claims_of i (db_claims db))" "cl_id e = cl_id c" using ds by (auto dest: find_Some_in)
  then have "e = d" using d distinct_map_eq [OF assms(2)] by (simp add: claim_kept_def)
  with e claim_kept_columns [OF d(2)] d(2) show ?thesis
    by (simp add: claim_follows_def claim_prop claim_members js_less_def ensure_that_def claim_kept_def)
qed

lemma check_all_okI: "(\<And>x. x \<in> set xs \<Longrightarrow> f x = Inr ()) \<Longrightarrow> check_all f xs = Inr ()"
  by (induction xs) auto

lemma sealed_result_replays:
  assumes inv: "lease_inv db" and planned: "claims_planned env db i"
    and sealed: "canonical_text (sealed_js purpose r cs) = Inr (op_result_json o')"
      "op_result_digest o' = env_sha256 env (op_result_json o')" "op_ownership o' = ow_id r" "ow_attempt r = i"
    and later: "s \<in> set (db_ownerships db)" "lease_kept r s"
    and claims: "list_all2 claim_kept cs0 (claims_of i (db_claims db))" "set cs = set cs0" "length cs = length cs0"
  shows "\<exists>plan. replayAttemptOwnershipResult env i o' db =
     Inr \<lparr>sr_replayed = True, sr_purpose = purpose, sr_plan = plan,
          sr_ownership = key_normal (ownership_js r), sr_resources = map key_normal (map claim_js cs),
          sr_currentOwnership = ownership_js s, sr_currentResources = map claim_js (current_claims db i)\<rparr>"
proof -
  obtain plan where plan: "attemptOwnershipPlan env db i = Inr plan"
    "list_all2 reserves (wp_resources plan) (claims_of i (db_claims db))"
    using planned by (auto simp: claims_planned_def split: sum.splits)
  have ids: "distinct (map cl_id (db_claims db))" using inv by (rule lease_inv_claim_ids)
  then have here: "distinct (map cl_id (claims_of i (db_claims db)))" by (simp add: claims_of_def distinct_map inj_on_def)
  have kept_ids: "map cl_id cs0 = map cl_id (claims_of i (db_claims db))"
    using claims(1) by (auto simp: claim_kept_def list_all2_conv_all_nth list_eq_iff_nth_eq)
  have reserved: "list_all2 reserves (wp_resources plan) cs0"
  proof -
    have "list_all2 (\<lambda>d c. claim_kept c d) (claims_of i (db_claims db)) cs0"
      using claims(1) by (simp add: list_all2_conv_all_nth)
    with plan(2) show ?thesis by (rule list_all2_trans [rotated]) (simp add: reserves_def claim_kept_def)
  qed
  have attempts: "cl_attempt c = i" if "c \<in> set cs" for c
  proof -
    have "c \<in> set cs0" using that claims(2) by simp
    from list_all2_from [OF claims(1) this] obtain d where "d \<in> set (claims_of i (db_claims db))" "claim_kept c d" ..
    then show ?thesis by (simp add: claim_kept_def)
  qed
  have "map ri_resourceClaimId (wp_resources plan) = map cl_id cs0"
    using reserved by (auto simp: reserves_def list_all2_conv_all_nth list_eq_iff_nth_eq)
  then have count: "length cs = length (remdups (map ri_resourceClaimId (wp_resources plan)))"
    using here kept_ids claims(3) by (simp add: distinct_remdups_id) (metis length_map)
  have found: "find_lease db (ow_id r) i = Some s"
  proof -
    have "s \<in> set (db_ownerships db) \<and> ow_id s = ow_id r \<and> ow_attempt s = i" using later sealed(4) by (simp add: lease_kept_def)
    then obtain s' where s': "find_lease db (ow_id r) i = Some s'"
      by (cases "find_lease db (ow_id r) i") (auto simp: find_lease_def find_None_iff)
    then have "s' = s" using find_leaseD [OF s'] same_lease [OF inv _ later(1)] later(2) by (simp add: lease_kept_def)
    with s' show ?thesis by simp
  qed
  have stored: "parse_json env (op_result_json o') = Some (key_normal (sealed_js purpose r cs))"
  proof -
    have "canonical_json (sealed_js purpose r cs) = Inr (op_result_json o')"
      using sealed(1) by (auto simp: canonical_text_def split: sum.splits)
    then show ?thesis unfolding parse_json_def by (rule json_parse_canonical [OF sealed_js_wf])
  qed
  have object: "parseJsonObject env (op_result_json o') = Inr (key_normal (sealed_js purpose r cs))"
    by (simp add: parseJsonObject_def stored) (simp add: sealed_js_def is_plain_object_def)
  have rows: "traverse ownershipOperationRow (map key_normal (map claim_js cs)) = Inr (map key_normal (map claim_js cs))"
    by (simp add: traverse_Inr_iff list_all2_conv_all_nth claim_row_normal)
  have planned_all: "list_all (planned_claim i plan) (map key_normal (map claim_js cs))"
    using planned_claim_found [OF reserved _ _ attempts] here kept_ids claims(2) by (auto simp: list_all_iff)
  have follow: "check_all (claim_follows (current_claims db i)) (map key_normal (map claim_js cs)) = Inr ()"
    by (rule check_all_okI) (use claim_follows_later [OF claims(1) ids] claims(2) in auto)
  show ?thesis
    unfolding replayAttemptOwnershipResult_def Let_def sealed(3)
    using sealed(2,4) later(2)
    by (simp add: object sealed_envelope_reads sealed_prop sealed_members lease_row_normal rows plan(1) lease_prop lease_members
        count planned_all found js_less_def lease_kept_columns follow lease_kept_def
        del: map_map)
qed


lemma planned_has_lease:
  assumes "claims_planned env db i" "lease_inv db"
  shows "leases_of i (db_ownerships db) \<noteq> []"
proof -
  obtain plan where plan: "attemptOwnershipPlan env db i = Inr plan"
    "list_all2 reserves (wp_resources plan) (claims_of i (db_claims db))"
    using assms(1) by (auto simp: claims_planned_def split: sum.splits)
  have "length (wp_resources plan) = 11"
    using plan(1) plan_resource_count by (auto simp: attemptOwnershipPlan_def split: option.splits if_splits sum.splits)
  with plan(2) obtain c where "c \<in> set (claims_of i (db_claims db))"
    by (cases "claims_of i (db_claims db)") (auto dest: list_all2_lengthD)
  moreover have "claims_ok (leases_of i (db_ownerships db)) (claims_of i (db_claims db))"
    using assms(2) by (simp add: lease_inv_def ledger_inv_def ledger_at_def)
  ultimately show ?thesis by (auto simp: claims_ok_def)
qed

lemma recorded_lineage:
  assumes "ownership_write db mid" "recordOwnershipOperation env p ownership purpose plan input digest mid = Inr (db', res)"
  shows "lineage_kept db db'"
  by (rule lineage_kept_trans [OF other_tables_lineage [OF ownership_write_other [OF assms(1)]]
        other_tables_lineage [OF recordOwnershipOperation_other [OF assms(2)]]])

lemma acquired_planned:
  assumes "acquireAttemptOwnership env p input digest db = Inr (db', res)" "lease_inv db"
  shows "claims_planned env db' (oc_attemptId p)"
proof -
  obtain plan ownership db1 db2 r where plan: "attemptOwnershipAdmission env db (oc_attemptId p) = Inr plan"
    and none: "\<forall>r \<in> set (db_ownerships db). ow_attempt r \<noteq> oc_attemptId p"
    and lease: "insert_lease r db = Inr db1"
    and claims: "insert_claims db1 (map (reserved_claim (oc_attemptId p) ownership 1 (env_now env)) (wp_resources plan)) = Inr db2"
    and op: "recordOwnershipOperation env p ownership Execution plan input digest db2 = Inr (db', res)"
    using acquire_writes [OF assms(1)] by blast
  have admitted: "attemptOwnershipPlan env db (oc_attemptId p) = Inr plan"
    using plan by (auto simp: attemptOwnershipAdmission_def split: option.splits if_splits)
  have "ownership_write db db2" using lease claims by (blast dest: writes intro: ownership_write_trans)
  then have lineage: "lineage_kept db db'" using op by (rule recorded_lineage)
  have "claims_of (oc_attemptId p) (db_claims db) = []"
    using assms(2) none leases_of_empty [of "oc_attemptId p" "db_ownerships db"]
    by (auto simp: lease_inv_def ledger_inv_def ledger_at_def claims_ok_def claims_of_def filter_empty_conv)
  moreover have "db_claims db1 = db_claims db" using insert_lease_Inr [OF lease] by simp
  moreover have "db_claims db2 = db_claims db1 @ map (reserved_claim (oc_attemptId p) ownership 1 (env_now env)) (wp_resources plan)"
    using insert_claims_Inr [OF claims] insert_lease_Inr [OF lease] assms(2) claim_table_ok_grown
    by (simp add: lease_inv_def)
  moreover have "db_claims db' = db_claims db2" using recordOwnershipOperation_Inr [OF op] by auto
  ultimately have "claims_of (oc_attemptId p) (db_claims db')
      = map (reserved_claim (oc_attemptId p) ownership 1 (env_now env)) (wp_resources plan)"
    by (simp add: claims_of_def reserved_claim_def comp_def)
  then show ?thesis
    using plan_kept [OF admitted lineage, of env]
    by (simp add: claims_planned_def same_installation_def list_all2_conv_all_nth reserves_def reserved_claim_def)
qed

lemma recorded_planned:
  assumes "ownership_operation env p input digest db = Inr (db', res)" "recorded_kind (oc_kind p)" "lease_inv db"
    and "oc_kind p = OpAcquire \<or> claims_planned env db (oc_attemptId p)"
  shows "claims_planned env db' (oc_attemptId p)"
proof (cases "oc_kind p = OpAcquire")
  case True
  with assms(1) have "acquireAttemptOwnership env p input digest db = Inr (db', res)" by (simp add: ownership_operation_def)
  then show ?thesis using assms(3) by (rule acquired_planned)
next
  case False
  with assms(4) have planned: "claims_planned env db (oc_attemptId p)" by simp
  have effect: "ledger_effect (oc_attemptId p) db db'" using recorded_operation [OF assms(1-3)] by simp
  then have "ledger_follows (ledger_at (oc_attemptId p) db) (ledger_at (oc_attemptId p) db')"
    by (simp add: ledger_effect_def ledger_step_follows)
  then have "list_all2 claim_kept (claims_of (oc_attemptId p) (db_claims db)) (claims_of (oc_attemptId p) (db_claims db'))"
    using planned_has_lease [OF planned assms(3)] by (simp add: ledger_follows_def ledger_at_def)
  moreover obtain mid ownership purpose plan where "ownership_write db mid"
    "recordOwnershipOperation env p ownership purpose plan input digest mid = Inr (db', res)"
    using recorded_operation [OF assms(1-3)] by blast
  then have "lineage_kept db db'" by (rule recorded_lineage)
  ultimately show ?thesis
    by (intro claims_planned_later [OF planned]) (simp_all add: same_installation_def)
qed

text \<open>
  C6. A recorded ownership command replays for ever. When a command was committed under a fresh key, the
  same command committed again in any later database, by an installation with the same hash function
  and location at any time, succeeds, is marked as a replay, changes nothing, and returns the sealed purpose,
  lease and claims of the first call (as the text of the seal is parsed, with object keys in
  order), whatever happened to the rows since. For a command other than an acquisition the claims of the
  attempt must be those its plan derives, as an acquisition leaves them.
\<close>

theorem ownership_commands_replay_forever:
  assumes "reachable_store db" and commit: "commitAuthorizedAttemptOwnership env p db = (db1, Inr res)"
    and fresh: "recorded_kind (oc_kind p)" "find_operation db (oc_attemptId p) (oc_idempotencyKey p) = None"
    and planned: "oc_kind p = OpAcquire \<or> claims_planned env db (oc_attemptId p)"
    and later: "store_step\<^sup>*\<^sup>* db1 db2" and installation: "same_installation env env'"
  shows "\<exists>again. commitAuthorizedAttemptOwnership env' p db2 = (db2, Inr again) \<and> sr_replayed again
    \<and> sr_purpose again = sr_purpose res \<and> sr_ownership again = key_normal (sr_ownership res)
    \<and> sr_resources again = map key_normal (sr_resources res)"
proof -
  let ?i = "oc_attemptId p"
  have inv: "lease_inv db" using assms(1) by (rule reachable_lease_inv)
  have "commitAttemptOwnership env p db = Inr (db1, res)"
    using commit by (simp add: commitAuthorizedAttemptOwnership_def immediate_Inr_iff)
  with fresh obtain input where input: "canonicalOwnershipCommand env p = Inr input"
    and op: "ownership_operation env p input (env_sha256 env input) db = Inr (db1, res)"
    by (auto simp: commitAttemptOwnership_def rbind_Inr_iff Let_def split: if_splits)
  note recorded = recorded_operation [OF op fresh(1) inv]
  have inv1: "lease_inv db1" using recorded ledger_effect_inv inv by blast
  have inv2: "lease_inv db2" using store_steps_inv [OF later inv1] .
  obtain mid ownership purpose plan where
    "recordOwnershipOperation env p ownership purpose plan input (env_sha256 env input) mid = Inr (db1, res)"
    using recorded by blast
  then obtain o' r json where o': "db1 = mid\<lparr>db_operations := db_operations mid @ [o']\<rparr>" "records p input (env_sha256 env input) o'"
    and r: "find_lease mid ownership ?i = Some r" "op_ownership o' = ownership"
    and sealed: "canonical_text (sealed_js purpose r (current_claims mid ?i)) = Inr json" "op_result_json o' = json"
      "op_result_digest o' = env_sha256 env json"
    and none: "find_operation mid ?i (oc_idempotencyKey p) = None"
    and res: "res = \<lparr>sr_replayed = False, sr_purpose = purpose, sr_plan = plan, sr_ownership = ownership_js r,
       sr_resources = map claim_js (current_claims mid ?i), sr_currentOwnership = ownership_js r,
       sr_currentResources = map claim_js (current_claims mid ?i)\<rparr>"
    by (rule recordOwnershipOperation_cases)
  have rows: "db_ownerships db1 = db_ownerships mid" "db_claims db1 = db_claims mid" by (simp_all add: o'(1))
  have found: "find_operation db2 ?i (oc_idempotencyKey p) = Some o'"
    using none o'(2) by (intro find_operation_later [OF later inv1]) (simp add: o'(1) find_operation_def find_append records_def)
  note r' = find_leaseD [OF r(1)]
  have follows: "ledger_follows (ledger_at ?i db1) (ledger_at ?i db2)" using steps_follow [OF later inv1] .
  then obtain s where s: "s \<in> set (db_ownerships db2)" "lease_kept r s" using lease_follows [of ?i db1 db2 r] r' rows by auto
  have planned1: "claims_planned env db1 ?i" using recorded_planned [OF op fresh(1) inv planned] .
  have kept: "list_all2 claim_kept (claims_of ?i (db_claims mid)) (claims_of ?i (db_claims db2))"
    using follows planned_has_lease [OF planned1 inv1] rows by (simp add: ledger_follows_def ledger_at_def)
  have "lineage_kept db1 db2" using steps_lineage [OF store_steps_lifecycle [OF later inv1]] .
  then have planned2: "claims_planned env' db2 ?i"
    using claims_planned_later [OF planned1 _ installation] kept rows(2) by simp
  have sha: "env_sha256 env' = env_sha256 env" using installation by (simp add: same_installation_def)
  obtain plan' where "replayAttemptOwnershipResult env' ?i o' db2 =
     Inr \<lparr>sr_replayed = True, sr_purpose = purpose, sr_plan = plan',
          sr_ownership = key_normal (ownership_js r), sr_resources = map key_normal (map claim_js (current_claims mid ?i)),
          sr_currentOwnership = ownership_js s, sr_currentResources = map claim_js (current_claims db2 ?i)\<rparr>"
    using sealed_result_replays [OF inv2 planned2 _ _ _ _ s kept, of purpose "current_claims mid ?i" o'] sealed r' r(2) sha
    by (auto simp: current_claims_of)
  moreover have "canonicalOwnershipCommand env' p = Inr input"
    unfolding input [symmetric] using installation by (simp only: canonicalOwnershipCommand_def same_installation_def)
  ultimately show ?thesis
    using found o'(2) fresh(1) res sha
    by (simp add: commitAuthorizedAttemptOwnership_def immediate_def commitAttemptOwnership_def records_def)
qed

end
