(* ===== verification/Lease_Release.thy ===== *)
theory Lease_Release
  imports Lease_Replay "HOL-Library.Multiset"
begin

text \<open>
  What a release or a quarantine leaves behind is what the lifecycle asks for: the terminal ownership
  check of the transition guards, which admits the clean and the quarantined terminal states of an
  attempt, succeeds in the database the finalization produces, with the cleanup record it inserted.
\<close>

section \<open>The newest generation of a ledger\<close>

lemma newest_first:
  assumes "ledger_ok rs"
  shows "sort_key (\<lambda>r. - ow_generation r) rs = rev rs"
proof (rule sort_key_inj_key_eq)
  have gens: "map ow_generation rs = map int [1..<length rs + 1]" using assms by (simp add: ledger_ok_def)
  then have "distinct (map ow_generation rs)" by (simp add: distinct_map)
  then show "inj_on (\<lambda>r. - ow_generation r) (set rs)" by (simp add: distinct_map inj_on_def)
  have "map (\<lambda>r. - ow_generation r) (rev rs) = rev (map (\<lambda>n. - int n) [1..<length rs + 1])"
    using arg_cong [OF gens, of "\<lambda>xs. rev (map uminus xs)"] by (simp add: rev_map comp_def del: upt_Suc)
  then show "sorted (map (\<lambda>r. - ow_generation r) (rev rs))"
    by (simp add: sorted_rev_iff_nth_mono del: upt_Suc)
qed simp

lemma current_ownership_last:
  assumes "lease_inv db" "leases_of i (db_ownerships db) = rs @ [r]"
  shows "current_ownership db i = Some r"
proof -
  have "ledger_ok (rs @ [r])" using assms by (simp add: lease_inv_def ledger_inv_def ledger_at_def) metis
  from newest_first [OF this] assms(2) show ?thesis by (simp add: current_ownership_def leases_of_def)
qed

section \<open>The cleanup record\<close>

lemma finalize_claims_cleanups: "finalize_claims t dg i r db cs = Inr db' \<Longrightarrow> db_cleanups db' = db_cleanups db"
  by (induction cs arbitrary: db)
    (auto simp: rbind_Inr_iff finalize_claim_def move_claims_Inr touch_claims_Inr Let_def split: if_splits)

lemma finalize_owner_cleanups: "finalize_owner t p r db = Inr db' \<Longrightarrow> db_cleanups db' = db_cleanups db"
  by (auto simp: finalize_owner_def rbind_Inr_iff move_leases_Inr touch_leases_Inr Let_def split: if_splits)

lemma record_snapshot_cleanups: "record_snapshot env i ctx db s = Inr db' \<Longrightarrow> db_cleanups db' = db_cleanups db"
  by (auto simp: record_snapshot_def rbind_Inr_iff Let_def insert_evidence_def split: prod.splits if_splits option.splits)

lemma record_snapshots_cleanups: "record_snapshots env i ctx db ss = Inr db' \<Longrightarrow> db_cleanups db' = db_cleanups db"
  by (induction ss arbitrary: db) (auto simp: rbind_Inr_iff dest!: record_snapshot_cleanups)

definition eligible_cleanup :: "string \<Rightarrow> cleanup_terminal \<Rightarrow> cleanup_row \<Rightarrow> bool" where
  "eligible_cleanup i t c =
     (cu_attempt c = i \<and> cu_outcome c = cleanup_outcome_text t \<and> cu_group_dead c \<and> cu_resources_absent c
      \<and> cu_lease_release_eligible c)"

lemma cleanup_recorded:
  assumes "recordAuthorizedCleanupFinalization env p t db = Inr db'" "oc_cleanupProofDigest p = Some dg"
  shows "\<exists>c. eligible_cleanup (oc_attemptId p) t c \<and> cu_id c = ''cleanup-record-'' @ drop 7 dg
    \<and> find (\<lambda>c. cu_id c = ''cleanup-record-'' @ drop 7 dg \<and> cu_attempt c = oc_attemptId p) (db_cleanups db') = Some c"
proof -
  obtain ctx observed evidence payload sequence db1 where
    ins: "insert_cleanup (cleanup_row_of env (oc_attemptId p) sequence ctx t observed evidence (''cleanup-record-'' @ drop 7 dg) payload) db1 = Inr db'"
    using assms unfolding recordAuthorizedCleanupFinalization_def Let_def
    by (cases "oc_contextId p"; cases "oc_deliveryObservedOid p") (auto simp: rbind_Inr_iff)
  define c where "c = cleanup_row_of env (oc_attemptId p) sequence ctx t observed evidence (''cleanup-record-'' @ drop 7 dg) payload"
  have "db_cleanups db' = db_cleanups db1 @ [c]" "\<forall>k \<in> set (db_cleanups db1). cu_id k \<noteq> cu_id c"
    using ins unfolding insert_cleanup_def c_def [symmetric] by (auto split: if_splits)
  moreover have "cu_id c = ''cleanup-record-'' @ drop 7 dg" "eligible_cleanup (oc_attemptId p) t c" "cu_attempt c = oc_attemptId p"
    by (simp_all add: c_def cleanup_row_of_def eligible_cleanup_def)
  moreover from calculation have "find (\<lambda>k. cu_id k = cu_id c \<and> cu_attempt k = oc_attemptId p) (db_cleanups db1) = None"
    by (auto simp: find_None_iff)
  ultimately show ?thesis by (intro exI [of _ c]) (simp add: find_append)
qed

fun cleanup_terminal_state :: "cleanup_terminal \<Rightarrow> terminal_state" where
  "cleanup_terminal_state CleanupReleased = TerminalReleased"
| "cleanup_terminal_state CleanupQuarantined = TerminalQuarantined"

theorem finalization_admits_the_terminal_state:
  assumes "reachable_store db" and commit: "commitAuthorizedAttemptOwnership env p db = (db', Inr res)" "db' \<noteq> db"
    and kind: "oc_kind p \<in> {OpRelease, OpQuarantine}"
  shows "\<exists>digest cleanup. oc_cleanupProofDigest p = Some digest \<and> eligible_cleanup (oc_attemptId p) (finalize_terminal p) cleanup
    \<and> validateTerminalAttemptOwnership env db' (oc_attemptId p) (''cleanup-record-'' @ drop 7 digest)
        (cleanup_terminal_state (finalize_terminal p)) = Inr cleanup"
proof -
  let ?i = "oc_attemptId p" and ?t = "finalize_terminal p"
  have inv: "lease_inv db" using assms(1) by (rule reachable_lease_inv)
  have "commitAttemptOwnership env p db = Inr (db', res)"
    using commit(1) by (simp add: commitAuthorizedAttemptOwnership_def immediate_Inr_iff)
  with commit(2) kind obtain input digest where final: "finalizeAttemptOwnershipCleanup env p input digest db = Inr (db', res)"
    by (auto simp: commitAttemptOwnership_def ownership_operation_def rbind_Inr_iff Let_def split: if_splits option.splits)
  obtain rs r dg plan where dg: "oc_cleanupProofDigest p = Some dg" and plan: "attemptOwnershipPlan env db ?i = Inr plan"
    and leases: "leases_of ?i (db_ownerships db') = rs @ [bump_lease (\<lambda>x. x\<lparr>ow_state := cleanup_lease_state ?t\<rparr>) r]"
    and count: "length (claims_of ?i (db_claims db')) = length (wp_resources plan)"
    and claims: "\<forall>d \<in> set (claims_of ?i (db_claims db')). \<exists>c. owned_by r c \<and> claim_ends ?t dg c d"
    using finalize_effect(2) [OF final inv] by blast
  obtain r' db1 db2 db3 db4 cs plan' where "recordAuthorizedCleanupFinalization env p ?t db = Inr db1"
    "finalize_claims ?t dg ?i r' db1 cs = Inr db2" "finalize_owner ?t p r' db2 = Inr db3"
    "record_snapshots env ?i (the (oc_contextId p)) db3 (terminal_snapshots ?i db3) = Inr db4"
    "recordOwnershipOperation env p (ow_id r') (purpose_of r') plan' input digest db4 = Inr (db', res)"
    using finalize_writes [OF final] dg by auto
  note chain = this
  have "db_cleanups db' = db_cleanups db1"
    using finalize_claims_cleanups [OF chain(2)] finalize_owner_cleanups [OF chain(3)] record_snapshots_cleanups [OF chain(4)]
      recordOwnershipOperation_Inr [OF chain(5)] by auto
  then obtain c where c: "eligible_cleanup ?i ?t c" "cu_id c = ''cleanup-record-'' @ drop 7 dg"
    "find (\<lambda>c. cu_id c = ''cleanup-record-'' @ drop 7 dg \<and> cu_attempt c = ?i) (db_cleanups db') = Some c"
    using cleanup_recorded [OF chain(1) dg] by auto
  have kind': "recorded_kind (oc_kind p)" using kind by (auto simp: recorded_kind_def)
  have op: "ownership_operation env p input digest db = Inr (db', res)"
    using final kind by (auto simp: ownership_operation_def)
  obtain mid ownership purpose plan'' where "ownership_write db mid"
    "recordOwnershipOperation env p ownership purpose plan'' input digest mid = Inr (db', res)"
    using recorded_operation [OF op kind' inv] by blast
  then have "lineage_kept db db'" by (rule recorded_lineage)
  then have plan_now: "attemptOwnershipPlan env db' ?i = Inr plan" by (rule plan_kept [OF plan]) (simp add: same_installation_def)
  have inv': "lease_inv db'" using finalize_effect(1) [OF final inv] inv by (rule ledger_effect_inv)
  define owner where "owner = bump_lease (\<lambda>x. x\<lparr>ow_state := cleanup_lease_state ?t\<rparr>) r"
  have owner: "current_ownership db' ?i = Some owner" unfolding owner_def by (rule current_ownership_last [OF inv' leases])
  have same_set: "set (current_claims db' ?i) = set (claims_of ?i (db_claims db'))" by (simp add: current_claims_of)
  have terminal: "claim_terminal (cleanup_terminal_state ?t) owner d \<and> terminal_proof (cleanup_terminal_state ?t) d = Some dg"
    if "d \<in> set (current_claims db' ?i)" for d
    using that claims unfolding same_set
    by (cases ?t) (auto simp: claim_terminal_def owner_def owned_by_def claim_ends_def same_owner_def)
  have many: "length (current_claims db' ?i) = length (wp_resources plan)" using count by (simp add: current_claims_of)
  have eleven: "length (wp_resources plan) = 11"
    using plan plan_resource_count by (auto simp: attemptOwnershipPlan_def split: option.splits if_splits sum.splits)
  have proofs: "map (terminal_proof (cleanup_terminal_state ?t)) (current_claims db' ?i) = replicate 11 (Some dg)"
    using terminal many eleven by (intro replicate_eqI) auto
  have "ow_state owner = terminal_lease (cleanup_terminal_state ?t)" by (cases ?t) (simp_all add: owner_def)
  moreover have "list_all (claim_terminal (cleanup_terminal_state ?t) owner) (current_claims db' ?i)"
    using terminal by (simp add: list_all_iff)
  ultimately have "validate_v2_ownership env db' ?i (cleanup_terminal_state ?t) = Inr dg"
    using many owner proofs by (simp add: validate_v2_ownership_def plan_now Let_def numeral_eq_Suc)
  moreover obtain a where "find_row (db_attempts db') ?i = Some a"
    using plan_now by (auto simp: attemptOwnershipPlan_def split: option.splits)
  ultimately have "validateTerminalAttemptOwnership env db' ?i (''cleanup-record-'' @ drop 7 dg) (cleanup_terminal_state ?t) = Inr c"
    using c owner unfolding validateTerminalAttemptOwnership_def
    by (simp add: eligible_cleanup_def requireTransitionGuard_def)
  with c(1) dg show ?thesis by blast
qed

end
