(* ===== verification/Lease_Samples.thy ===== *)
theory Lease_Samples
  imports Lease_Release
begin

text \<open>
  An attempt taken through its ownership on concrete databases: it is acquired, launches a process,
  is recovered by a second generation after the process died and the lease expired, and is released.
  The properties of ownership are applied to these calls. The texts the store seals are long, so they
  are not computed: what matters of them is that they exist and that their digests are digests.
\<close>

section \<open>Texts that exist\<close>

definition json_text :: "jsval \<Rightarrow> string" where
  "json_text v = (case canonical_json v of Inl _ \<Rightarrow> [] | Inr t \<Rightarrow> t)"

lemma canonical_json_text: "admissible v \<Longrightarrow> canonical_json v = Inr (json_text v)"
  using canonical_json_ok_iff [of v] by (cases "canonical_json v") (simp_all add: json_text_def)

lemma canonical_text_ok: "admissible v \<Longrightarrow> canonical_text v = Inr (json_text v)"
  by (simp add: canonical_text_def canonical_json_text)

lemma admissible_optional [simp]: "admissible (optional_text x)"
  by (simp add: optional_text_def split: option.split)

section \<open>The environment\<close>

text \<open>A stand-in for SHA-256: the low halves of the bytes of a window of the text, as hex digits.\<close>

definition low_hex :: "char \<Rightarrow> char" where
  "low_hex c =
     (case c of Char b0 b1 b2 b3 _ _ _ _ \<Rightarrow>
        if b3 \<and> b2 then Char b0 (\<not> b1) (b1) False False True True False
        else if b3 \<and> b1 then Char (\<not> b0) b0 False False False True True False
        else Char b0 b1 b2 b3 True True False False)"

definition window_sha :: "string \<Rightarrow> string" where
  "window_sha t = ''sha256:a'' @ map low_hex (take 63 (drop 100 t @ replicate 63 CHR ''0''))"

lemma low_hex_hex: "is_hex (low_hex c)"
  by (cases c) (auto simp: low_hex_def is_hex_def is_digit_def in_range_def split: if_splits)

lemma window_sha_digest: "is_digest (window_sha t)"
proof -
  have "min (length t - 100) 63 + (63 - (length t - 100)) = 63" by arith
  moreover have "is_hex CHR ''a''" by code_simp
  ultimately show ?thesis
    by (simp add: is_digest_def window_sha_def starts_with_def list_all_iff) (auto simp: low_hex_hex)
qed

text \<open>Later calls use a hash with one value: only that it differs from those of the first generation matters.\<close>

definition flat_sha :: "char \<Rightarrow> string \<Rightarrow> string" where
  "flat_sha c t = ''sha256:'' @ c # replicate 63 CHR ''0''"

lemma flat_sha_digest: "is_hex c \<Longrightarrow> is_digest (flat_sha c t)"
proof -
  have "is_hex CHR ''0''" by code_simp
  then show "is_hex c \<Longrightarrow> is_digest (flat_sha c t)"
    by (simp add: is_digest_def flat_sha_def starts_with_def list_all_iff)
qed

lemma sha_differ: "c \<noteq> CHR ''a'' \<Longrightarrow> drop 7 (flat_sha c t) \<noteq> drop 7 (window_sha u)"
  by (simp add: flat_sha_def window_sha_def)


definition lease_env :: "(string \<Rightarrow> string) \<Rightarrow> int \<Rightarrow> store_env" where
  "lease_env sha clock =
     \<lparr>env_sha256 = sha, env_json_extract = (\<lambda>_ _. JNull), env_cwd = ''/w'',
      env_location = \<lparr>sl_repositoryId = ''repo'', sl_resourceDirectory = ''/s''\<rparr>,
      env_object_format = ''sha1'', env_clock = clock, env_date_parse = (\<lambda>_. None), env_json_number = JReal,
      env_base64 = (\<lambda>t. t), env_base64_encode = (\<lambda>t. t), env_rev_parse = (\<lambda>_. Some (replicate 40 CHR ''0'')),
      env_rev_parse_status = (\<lambda>_. Some 128), env_show_ref_status = (\<lambda>_. Some 1),
      env_artifact = (\<lambda>_ _. Inl (StateErr StateConflict)),
      env_transition_id = (\<lambda>n. ''t'' @ show_nat n), env_evidence_id = (\<lambda>n. ''e'' @ show_nat n)\<rparr>"

lemma lease_env_simps [simp]:
  "env_sha256 (lease_env sha clock) = sha" "env_clock (lease_env sha clock) = clock" "env_cwd (lease_env sha clock) = ''/w''"
  "env_location (lease_env sha clock) = \<lparr>sl_repositoryId = ''repo'', sl_resourceDirectory = ''/s''\<rparr>"
  "env_object_format (lease_env sha clock) = ''sha1''"
  by (simp_all add: lease_env_def)

section \<open>An admitted attempt\<close>

definition null_oid :: string where
  "null_oid = replicate 40 CHR ''0''"

definition lease_run :: run_row where
  "lease_run =
     \<lparr>row_id = ''r'', row_state = Planned, row_version = 0, run_repository = ''repo'',
      run_delivery_ref = ''refs/rickgent/runs/r/delivery'', run_current_oid = null_oid, run_promotion_sequence = 0\<rparr>"

definition lease_ticket :: ticket_row where
  "lease_ticket =
     \<lparr>row_id = ''k'', row_state = Planned, row_version = 0, tk_run = ''r'', tk_ticket_id = ''T'',
      tk_contract_digest = ''c''\<rparr>"

definition lease_attempt :: attempt_row where
  "lease_attempt =
     \<lparr>row_id = ''a'', row_state = Planned, row_version = 0, at_ticket = ''k'', at_run = ''r'', at_ticket_id = ''T'',
      at_number = 1, at_contract_digest = ''c'', at_owner_digest = zero_digest, at_baseline_oid = null_oid,
      at_resource_version = ''v1''\<rparr>"

definition taken :: "state_db \<Rightarrow> (store_error, state_db) result \<Rightarrow> state_db" where
  "taken db x = (case x of Inl _ \<Rightarrow> db | Inr db' \<Rightarrow> db')"

definition admitted_db :: state_db where
  "admitted_db =
     (let db1 = taken empty_db (insert_run lease_run empty_db);
          db2 = taken db1 (insert_ticket lease_ticket db1);
          db3 = taken db2 (insert_attempt lease_attempt db2);
          db4 = fst (activateRunForRunner (lease_env (\<lambda>_. zero_digest) 0) ''r'' ''a'' ''k1'' db3)
      in fst (activateTicketForRunner (lease_env (\<lambda>_. zero_digest) 0) ''k'' ''a'' ''k2'' db4))"

definition epoch :: string where
  "epoch = ''1970-01-01T00:00:00.000Z''"


section \<open>Statements that succeed\<close>

lemma claim_table_prefix: "claim_table_ok L (xs @ ys) \<Longrightarrow> claim_table_ok L xs"
  by (simp add: claim_table_ok_def)

lemma insert_claims_ok:
  assumes "claim_table_ok (db_ownerships db) (db_claims db @ cs)" "\<forall>c \<in> set cs. find_row (db_attempts db) (cl_attempt c) \<noteq> None"
  shows "insert_claims db cs = Inr (db\<lparr>db_claims := db_claims db @ cs\<rparr>)"
  using assms
proof (induction cs arbitrary: db)
  case (Cons c cs)
  have "claim_table_ok (db_ownerships db) (db_claims db @ [c])"
    using Cons.prems(1) claim_table_prefix [of _ "db_claims db @ [c]" cs] by simp
  then have "insert_claim db c = Inr (db\<lparr>db_claims := db_claims db @ [c]\<rparr>)"
    using Cons.prems(2) by (simp add: insert_claim_def store_claims_def)
  then show ?case using Cons.IH [of "db\<lparr>db_claims := db_claims db @ [c]\<rparr>"] Cons.prems by simp
qed simp

text \<open>A row whose numbers are safe integers, and the operation that seals it.\<close>

definition safe_lease :: "ownership_row \<Rightarrow> bool" where
  "safe_lease r = (is_safe_int (ow_generation r) \<and> is_safe_int (ow_version r))"

definition safe_claim :: "claim_row \<Rightarrow> bool" where
  "safe_claim c = (is_safe_int (cl_generation c) \<and> is_safe_int (cl_version c))"

lemma admissible_rows: "safe_lease r \<Longrightarrow> admissible (ownership_js r)" "safe_claim c \<Longrightarrow> admissible (claim_js c)"
  by (simp_all add: ownership_js_def claim_js_def safe_lease_def safe_claim_def)

lemma admissible_sealed: "safe_lease r \<Longrightarrow> \<forall>c \<in> set cs. safe_claim c \<Longrightarrow> admissible (sealed_js purpose r cs)"
  by (simp add: sealed_js_def admissible_rows)

definition sealed_operation ::
  "store_env \<Rightarrow> AttemptOwnershipCommandPayload \<Rightarrow> ownership_purpose \<Rightarrow> string \<Rightarrow> string \<Rightarrow> ownership_row \<Rightarrow> claim_row list
    \<Rightarrow> operation_row" where
  "sealed_operation env p purpose input digest r cs =
     \<lparr>op_id = ''ownership-operation-'' @ drop 7 (env_sha256 env (json_text (operation_identity_js (oc_attemptId p) (oc_idempotencyKey p) digest))),
      op_ownership = ow_id r, op_attempt = oc_attemptId p, op_kind = ownership_kind_text (oc_kind p), op_key = oc_idempotencyKey p,
      op_input_digest = digest, op_input_json = input,
      op_result_digest = env_sha256 env (json_text (sealed_js purpose r cs)), op_result_json = json_text (sealed_js purpose r cs),
      op_created = env_now env\<rparr>"

lemma record_succeeds:
  assumes r: "find_lease db ownership (oc_attemptId p) = Some r" and safe: "safe_lease r" "\<forall>c \<in> set (current_claims db (oc_attemptId p)). safe_claim c"
    and sha: "\<And>t. is_digest (env_sha256 env t)" "is_digest digest" and now: "utc_text (env_now env)"
    and keys: "oc_attemptId p \<noteq> ''''" "oc_idempotencyKey p \<noteq> ''''" "ownership \<noteq> ''''" and kind: "recorded_kind (oc_kind p)"
    and o': "o' = sealed_operation env p purpose input digest r (current_claims db (oc_attemptId p))"
    and fresh: "\<forall>q \<in> set (db_operations db). op_id q \<noteq> op_id o' \<and> (op_attempt q \<noteq> oc_attemptId p \<or> op_key q \<noteq> oc_idempotencyKey p)"
  shows "\<exists>res. recordOwnershipOperation env p ownership purpose plan input digest db
    = Inr (db\<lparr>db_operations := db_operations db @ [o']\<rparr>, res)"
proof -
  note found = find_leaseD [OF r]
  have "admissible (operation_identity_js (oc_attemptId p) (oc_idempotencyKey p) digest)" by (simp add: operation_identity_js_def)
  moreover have "ownership_kind_text (oc_kind p) \<in> set operation_kinds"
    using kind by (cases "oc_kind p") (simp_all add: operation_kinds_def recorded_kind_def)
  ultimately have "insert_operation o' db = Inr (db\<lparr>db_operations := db_operations db @ [o']\<rparr>)"
    using found sha now keys fresh unfolding insert_operation_def
    by (auto simp: operation_checks_def o' sealed_operation_def)
  moreover have "find_lease (db\<lparr>db_operations := db_operations db @ [o']\<rparr>) ownership (oc_attemptId p) = Some r"
    using r by (simp add: find_lease_def)
  ultimately show ?thesis
    using r found admissible_sealed [OF safe] \<open>admissible (operation_identity_js _ _ _)\<close> o'
    by (simp add: recordOwnershipOperation_def Let_def canonical_text_ok attemptOwnershipResult_def sealed_operation_def)
qed

lemma reserved_table_ok:
  assumes "distinct (map ri_resourceClaimId rs)" "map ri_slot rs = RESOURCE_KINDS"
    and "\<forall>r \<in> set rs. is_digest (ri_identityDigest r) \<and> ri_canonicalIdentity r \<noteq> '''' \<and> ri_resourceClaimId r \<noteq> '''' \<and> ri_kind r = ri_slot r"
    and "i \<noteq> ''''" "utc_text t" "ow_id L = own" "own \<noteq> ''''" "ow_attempt L = i" "ow_generation L = 1"
  shows "claim_table_ok [L] (map (reserved_claim i own 1 t) rs)"
proof -
  have slots: "distinct (map ri_slot rs)" unfolding assms(2) by (simp add: RESOURCE_KINDS_def)
  have "distinct (map (\<lambda>r. (ri_kind r, ri_identityDigest r)) rs)" "distinct (map (\<lambda>r. (i, ri_slot r)) rs)"
    using slots assms(3) by (simp_all add: distinct_map inj_on_def)
  moreover have "filter claim_is_held (map (reserved_claim i own 1 t) rs) = map (reserved_claim i own 1 t) rs"
    by (auto simp: filter_id_conv claim_is_held_def reserved_claim_def)
  ultimately show ?thesis
    using assms unfolding claim_table_ok_def
    by (auto simp: claim_checks_def claim_references_def reserved_claim_def list_all_iff optional_digest_def comp_def)
qed


section \<open>Rewritten claims\<close>

text \<open>A rewriting of the claims that keeps their keys and does not bring an ended claim back.\<close>

definition rewrites_claim :: "ownership_row list \<Rightarrow> claim_row \<Rightarrow> claim_row \<Rightarrow> bool" where
  "rewrites_claim leases c d =
     (claim_checks d \<and> claim_references leases d \<and> cl_id d = cl_id c \<and> cl_attempt d = cl_attempt c
      \<and> cl_slot d = cl_slot c \<and> cl_kind d = cl_kind c \<and> cl_identity_digest d = cl_identity_digest c
      \<and> (claim_is_held d \<longrightarrow> claim_is_held c))"

lemma rewritten_table:
  assumes "claim_table_ok leases cs" "\<forall>c \<in> set cs. rewrites_claim leases' c (g c)"
  shows "claim_table_ok leases' (map g cs)"
proof -
  let ?key = "\<lambda>c. (cl_kind c, cl_identity_digest c)" and ?slot = "\<lambda>c. (cl_attempt c, cl_slot c)"
  have table: "distinct (map cl_id cs)" "distinct (map ?slot cs)" "distinct (map ?key (filter claim_is_held cs))"
    using assms(1) by (simp_all add: claim_table_ok_def)
  have same: "map cl_id (map g cs) = map cl_id cs" "map ?slot (map g cs) = map ?slot cs"
    using assms(2) by (auto simp: rewrites_claim_def)
  have held: "filter claim_is_held (map g cs) = map g (filter (\<lambda>c. claim_is_held (g c)) (filter claim_is_held cs))"
    using assms(2) by (auto simp: filter_map comp_def rewrites_claim_def intro!: arg_cong [of _ _ "map g"] filter_cong)
  have "map ?key (map g (filter (\<lambda>c. claim_is_held (g c)) (filter claim_is_held cs)))
    = map ?key (filter (\<lambda>c. claim_is_held (g c)) (filter claim_is_held cs))"
    using assms(2) by (auto simp: rewrites_claim_def)
  then have "distinct (map ?key (filter claim_is_held (map g cs)))"
    unfolding held using distinct_map_filter [OF table(3), of "\<lambda>c. claim_is_held (g c)"] by (simp only:)
  moreover have "list_all claim_checks (map g cs)" "list_all (claim_references leases') (map g cs)"
    using assms(2) by (simp_all add: list_all_iff rewrites_claim_def)
  moreover have "distinct (map cl_id (map g cs))" "distinct (map ?slot (map g cs))"
    unfolding same by (rule table)+
  ultimately show ?thesis unfolding claim_table_ok_def by (intro conjI)
qed

lemma move_claims_ok:
  assumes "claim_table_ok (db_ownerships db) (db_claims db)"
    and "\<forall>c \<in> set (db_claims db). P c \<longrightarrow> claim_legal_edge (cl_state c) t
        \<and> rewrites_claim (db_ownerships db) c ((f (c\<lparr>cl_state := t\<rparr>))\<lparr>cl_version := cl_version c + 1\<rparr>)"
    and "\<And>c. cl_version (f c) = cl_version c"
  shows "move_claims t f P db
    = Inr (db\<lparr>db_claims := map (\<lambda>c. if P c then (f (c\<lparr>cl_state := t\<rparr>))\<lparr>cl_version := cl_version c + 1\<rparr> else c) (db_claims db)\<rparr>,
           length (filter P (db_claims db)))"
proof -
  have "rewrites_claim (db_ownerships db) c c" if "c \<in> set (db_claims db)" for c
    using that assms(1) by (auto simp: rewrites_claim_def claim_table_ok_def list_all_iff)
  with assms have "claim_table_ok (db_ownerships db)
      (map (\<lambda>c. if P c then (f (c\<lparr>cl_state := t\<rparr>))\<lparr>cl_version := cl_version c + 1\<rparr> else c) (db_claims db))"
    by (intro rewritten_table) auto
  with assms(2,3) show ?thesis by (auto simp: move_claims_def touch_claims_def store_claims_def)
qed

text \<open>One claim replaced.\<close>

definition put_claim :: "claim_row \<Rightarrow> state_db \<Rightarrow> state_db" where
  "put_claim d db = db\<lparr>db_claims := map (\<lambda>c. if cl_id c = cl_id d then d else c) (db_claims db)\<rparr>"

lemma put_claim_fields [simp]:
  "db_ownerships (put_claim d db) = db_ownerships db" "db_evidence (put_claim d db) = db_evidence db"
  "db_launches (put_claim d db) = db_launches db" "db_attempts (put_claim d db) = db_attempts db"
  "db_phases (put_claim d db) = db_phases db" "db_contexts (put_claim d db) = db_contexts db"
  "db_claims (put_claim d db) = map (\<lambda>c. if cl_id c = cl_id d then d else c) (db_claims db)"
  by (simp_all add: put_claim_def)

lemma table_ids: "claim_table_ok leases cs \<Longrightarrow> c \<in> set cs \<Longrightarrow> x \<in> set cs \<Longrightarrow> cl_id x = cl_id c \<Longrightarrow> x = c"
  by (auto simp: claim_table_ok_def dest: distinct_map_eq)

lemma put_claim_table:
  assumes table: "claim_table_ok (db_ownerships db) (db_claims db)" and c: "c \<in> set (db_claims db)"
    and d: "rewrites_claim (db_ownerships db) c d"
  shows "claim_table_ok (db_ownerships db) (db_claims (put_claim d db))"
proof -
  have "rewrites_claim (db_ownerships db) x x" if "x \<in> set (db_claims db)" for x
    using that table by (auto simp: rewrites_claim_def claim_table_ok_def list_all_iff)
  moreover have "cl_id d = cl_id c" using d by (simp add: rewrites_claim_def)
  ultimately show ?thesis
    using table_ids [OF table c] d by (simp only: put_claim_fields) (rule rewritten_table [OF table], auto)
qed

lemma move_one:
  assumes table: "claim_table_ok (db_ownerships db) (db_claims db)" and c: "c \<in> set (db_claims db)"
    and P: "\<And>x. x \<in> set (db_claims db) \<Longrightarrow> P x \<longleftrightarrow> x = c" and legal: "claim_legal_edge (cl_state c) t"
    and d: "d = (f (c\<lparr>cl_state := t\<rparr>))\<lparr>cl_version := cl_version c + 1\<rparr>" "rewrites_claim (db_ownerships db) c d"
    and f: "\<And>x. cl_version (f x) = cl_version x"
  shows "move_claims t f P db = Inr (put_claim d db, 1)"
proof -
  have id: "cl_id d = cl_id c" using d(2) by (simp add: rewrites_claim_def)
  have "map (\<lambda>x. if P x then (f (x\<lparr>cl_state := t\<rparr>))\<lparr>cl_version := cl_version x + 1\<rparr> else x) (db_claims db)
    = map (\<lambda>x. if cl_id x = cl_id d then d else x) (db_claims db)"
    using P table_ids [OF table c] d(1) id by (intro map_cong) auto
  moreover have "length (filter P (db_claims db)) = 1"
  proof -
    have "distinct (db_claims db)" using table by (simp add: claim_table_ok_def distinct_map)
    moreover have "filter P (db_claims db) = filter (\<lambda>x. x = c) (db_claims db)" using P by (auto intro: filter_cong)
    ultimately show ?thesis using c by (simp add: distinct_length_filter)
  qed
  moreover have "move_claims t f P db
    = Inr (db\<lparr>db_claims := map (\<lambda>x. if P x then (f (x\<lparr>cl_state := t\<rparr>))\<lparr>cl_version := cl_version x + 1\<rparr> else x) (db_claims db)\<rparr>,
           length (filter P (db_claims db)))"
    by (rule move_claims_ok [OF table _ f]) (use P legal d in auto)
  ultimately show ?thesis by (simp add: put_claim_def)
qed

lemma put_claim_twice: "cl_id e = cl_id d \<Longrightarrow> put_claim e (put_claim d db) = put_claim e db"
  by (simp add: put_claim_def cong: map_cong)

lemma activate_ok:
  assumes table: "claim_table_ok (db_ownerships db) (db_claims db)"
    and found: "find_claim db (pl_attemptId q) slot = Some c" "cl_kind c = slot" "cl_ownership c = pl_ownershipId q"
      "cl_generation c = pl_ownerGeneration q" "cl_state c = RReserved"
    and d: "d = c\<lparr>cl_state := RActive, cl_version := cl_version c + 2\<rparr>"
  shows "activate_claim q db (slot, cl_version c, cl_identity c) = Inr (put_claim d db)"
    "claim_table_ok (db_ownerships db) (db_claims (put_claim d db))"
proof -
  have c: "c \<in> set (db_claims db)" using found(1) by (auto simp: find_claim_def find_Some_iff)
  have ok: "claim_checks c" "claim_references (db_ownerships db) c" using c table by (auto simp: claim_table_ok_def list_all_iff)
  let ?e = "c\<lparr>cl_state := RAllocated, cl_version := cl_version c + 1\<rparr>"
  have e: "rewrites_claim (db_ownerships db) c ?e" and d': "rewrites_claim (db_ownerships db) ?e d"
    "rewrites_claim (db_ownerships db) c d"
    using ok found by (simp_all add: rewrites_claim_def claim_checks_def claim_references_def claim_is_held_def optional_digest_def d)
  show "claim_table_ok (db_ownerships db) (db_claims (put_claim d db))"
    by (rule put_claim_table [OF table c d'(2)])
  have first: "move_claims RAllocated (\<lambda>x. x) (\<lambda>x. cl_id x = cl_id c \<and> cl_ownership x = pl_ownershipId q
       \<and> cl_generation x = pl_ownerGeneration q \<and> cl_state x = RReserved \<and> cl_version x = cl_version c) db = Inr (put_claim ?e db, 1)"
    by (rule move_one [OF table c]) (use table_ids [OF table c] found e in \<open>auto simp: claim_legal_edge_def\<close>)
  have table': "claim_table_ok (db_ownerships (put_claim ?e db)) (db_claims (put_claim ?e db))"
    using put_claim_table [OF table c e] by simp
  have c': "?e \<in> set (db_claims (put_claim ?e db))" using c by (auto simp: image_iff)
  have "move_claims RActive (\<lambda>x. x) (\<lambda>x. cl_id x = cl_id c \<and> cl_ownership x = pl_ownershipId q
       \<and> cl_generation x = pl_ownerGeneration q \<and> cl_state x = RAllocated \<and> cl_version x = cl_version c + 1) (put_claim ?e db)
    = Inr (put_claim d (put_claim ?e db), 1)"
    by (rule move_one [OF table' c']) (use table_ids [OF table' c'] found d' d in \<open>auto simp: claim_legal_edge_def\<close>)
  with first found show "activate_claim q db (slot, cl_version c, cl_identity c) = Inr (put_claim d db)"
    by (simp add: activate_claim_def put_claim_twice d)
qed

lemma derived_resources:
  assumes "deriveAttemptWorkspacePlan sha256 cwd location lineage = Inr plan" and sha: "\<And>t. is_digest (sha256 t)"
    and r: "r \<in> set (wp_resources plan)"
  shows "is_digest (ri_identityDigest r) \<and> ri_resourceClaimId r \<noteq> '''' \<and> ri_kind r = ri_slot r"
proof -
  obtain d rs where rs: "traverse (resource_identity sha256 (ol_attemptId lineage) (ol_resourceIdentityVersion lineage))
       (plan_identities (plan_layout location lineage d)) = Inr rs"
    and plan: "plan = (plan_layout location lineage d)\<lparr>wp_resources := rs\<rparr>"
    by (rule derive_cases [OF assms(1)])
  then have "r \<in> set rs" using r by simp
  then obtain n where n: "n < length rs" "r = rs ! n" by (metis in_set_conv_nth)
  note pointwise = rs [unfolded traverse_Inr_iff]
  have "resource_identity sha256 (ol_attemptId lineage) (ol_resourceIdentityVersion lineage)
      (plan_identities (plan_layout location lineage d) ! n) = Inr r"
    using list_all2_nthD2 [OF pointwise n(1)] n(2) by simp
  then show ?thesis
    using sha by (auto simp: resource_identity_def Let_def rbind_Inr_iff plan_digest_def split: sum.splits)
qed

section \<open>Acquisition\<close>

definition command :: "ownership_kind \<Rightarrow> string \<Rightarrow> string \<Rightarrow> AttemptOwnershipCommandPayload" where
  "command kind key token =
     \<lparr>oc_kind = kind, oc_repositoryId = ''repo'', oc_attemptId = ''a'', oc_idempotencyKey = key,
      oc_ownerTokenDigest = token, oc_ttlMs = 1000, oc_ownershipId = None, oc_expectedOwnershipState = None,
      oc_expectedOwnershipVersion = None, oc_slot = None, oc_expectedResourceState = None,
      oc_expectedResourceVersion = None, oc_toResourceState = None, oc_cleanupProofDigest = None,
      oc_cleanupResourcePreimages = None, oc_processReceiptId = None, oc_groupDeathEvidenceId = None,
      oc_salvageRecordId = None, oc_contextId = None, oc_deliveryRef = None, oc_deliveryObservedOid = None,
      oc_expectedAttemptRefOid = None, oc_salvageDisposition = None, oc_salvageArtifactPath = None,
      oc_salvageArtifactDigest = None, oc_salvageArtifactSize = None, oc_salvageBaselineOid = None,
      oc_salvageAttemptRef = None, oc_salvageIndexDigest = None, oc_evidenceId = None, oc_createdAt = None,
      oc_expiredOwnershipId = None, oc_deathEvidenceId = None\<rparr>"

definition acquire_command :: AttemptOwnershipCommandPayload where
  "acquire_command = command OpAcquire ''acquire'' (window_sha ''token'')"

definition lease_plan :: AttemptWorkspacePlan where
  "lease_plan = (case attemptOwnershipAdmission (lease_env window_sha 0) admitted_db ''a'' of Inr plan \<Rightarrow> plan)"

lemma plan_facts:
  "case attemptOwnershipAdmission (lease_env window_sha 0) admitted_db ''a'' of
     Inl _ \<Rightarrow> False
   | Inr plan \<Rightarrow> distinct (map ri_resourceClaimId (wp_resources plan))
       \<and> list_all (\<lambda>r. ri_canonicalIdentity r \<noteq> '''') (wp_resources plan)
       \<and> process_identity (wp_stdoutPath plan) \<and> process_identity (wp_stderrPath plan)"
  by code_simp

lemma lease_admitted: "attemptOwnershipAdmission (lease_env window_sha 0) admitted_db ''a'' = Inr lease_plan"
  using plan_facts by (simp add: lease_plan_def split: sum.splits)

lemma lease_planned: "attemptOwnershipPlan (lease_env window_sha 0) admitted_db ''a'' = Inr lease_plan"
  using lease_admitted by (auto simp: attemptOwnershipAdmission_def split: option.splits if_splits)

lemma lease_derived: "\<exists>cwd location lineage. deriveAttemptWorkspacePlan window_sha cwd location lineage = Inr lease_plan"
  using lease_planned by (auto simp: attemptOwnershipPlan_def split: option.splits if_splits sum.splits)

lemma lease_plan_slots: "map ri_slot (wp_resources lease_plan) = RESOURCE_KINDS"
  using lease_derived plan_resource_slots by blast

lemma lease_plan_paths: "process_identity (wp_stdoutPath lease_plan)" "process_identity (wp_stderrPath lease_plan)"
  using plan_facts lease_admitted by simp_all

lemma lease_plan_resources:
  "distinct (map ri_resourceClaimId (wp_resources lease_plan))"
  "\<forall>r \<in> set (wp_resources lease_plan). is_digest (ri_identityDigest r) \<and> ri_canonicalIdentity r \<noteq> ''''
     \<and> ri_resourceClaimId r \<noteq> '''' \<and> ri_kind r = ri_slot r"
  using plan_facts lease_admitted lease_derived derived_resources [OF _ window_sha_digest]
  by (auto simp: list_all_iff)

definition own1 :: string where
  "own1 = ''ownership-'' @ drop 7 (window_sha (json_text (JObj [(''schema_version'', JStr ownership_schema), (''attempt_id'', JStr ''a''),
              (''generation'', JNum 1), (''owner_token_digest'', JStr (window_sha ''token''))])))"

definition lease1 :: ownership_row where
  "lease1 = (let json = json_text (ownership_context_js lease_plan 1 (window_sha ''token'') None) in
     \<lparr>ow_id = own1, ow_attempt = ''a'', ow_generation = 1, ow_token_digest = window_sha ''token'',
      ow_context_digest = window_sha json, ow_context_json = json, ow_recovered_from = None,
      ow_heartbeat = epoch, ow_expires = ''1970-01-01T00:00:01.000Z'', ow_state = LLive, ow_version = 0,
      ow_created = epoch\<rparr>)"

definition claims1 :: "claim_row list" where
  "claims1 = map (reserved_claim ''a'' own1 1 epoch) (wp_resources lease_plan)"

definition ownable_db :: state_db where
  "ownable_db = admitted_db\<lparr>db_ownerships := [lease1], db_claims := claims1\<rparr>"

lemma admitted_facts:
  "db_ownerships admitted_db = []" "db_claims admitted_db = []" "db_operations admitted_db = []" "db_evidence admitted_db = []"
  "find_row (db_attempts admitted_db) ''a'' = Some lease_attempt"
  by code_simp+

lemma dates:
  "env_now (lease_env sha 0) = epoch" "toISOString 1000 = ''1970-01-01T00:00:01.000Z''" "toISOString 2000 = ''1970-01-01T00:00:02.000Z''"
  "utc_text epoch" "utc_text ''1970-01-01T00:00:01.000Z''" "epoch < ''1970-01-01T00:00:01.000Z''"
  "date_ms (lease_env sha n) epoch = Some 0"
proof -
  have "toISOString 0 = epoch" by code_simp
  then show "env_now (lease_env sha 0) = epoch" by (simp add: env_now_def)
  have "date_parse other epoch = Some 0" for other
    using date_parse_iso [of 0 other] \<open>toISOString 0 = epoch\<close> by (simp add: max_iso_def)
  then show "date_ms (lease_env sha n) epoch = Some 0" by (simp add: date_ms_def)
qed code_simp+

lemma own1_not_empty: "own1 \<noteq> ''''"
  by (simp add: own1_def)

lemma lease1_checks: "lease_checks lease1"
  using dates(4-6) window_sha_digest own1_not_empty by (simp add: lease_checks_def lease1_def Let_def)

lemma lease1_table: "lease_table_ok [lease1]"
  using lease1_checks by (simp add: lease_table_ok_def)

lemma claims1_table: "claim_table_ok [lease1] claims1"
  unfolding claims1_def using dates(4) lease_plan_resources lease_plan_slots own1_not_empty
  by (intro reserved_table_ok) (simp_all add: lease1_def Let_def)

lemma ownable_claims: "set (current_claims ownable_db ''a'') = set claims1"
  by (auto simp: current_claims_of claims_of_def ownable_db_def claims1_def reserved_claim_def)

lemma ownable_claims_safe: "\<forall>c \<in> set (current_claims ownable_db ''a''). safe_claim c"
  unfolding ownable_claims by (auto simp: claims1_def reserved_claim_def safe_claim_def is_safe_int_def max_safe_def)

lemma lease1_found: "find_lease ownable_db own1 ''a'' = Some lease1"
  by (simp add: find_lease_def ownable_db_def lease1_def Let_def)

lemma ownable_operations: "db_operations ownable_db = []"
  by (simp add: ownable_db_def admitted_facts)

definition acquire_input :: string where
  "acquire_input = json_text (command_js acquire_command)"

definition operation1 :: operation_row where
  "operation1 = sealed_operation (lease_env window_sha 0) acquire_command Execution acquire_input (window_sha acquire_input)
     lease1 (current_claims ownable_db ''a'')"

definition owned_db :: state_db where
  "owned_db = ownable_db\<lparr>db_operations := [operation1]\<rparr>"

lemma command_fields [simp]:
  "oc_kind (command kind key token) = kind" "oc_attemptId (command kind key token) = ''a''"
  "oc_repositoryId (command kind key token) = ''repo''" "oc_idempotencyKey (command kind key token) = key"
  "oc_ownerTokenDigest (command kind key token) = token" "oc_ttlMs (command kind key token) = 1000"
  by (simp_all add: command_def)

lemma acquire_canonical: "canonicalOwnershipCommand (lease_env window_sha 0) acquire_command = Inr acquire_input"
proof -
  have "admissible (command_js acquire_command)"
    by (simp add: acquire_command_def command_js_def command_def entry_def is_safe_int_def max_safe_def)
  moreover have "''acquire'' = trim ''acquire''" by code_simp
  ultimately show ?thesis
    using window_sha_digest
    by (simp add: canonicalOwnershipCommand_def acquire_command_def acquire_input_def canonical_text_ok is_safe_int_def max_safe_def)
qed

lemma acquire_recorded:
  "\<exists>res. recordOwnershipOperation (lease_env window_sha 0) acquire_command own1 Execution lease_plan acquire_input
     (window_sha acquire_input) ownable_db = Inr (owned_db, res)"
proof -
  have safe: "safe_lease lease1" by (simp add: safe_lease_def lease1_def Let_def is_safe_int_def max_safe_def)
  have "\<exists>res. recordOwnershipOperation (lease_env window_sha 0) acquire_command own1 Execution lease_plan acquire_input
     (window_sha acquire_input) ownable_db = Inr (ownable_db\<lparr>db_operations := db_operations ownable_db @ [operation1]\<rparr>, res)"
    by (rule record_succeeds [where r = lease1])
      (simp_all add: acquire_command_def lease1_found safe ownable_claims_safe window_sha_digest dates own1_not_empty
        operation1_def recorded_kind_def ownable_operations)
  then show ?thesis by (simp add: owned_db_def ownable_operations)
qed

lemma layout_lineage: "wp_lineage ((plan_layout location lineage digest)\<lparr>wp_resources := rs\<rparr>) = lineage"
  by (simp add: plan_layout_def Let_def)

lemma derived_number:
  assumes "deriveAttemptWorkspacePlan sha cwd location lineage = Inr plan"
  shows "is_safe_int (ol_attemptNumber (wp_lineage plan))"
proof -
  obtain digest rs where "plan = (plan_layout location lineage digest)\<lparr>wp_resources := rs\<rparr>"
    using assms by (rule derive_cases)
  then have "wp_lineage plan = lineage" by (rule ssubst) (rule layout_lineage)
  with assms show ?thesis
    by (simp add: deriveAttemptWorkspacePlan_def Let_def rbind_Inr_iff split: if_split_asm)
qed

lemma planned_number: "attemptOwnershipPlan env db i = Inr plan \<Longrightarrow> is_safe_int (ol_attemptNumber (wp_lineage plan))"
  using derived_number by (fastforce simp: attemptOwnershipPlan_def split: option.splits if_splits sum.splits)

lemma planned_context:
  assumes "attemptOwnershipPlan env db i = Inr plan" "is_safe_int generation"
  shows "ownershipContext env' plan generation token old
    = Inr (json_text (ownership_context_js plan generation token old),
           env_sha256 env' (json_text (ownership_context_js plan generation token old)))"
  using planned_number [OF assms(1)] assms(2)
  by (simp add: ownershipContext_def canonical_text_ok ownership_context_js_def Let_def resource_js_def)

lemma lease1_expires: "toISOString 1000 = ow_expires lease1"
  using dates(2) by (simp add: lease1_def Let_def)

lemma acquires: "\<exists>res. commitAuthorizedAttemptOwnership (lease_env window_sha 0) acquire_command admitted_db = (owned_db, Inr res)"
proof -
  let ?env = "lease_env window_sha 0" and ?token = "window_sha ''token''"
  have identity: "ownershipIdentity ?env ''a'' 1 ?token = Inr own1"
    by (simp add: ownershipIdentity_def canonical_text_ok own1_def is_safe_int_def max_safe_def)
  have ctx: "ownershipContext ?env lease_plan 1 ?token None
    = Inr (ow_context_json lease1, ow_context_digest lease1)"
    using planned_context [OF lease_planned] by (simp add: lease1_def Let_def is_safe_int_def max_safe_def)
  have lease: "insert_lease lease1 admitted_db = Inr (admitted_db\<lparr>db_ownerships := [lease1]\<rparr>)"
    using lease1_table by (simp add: insert_lease_def store_leases_def admitted_facts lease1_def Let_def)
  have claims: "insert_claims (admitted_db\<lparr>db_ownerships := [lease1]\<rparr>) claims1 = Inr ownable_db"
  proof -
    have "insert_claims (admitted_db\<lparr>db_ownerships := [lease1]\<rparr>) claims1
      = Inr ((admitted_db\<lparr>db_ownerships := [lease1]\<rparr>)\<lparr>db_claims := db_claims (admitted_db\<lparr>db_ownerships := [lease1]\<rparr>) @ claims1\<rparr>)"
      using claims1_table by (intro insert_claims_ok) (auto simp: admitted_facts claims1_def reserved_claim_def)
    then show ?thesis by (simp add: ownable_db_def admitted_facts)
  qed
  obtain res where recorded: "recordOwnershipOperation ?env acquire_command own1 Execution lease_plan acquire_input
     (window_sha acquire_input) ownable_db = Inr (owned_db, res)" using acquire_recorded by blast
  have row: "\<lparr>ow_id = own1, ow_attempt = ''a'', ow_generation = 1, ow_token_digest = ?token,
     ow_context_digest = ow_context_digest lease1, ow_context_json = ow_context_json lease1, ow_recovered_from = None,
     ow_heartbeat = epoch, ow_expires = ''1970-01-01T00:00:01.000Z'', ow_state = LLive, ow_version = 0, ow_created = epoch\<rparr> = lease1"
    by (simp add: lease1_def Let_def)
  have "acquireAttemptOwnership ?env acquire_command acquire_input (window_sha acquire_input) admitted_db = Inr (owned_db, res)"
    using recorded lease claims lease_admitted identity ctx
    by (simp add: acquireAttemptOwnership_def acquire_command_def dates iso_of_def row claims1_def [symmetric] Let_def
        admitted_facts(1))
  then have "commitAttemptOwnership ?env acquire_command admitted_db = Inr (owned_db, res)"
    using acquire_canonical by (simp add: commitAttemptOwnership_def find_operation_def admitted_facts ownership_operation_def
        acquire_command_def recorded_kind_def)
  then show ?thesis by (simp add: commitAuthorizedAttemptOwnership_def immediate_def)
qed

section \<open>Reaching the owned attempt\<close>

lemma lifecycle_store_step: "lifecycle_step db db' \<Longrightarrow> \<not> other_tables db db' \<Longrightarrow> store_step db db'"
  by (simp add: store_step_def)

lemma kept_store_step: "lifecycle_step db db' \<Longrightarrow> keeps_ownership db db' \<Longrightarrow> store_step db db'"
  by (simp add: store_step_def)

lemma taken_insert:
  "store_step db (taken db (insert_run r db))" "store_step db (taken db (insert_ticket k db))"
  "store_step db (taken db (insert_attempt a db))"
proof -
  have stay: "store_step db db" by (rule kept_store_step [OF step_other]) (simp_all add: other_tables_def)
  show "store_step db (taken db (insert_run r db))"
    using stay by (auto simp: taken_def insert_run_def keeps_ownership_def split: sum.splits
        intro!: kept_store_step [OF step_new_run [of r]])
  show "store_step db (taken db (insert_ticket k db))"
    using stay by (auto simp: taken_def insert_ticket_def keeps_ownership_def split: sum.splits
        intro!: kept_store_step [OF step_new_ticket [of k]])
  show "store_step db (taken db (insert_attempt a db))"
    using stay by (auto simp: taken_def insert_attempt_def keeps_ownership_def split: sum.splits
        intro!: kept_store_step [OF step_new_attempt [of a]])
qed

lemma activated:
  "store_step db (fst (activateRunForRunner env i a key db))" "store_step db (fst (activateTicketForRunner env k a key db))"
  by (rule kept_store_step; rule step_run step_ticket activate_keeps, rule surjective_pairing)+

lemma admitted_reachable: "reachable_store admitted_db"
  unfolding reachable_store_def admitted_db_def Let_def
  by (rule rtranclp.rtrancl_into_rtrancl, rule rtranclp.rtrancl_into_rtrancl, rule rtranclp.rtrancl_into_rtrancl,
      rule rtranclp.rtrancl_into_rtrancl, rule rtranclp.rtrancl_into_rtrancl, rule rtranclp.rtrancl_refl)
    (rule taken_insert activated)+

lemma acquire_step: "store_step admitted_db owned_db"
proof -
  obtain res where "commitAuthorizedAttemptOwnership (lease_env window_sha 0) acquire_command admitted_db = (owned_db, Inr res)"
    using acquires by blast
  then have "ownership_step admitted_db owned_db" by (rule step_ownership)
  then show ?thesis by (simp add: store_step_def)
qed

lemma owned_reachable: "reachable_store owned_db"
  using admitted_reachable acquire_step unfolding reachable_store_def by (rule rtranclp.rtrancl_into_rtrancl)

end
