(* ===== verification/Lease_Witnesses.thy ===== *)
theory Lease_Witnesses
  imports Lease_Samples
begin

text \<open>
  The properties of ownership on concrete calls: the calls of one attempt, from its acquisition to the
  recovery by a second owner, and what the properties say of them.
\<close>

section \<open>Later calls\<close>

definition later_env :: "int \<Rightarrow> store_env" where
  "later_env clock = lease_env (flat_sha CHR ''0'') clock"

lemma later_env_simps [simp]:
  "env_sha256 (later_env clock) = flat_sha CHR ''0''" "env_clock (later_env clock) = clock"
  "env_location (later_env clock) = \<lparr>sl_repositoryId = ''repo'', sl_resourceDirectory = ''/s''\<rparr>"
  "env_cwd (later_env clock) = ''/w''" "env_now (later_env clock) = toISOString clock"
  by (simp_all add: later_env_def env_now_def)

lemma later_digest: "is_digest (flat_sha CHR ''0'' t)" "is_digest (window_sha t)"
proof -
  have "is_hex CHR ''0''" by code_simp
  then show "is_digest (flat_sha CHR ''0'' t)" by (rule flat_sha_digest)
qed (rule window_sha_digest)

lemma later_date: "0 \<le> n \<Longrightarrow> n < max_iso \<Longrightarrow> date_ms (later_env clock) (toISOString n) = Some n"
  by (simp add: date_ms_def date_parse_iso)

lemma later_plan_exists: "is_ok (attemptOwnershipPlan (later_env 0) admitted_db ''a'')"
  by code_simp

definition later_plan :: AttemptWorkspacePlan where
  "later_plan = (case attemptOwnershipPlan (later_env 0) admitted_db ''a'' of Inr plan \<Rightarrow> plan)"

lemma later_planned:
  assumes "db_attempts db = db_attempts admitted_db" "db_tickets db = db_tickets admitted_db" "db_runs db = db_runs admitted_db"
  shows "attemptOwnershipPlan (later_env clock) db ''a'' = Inr later_plan"
proof -
  have "attemptOwnershipPlan (later_env clock) db ''a'' = attemptOwnershipPlan (later_env 0) admitted_db ''a''"
    unfolding attemptOwnershipPlan_def assms later_env_simps ..
  then show ?thesis
    using later_plan_exists by (simp add: later_plan_def is_ok_def split: sum.splits)
qed

lemma command_canonical:
  assumes "admissible (command_js p)" "oc_attemptId p = ''a''" "oc_repositoryId p = ''repo''" "oc_ttlMs p = 1000"
    "oc_idempotencyKey p \<noteq> ''''" "oc_idempotencyKey p = trim (oc_idempotencyKey p)" "is_digest (oc_ownerTokenDigest p)"
  shows "canonicalOwnershipCommand (later_env clock) p = Inr (json_text (command_js p))"
  using assms by (simp add: canonicalOwnershipCommand_def canonical_text_ok is_safe_int_def max_safe_def)

section \<open>A heartbeat\<close>

definition heartbeat_command :: AttemptOwnershipCommandPayload where
  "heartbeat_command =
     (command OpHeartbeat ''beat'' (window_sha ''token''))
       \<lparr>oc_ownershipId := Some own1, oc_expectedOwnershipState := Some LLive, oc_expectedOwnershipVersion := Some 0\<rparr>"

lemma heartbeat_fields [simp]:
  "oc_kind heartbeat_command = OpHeartbeat" "oc_attemptId heartbeat_command = ''a''"
  "oc_repositoryId heartbeat_command = ''repo''" "oc_idempotencyKey heartbeat_command = ''beat''"
  "oc_ownerTokenDigest heartbeat_command = window_sha ''token''" "oc_ttlMs heartbeat_command = 1000"
  "oc_ownershipId heartbeat_command = Some own1" "oc_expectedOwnershipState heartbeat_command = Some LLive"
  "oc_expectedOwnershipVersion heartbeat_command = Some 0"
  by (simp_all add: heartbeat_command_def)

lemma heartbeat_canonical:
  "canonicalOwnershipCommand (later_env 500) heartbeat_command = Inr (json_text (command_js heartbeat_command))"
proof (rule command_canonical)
  show "admissible (command_js heartbeat_command)"
    by (simp add: heartbeat_command_def command_js_def command_def entry_def is_safe_int_def max_safe_def)
  have "''beat'' = trim ''beat''" by code_simp
  then show "oc_idempotencyKey heartbeat_command = trim (oc_idempotencyKey heartbeat_command)" by simp
qed (simp_all add: later_digest)

lemma lease1_fields [simp]:
  "ow_id lease1 = own1" "ow_attempt lease1 = ''a''" "ow_generation lease1 = 1" "ow_recovered_from lease1 = None"
  "ow_token_digest lease1 = window_sha ''token''" "ow_heartbeat lease1 = toISOString 0" "ow_expires lease1 = toISOString 1000"
  "ow_state lease1 = LLive" "ow_version lease1 = 0" "ow_created lease1 = toISOString 0"
  using dates(1-2) by (simp_all add: lease1_def Let_def env_now_def)

lemma owned_fields [simp]:
  "db_ownerships owned_db = [lease1]" "db_claims owned_db = claims1" "db_operations owned_db = [operation1]"
  "db_attempts owned_db = db_attempts admitted_db" "db_tickets owned_db = db_tickets admitted_db"
  "db_runs owned_db = db_runs admitted_db" "db_evidence owned_db = db_evidence admitted_db"
  "db_contexts owned_db = db_contexts admitted_db" "db_phases owned_db = db_phases admitted_db"
  by (simp_all add: owned_db_def ownable_db_def)

lemma operation1_fields:
  "op_attempt operation1 = ''a''" "op_key operation1 = ''acquire''"
  "\<exists>t. op_id operation1 = ''ownership-operation-'' @ drop 7 (window_sha t)"
  by (auto simp: operation1_def sealed_operation_def acquire_command_def)

lemma later_operation_fresh: "op_id (sealed_operation (later_env clock) p purpose input digest r cs) \<noteq> op_id operation1"
proof -
  obtain t where "op_id operation1 = ''ownership-operation-'' @ drop 7 (window_sha t)"
    using operation1_fields(3) by blast
  moreover have "drop 7 (flat_sha CHR ''0'' u) \<noteq> drop 7 (window_sha t)" for u by (rule sha_differ) simp
  ultimately show ?thesis by (simp add: sealed_operation_def)
qed

definition beating_lease :: ownership_row where
  "beating_lease = lease1\<lparr>ow_heartbeat := toISOString 500, ow_expires := toISOString 1500, ow_version := 1\<rparr>"

lemma beating_fields [simp]:
  "ow_id beating_lease = own1" "ow_attempt beating_lease = ''a''" "ow_generation beating_lease = 1"
  "ow_recovered_from beating_lease = None" "ow_token_digest beating_lease = window_sha ''token''"
  "ow_heartbeat beating_lease = toISOString 500" "ow_expires beating_lease = toISOString 1500"
  "ow_state beating_lease = LLive" "ow_version beating_lease = 1"
  by (simp_all add: beating_lease_def)

lemma later_texts:
  "utc_text (toISOString 500)" "utc_text (toISOString 1500)" "toISOString 500 < toISOString 1500"
  by code_simp+

lemma beating_table: "lease_table_ok [beating_lease]"
  using lease1_checks later_texts by (simp add: lease_table_ok_def lease_checks_def beating_lease_def)

definition beating_db :: state_db where
  "beating_db = owned_db\<lparr>db_ownerships := [beating_lease]\<rparr>"

lemma beating_db_fields [simp]: "db_ownerships beating_db = [beating_lease]" "db_operations beating_db = [operation1]"
  by (simp_all add: beating_db_def)

lemma heartbeats:
  "\<exists>db' res. commitAuthorizedAttemptOwnership (later_env 500) heartbeat_command owned_db = (db', Inr res) \<and> db' \<noteq> owned_db"
proof -
  let ?p = heartbeat_command and ?env = "later_env 500"
  let ?input = "json_text (command_js heartbeat_command)"
  have found: "find_lease beating_db own1 (oc_attemptId ?p) = Some beating_lease"
    by (simp add: find_lease_def beating_db_def)
  have claims: "current_claims beating_db ''a'' = current_claims ownable_db ''a''"
    by (simp add: current_claims_def beating_db_def ownable_db_def)
  have safe: "safe_lease beating_lease" by (simp add: safe_lease_def is_safe_int_def max_safe_def)
  obtain o' where o': "o' = sealed_operation ?env ?p Execution ?input (flat_sha CHR ''0'' ?input) beating_lease
      (current_claims beating_db (oc_attemptId ?p))" by simp
  have "\<exists>res. recordOwnershipOperation ?env ?p own1 Execution later_plan ?input (flat_sha CHR ''0'' ?input) beating_db
    = Inr (beating_db\<lparr>db_operations := db_operations beating_db @ [o']\<rparr>, res)"
    by (rule record_succeeds [OF found safe _ _ _ _ _ _ _ _ o'])
      (use ownable_claims_safe later_texts own1_not_empty later_operation_fresh [symmetric] in
        \<open>simp_all add: claims later_digest recorded_kind_def operation1_fields o'\<close>)
  then obtain res where res: "recordOwnershipOperation ?env ?p own1 Execution later_plan ?input (flat_sha CHR ''0'' ?input) beating_db
    = Inr (beating_db\<lparr>db_operations := db_operations beating_db @ [o']\<rparr>, res)" by blast
  have "requireCurrentOwnership ?p owned_db = Inr lease1"
    by (simp add: requireCurrentOwnership_def find_lease_def)
  moreover have "requireOwnershipPreimage ?p lease1 = Inr ()"
    by (simp add: requireOwnershipPreimage_def ensure_that_def)
  moreover have "\<not> expired ?env (toISOString 1000)" by (simp add: expired_def later_date max_iso_def)
  moreover have "touch_leases (\<lambda>x. x\<lparr>ow_heartbeat := toISOString 500, ow_expires := toISOString 1500\<rparr>)
      (\<lambda>x. ow_id x = own1 \<and> ow_token_digest x = window_sha ''token'' \<and> ow_state x = LLive \<and> ow_version x = 0) owned_db
    = Inr (beating_db, 1)"
    using beating_table by (simp add: touch_leases_def store_leases_def beating_db_def beating_lease_def)
  moreover have "attemptOwnershipPlan ?env beating_db ''a'' = Inr later_plan"
    by (rule later_planned) (simp_all add: beating_db_def)
  ultimately have "heartbeatAttemptOwnership ?env ?p ?input (flat_sha CHR ''0'' ?input) owned_db
    = Inr (beating_db\<lparr>db_operations := db_operations beating_db @ [o']\<rparr>, res)"
    using res by (simp add: heartbeatAttemptOwnership_def later_date max_iso_def iso_of_def)
  then have "commitAttemptOwnership ?env ?p owned_db = Inr (beating_db\<lparr>db_operations := db_operations beating_db @ [o']\<rparr>, res)"
    using heartbeat_canonical operation1_fields
    by (simp add: commitAttemptOwnership_def find_operation_def ownership_operation_def recorded_kind_def)
  then have "commitAuthorizedAttemptOwnership ?env ?p owned_db = (beating_db\<lparr>db_operations := db_operations beating_db @ [o']\<rparr>, Inr res)"
    by (simp add: commitAuthorizedAttemptOwnership_def immediate_def)
  moreover have "db' \<noteq> owned_db" if "db_operations db' = db_operations beating_db @ [o']" for db'
    using that by auto
  ultimately show ?thesis by fastforce
qed

section \<open>A replay\<close>

lemma ownership_commands_replay_forever_witness:
  "let later = fst (commitAuthorizedAttemptOwnership (later_env 500) heartbeat_command owned_db) in
   \<exists>again. commitAuthorizedAttemptOwnership (lease_env window_sha 700) acquire_command later = (later, Inr again)
     \<and> sr_replayed again"
proof -
  let ?later = "fst (commitAuthorizedAttemptOwnership (later_env 500) heartbeat_command owned_db)"
  obtain res where res: "commitAuthorizedAttemptOwnership (lease_env window_sha 0) acquire_command admitted_db = (owned_db, Inr res)"
    using acquires by blast
  obtain r where "commitAuthorizedAttemptOwnership (later_env 500) heartbeat_command owned_db = (?later, r)"
    by (metis surjective_pairing)
  then have "store_step owned_db ?later" unfolding store_step_def by (blast intro: step_ownership)
  then have "store_step\<^sup>*\<^sup>* owned_db ?later" by blast
  moreover have "recorded_kind (oc_kind acquire_command)" "oc_kind acquire_command = OpAcquire"
    by (simp_all add: acquire_command_def recorded_kind_def)
  moreover have "find_operation admitted_db (oc_attemptId acquire_command) (oc_idempotencyKey acquire_command) = None"
    by (simp add: find_operation_def admitted_facts)
  moreover have "same_installation (lease_env window_sha 0) (lease_env window_sha 700)"
    by (simp add: same_installation_def)
  ultimately show ?thesis
    using ownership_commands_replay_forever [OF admitted_reachable res, of ?later "lease_env window_sha 700"]
    by (auto simp: Let_def)
qed

section \<open>The planned resources\<close>

lemma lease_plan_identities: "map (\<lambda>r. (ri_slot r, ri_canonicalIdentity r)) (wp_resources lease_plan) = plan_identities lease_plan"
proof -
  obtain cwd location lineage where derived: "deriveAttemptWorkspacePlan window_sha cwd location lineage = Inr lease_plan"
    using lease_derived by blast
  obtain digest rs where rs: "traverse (resource_identity window_sha (ol_attemptId lineage) (ol_resourceIdentityVersion lineage))
       (plan_identities (plan_layout location lineage digest)) = Inr rs"
    and plan: "lease_plan = (plan_layout location lineage digest)\<lparr>wp_resources := rs\<rparr>"
    by (rule derive_cases [OF derived])
  have "list_all2 (\<lambda>kc r. resource_identity window_sha (ol_attemptId lineage) (ol_resourceIdentityVersion lineage) kc = Inr r)
      (plan_identities (plan_layout location lineage digest)) rs"
    using rs unfolding traverse_Inr_iff .
  then have "map (\<lambda>r. (ri_slot r, ri_canonicalIdentity r)) rs = plan_identities (plan_layout location lineage digest)"
    by (induction rule: list_all2_induct) (auto dest: resource_identity_slot)
  moreover have "plan_identities lease_plan = plan_identities (plan_layout location lineage digest)"
    unfolding plan by (simp add: plan_identities_def del: plan_layout_def)
  moreover have "wp_resources lease_plan = rs" unfolding plan by simp
  ultimately show ?thesis by simp
qed

lemma lease_plan_attempt: "ol_attemptId (wp_lineage lease_plan) = ''a''"
proof -
  have a: "row_id lease_attempt = ''a''" by (simp add: lease_attempt_def)
  have derives: "wp_lineage plan = lineage" if "deriveAttemptWorkspacePlan sha cwd location lineage = Inr plan" for sha cwd location lineage plan
    using that by (rule derive_cases) (simp add: layout_lineage)
  show ?thesis
    using lease_planned derives by (fastforce simp: attemptOwnershipPlan_def admitted_facts a split: option.splits if_splits sum.splits)
qed

lemma planned_slot:
  assumes "k \<in> set RESOURCE_KINDS"
  shows "\<exists>r \<in> set (wp_resources lease_plan). ri_slot r = k \<and> ri_kind r = k"
proof -
  have "k \<in> set (map ri_slot (wp_resources lease_plan))" using assms unfolding lease_plan_slots .
  then show ?thesis using lease_plan_resources(2) by auto
qed

definition reserved1 :: "resource_kind \<Rightarrow> claim_row" where
  "reserved1 k = the (find_claim owned_db ''a'' k)"

lemma reserved1_found:
  assumes "k \<in> set RESOURCE_KINDS"
  shows "find_claim owned_db ''a'' k = Some (reserved1 k) \<and> cl_kind (reserved1 k) = k \<and> cl_slot (reserved1 k) = k
    \<and> cl_ownership (reserved1 k) = own1 \<and> cl_generation (reserved1 k) = 1 \<and> cl_state (reserved1 k) = RReserved
    \<and> cl_version (reserved1 k) = 0 \<and> (k, cl_identity (reserved1 k)) \<in> set (plan_identities lease_plan)"
proof -
  obtain r where r: "r \<in> set (wp_resources lease_plan)" "ri_slot r = k" using planned_slot [OF assms] by blast
  have "\<exists>c. find_claim owned_db ''a'' k = Some c"
    using r unfolding find_claim_def by (auto simp: find_None_iff claims1_def reserved_claim_def simp flip: not_None_eq)
  then have found: "find_claim owned_db ''a'' k = Some (reserved1 k)" by (auto simp: reserved1_def)
  then have "reserved1 k \<in> set claims1" "cl_slot (reserved1 k) = k"
    by (auto simp: find_claim_def find_Some_iff)
  then obtain s where s: "s \<in> set (wp_resources lease_plan)" "reserved1 k = reserved_claim ''a'' own1 1 epoch s" "ri_slot s = k"
    by (auto simp: claims1_def reserved_claim_def)
  have "(ri_slot s, ri_canonicalIdentity s) \<in> set (plan_identities lease_plan)"
    using s(1) unfolding lease_plan_identities [symmetric] by force
  with s found lease_plan_resources(2) show ?thesis by (auto simp: reserved_claim_def)
qed

lemma all_kinds: "k \<in> set RESOURCE_KINDS"
  by (cases k) (simp_all add: RESOURCE_KINDS_def)

lemma reserved1_identities:
  "cl_identity (reserved1 ProcessGroup) = ''process-group:a''"
  "cl_identity (reserved1 StdoutFile) = wp_stdoutPath lease_plan"
  "cl_identity (reserved1 StderrFile) = wp_stderrPath lease_plan"
  using reserved1_found [OF all_kinds, of ProcessGroup] reserved1_found [OF all_kinds, of StdoutFile]
    reserved1_found [OF all_kinds, of StderrFile]
  by (auto simp: plan_identities_def lease_plan_attempt)

section \<open>A launch\<close>

definition phased_db :: state_db where
  "phased_db = owned_db
     \<lparr>db_contexts := db_contexts admitted_db @ [\<lparr>ctx_id = ''x'', ctx_digest = zero_digest, ctx_attempt = ''a'', ctx_role = ''implementer''\<rparr>],
      db_phases := db_phases admitted_db
        @ [\<lparr>ph_id = ''p'', ph_attempt = ''a'', ph_context = ''x'', ph_phase = ''implement'', ph_role = ''implementer''\<rparr>]\<rparr>"

lemma phased_step: "store_step owned_db phased_db"
  by (rule kept_store_step [OF step_other]) (simp_all add: other_tables_def keeps_ownership_def phased_db_def)

lemma phased_reachable: "reachable_store phased_db"
  using owned_reachable phased_step unfolding reachable_store_def by (rule rtranclp.rtrancl_into_rtrancl)

definition launch_request :: ProcessLaunchCommitRequest where
  "launch_request =
     (let q = \<lparr>pl_launchId = ''launch'', pl_processReceiptId = ''receipt'', pl_repositoryId = ''repo'', pl_attemptId = ''a'',
        pl_ownershipId = own1, pl_ownerGeneration = 1, pl_ownershipContextDigest = ow_context_digest lease1,
        pl_phaseExecutionId = ''p'', pl_contextId = ''x'', pl_executionContextDigest = zero_digest,
        pl_spawnAuthorizationDigest = zero_digest, pl_pid = 7, pl_pgid = 7, pl_platform = ''linux'', pl_bootIdentity = ''boot'',
        pl_processStartIdentity = ''start'', pl_argvDigest = zero_digest, pl_environmentDigest = zero_digest,
        pl_stdoutPath = wp_stdoutPath lease_plan, pl_stderrPath = wp_stderrPath lease_plan, pl_outputLimitBytes = 10,
        pl_tailLimitBytes = 5, pl_launchEvidenceId = ''launched'', pl_launchEvidencePayload = JNull,
        pl_expectedResourceVersions = \<lparr>pv_process_group = 0, pv_stdout = 0, pv_stderr = 0\<rparr>, pl_createdAt = toISOString 500\<rparr>
      in q\<lparr>pl_launchEvidencePayload := launch_payload_js (launch_row_of q)\<rparr>)"

lemma launch_fields [simp]:
  "pl_launchId launch_request = ''launch''" "pl_processReceiptId launch_request = ''receipt''"
  "pl_repositoryId launch_request = ''repo''" "pl_attemptId launch_request = ''a''" "pl_ownershipId launch_request = own1"
  "pl_ownerGeneration launch_request = 1" "pl_ownershipContextDigest launch_request = ow_context_digest lease1"
  "pl_phaseExecutionId launch_request = ''p''" "pl_contextId launch_request = ''x''"
  "pl_executionContextDigest launch_request = zero_digest" "pl_launchEvidenceId launch_request = ''launched''"
  "pl_stdoutPath launch_request = wp_stdoutPath lease_plan" "pl_stderrPath launch_request = wp_stderrPath lease_plan"
  "pl_expectedResourceVersions launch_request = \<lparr>pv_process_group = 0, pv_stdout = 0, pv_stderr = 0\<rparr>"
  "pl_createdAt launch_request = toISOString 500" "pl_pid launch_request = 7" "pl_pgid launch_request = 7"
  "pl_spawnAuthorizationDigest launch_request = zero_digest" "pl_argvDigest launch_request = zero_digest"
  "pl_environmentDigest launch_request = zero_digest" "pl_platform launch_request = ''linux''"
  "pl_bootIdentity launch_request = ''boot''" "pl_processStartIdentity launch_request = ''start''"
  "pl_outputLimitBytes launch_request = 10" "pl_tailLimitBytes launch_request = 5"
  by (simp_all add: launch_request_def Let_def)

lemma launch_payload: "pl_launchEvidencePayload launch_request = launch_payload_js (launch_row_of launch_request)"
  by (simp add: launch_request_def Let_def launch_row_of_def)

lemma trim_solid: "s \<noteq> '''' \<Longrightarrow> \<not> is_space (hd s) \<Longrightarrow> \<not> is_space (last s) \<Longrightarrow> trim s = s"
proof -
  assume s: "s \<noteq> ''''" "\<not> is_space (hd s)" "\<not> is_space (last s)"
  then have "dropWhile is_space s = s" "dropWhile is_space (rev s) = rev s"
    by (simp_all add: dropWhile_eq_self_iff hd_rev)
  then show "trim s = s" by (simp add: trim_def)
qed

lemma hex_solid: "is_hex c \<Longrightarrow> \<not> is_space c"
  by (auto simp: is_hex_def is_digit_def in_range_def is_space_def less_eq_char_def)

lemma own1_identity: "process_identity own1"
proof -
  obtain t where own1: "own1 = ''ownership-'' @ drop 7 (window_sha t)" by (simp add: own1_def)
  have hex: "list_all is_hex (drop 7 (window_sha t))" "drop 7 (window_sha t) \<noteq> []"
    using window_sha_digest [of t] by (auto simp: is_digest_def)
  then have "is_hex (last (drop 7 (window_sha t)))" using last_in_set [OF hex(2)] by (simp only: list_all_iff)
  moreover have "last own1 = last (drop 7 (window_sha t))" using hex(2) by (simp add: own1)
  ultimately have "\<not> is_space (last own1)" using hex_solid by simp
  moreover have "\<not> is_space (hd own1)" by (simp add: own1 is_space_def)
  ultimately show ?thesis using own1_not_empty by (simp add: process_identity_def trim_solid)
qed

lemma launch_identities:
  "list_all process_identity [''launch'', ''receipt'', ''repo'', ''a'', ''p'', ''x'', ''linux'', ''boot'', ''start'', ''launched'']"
  by code_simp

lemma zero_is_digest: "is_digest zero_digest"
  by code_simp

lemma lease1_context_digest: "is_digest (ow_context_digest lease1)"
  using lease1_checks by (simp add: lease_checks_def)

lemma launch_checked: "check_launch (later_env 500) launch_request = Inr ()"
  using launch_identities lease_plan_paths own1_identity zero_is_digest lease1_context_digest later_texts(1)
  by (simp add: check_launch_def process_timestamp_def later_date max_iso_def is_safe_int_def max_safe_def ensure_that_def)

lemma launch_admissible: "admissible (launch_payload_js (launch_row_of launch_request))"
  by (simp add: launch_payload_js_def launch_row_of_def lineage_members_def is_safe_int_def max_safe_def)

lemma launch_payload_wf: "js_wf (launch_payload_js (launch_row_of launch_request))"
  by (simp add: launch_payload_js_def launch_row_of_def lineage_members_def)

lemma admitted_rest:
  "db_contexts admitted_db = []" "db_phases admitted_db = []" "db_launches admitted_db = []" "db_observations admitted_db = []"
  "db_terminals admitted_db = []" "map_option run_repository (find_row (db_runs admitted_db) ''r'') = Some ''repo''"
  by code_simp+

lemma phased_fields [simp]:
  "db_ownerships phased_db = [lease1]" "db_claims phased_db = claims1" "db_operations phased_db = [operation1]"
  "db_attempts phased_db = db_attempts admitted_db" "db_tickets phased_db = db_tickets admitted_db"
  "db_runs phased_db = db_runs admitted_db" "db_evidence phased_db = []" "db_launches phased_db = []"
  "db_observations phased_db = []" "db_terminals phased_db = []"
  "db_contexts phased_db = [\<lparr>ctx_id = ''x'', ctx_digest = zero_digest, ctx_attempt = ''a'', ctx_role = ''implementer''\<rparr>]"
  "db_phases phased_db
     = [\<lparr>ph_id = ''p'', ph_attempt = ''a'', ph_context = ''x'', ph_phase = ''implement'', ph_role = ''implementer''\<rparr>]"
  by (simp_all add: phased_db_def owned_db_def ownable_db_def admitted_rest admitted_facts)

lemma find_kept: "\<forall>x \<in> set xs. P (f x) = P x \<and> (P x \<longrightarrow> f x = x) \<Longrightarrow> find P (map f xs) = find P xs"
  by (induction xs) auto

lemma activate_reserved:
  assumes "claim_table_ok (db_ownerships db) (db_claims db)" "find_claim db ''a'' k = Some (reserved1 k)"
  shows "\<exists>d. activate_claim launch_request db (k, 0, cl_identity (reserved1 k)) = Inr (put_claim d db)
    \<and> claim_table_ok (db_ownerships db) (db_claims (put_claim d db))
    \<and> (\<forall>k'. k' \<noteq> k \<longrightarrow> find_claim (put_claim d db) ''a'' k' = find_claim db ''a'' k')"
proof -
  let ?c = "reserved1 k"
  let ?d = "?c\<lparr>cl_state := RActive, cl_version := cl_version ?c + 2\<rparr>"
  note c = reserved1_found [OF all_kinds, of k]
  have in_table: "?c \<in> set (db_claims db)" "cl_attempt ?c = ''a''"
    using assms(2) by (auto simp: find_claim_def find_Some_iff)
  have "activate_claim launch_request db (k, cl_version ?c, cl_identity ?c) = Inr (put_claim ?d db)"
    "claim_table_ok (db_ownerships db) (db_claims (put_claim ?d db))"
    using activate_ok [OF assms(1), of launch_request k ?c ?d] assms(2) c by simp_all
  moreover have "find_claim (put_claim ?d db) ''a'' k' = find_claim db ''a'' k'" if "k' \<noteq> k" for k'
    unfolding find_claim_def put_claim_fields
    by (rule find_kept) (use table_ids [OF assms(1) in_table(1)] c in_table(2) that in auto)
  ultimately show ?thesis using c by (intro exI [of _ ?d]) simp
qed

lemma launch_activates:
  "\<exists>d1 d2 d3. activate_claims launch_request phased_db (launch_slots launch_request)
     = Inr (put_claim d3 (put_claim d2 (put_claim d1 phased_db)))"
proof -
  have slots: "launch_slots launch_request = map (\<lambda>k. (k, 0, cl_identity (reserved1 k))) [ProcessGroup, StdoutFile, StderrFile]"
    by (simp add: launch_slots_def reserved1_identities)
  have found: "find_claim phased_db ''a'' k = Some (reserved1 k)" for k
    using reserved1_found [OF all_kinds, of k] by (simp add: find_claim_def)
  obtain d1 where d1: "activate_claim launch_request phased_db (ProcessGroup, 0, cl_identity (reserved1 ProcessGroup)) = Inr (put_claim d1 phased_db)"
    "claim_table_ok (db_ownerships phased_db) (db_claims (put_claim d1 phased_db))"
    "\<forall>k'. k' \<noteq> ProcessGroup \<longrightarrow> find_claim (put_claim d1 phased_db) ''a'' k' = Some (reserved1 k')"
    using activate_reserved [of phased_db ProcessGroup] found claims1_table unfolding found by auto
  let ?db1 = "put_claim d1 phased_db"
  obtain d2 where d2: "activate_claim launch_request ?db1 (StdoutFile, 0, cl_identity (reserved1 StdoutFile)) = Inr (put_claim d2 ?db1)"
    "claim_table_ok (db_ownerships ?db1) (db_claims (put_claim d2 ?db1))"
    "find_claim (put_claim d2 ?db1) ''a'' StderrFile = Some (reserved1 StderrFile)"
    using activate_reserved [of ?db1 StdoutFile] d1(2,3) by fastforce
  obtain d3 where "activate_claim launch_request (put_claim d2 ?db1) (StderrFile, 0, cl_identity (reserved1 StderrFile))
      = Inr (put_claim d3 (put_claim d2 ?db1))"
    using activate_reserved [of "put_claim d2 ?db1" StderrFile] d2(2,3) by fastforce
  with d1(1) d2(1) show ?thesis unfolding slots by auto
qed

lemma valid_payload:
  assumes "js_wf v" "admissible v" "ev_payload e = Some (json_text v)" "ev_digest e = env_sha256 env (json_text v)"
  shows "validate_evidence_row env e = Inr ()"
proof -
  have written: "canonical_json v = Inr (json_text v)" by (rule canonical_json_text [OF assms(2)])
  have "parse_json env (json_text v) = Some (key_normal v)"
    unfolding parse_json_def by (rule json_parse_canonical [OF assms(1) written])
  moreover have "canonical_text (key_normal v) = Inr (json_text v)"
    using written by (simp add: canonical_text_def canonical_json_normal)
  ultimately show ?thesis using assms by (simp add: validate_evidence_row_def ensure_that_def)
qed

lemma launch_inserts:
  assumes db: "db = put_claim d3 (put_claim d2 (put_claim d1 phased_db))"
    and e: "e = process_evidence_row (later_env 500)
          \<lparr>pe_evidenceId = ''launched'', pe_attemptId = ''a'', pe_phaseExecutionId = ''p'', pe_contextId = ''x'',
           pe_scope = scope, pe_schemaVersion = ''rickgent.process-launch.v1'', pe_payloadJson = text,
           pe_idempotencyKey = ''launch'', pe_createdAt = toISOString 500\<rparr>" "scope \<noteq> ''''"
  shows "insert_evidence e db = Inr (db\<lparr>db_evidence := [e]\<rparr>)"
    "insert_launch (launch_row_of launch_request) (db\<lparr>db_evidence := [e]\<rparr>)
      = Inr (db\<lparr>db_evidence := [e], db_launches := [launch_row_of launch_request]\<rparr>)"
proof -
  have "evidence_checks e"
    using later_texts(1) later_digest e(2) by (simp add: evidence_checks_def e(1) process_evidence_row_def ProcessSupervisor_def)
  moreover have "evidence_references db e"
    by (simp add: evidence_references_def e(1) process_evidence_row_def db admitted_facts)
  ultimately show "insert_evidence e db = Inr (db\<lparr>db_evidence := [e]\<rparr>)"
    by (simp add: insert_evidence_def db)
  have "launch_checks (launch_row_of launch_request)"
    using launch_identities lease_plan_paths own1_not_empty zero_is_digest lease1_context_digest later_texts(1)
    by (simp add: launch_checks_def launch_row_of_def process_identity_def)
  moreover have "launch_references (db\<lparr>db_evidence := [e]\<rparr>) (launch_row_of launch_request)"
    by (simp add: launch_references_def launch_row_of_def e(1) process_evidence_row_def db admitted_facts)
  ultimately show "insert_launch (launch_row_of launch_request) (db\<lparr>db_evidence := [e]\<rparr>)
      = Inr (db\<lparr>db_evidence := [e], db_launches := [launch_row_of launch_request]\<rparr>)"
    by (simp add: insert_launch_def db)
qed

lemma launches:
  "\<exists>db'. commitAuthorizedProcessLaunch (later_env 500) launch_request phased_db = (db', Inr (launch_row_of launch_request))
     \<and> db' \<noteq> phased_db"
proof -
  let ?q = launch_request and ?env = "later_env 500" and ?text = "json_text (launch_payload_js (launch_row_of launch_request))"
  obtain d1 d2 d3 where claims: "activate_claims ?q phased_db (launch_slots ?q)
     = Inr (put_claim d3 (put_claim d2 (put_claim d1 phased_db)))" using launch_activates by blast
  define db where "db = put_claim d3 (put_claim d2 (put_claim d1 phased_db))"
  define e where "e = process_evidence_row ?env
          \<lparr>pe_evidenceId = ''launched'', pe_attemptId = ''a'', pe_phaseExecutionId = ''p'', pe_contextId = ''x'',
           pe_scope = ''attempt:'' @ ''a'' @ '':process-launch:'' @ ''launch'', pe_schemaVersion = ''rickgent.process-launch.v1'',
           pe_payloadJson = ?text, pe_idempotencyKey = ''launch'', pe_createdAt = toISOString 500\<rparr>"
  note inserts = launch_inserts [OF db_def e_def]
  have "launch_owner_ok ?env ?q phased_db"
    by (simp add: launch_owner_ok_def find_lease_def unexpired_def later_date max_iso_def)
  moreover have "phase_lineage phased_db ''p'' = Some (''a'', ''x'', zero_digest, ''repo'')"
    using admitted_rest(6) by (auto simp: phase_lineage_def admitted_facts lease_attempt_def)
  moreover have "validate_evidence_row ?env e = Inr ()"
    by (rule valid_payload [OF launch_payload_wf launch_admissible]) (simp_all add: e_def process_evidence_row_def)
  ultimately have "new_launch ?env ?q e phased_db
     = Inr (db\<lparr>db_evidence := [e], db_launches := [launch_row_of ?q]\<rparr>, launch_row_of ?q)"
    using claims inserts by (simp add: new_launch_def db_def [symmetric])
  then have "commitProcessLaunch ?env ?q phased_db
     = Inr (db\<lparr>db_evidence := [e], db_launches := [launch_row_of ?q]\<rparr>, launch_row_of ?q)"
    by (simp add: commitProcessLaunch_def launch_checked launch_payload canonical_text_ok [OF launch_admissible] e_def)
  then have "commitAuthorizedProcessLaunch ?env ?q phased_db
     = (db\<lparr>db_evidence := [e], db_launches := [launch_row_of ?q]\<rparr>, Inr (launch_row_of ?q))"
    by (simp add: commitAuthorizedProcessLaunch_def immediate_def)
  moreover have "db' \<noteq> phased_db" if "db_launches db' = [launch_row_of ?q]" for db'
    using that by auto
  ultimately show ?thesis by fastforce
qed

lemma work_needs_the_live_first_owner_witness:
  "(\<exists>r. leases_of ''a'' (db_ownerships owned_db) = [r] \<and> ow_id r = own1 \<and> ow_state r = LLive
      \<and> \<not> expired (later_env 500) (ow_expires r))
   \<and> (\<exists>r. leases_of ''a'' (db_ownerships phased_db) = [r] \<and> ow_id r = own1 \<and> ow_state r = LLive
      \<and> unexpired (later_env 500) (ow_expires r))"
proof
  obtain db' res where "commitAuthorizedAttemptOwnership (later_env 500) heartbeat_command owned_db = (db', Inr res)"
    "db' \<noteq> owned_db" using heartbeats by blast
  moreover have "oc_kind heartbeat_command \<in> {OpHeartbeat, OpAdvanceResource}" by simp
  ultimately have "\<exists>r. leases_of (oc_attemptId heartbeat_command) (db_ownerships owned_db) = [r]
      \<and> oc_ownershipId heartbeat_command = Some (ow_id r) \<and> ow_state r = LLive \<and> \<not> expired (later_env 500) (ow_expires r)"
    using work_needs_the_live_first_owner [OF owned_reachable] by blast
  then show "\<exists>r. leases_of ''a'' (db_ownerships owned_db) = [r] \<and> ow_id r = own1 \<and> ow_state r = LLive
      \<and> \<not> expired (later_env 500) (ow_expires r)" by auto
next
  obtain db' where "commitAuthorizedProcessLaunch (later_env 500) launch_request phased_db = (db', Inr (launch_row_of launch_request))"
    "db' \<noteq> phased_db" using launches by blast
  then have "\<exists>r. leases_of (pl_attemptId launch_request) (db_ownerships phased_db) = [r]
      \<and> ow_id r = pl_ownershipId launch_request \<and> ow_state r = LLive \<and> unexpired (later_env 500) (ow_expires r)"
    using work_needs_the_live_first_owner [OF phased_reachable] by blast
  then show "\<exists>r. leases_of ''a'' (db_ownerships phased_db) = [r] \<and> ow_id r = own1 \<and> ow_state r = LLive
      \<and> unexpired (later_env 500) (ow_expires r)" by auto
qed

section \<open>A proven death\<close>

definition the_launch :: launch_row where
  "the_launch = launch_row_of launch_request"

definition death_js :: jsval where
  "death_js = group_death_js the_launch (JStr ''authoritative_containment'') (JBool True) True (toISOString 600)"

definition death_observation :: observation_row where
  "death_observation =
     \<lparr>ob_id = ''o'', ob_launch = ''launch'', ob_attempt = ''a'', ob_sequence = 1, ob_kind = ''group_death'', ob_evidence = ''dead'',
      ob_schema = group_death_schema, ob_payload_digest = flat_sha CHR ''0'' [], ob_created = toISOString 600\<rparr>"

definition death_evidence :: evidence_row where
  "death_evidence =
     \<lparr>ev_id = ''dead'', ev_attempt = Some ''a'', ev_phase = Some ''p'', ev_context = ''x'', ev_producer = ProcessSupervisor,
      ev_scope = ''attempt:a:process:launch:group_death'', ev_schema = group_death_schema, ev_digest = flat_sha CHR ''0'' [],
      ev_payload = Some (json_text death_js), ev_external = None, ev_key = ''o'', ev_created = toISOString 600\<rparr>"

definition death_receipt :: terminal_row where
  "death_receipt =
     \<lparr>tm_receipt = ''receipt'', tm_launch = ''launch'', tm_attempt = ''a'', tm_outcome = ''killed'', tm_exit_code = None,
      tm_signal = None, tm_timed_out = True, tm_group_dead = True, tm_descendants_dead = True, tm_observation_count = 1,
      tm_result_digest = flat_sha CHR ''0'' [], tm_created = toISOString 700\<rparr>"

definition dead_db :: state_db where
  "dead_db = phased_db
     \<lparr>db_launches := [the_launch], db_observations := [death_observation], db_terminals := [death_receipt],
      db_evidence := [death_evidence]\<rparr>"

lemma dead_fields [simp]:
  "db_ownerships dead_db = [lease1]" "db_claims dead_db = claims1" "db_operations dead_db = [operation1]"
  "db_attempts dead_db = db_attempts admitted_db" "db_tickets dead_db = db_tickets admitted_db"
  "db_runs dead_db = db_runs admitted_db" "db_evidence dead_db = [death_evidence]" "db_launches dead_db = [the_launch]"
  "db_observations dead_db = [death_observation]" "db_terminals dead_db = [death_receipt]"
  by (simp_all add: dead_db_def)

lemma dead_reachable: "reachable_store dead_db"
proof -
  have "store_step phased_db dead_db"
    by (rule kept_store_step [OF step_other]) (simp_all add: other_tables_def keeps_ownership_def dead_db_def)
  with phased_reachable show ?thesis unfolding reachable_store_def by (rule rtranclp.rtrancl_into_rtrancl)
qed

lemma flat_sha_constant: "flat_sha c [] = flat_sha c t"
  by (simp add: flat_sha_def)

lemma the_launch_fields [simp]:
  "ln_id the_launch = ''launch''" "ln_receipt the_launch = ''receipt''" "ln_repository the_launch = ''repo''"
  "ln_attempt the_launch = ''a''" "ln_ownership the_launch = own1" "ln_generation the_launch = 1"
  "ln_ownership_digest the_launch = ow_context_digest lease1" "ln_phase the_launch = ''p''" "ln_context the_launch = ''x''"
  "ln_context_digest the_launch = zero_digest" "ln_pid the_launch = 7" "ln_pgid the_launch = 7"
  "ln_platform the_launch = ''linux''" "ln_boot the_launch = ''boot''" "ln_start the_launch = ''start''"
  by (simp_all add: the_launch_def launch_row_of_def)

lemma death_json: "admissible death_js" "js_wf death_js" "is_plain_object (key_normal death_js)"
  by (simp_all add: death_js_def group_death_js_def lineage_members_def is_safe_int_def max_safe_def key_normal_JObj is_plain_object_def)

lemma death_read:
  "parseJsonObject (later_env clock) (json_text death_js) = Inr (key_normal death_js)"
  "canonical_text (key_normal death_js) = Inr (json_text death_js)"
proof -
  have written: "canonical_json death_js = Inr (json_text death_js)" by (rule canonical_json_text [OF death_json(1)])
  have "parse_json (later_env clock) (json_text death_js) = Some (key_normal death_js)"
    unfolding parse_json_def by (rule json_parse_canonical [OF death_json(2) written])
  then show "parseJsonObject (later_env clock) (json_text death_js) = Inr (key_normal death_js)"
    using death_json(3) by (simp add: parseJsonObject_def)
  show "canonical_text (key_normal death_js) = Inr (json_text death_js)"
    using written by (simp add: canonical_text_def canonical_json_normal)
qed

lemma death_proved: "require_death_chain (later_env 1500) ''a'' lease1 ''dead'' dead_db = Inr ()"
proof -
  have chain: "find_death_chain dead_db ''dead'' = Some \<lparr>dc_launch = the_launch, dc_observation = death_observation,
      dc_evidence = death_evidence, dc_terminal = death_receipt\<rparr>"
    by (simp add: find_death_chain_def death_observation_def death_evidence_def death_receipt_def)
  have observations: "launch_observations dead_db ''launch'' = [death_observation]"
    by (simp add: launch_observations_def death_observation_def)
  have terminal: "admissible (terminal_js death_receipt [death_observation])"
    by (simp add: terminal_js_def death_receipt_def observation_js_def death_observation_def optional_number_def
        is_safe_int_def max_safe_def)
  have "group_death_js the_launch (JStr ''authoritative_containment'') (JBool True) True (ob_created death_observation) = death_js"
    by (simp add: death_js_def death_observation_def)
  then show ?thesis
    using death_json(1)
    by (simp add: require_death_chain_def chain observations death_evidence_def death_read canonical_text_ok ensure_that_def
        terminal [unfolded death_receipt_def death_observation_def]
        chain_proves_death_def Let_def death_observation_def death_receipt_def later_date max_iso_def later_than_def
        flat_sha_constant [THEN eqTrueI])
qed

section \<open>The second owner\<close>

definition recover_command :: AttemptOwnershipCommandPayload where
  "recover_command =
     (command OpStaleRecovery ''recover'' (window_sha ''second''))
       \<lparr>oc_expiredOwnershipId := Some own1, oc_deathEvidenceId := Some ''dead''\<rparr>"

lemma recover_fields [simp]:
  "oc_kind recover_command = OpStaleRecovery" "oc_attemptId recover_command = ''a''"
  "oc_repositoryId recover_command = ''repo''" "oc_idempotencyKey recover_command = ''recover''"
  "oc_ownerTokenDigest recover_command = window_sha ''second''" "oc_ttlMs recover_command = 1000"
  "oc_expiredOwnershipId recover_command = Some own1" "oc_deathEvidenceId recover_command = Some ''dead''"
  by (simp_all add: recover_command_def)

lemma recover_canonical:
  "canonicalOwnershipCommand (later_env 1500) recover_command = Inr (json_text (command_js recover_command))"
proof (rule command_canonical)
  show "admissible (command_js recover_command)"
    by (simp add: recover_command_def command_js_def command_def entry_def is_safe_int_def max_safe_def)
  have "''recover'' = trim ''recover''" by code_simp
  then show "oc_idempotencyKey recover_command = trim (oc_idempotencyKey recover_command)" by simp
qed (simp_all add: later_digest)

definition own2 :: string where
  "own2 = ''ownership-'' @ drop 7 (flat_sha CHR ''0'' [])"

lemma owners_differ: "own2 \<noteq> own1" "own1 \<noteq> own2" "own2 \<noteq> ''''"
proof -
  have "drop 7 (flat_sha CHR ''0'' []) \<noteq> drop 7 (window_sha u)" for u by (rule sha_differ) simp
  then show "own2 \<noteq> own1" by (simp add: own2_def own1_def)
  then show "own1 \<noteq> own2" by (rule not_sym)
qed (simp add: own2_def)

definition fenced_lease :: ownership_row where
  "fenced_lease = lease1\<lparr>ow_state := LQuarantined, ow_version := 1\<rparr>"

definition lease2 :: ownership_row where
  "lease2 = recovered_lease (later_env 1500) recover_command lease1 own2
     (json_text (ownership_context_js later_plan 2 (window_sha ''second'') (Some own1)), flat_sha CHR ''0'' [])"

lemma fenced_fields [simp]:
  "ow_id fenced_lease = own1" "ow_attempt fenced_lease = ''a''" "ow_generation fenced_lease = 1"
  "ow_recovered_from fenced_lease = None" "ow_state fenced_lease = LQuarantined"
  "ow_context_digest fenced_lease = ow_context_digest lease1"
  by (simp_all add: fenced_lease_def)

lemma lease2_fields [simp]:
  "ow_id lease2 = own2" "ow_attempt lease2 = ''a''" "ow_generation lease2 = 2" "ow_recovered_from lease2 = Some own1"
  "ow_state lease2 = LCleanupPending" "ow_version lease2 = 0" "ow_token_digest lease2 = window_sha ''second''"
  "ow_context_digest lease2 = flat_sha CHR ''0'' []" "ow_heartbeat lease2 = toISOString 1500"
  "ow_expires lease2 = toISOString 2500" "ow_created lease2 = toISOString 1500"
  by (simp_all add: lease2_def recovered_lease_def)

lemma recovered_texts: "utc_text (toISOString 2500)" "toISOString 1500 < toISOString 2500"
  by code_simp+

lemma digests_differ: "ow_context_digest lease1 \<noteq> flat_sha CHR ''0'' []"
proof -
  obtain t where "ow_context_digest lease1 = window_sha t" by (simp add: lease1_def Let_def)
  then show ?thesis by (simp add: window_sha_def flat_sha_def)
qed

lemma recovered_leases: "lease_table_ok [fenced_lease]" "lease_table_ok [fenced_lease, lease2]"
proof -
  have fenced: "lease_checks fenced_lease" using lease1_checks by (simp add: lease_checks_def fenced_lease_def)
  then show "lease_table_ok [fenced_lease]" by (simp add: lease_table_ok_def)
  have "lease_checks lease2"
    using later_digest later_texts(2) recovered_texts owners_differ by (simp add: lease_checks_def)
  with fenced show "lease_table_ok [fenced_lease, lease2]"
    using owners_differ digests_differ by (simp add: lease_table_ok_def lease_is_current_def)
qed

definition inherited :: "claim_row \<Rightarrow> claim_row" where
  "inherited c = c\<lparr>cl_state := RCleanupPending, cl_ownership := own2, cl_generation := 2, cl_version := cl_version c + 1\<rparr>"

definition fenced_db :: state_db where
  "fenced_db = dead_db\<lparr>db_ownerships := [fenced_lease, lease2], db_claims := map inherited claims1\<rparr>"

lemma claims1_row:
  assumes "c \<in> set claims1"
  shows "claim_checks c" "cl_attempt c = ''a''" "cl_allocation c = own1" "cl_ownership c = own1" "cl_state c = RReserved"
    "cl_generation c = 1" "cl_version c = 0" "cl_release_proof c = None" "cl_quarantine_proof c = None"
  using assms claims1_table by (auto simp: claims1_def reserved_claim_def claim_table_ok_def list_all_iff)

lemma inherited_rewrites: "c \<in> set claims1 \<Longrightarrow> rewrites_claim [fenced_lease, lease2] c (inherited c)"
  using claims1_row [of c] owners_differ
  by (simp add: rewrites_claim_def inherited_def claim_checks_def claim_references_def claim_is_held_def optional_digest_def)

lemma claims1_fenced_table: "claim_table_ok [fenced_lease, lease2] claims1"
proof -
  have "\<forall>c \<in> set claims1. rewrites_claim [fenced_lease, lease2] c (id c)"
    using claims1_row by (auto simp: rewrites_claim_def claim_references_def)
  then show ?thesis using rewritten_table [OF claims1_table, of "[fenced_lease, lease2]" "\<lambda>c. c"] by simp
qed

lemma inherited_table: "claim_table_ok [fenced_lease, lease2] (map inherited claims1)"
  by (rule rewritten_table [OF claims1_table]) (simp add: inherited_rewrites)

lemma touch_none:
  assumes "\<forall>c \<in> set (db_claims db). \<not> P c" "claim_table_ok (db_ownerships db) (db_claims db)"
  shows "touch_claims f P db = Inr (db, 0)"
proof -
  have "map (\<lambda>c. if P c then (f c)\<lparr>cl_version := cl_version c + 1\<rparr> else c) (db_claims db) = db_claims db"
    using assms(1) by (intro map_idI) auto
  moreover have "filter P (db_claims db) = []" using assms(1) by (auto simp: filter_empty_conv)
  ultimately show ?thesis using assms(2) by (simp add: touch_claims_def store_claims_def)
qed

lemma fences: "fence_owner ''a'' lease1 lease2 dead_db = Inr fenced_db"
proof -
  let ?db1 = "dead_db\<lparr>db_ownerships := [fenced_lease]\<rparr>"
  let ?db2 = "dead_db\<lparr>db_ownerships := [fenced_lease, lease2]\<rparr>"
  let ?f = "\<lambda>x. x\<lparr>cl_ownership := own2, cl_generation := 2\<rparr>"
  have leases: "move_leases LQuarantined (\<lambda>x. ow_id x = own1 \<and> ow_state x = LLive \<and> ow_version x = 0) dead_db = Inr (?db1, 1)"
    using recovered_leases(1)
    by (simp add: move_leases_def touch_leases_def store_leases_def ownership_legal_edge_def fenced_lease_def)
  have new: "insert_lease lease2 ?db1 = Inr ?db2"
    using recovered_leases(2) by (simp add: insert_lease_def store_leases_def admitted_facts)
  have all: "working_claim ''a'' own1 c" if "c \<in> set claims1" for c
    using claims1_row [OF that] by (simp add: working_claim_def)
  have same: "inherited c = (?f (c\<lparr>cl_state := RCleanupPending\<rparr>))\<lparr>cl_version := cl_version c + 1\<rparr>" for c
    by (simp add: inherited_def)
  have "map (\<lambda>c. if working_claim ''a'' own1 c then (?f (c\<lparr>cl_state := RCleanupPending\<rparr>))\<lparr>cl_version := cl_version c + 1\<rparr> else c) claims1
    = map inherited claims1"
    using all same by (intro map_cong) auto
  moreover have "move_claims RCleanupPending ?f (working_claim ''a'' own1) ?db2
    = Inr (?db2\<lparr>db_claims := map (\<lambda>c. if working_claim ''a'' own1 c then (?f (c\<lparr>cl_state := RCleanupPending\<rparr>))\<lparr>cl_version := cl_version c + 1\<rparr> else c)
             (db_claims ?db2)\<rparr>, length (filter (working_claim ''a'' own1) (db_claims ?db2)))"
    by (rule move_claims_ok)
      (use claims1_fenced_table inherited_rewrites claims1_row(5) in \<open>simp_all add: same [symmetric] claim_legal_edge_def\<close>)
  ultimately obtain n where moved: "move_claims RCleanupPending ?f (working_claim ''a'' own1) ?db2 = Inr (fenced_db, n)"
    by (auto simp: fenced_db_def)
  have "\<not> (cl_attempt c = ''a'' \<and> cl_ownership c = own1 \<and> cl_state c = RCleanupPending)" if "c \<in> set (db_claims fenced_db)" for c
    using that owners_differ by (auto simp: fenced_db_def inherited_def)
  then have "touch_claims ?f (\<lambda>c. cl_attempt c = ''a'' \<and> cl_ownership c = own1 \<and> cl_state c = RCleanupPending) fenced_db
     = Inr (fenced_db, 0)"
    using inherited_table by (intro touch_none) (auto simp: fenced_db_def)
  then show ?thesis using leases new moved by (auto simp: fence_owner_def)
qed

definition recovered_db :: state_db where
  "recovered_db = fst (commitAuthorizedAttemptOwnership (later_env 1500) recover_command dead_db)"

lemma recovers: "\<exists>res. commitAuthorizedAttemptOwnership (later_env 1500) recover_command dead_db = (recovered_db, Inr res)"
  "db_ownerships recovered_db = [fenced_lease, lease2]" "recovered_db \<noteq> dead_db"
proof -
  let ?p = recover_command and ?env = "later_env 1500"
  let ?input = "json_text (command_js recover_command)"
  have found: "find_lease fenced_db own2 (oc_attemptId ?p) = Some lease2"
    using owners_differ by (simp add: find_lease_def fenced_db_def)
  have "safe_claim c" if "c \<in> set (current_claims fenced_db ''a'')" for c
    using that claims1_row by (auto simp: current_claims_of claims_of_def fenced_db_def inherited_def safe_claim_def is_safe_int_def max_safe_def)
  then have claims: "\<forall>c \<in> set (current_claims fenced_db (oc_attemptId ?p)). safe_claim c" by simp
  have safe: "safe_lease lease2" by (simp add: safe_lease_def is_safe_int_def max_safe_def)
  have operations: "db_operations fenced_db = [operation1]" by (simp add: fenced_db_def)
  obtain o' where o': "o' = sealed_operation ?env ?p RecoveryCleanup ?input (flat_sha CHR ''0'' ?input) lease2
      (current_claims fenced_db (oc_attemptId ?p))" by simp
  have "\<exists>res. recordOwnershipOperation ?env ?p own2 RecoveryCleanup later_plan ?input (flat_sha CHR ''0'' ?input) fenced_db
    = Inr (fenced_db\<lparr>db_operations := db_operations fenced_db @ [o']\<rparr>, res)"
    by (rule record_succeeds [OF found safe claims _ _ _ _ _ _ _ o'])
      (use later_texts owners_differ later_operation_fresh [symmetric] in
        \<open>simp_all add: operations later_digest recorded_kind_def operation1_fields o'\<close>)
  then obtain res where res: "recordOwnershipOperation ?env ?p own2 RecoveryCleanup later_plan ?input (flat_sha CHR ''0'' ?input) fenced_db
    = Inr (fenced_db\<lparr>db_operations := db_operations fenced_db @ [o']\<rparr>, res)" by blast
  have plan: "attemptOwnershipPlan ?env dead_db ''a'' = Inr later_plan" by (rule later_planned) simp_all
  have identity: "ownershipIdentity ?env ''a'' 2 (window_sha ''second'') = Inr own2"
    by (simp add: ownershipIdentity_def canonical_text_ok own2_def is_safe_int_def max_safe_def flat_sha_def)
  have ctx: "ownershipContext ?env later_plan 2 (window_sha ''second'') (Some own1)
    = Inr (json_text (ownership_context_js later_plan 2 (window_sha ''second'') (Some own1)), flat_sha CHR ''0'' [])"
    using planned_context [OF plan] by (simp add: is_safe_int_def max_safe_def flat_sha_def)
  have lease: "find_lease dead_db own1 ''a'' = Some lease1" by (simp add: find_lease_def)
  have late: "\<not> later_than (date_ms ?env (toISOString 1000)) (Some 1500)" by (simp add: later_date max_iso_def later_than_def)
  have "recoverStaleAttemptOwnership ?env ?p ?input (flat_sha CHR ''0'' ?input) dead_db
    = Inr (fenced_db\<lparr>db_operations := db_operations fenced_db @ [o']\<rparr>, res)"
    using res plan lease late death_proved identity ctx fences
    by (simp add: recoverStaleAttemptOwnership_def Let_def lease_is_current_def lease2_def [symmetric])
  then have "commitAttemptOwnership ?env ?p dead_db = Inr (fenced_db\<lparr>db_operations := db_operations fenced_db @ [o']\<rparr>, res)"
    using recover_canonical operation1_fields
    by (simp add: commitAttemptOwnership_def find_operation_def ownership_operation_def recorded_kind_def)
  then have done': "commitAuthorizedAttemptOwnership ?env ?p dead_db
    = (fenced_db\<lparr>db_operations := db_operations fenced_db @ [o']\<rparr>, Inr res)"
    by (simp add: commitAuthorizedAttemptOwnership_def immediate_def)
  then have here: "recovered_db = fenced_db\<lparr>db_operations := db_operations fenced_db @ [o']\<rparr>" by (simp add: recovered_db_def)
  with done' show "\<exists>res. commitAuthorizedAttemptOwnership ?env ?p dead_db = (recovered_db, Inr res)"
    by (intro exI [of _ res]) (simp only:)
  show leases: "db_ownerships recovered_db = [fenced_lease, lease2]" by (simp add: here fenced_db_def)
  show "recovered_db \<noteq> dead_db" using leases by (metis dead_fields(1) list.distinct(1) list.inject)
qed

lemma recover_step: "store_step dead_db recovered_db"
  using recovers(1) unfolding store_step_def by (blast intro: step_ownership)

lemma recovered_reachable: "reachable_store recovered_db"
  using dead_reachable recover_step unfolding reachable_store_def by (rule rtranclp.rtrancl_into_rtrancl)

section \<open>The properties of two generations\<close>

lemma ownership_follows_the_ledger_protocol_witness:
  "(let rs = leases_of ''a'' (db_ownerships recovered_db) in
      map ow_generation rs = [1, 2] \<and> (\<forall>r \<in> set (butlast rs). ow_state r = LQuarantined))
   \<and> ledger_at ''a'' recovered_db \<noteq> ledger_at ''a'' dead_db \<and> ledger_step (ledger_at ''a'' dead_db) (ledger_at ''a'' recovered_db)"
proof -
  have two: "length (leases_of ''a'' (db_ownerships recovered_db)) = 2" by (simp add: recovers(2) leases_of_def)
  have upto: "map int [Suc 0..<2] = [1]" by (simp add: upt_rec)
  have moved: "ledger_at ''a'' recovered_db \<noteq> ledger_at ''a'' dead_db"
    by (simp add: ledger_at_def recovers(2) leases_of_def)
  have "\<exists>i. (\<forall>j. j \<noteq> i \<longrightarrow> ledger_at j recovered_db = ledger_at j dead_db)
      \<and> (ledger_at i recovered_db = ledger_at i dead_db \<or> ledger_step (ledger_at i dead_db) (ledger_at i recovered_db))"
    using ownership_follows_the_ledger_protocol [OF dead_reachable] recover_step by blast
  then have "ledger_step (ledger_at ''a'' dead_db) (ledger_at ''a'' recovered_db)" using moved by metis
  then show ?thesis
    using ownership_follows_the_ledger_protocol [OF recovered_reachable] two upto moved by (simp add: Let_def)
qed

lemma recovery_fences_the_stale_owner_witness:
  "\<exists>old fenced new. leases_of ''a'' (db_ownerships recovered_db) = [fenced, new] \<and> leases_of ''a'' (db_ownerships dead_db) = [old]
     \<and> ow_state fenced = LQuarantined \<and> ow_recovered_from new = Some (ow_id old) \<and> ow_state new = LCleanupPending"
proof -
  obtain res where res: "commitAuthorizedAttemptOwnership (later_env 1500) recover_command dead_db = (recovered_db, Inr res)"
    using recovers(1) by blast
  have "leases_of ''a'' (db_ownerships dead_db) = [lease1]" by (simp add: leases_of_def)
  with recovery_fences_the_stale_owner [OF dead_reachable res recovers(3)] show ?thesis by auto
qed

lemma ended_owner_never_writes_witness:
  "let later = fst (commitAuthorizedAttemptOwnership (later_env 1600) acquire_command recovered_db) in
   fst (commitAuthorizedAttemptOwnership (later_env 500) heartbeat_command later) = later
   \<and> fst (commitAuthorizedProcessLaunch (later_env 500) launch_request later) = later"
proof -
  let ?later = "fst (commitAuthorizedAttemptOwnership (later_env 1600) acquire_command recovered_db)"
  obtain r where "commitAuthorizedAttemptOwnership (later_env 1600) acquire_command recovered_db = (?later, r)"
    by (metis surjective_pairing)
  then have "store_step recovered_db ?later" unfolding store_step_def by (blast intro: step_ownership)
  then have steps: "store_step\<^sup>*\<^sup>* recovered_db ?later" by blast
  have "fenced_lease \<in> set (db_ownerships recovered_db)" "lease_ended fenced_lease"
    by (simp_all add: recovers(2) lease_ended_def)
  note silent = ended_owner_never_writes [OF recovered_reachable this steps]
  have "speaks_as heartbeat_command fenced_lease" "pl_ownershipId launch_request = ow_id fenced_lease"
    by (simp_all add: speaks_as_def)
  with silent show ?thesis by (simp add: Let_def)
qed

end
