(* ===== verification/Spec2Isabelle.thy ===== *)
theory Spec2Isabelle
  imports Canonical_Json Schema Phase Breaker Completion Run_Outcome Dispatch Paths Scope Convergence
    Filesystem_Identity Ticket_Contract Ticket_Graph Ticket_Admission Oracle_Accepts
    Contract_Evidence State_Samples Lease_Release Lease_Witnesses
begin

text \<open>
  Rickgent (\<open>orchestrator/src\<close>) drives coding agents through ticketed work: a set of ticket
  contracts is admitted, every ticket gets attempts in its own worktree, an attempt runs through
  the phases of a persisted state machine, and a pure oracle decides from sealed evidence whether
  the attempt is verified. This development models the decision logic of that program.

  The parts and the theories that model them.

  \<^item> \<open>Js\<close> models the JavaScript values the untrusted inputs of the program are made of, with the
    operators the sources apply to them.
  \<^item> \<open>Canonical_Json\<close> is canonical JSON v1 and the error type of
    \<open>contracts/ticket-contract.ts\<close>: the text under every digest.
  \<^item> \<open>Schema\<close> is the state contract of \<open>state/schema.ts\<close> and the legal-edge triggers of
    \<open>state/migrations.ts\<close>; \<open>Phase\<close> is the attempt phase table of \<open>lifecycle/phase.ts\<close>.
  \<^item> \<open>Breaker\<close>, \<open>Completion\<close> and \<open>Convergence\<close> are the pure predicates of \<open>core/\<close>;
    \<open>Run_Outcome\<close> is \<open>lifecycle/run-outcome.ts\<close>.
  \<^item> \<open>Dispatch\<close> is the dispatch queue of \<open>dispatch/queue.ts\<close>, with the ledger and the identities of
    \<open>dispatch/dispatch.ts\<close> and \<open>context/execution-context.ts\<close>.
  \<^item> \<open>Paths\<close> is the part of Node's POSIX path module the sources call, with path containment as a
    locale; \<open>Scope\<close> is the scope fence of \<open>core/scope.ts\<close>; \<open>Filesystem_Identity\<close> is
    \<open>contracts/filesystem-identity.ts\<close>.
  \<^item> \<open>Ticket_Contract\<close>, \<open>Ticket_Graph\<close> and \<open>Ticket_Admission\<close> are \<open>contracts/ticket-contract.ts\<close>:
    the parser of one contract, the dependency graph, and the admission of a set.
  \<^item> \<open>Oracle\<close> is the attempt oracle of \<open>state/oracle.ts\<close>: the sections of evidence it checks, each a
    function from the projection to reasons; \<open>Oracle_Decision\<close> is its decision, the plan and the rows
    the store persists, with the lemmas about accepted runs; \<open>Oracle_Accepts\<close> holds what an
    acceptance means, and \<open>Contract_Evidence\<close> that the oracle reads from a sealed contract what the
    contract module parsed.
  \<^item> \<open>Attempt_Workspace\<close> is the derivation of refs, paths and resource identities of an attempt in
    \<open>git/attempt-workspace.ts\<close>.
  \<^item> \<open>Transition_Authority\<close> is \<open>state/transitions.ts\<close>: requests, guards and the methods that mint
    transition commits, the only commits the store takes.
  \<^item> \<open>State_Tables\<close>, \<open>State_Guards\<close>, \<open>State_Commit\<close> and \<open>State_Lifecycle\<close> are the part of
    \<open>state/store.ts\<close> (and of the tables and triggers in \<open>state/migrations.ts\<close>) that changes the
    lifecycle of runs, tickets and attempts: the rows and statements, the guard of every edge, the
    commit with its idempotent replay, and the operations of the attempt runner that bypass the guards.
  \<^item> \<open>Lease_Tables\<close>, \<open>Lease_Store\<close>, \<open>Process_Store\<close>, \<open>Lease_Recovery\<close> and \<open>Lease_Cleanup\<close> are the
    ownership of an attempt in \<open>state/store.ts\<close>: the leases and resource claims with their constraints
    and triggers, the commands minted by \<open>state/leases.ts\<close> with their sealed results and replays, the
    launches and terminal receipts of processes, the fencing of a stale owner and its cleanup.
    \<open>Js_Date\<close> and \<open>Json_Parse\<close> are the parts of \<open>Date\<close> and \<open>JSON.parse\<close> they use.
  \<^item> \<open>Lease_Ledger\<close> is the abstract specification of ownership: the ledger of an attempt (its generations
    and claims), the protocol it follows and its invariant. \<open>Lease_Refinement\<close> shows that every
    ownership operation is a step of that protocol, \<open>Lease_System\<close> composes the ownership, process and
    lifecycle calls into one step relation of the store, \<open>Lease_Properties\<close> and \<open>Lease_Replay\<close> hold what
    follows, and \<open>Lease_Release\<close> that a finalization leaves what the terminal guards ask for.
    \<open>Lease_Samples\<close> and \<open>Lease_Witnesses\<close> apply the properties to the calls of one attempt.

  How they interact. A contract admitted by \<open>Ticket_Admission\<close> is sealed as canonical text
  (\<open>Canonical_Json\<close>); the store allocates rows for it, the runner walks its attempt through the phases
  of \<open>Phase\<close> by commits minted in \<open>Transition_Authority\<close> and committed in \<open>State_Commit\<close>, in the
  workspace of \<open>Attempt_Workspace\<close>; \<open>Oracle\<close> judges the evidence the store projects, and its decision
  and the promotion it permits are what the guard of the last edge asks for.

  What the lemmas show. The catalogs, the phase table and the SQL triggers are one relation. Admitted sets
  have acyclic dependencies and disjoint ownership; allowed writes lie in the declared scope; an
  accepted attempt has intact references, exactly its declared gates, a gapless review history and a
  candidate within its scope. For the store, \<open>State_Invariants\<close> states the invariant of the
  history (rows numbered without gaps, legal, chained from \<open>planned\<close> to the current state, counted
  by the version), \<open>State_Steps\<close> the abstract history machine, the reduction of every operation to its
  effects and the reachable databases, and \<open>State_Properties\<close> what follows: complete histories, the
  effect of one commit, replay for ever, no lost update, the records guarded edges rest on, and the
  replays of the runner's operations. \<open>State_Samples\<close> applies them to a walked attempt. For ownership,
  under any interleaving of calls: generations are numbered and chained, only the last owns held claims,
  work is done by the live first owner only, a stale owner is fenced on the proof of its death, an ended
  owner never writes again, and a recorded command replays for ever.

  Parameters. The file system, the outputs of Git commands, SHA-256, the clock, random identifiers and
  SQLite's \<open>json_extract\<close> are arguments of the definitions that use them (\<open>store_env\<close> for the
  store). Lemmas that need it assume that SHA-256 has no collision on the texts concerned, or only that
  an evaluation uses the same function twice.

  Recursion. Loops of the sources are recursions: structural where they walk a list, with a measure where
  they walk a graph, and with a fuel that the accompanying lemmas show to be enough where a path is
  followed (the number of its segments) or a dependency graph (the number of tickets).

  Not modelled. Numbers are the safe integers the sources admit; the store's locking, opening,
  migration runner and record plumbing are left out, and so are the rest of \<open>state/store.ts\<close>
  (execution contexts, reviews, commit intents, the selection of a retry, promotion and delivery
  intents beyond the transitions they commit). The asynchronous services of
  \<open>lifecycle/\<close>, \<open>process/\<close>, \<open>git/\<close>, \<open>delivery/\<close> and \<open>dispatch/\<close> compose Git commands,
  processes and the store; prompts, reports, release tooling and command lines are input and output.

  Findings. Where the code falls short of its purpose, a lemma shows it beside the model: the
  normalisation of timestamps in \<open>Breaker\<close>, the joined keys of findings in \<open>Convergence\<close>, the poisoned
  queue in \<open>Dispatch\<close>, links in \<open>Scope\<close>, a budget without reviews in \<open>Contract_Evidence\<close> and the
  unreachable replay in \<open>State_Properties\<close>.

  Left for later are the retry selection and the promotion finalization of \<open>state/store.ts\<close>, and the
  parsing and routing functions of \<open>core/\<close> and \<open>lifecycle/\<close>.
\<close>

end
